(* ===== verification/Prelude.thy ===== *)
theory Prelude
  imports Main "HOL-Library.Word" "HOL-Library.AList" "HOL-Library.Multiset"
begin

text \<open>
  Shared vocabulary of the development: the machine integers, times and maps of the Go sources,
  the string helpers of the Go standard library the sources call, and the generic lemmas on
  association lists that the component theories use.

  A Go map is an association list with distinct keys; its list order stands for one iteration
  order of the map, which Go leaves unspecified, so every result that could depend on it is
  proved independent of the order where it matters.  Writing a key is \<open>AList.update\<close>, deleting
  one is \<open>AList.delete\<close>, reading one is \<open>map_of\<close>.
\<close>

named_theorems go_map \<open>lookups and well-formedness of maps after updates\<close>
named_theorems wf_intros \<open>preservation of well-formed maps\<close>

section \<open>Integers, times\<close>

type_synonym u64 = "64 word"

text \<open>Instants and durations are nanoseconds; instants count from the Unix epoch.\<close>

type_synonym go_time = int
type_synonym go_duration = int

definition nanosecond :: int where "nanosecond = 1"
definition second :: int where "second = 1000000000"
definition minute :: int where "minute = 60 * second"
definition hour :: int where "hour = 60 * minute"

lemmas duration_units = nanosecond_def second_def minute_def hour_def

text \<open>The zero value of \<open>time.Time\<close> is the first instant of year 1.\<close>

definition zero_time :: go_time where
  "zero_time = -62135596800 * 1000000000"

text \<open>A Go \<open>int\<close> or \<open>int64\<close> wraps around at 64 bits, two's complement.\<close>

definition wrap_i64 :: "int \<Rightarrow> int" where
  "wrap_i64 x = (x + 2 ^ 63) mod 2 ^ 64 - 2 ^ 63"

lemma wrap_i64_id: "- (2 ^ 63) \<le> x \<Longrightarrow> x < 2 ^ 63 \<Longrightarrow> wrap_i64 x = x"
  by (simp add: wrap_i64_def)

lemma wrap_i64_bounds: "- (2 ^ 63) \<le> wrap_i64 x \<and> wrap_i64 x < 2 ^ 63"
  by (simp add: wrap_i64_def)

text \<open>\<open>big.Int.Uint64\<close> keeps the low 64 bits.\<close>

definition big_uint64 :: "nat \<Rightarrow> u64" where
  "big_uint64 n = word_of_nat n"

lemma unat_big_uint64: "unat (big_uint64 n) = n mod 2 ^ 64"
  by (simp add: big_uint64_def unat_of_nat)

lemma unat_big_uint64_small: "n < 2 ^ 64 \<Longrightarrow> unat (big_uint64 n) = n"
  by (simp add: unat_big_uint64)

lemma unat_add_small:
  "unat (a :: u64) + unat b < 2 ^ 64 \<Longrightarrow> unat (a + b) = unat a + unat b"
  by (simp add: unat_word_ariths)

lemma unat_mult_small:
  "unat (a :: u64) * unat b < 2 ^ 64 \<Longrightarrow> unat (a * b) = unat a * unat b"
  by (simp add: unat_word_ariths)

lemma unat_u64_less: "unat (a :: u64) < 2 ^ 64"
  by (rule order_less_le_trans [OF unsigned_less]) simp

lemma word_pos_unat: "(0 < a) = (0 < unat (a :: u64))"
  by (simp add: word_less_nat_alt)

section \<open>Maps\<close>

abbreviation wf_map :: "('k \<times> 'v) list \<Rightarrow> bool" where
  "wf_map m \<equiv> distinct (map fst m)"

lemma map_of_update [go_map]:
  "map_of (AList.update k v m) k' = (if k' = k then Some v else map_of m k')"
  by (simp add: AList.update_conv')

lemma map_of_del [go_map]:
  "map_of (AList.delete k m) k' = (if k' = k then None else map_of m k')"
  by (simp add: AList.delete_conv')

lemma map_of_filter_key [go_map]:
  "map_of (filter (\<lambda>e. P (fst e)) m) k = (if P k then map_of m k else None)"
  by (induction m) auto

lemma map_of_filter_entry:
  "wf_map m \<Longrightarrow>
   map_of (filter (\<lambda>e. P (fst e) (snd e)) m) k =
     (case map_of m k of None \<Rightarrow> None | Some v \<Rightarrow> if P k v then Some v else None)"
proof (induction m)
  case (Cons e m)
  have "map_of m k = None" if "fst e = k"
    using Cons.prems that by (auto simp: map_of_eq_None_iff)
  with Cons show ?case by (cases "fst e = k") (auto split: option.splits)
qed simp

lemma wf_map_update [wf_intros]: "wf_map m \<Longrightarrow> wf_map (AList.update k v m)"
  by (rule AList.distinct_update)

lemma wf_map_del [wf_intros]: "wf_map m \<Longrightarrow> wf_map (AList.delete k m)"
  by (rule AList.distinct_delete)

lemma wf_map_filter [wf_intros]: "wf_map m \<Longrightarrow> wf_map (filter P m)"
  by (induction m) auto

lemma map_of_set_eq:
  assumes "wf_map m" and "wf_map m'" and "set m = set m'"
  shows "map_of m = map_of m'"
  using assms by (metis map_of_inject_set)

lemma map_of_filter_entry_Some:
  "wf_map m \<Longrightarrow>
   (map_of (filter (\<lambda>e. P (fst e) (snd e)) m) k = Some v) = (map_of m k = Some v \<and> P k v)"
  by (auto simp add: map_of_filter_entry simp del: map_of_eq_Some_iff split: option.split)

text \<open>The zero value of an integer map entry.\<close>

definition lookup_default :: "'v \<Rightarrow> ('k \<times> 'v) list \<Rightarrow> 'k \<Rightarrow> 'v" where
  "lookup_default d m k = (case map_of m k of None \<Rightarrow> d | Some v \<Rightarrow> v)"

lemma lookup_default_update [go_map]:
  "lookup_default d (AList.update k v m) k' = (if k' = k then v else lookup_default d m k')"
  by (simp add: lookup_default_def go_map)

lemma lookup_default_del [go_map]:
  "lookup_default d (AList.delete k m) k' = (if k' = k then d else lookup_default d m k')"
  by (simp add: lookup_default_def go_map)

text \<open>A property of every entry of a map.\<close>

definition all_entries :: "('k \<Rightarrow> 'v \<Rightarrow> bool) \<Rightarrow> ('k \<times> 'v) list \<Rightarrow> bool" where
  "all_entries Q m = list_all (\<lambda>(k, v). Q k v) m"

lemma all_entries_Nil [simp]: "all_entries Q []"
  by (simp add: all_entries_def)

lemma all_entries_Cons [simp]: "all_entries Q ((k, v) # m) = (Q k v \<and> all_entries Q m)"
  by (simp add: all_entries_def)

lemma all_entriesD: "all_entries Q m \<Longrightarrow> map_of m k = Some v \<Longrightarrow> Q k v"
  by (auto simp: all_entries_def list_all_iff dest: map_of_SomeD)

lemma all_entries_mono:
  "all_entries Q m \<Longrightarrow> (\<And>k v. Q k v \<Longrightarrow> R k v) \<Longrightarrow> all_entries R m"
  by (auto simp: all_entries_def list_all_iff)

lemma all_entries_update [wf_intros]:
  "all_entries Q m \<Longrightarrow> Q k v \<Longrightarrow> all_entries Q (AList.update k v m)"
  by (induction m) auto

lemma all_entries_filter [wf_intros]: "all_entries Q m \<Longrightarrow> all_entries Q (filter P m)"
  by (auto simp: all_entries_def list_all_iff)

lemma all_entries_del [wf_intros]: "all_entries Q m \<Longrightarrow> all_entries Q (AList.delete k m)"
  by (simp add: AList.delete_eq all_entries_filter)

section \<open>Strings\<close>

text \<open>Go strings are byte sequences.  \<open>strings.HasPrefix\<close>, \<open>strings.HasSuffix\<close> and
  \<open>strings.TrimSpace\<close>; the latter strips the UTF-8 encodings of the Unicode white space
  characters from both ends.\<close>

definition has_prefix :: "string \<Rightarrow> string \<Rightarrow> bool" where
  "has_prefix s p = (take (length p) s = p)"

definition has_suffix :: "string \<Rightarrow> string \<Rightarrow> bool" where
  "has_suffix s p = (length p \<le> length s \<and> drop (length s - length p) s = p)"

lemma has_prefix_eq_length:
  "has_prefix s p \<Longrightarrow> has_prefix s q \<Longrightarrow> length p = length q \<Longrightarrow> p = q"
  by (metis has_prefix_def)

definition byte_string :: "nat list \<Rightarrow> string" where
  "byte_string bs = map char_of bs"

definition space_seqs :: "string list" where
  "space_seqs =
     map (\<lambda>b. byte_string [b]) [9, 10, 11, 12, 13, 32] @
     map byte_string [[0xC2, 0x85], [0xC2, 0xA0], [0xE1, 0x9A, 0x80]] @
     map (\<lambda>b. byte_string [0xE2, 0x80, b])
       [0x80, 0x81, 0x82, 0x83, 0x84, 0x85, 0x86, 0x87, 0x88, 0x89, 0x8A, 0xA8, 0xA9, 0xAF] @
     map byte_string [[0xE2, 0x81, 0x9F], [0xE3, 0x80, 0x80]]"

lemma space_seqs_nonempty: "q \<in> set space_seqs \<Longrightarrow> q \<noteq> []"
  by (auto simp: space_seqs_def byte_string_def)

function trim_left :: "string \<Rightarrow> string" where
  "trim_left s =
     (case find (has_prefix s) space_seqs of
        None \<Rightarrow> s
      | Some q \<Rightarrow> trim_left (drop (length q) s))"
  by auto
termination
proof (relation "measure length")
  fix s q
  assume q: "find (has_prefix s) space_seqs = Some q"
  then have "q \<in> set space_seqs" "has_prefix s q" by (auto simp: find_Some_iff)
  then have "q \<noteq> []" "s \<noteq> []" using space_seqs_nonempty [of q] by (auto simp: has_prefix_def)
  then show "(drop (length q) s, s) \<in> measure length" by simp
qed simp

function trim_right :: "string \<Rightarrow> string" where
  "trim_right s =
     (case find (has_suffix s) space_seqs of
        None \<Rightarrow> s
      | Some q \<Rightarrow> trim_right (take (length s - length q) s))"
  by auto
termination
proof (relation "measure length")
  fix s q
  assume q: "find (has_suffix s) space_seqs = Some q"
  then have "q \<in> set space_seqs" "has_suffix s q" by (auto simp: find_Some_iff)
  then have "q \<noteq> []" "length q \<le> length s"
    using space_seqs_nonempty [of q] by (auto simp: has_suffix_def)
  then show "(take (length s - length q) s, s) \<in> measure length" by (cases q) auto
qed simp

declare trim_left.simps [simp del] trim_right.simps [simp del]

definition TrimSpace :: "string \<Rightarrow> string" where
  "TrimSpace s = trim_right (trim_left s)"

lemma set_trim_left: "set (trim_left s) \<subseteq> set s"
proof (induction s rule: trim_left.induct)
  case (1 s)
  then show ?case
    by (subst trim_left.simps) (auto split: option.split dest: set_drop_subset [THEN subsetD])
qed

lemma set_trim_right: "set (trim_right s) \<subseteq> set s"
proof (induction s rule: trim_right.induct)
  case (1 s)
  then show ?case
    by (subst trim_right.simps) (auto split: option.split dest: set_take_subset [THEN subsetD])
qed

lemma set_TrimSpace: "set (TrimSpace s) \<subseteq> set s"
  using set_trim_left set_trim_right unfolding TrimSpace_def by blast

text \<open>A string that starts and ends with a visible ASCII character is left as it is.\<close>

definition visible :: "char \<Rightarrow> bool" where
  "visible c = (32 < (of_char c :: nat) \<and> (of_char c :: nat) < 128)"

lemma space_seqs_not_visible: "q \<in> set space_seqs \<Longrightarrow> \<not> visible (hd q) \<and> \<not> visible (last q)"
  by (auto simp: space_seqs_def byte_string_def visible_def)

lemma TrimSpace_visible:
  assumes "s \<noteq> []" and "visible (hd s)" and "visible (last s)"
  shows "TrimSpace s = s"
proof -
  have "\<not> has_prefix s q" if q: "q \<in> set space_seqs" for q
  proof
    assume "has_prefix s q"
    then have "hd q = hd s"
      using space_seqs_nonempty [OF q] by (metis has_prefix_def hd_take length_greater_0_conv)
    with space_seqs_not_visible [OF q] assms(2) show False by simp
  qed
  then have "find (has_prefix s) space_seqs = None" by (simp add: find_None_iff)
  then have left: "trim_left s = s" by (subst trim_left.simps) simp
  have "\<not> has_suffix s q" if q: "q \<in> set space_seqs" for q
  proof
    assume "has_suffix s q"
    then have "last q = last s"
      using space_seqs_nonempty [OF q]
      by (metis has_suffix_def drop_eq_Nil last_drop linorder_not_le)
    with space_seqs_not_visible [OF q] assms(3) show False by simp
  qed
  then have "find (has_suffix s) space_seqs = None" by (simp add: find_None_iff)
  then have "trim_right s = s" by (subst trim_right.simps) simp
  with left show ?thesis by (simp add: TrimSpace_def)
qed

section \<open>Decimal text\<close>

text \<open>\<open>strconv.Itoa\<close> and \<open>fmt.Sprintf("%d")\<close> on non-negative numbers, and \<open>strconv.ParseUint\<close> in
  base ten: \<open>None\<close> is its error (no digits, another character, or out of range).\<close>

definition digit :: "nat \<Rightarrow> char" where "digit d = char_of (48 + d)"

fun show_nat :: "nat \<Rightarrow> string" where
  "show_nat n = (if n < 10 then [digit n] else show_nat (n div 10) @ [digit (n mod 10)])"

declare show_nat.simps [simp del]

fun parse_digits :: "nat \<Rightarrow> string \<Rightarrow> nat option" where
  "parse_digits acc [] = Some acc"
| "parse_digits acc (c # cs) =
     (let d = of_char c :: nat
      in if 48 \<le> d \<and> d \<le> 57 then parse_digits (acc * 10 + (d - 48)) cs else None)"

definition parse_uint64 :: "string \<Rightarrow> u64 option" where
  "parse_uint64 s =
     (if s = [] then None
      else case parse_digits 0 s of
             None \<Rightarrow> None
           | Some n \<Rightarrow> if n < 2 ^ 64 then Some (word_of_nat n) else None)"

lemma of_char_digit: "d < 10 \<Longrightarrow> of_char (digit d) = 48 + d"
  by (simp add: digit_def)

lemma parse_digits_append:
  "parse_digits acc (xs @ ys) =
     (case parse_digits acc xs of None \<Rightarrow> None | Some a \<Rightarrow> parse_digits a ys)"
  by (induction acc xs rule: parse_digits.induct) (simp_all add: Let_def)

lemma show_nat_nonempty [simp]: "show_nat n \<noteq> []"
  by (subst show_nat.simps) simp

lemma parse_show_nat: "parse_digits 0 (show_nat n) = Some n"
proof (induction n rule: show_nat.induct)
  case (1 n)
  have "n mod 10 \<le> 9" using mod_less_divisor [of 10 n] by linarith
  with 1 show ?case
    by (subst show_nat.simps) (simp add: parse_digits_append of_char_digit Let_def)
qed

lemma parse_show_u64: "parse_uint64 (show_nat (unat u)) = Some u"
  by (simp add: parse_uint64_def parse_show_nat unat_u64_less [simplified])

lemma show_nat_inj: "show_nat m = show_nat n \<Longrightarrow> m = n"
  by (metis parse_show_nat option.inject)

lemma show_nat_digits: "c \<in> set (show_nat n) \<Longrightarrow> \<exists>d < 10. c = digit d"
proof (induction n rule: show_nat.induct)
  case (1 n)
  show ?case
  proof (cases "n < 10")
    case True
    with "1.prems" show ?thesis by (subst (asm) show_nat.simps) auto
  next
    case False
    with "1.prems" have "c \<in> set (show_nat (n div 10)) \<or> c = digit (n mod 10)"
      by (subst (asm) show_nat.simps) auto
    with "1.IH" [OF False] show ?thesis by (metis mod_less_divisor zero_less_numeral)
  qed
qed

end
