(* ===== verification/Pricing_Model.thy ===== *)
theory Pricing_Model
  imports Prelude
begin

text \<open>
  The price model of \<^verbatim>\<open>internal/pricing\<close>: price records, the built-in table type, the
  linear, tiered and whole-request-premium cost functions of \<^verbatim>\<open>tiered.go\<close>, the defaulting of
  unset price fields, and the cost of one request (\<^verbatim>\<open>computeCost\<close>).

  All amounts are \<open>uint64\<close>: prices in micro-USD per million tokens, costs in nano-USD.  The
  \<open>big.Int\<close> intermediate values of the code are natural numbers here; \<open>Uint64\<close> truncates.
\<close>

section \<open>Usage metrics and price records\<close>

record metrics =
  m_input :: u64
  m_output :: u64
  m_cache_creation :: u64
  m_cache_read :: u64
  m_cache5m :: u64
  m_cache1h :: u64
  m_input_image :: u64
  m_output_image :: u64
  m_upstream_cost :: u64

record model_pricing =
  g_model_id :: string
  g_input :: u64
  g_output :: u64
  g_cache_read :: u64
  g_cache5m :: u64
  g_cache1h :: u64
  g_image_input :: u64
  g_image_output :: u64
  g_has1m :: bool
  g_threshold :: u64
  g_in_num :: u64
  g_in_denom :: u64
  g_out_num :: u64
  g_out_denom :: u64

record model_price =
  p_id :: u64
  p_model_id :: string
  p_input :: u64
  p_output :: u64
  p_cache_read :: u64
  p_cache5m :: u64
  p_cache1h :: u64
  p_image_input :: u64
  p_image_output :: u64
  p_has1m :: bool
  p_threshold :: u64
  p_in_num :: u64
  p_in_denom :: u64
  p_out_num :: u64
  p_out_denom :: u64

section \<open>Cost functions on one token class (tiered.go)\<close>

definition TokensPerMillion :: nat where "TokensPerMillion = 1000000"
definition MicroToNano :: nat where "MicroToNano = 1000"

definition calculateLinearCostBig :: "u64 \<Rightarrow> u64 \<Rightarrow> u64" where
  "calculateLinearCostBig tokens priceMicro =
     big_uint64 (unat tokens * unat priceMicro * MicroToNano div TokensPerMillion)"

definition CalculateLinearCost :: "u64 \<Rightarrow> u64 \<Rightarrow> u64" where
  "CalculateLinearCost tokens priceMicro = calculateLinearCostBig tokens priceMicro"

text \<open>The tiered cost divides by \<open>premiumDenom\<close> without a guard: \<open>big.Int.Div\<close> panics on a zero
  divisor, which is \<open>None\<close>.\<close>

definition CalculateTieredCost :: "u64 \<Rightarrow> u64 \<Rightarrow> u64 \<Rightarrow> u64 \<Rightarrow> u64 \<Rightarrow> u64 option" where
  "CalculateTieredCost tokens base num denom threshold =
     (if tokens \<le> threshold then Some (calculateLinearCostBig tokens base)
      else if denom = 0 then None
      else Some (calculateLinearCostBig threshold base +
        big_uint64 (unat (tokens - threshold) * unat base * MicroToNano * unat num
          div TokensPerMillion div unat denom)))"

definition CalculatePremiumCost :: "u64 \<Rightarrow> u64 \<Rightarrow> u64 \<Rightarrow> u64 \<Rightarrow> u64" where
  "CalculatePremiumCost tokens priceMicro num denom =
     (if num = 0 \<or> denom = 0 then calculateLinearCostBig tokens priceMicro
      else big_uint64 (unat tokens * unat priceMicro * MicroToNano * unat num
        div TokensPerMillion div unat denom))"

section \<open>Effective prices: zero fields take their defaults (calculator.go)\<close>

record effectivePrice =
  e_input :: u64
  e_output :: u64
  e_image_input :: u64
  e_image_output :: u64
  e_cache_read :: u64
  e_cache5m :: u64
  e_cache1h :: u64
  e_has1m :: bool
  e_threshold :: u64
  e_in_num :: u64
  e_in_denom :: u64
  e_out_num :: u64
  e_out_denom :: u64

definition or_default :: "u64 \<Rightarrow> u64 \<Rightarrow> u64" where
  "or_default v d = (if v = 0 then d else v)"

definition resolveEffective :: "model_price \<Rightarrow> effectivePrice" where
  "resolveEffective p =
     \<lparr> e_input = p_input p,
       e_output = p_output p,
       e_image_input = or_default (p_image_input p) (p_input p),
       e_image_output = or_default (p_image_output p) (p_output p),
       e_cache_read = or_default (p_cache_read p) (p_input p div 10),
       e_cache5m = or_default (p_cache5m p) (p_input p * 5 div 4),
       e_cache1h = or_default (p_cache1h p) (p_input p * 2),
       e_has1m = p_has1m p,
       e_threshold = or_default (p_threshold p) 200000,
       e_in_num = or_default (p_in_num p) 2,
       e_in_denom = or_default (p_in_denom p) 1,
       e_out_num = or_default (p_out_num p) 3,
       e_out_denom = or_default (p_out_denom p) 2 \<rparr>"

section \<open>The cost of a request\<close>

definition cacheWriteTokens :: "metrics \<Rightarrow> u64" where
  "cacheWriteTokens m =
     (if 0 < m_cache5m m \<or> 0 < m_cache1h m then m_cache5m m + m_cache1h m
      else m_cache_creation m)"

definition clamp_to :: "u64 \<Rightarrow> u64 \<Rightarrow> u64" where
  "clamp_to bound v = (if bound < v then bound else v)"

definition promptTokens :: "metrics \<Rightarrow> u64" where
  "promptTokens m =
     (let inputImage = clamp_to (m_input m) (m_input_image m);
          inputText = m_input m - inputImage
      in inputText + inputImage + m_cache_read m + cacheWriteTokens m)"

definition fullRequestPremium :: "effectivePrice \<Rightarrow> metrics \<Rightarrow> bool" where
  "fullRequestPremium e m = (e_has1m e \<and> e_threshold e < promptTokens m)"

definition calculateRequestCost :: "bool \<Rightarrow> u64 \<Rightarrow> u64 \<Rightarrow> u64 \<Rightarrow> u64 \<Rightarrow> u64" where
  "calculateRequestCost premium tokens priceMicro num denom =
     (if \<not> premium then CalculateLinearCost tokens priceMicro
      else CalculatePremiumCost tokens priceMicro num denom)"

definition computeCost :: "model_price \<Rightarrow> metrics \<Rightarrow> u64" where
  "computeCost p m =
     (let e = resolveEffective p;
          inputImage = clamp_to (m_input m) (m_input_image m);
          inputText = m_input m - inputImage;
          outputImage = clamp_to (m_output m) (m_output_image m);
          outputText = m_output m - outputImage;
          request = calculateRequestCost (fullRequestPremium e m);
          t0 = 0;
          t1 = (if 0 < inputText
                then t0 + request inputText (e_input e) (e_in_num e) (e_in_denom e) else t0);
          t2 = (if 0 < inputImage
                then t1 + request inputImage (e_image_input e) (e_in_num e) (e_in_denom e) else t1);
          t3 = (if 0 < outputText
                then t2 + request outputText (e_output e) (e_out_num e) (e_out_denom e) else t2);
          t4 = (if 0 < outputImage
                then t3 + request outputImage (e_image_output e) (e_out_num e) (e_out_denom e)
                else t3);
          t5 = (if 0 < m_cache_read m
                then t4 + request (m_cache_read m) (e_cache_read e) (e_in_num e) (e_in_denom e)
                else t4);
          t6 = (if 0 < m_cache5m m
                then t5 + request (m_cache5m m) (e_cache5m e) (e_in_num e) (e_in_denom e) else t5);
          t7 = (if 0 < m_cache1h m
                then t6 + request (m_cache1h m) (e_cache1h e) (e_in_num e) (e_in_denom e) else t6);
          t8 = (if m_cache5m m = 0 \<and> m_cache1h m = 0 \<and> 0 < m_cache_creation m
                then t7 + request (m_cache_creation m) (e_cache5m e) (e_in_num e) (e_in_denom e)
                else t7)
      in t8)"

section \<open>Lemmas on the cost functions\<close>

named_theorems pricing_defs \<open>the cost functions on token counts\<close>

lemmas [pricing_defs] = calculateRequestCost_def CalculateLinearCost_def CalculatePremiumCost_def
  calculateLinearCostBig_def TokensPerMillion_def MicroToNano_def

text \<open>The mathematical cost of a token class: no truncation.\<close>

definition class_cost :: "bool \<Rightarrow> nat \<Rightarrow> nat \<Rightarrow> nat \<Rightarrow> nat \<Rightarrow> nat" where
  "class_cost premium tokens priceMicro num denom =
     (if premium \<and> num \<noteq> 0 \<and> denom \<noteq> 0
      then tokens * priceMicro * 1000 * num div 1000000 div denom
      else tokens * priceMicro * 1000 div 1000000)"

lemma unat_calculateRequestCost:
  "unat (calculateRequestCost pr t p n d) =
     class_cost pr (unat t) (unat p) (unat n) (unat d) mod 2 ^ 64"
  by (simp add: pricing_defs class_cost_def unat_big_uint64 unat_eq_zero)

lemma class_cost_zero [simp]: "class_cost pr 0 p n d = 0"
  by (simp add: class_cost_def)

lemma calculateRequestCost_zero [simp]: "calculateRequestCost pr 0 p n d = 0"
proof -
  have "unat (calculateRequestCost pr 0 p n d) = 0" by (simp add: unat_calculateRequestCost)
  then show ?thesis by (simp add: unat_eq_zero)
qed

lemma skip_zero_class:
  "(if 0 < t then acc + calculateRequestCost pr t p n d else acc) =
     acc + calculateRequestCost pr t p n d"
  by (cases "t = 0") (auto simp: word_neq_0_conv)

text \<open>The cost of a request is the sum over its eight billed classes.\<close>

definition legacyCacheWrite :: "metrics \<Rightarrow> u64" where
  "legacyCacheWrite m =
     (if m_cache5m m = 0 \<and> m_cache1h m = 0 then m_cache_creation m else 0)"

definition billed_classes :: "effectivePrice \<Rightarrow> metrics \<Rightarrow> (u64 \<times> u64 \<times> u64 \<times> u64) list" where
  "billed_classes e m =
     (let inputImage = clamp_to (m_input m) (m_input_image m);
          outputImage = clamp_to (m_output m) (m_output_image m)
      in [(m_input m - inputImage, e_input e, e_in_num e, e_in_denom e),
          (inputImage, e_image_input e, e_in_num e, e_in_denom e),
          (m_output m - outputImage, e_output e, e_out_num e, e_out_denom e),
          (outputImage, e_image_output e, e_out_num e, e_out_denom e),
          (m_cache_read m, e_cache_read e, e_in_num e, e_in_denom e),
          (m_cache5m m, e_cache5m e, e_in_num e, e_in_denom e),
          (m_cache1h m, e_cache1h e, e_in_num e, e_in_denom e),
          (legacyCacheWrite m, e_cache5m e, e_in_num e, e_in_denom e)])"

lemma legacy_class:
  "(if m_cache5m m = 0 \<and> m_cache1h m = 0 \<and> 0 < m_cache_creation m
    then acc + calculateRequestCost pr (m_cache_creation m) p n d else acc) =
   acc + calculateRequestCost pr (legacyCacheWrite m) p n d"
  using skip_zero_class [of "m_cache_creation m" acc pr p n d]
  by (auto simp: legacyCacheWrite_def)

lemma computeCost_classes:
  "computeCost p m =
     (let e = resolveEffective p
      in \<Sum>(t, pr, n, d) \<leftarrow> billed_classes e m.
           calculateRequestCost (fullRequestPremium e m) t pr n d)"
  unfolding computeCost_def billed_classes_def Let_def skip_zero_class legacy_class
  by (simp add: algebra_simps)

lemma unat_clamp: "unat (clamp_to b v) = min (unat b) (unat v)"
  by (auto simp: clamp_to_def word_less_nat_alt min_def)

lemma unat_minus_clamp: "unat (b - clamp_to b v) = unat b - min (unat b) (unat v)"
proof -
  have "clamp_to b v \<le> b" by (auto simp: clamp_to_def)
  then show ?thesis by (simp add: unat_sub_if' unat_clamp word_le_nat_alt) 
qed

lemma sum_mod_list: "unat (\<Sum>x \<leftarrow> xs. (f x :: u64)) = (\<Sum>x \<leftarrow> xs. unat (f x)) mod 2 ^ 64"
  by (induction xs) (simp_all add: unat_word_ariths mod_add_right_eq)

section \<open>The cost as a mathematical function\<close>

text \<open>
  \<open>request_cost\<close> is the contract of \<open>computeCost\<close>: the same price rules over natural numbers, with
  no width.  Every unset field of the price takes its documented default.
\<close>

definition nat_default :: "nat \<Rightarrow> nat \<Rightarrow> nat" where
  "nat_default v d = (if v = 0 then d else v)"

definition prompt_size :: "metrics \<Rightarrow> nat" where
  "prompt_size m = unat (m_input m) + unat (m_cache_read m) +
     (if m_cache5m m = 0 \<and> m_cache1h m = 0 then unat (m_cache_creation m)
      else unat (m_cache5m m) + unat (m_cache1h m))"

definition request_cost :: "model_price \<Rightarrow> metrics \<Rightarrow> nat" where
  "request_cost p m =
     (let inp = unat (p_input p);
          out = unat (p_output p);
          in_num = nat_default (unat (p_in_num p)) 2;
          in_den = nat_default (unat (p_in_denom p)) 1;
          out_num = nat_default (unat (p_out_num p)) 3;
          out_den = nat_default (unat (p_out_denom p)) 2;
          c5m = nat_default (unat (p_cache5m p)) (inp * 5 div 4);
          premium = (p_has1m p \<and> nat_default (unat (p_threshold p)) 200000 < prompt_size m);
          image_in = min (unat (m_input m)) (unat (m_input_image m));
          image_out = min (unat (m_output m)) (unat (m_output_image m))
      in class_cost premium (unat (m_input m) - image_in) inp in_num in_den
       + class_cost premium image_in (nat_default (unat (p_image_input p)) inp) in_num in_den
       + class_cost premium (unat (m_output m) - image_out) out out_num out_den
       + class_cost premium image_out (nat_default (unat (p_image_output p)) out) out_num out_den
       + class_cost premium (unat (m_cache_read m))
           (nat_default (unat (p_cache_read p)) (inp div 10)) in_num in_den
       + class_cost premium (unat (m_cache5m m)) c5m in_num in_den
       + class_cost premium (unat (m_cache1h m))
           (nat_default (unat (p_cache1h p)) (inp * 2)) in_num in_den
       + class_cost premium (unat (legacyCacheWrite m)) c5m in_num in_den)"

lemma unat_or_default: "unat (or_default v d) = nat_default (unat v) (unat d)"
  by (simp add: or_default_def nat_default_def unat_eq_zero)

lemma unat_promptTokens:
  assumes "prompt_size m < 2 ^ 64"
  shows "unat (promptTokens m) = prompt_size m"
proof -
  have "promptTokens m = m_input m + m_cache_read m + cacheWriteTokens m"
    by (simp add: promptTokens_def Let_def)
  moreover have "unat (cacheWriteTokens m) =
      (if m_cache5m m = 0 \<and> m_cache1h m = 0 then unat (m_cache_creation m)
       else unat (m_cache5m m) + unat (m_cache1h m))"
    using assms
    by (auto simp: cacheWriteTokens_def prompt_size_def word_neq_0_conv intro!: unat_add_small
        split: if_splits)
  ultimately show ?thesis
    using assms by (simp add: prompt_size_def unat_add_small)
qed

lemma sum_list_mod_small:
  "sum_list (map f xs) < (M::nat) \<Longrightarrow> (\<Sum>x\<leftarrow>xs. f x mod M) = sum_list (map f xs)"
  by (induction xs) auto

lemma mod_sum_list_mod: "(\<Sum>x\<leftarrow>xs. f x mod (M::nat)) mod M = (\<Sum>x\<leftarrow>xs. f x) mod M"
proof (induction xs)
  case (Cons x xs)
  have "(f x mod M + (\<Sum>x\<leftarrow>xs. f x mod M)) mod M =
      (f x mod M + (\<Sum>x\<leftarrow>xs. f x mod M) mod M) mod M"
    by (simp add: mod_add_right_eq)
  also have "\<dots> = (f x + (\<Sum>x\<leftarrow>xs. f x)) mod M"
    unfolding Cons.IH by (simp add: mod_add_eq)
  finally show ?case by simp
qed simp

text \<open>Without any bound the cost is the mathematical cost modulo \<open>2^64\<close>, once the prompt size and
  the derived cache prices fit their width.\<close>

lemma computeCost_mod:
  assumes "prompt_size m < 2 ^ 64" and "unat (p_input p) * 5 < 2 ^ 64"
  shows "unat (computeCost p m) = request_cost p m mod 2 ^ 64"
proof -
  let ?e = "resolveEffective p"
  have eff: "unat (e_cache5m ?e) = nat_default (unat (p_cache5m p)) (unat (p_input p) * 5 div 4)"
    "unat (e_cache1h ?e) = nat_default (unat (p_cache1h p)) (unat (p_input p) * 2)"
    "unat (e_cache_read ?e) = nat_default (unat (p_cache_read p)) (unat (p_input p) div 10)"
    using assms(2) by (simp_all add: resolveEffective_def unat_or_default unat_div unat_mult_small)
  have pr: "fullRequestPremium ?e m =
      (p_has1m p \<and> nat_default (unat (p_threshold p)) 200000 < prompt_size m)"
    using assms(1)
    by (simp add: fullRequestPremium_def resolveEffective_def word_less_nat_alt
        unat_promptTokens unat_or_default)
  have "unat (computeCost p m) =
      (\<Sum>(t, pr, n, d) \<leftarrow> billed_classes ?e m.
         class_cost (fullRequestPremium ?e m) (unat t) (unat pr) (unat n) (unat d)) mod 2 ^ 64"
    unfolding computeCost_classes Let_def
    by (simp add: sum_mod_list unat_calculateRequestCost split_def mod_sum_list_mod)
  also have "(\<Sum>(t, pr, n, d) \<leftarrow> billed_classes ?e m.
         class_cost (fullRequestPremium ?e m) (unat t) (unat pr) (unat n) (unat d)) =
      request_cost p m"
    unfolding pr billed_classes_def request_cost_def Let_def
    by (simp add: unat_clamp unat_minus_clamp eff)
       (simp add: resolveEffective_def unat_or_default)
  finally show ?thesis .
qed

lemma computeCost_exact:
  assumes "prompt_size m < 2 ^ 64" and "unat (p_input p) * 5 < 2 ^ 64"
    and "request_cost p m < 2 ^ 64"
  shows "unat (computeCost p m) = request_cost p m"
  using computeCost_mod [OF assms(1,2)] assms(3) by simp

text \<open>A premium of at least one never lowers the cost of a token class.\<close>

lemma class_cost_premium_mono:
  assumes "d \<le> n"
  shows "class_cost False t p n d \<le> class_cost True t p n d"
proof (cases "n = 0 \<or> d = 0")
  case True
  then show ?thesis by (auto simp: class_cost_def)
next
  case False
  have "t * p * 1000 div 1000000 = t * p * 1000 * d div (1000000 * d)"
    using False by simp
  also have "\<dots> \<le> t * p * 1000 * n div (1000000 * d)"
    using assms by (intro div_le_mono) simp
  also have "\<dots> = t * p * 1000 * n div 1000000 div d"
    by (simp add: div_mult2_eq)
  finally show ?thesis using False by (simp add: class_cost_def)
qed

lemma class_cost_mono_tokens:
  "t \<le> t' \<Longrightarrow> class_cost pr t p n d \<le> class_cost pr t' p n d"
  by (auto simp: class_cost_def intro!: div_le_mono mult_le_mono)

end
