(* ===== verification/Price_Table.thy ===== *)
theory Price_Table
  imports Pricing_Model
begin

text \<open>
  The built-in price table type of \<^verbatim>\<open>internal/pricing/pricing.go\<close> and the lookup by longest model
  prefix that it shares with the calculator.  The loop over the Go map is a scan of the
  association list; the locale \<open>prefix_lookup\<close> collects what both lookups promise, in particular
  that the answer does not depend on the iteration order of the map.
\<close>

section \<open>Longest prefix\<close>

fun prefix_scan :: "(string \<times> 'v) list \<Rightarrow> string \<Rightarrow> 'v option \<Rightarrow> nat \<Rightarrow> 'v option" where
  "prefix_scan [] model best bestLen = best"
| "prefix_scan ((key, p) # es) model best bestLen =
     (if bestLen < length key \<and> has_prefix model key
      then prefix_scan es model (Some p) (length key)
      else prefix_scan es model best bestLen)"

lemma prefix_scan_keep:
  "(\<And>k v. (k, v) \<in> set es \<Longrightarrow> has_prefix model k \<Longrightarrow> length k \<le> n) \<Longrightarrow>
   prefix_scan es model best n = best"
  by (induction es model best n rule: prefix_scan.induct) force+

lemma prefix_scan_longest:
  "wf_map es \<Longrightarrow> (k, v) \<in> set es \<Longrightarrow> has_prefix model k \<Longrightarrow> n < length k \<Longrightarrow>
   (\<And>k' v'. (k', v') \<in> set es \<Longrightarrow> has_prefix model k' \<Longrightarrow> length k' \<le> length k) \<Longrightarrow>
   prefix_scan es model best n = Some v"
proof (induction es model best n rule: prefix_scan.induct)
  case (2 key p es model best bestLen)
  show ?case
  proof (cases "(key, p) = (k, v)")
    case True
    with "2.prems"(3,4) have "prefix_scan ((key, p) # es) model best bestLen =
        prefix_scan es model (Some v) (length k)" by simp
    also have "\<dots> = Some v" by (rule prefix_scan_keep) (use "2.prems"(5) in auto)
    finally show ?thesis .
  next
    case False
    with "2.prems"(2) have in_es: "(k, v) \<in> set es" by auto
    with "2.prems"(1) have "key \<noteq> k" by force
    then have "length key < length k" if "has_prefix model key"
      using that "2.prems"(3) "2.prems"(5) [of key p] has_prefix_eq_length [of model key k]
      by fastforce
    have tail: "length k' \<le> length k" if "(k', v') \<in> set es" "has_prefix model k'" for k' v'
      using "2.prems"(5) [of k' v'] that by simp
    from "2.prems"(1) have wf: "wf_map es" by simp
    show ?thesis
    proof (cases "bestLen < length key \<and> has_prefix model key")
      case True
      have "prefix_scan es model (Some p) (length key) = Some v"
        by (rule "2.IH"(1) [OF True wf in_es "2.prems"(3)])
          (use True tail \<open>has_prefix model key \<Longrightarrow> length key < length k\<close> in auto)
      with True show ?thesis by simp
    next
      case False
      have "prefix_scan es model best bestLen = Some v"
        by (rule "2.IH"(2) [OF False wf in_es "2.prems"(3,4)]) (use tail in auto)
      with False show ?thesis by auto
    qed
  qed
qed simp

text \<open>Some longest matching non-empty key exists as soon as one matches.\<close>

lemma longest_match_exists:
  assumes "(k0, v0) \<in> set es" and "has_prefix model k0"
  shows "\<exists>k v. (k, v) \<in> set es \<and> has_prefix model k \<and>
    (\<forall>k' v'. (k', v') \<in> set es \<longrightarrow> has_prefix model k' \<longrightarrow> length k' \<le> length k)"
proof -
  define good where "good = filter (\<lambda>e. has_prefix model (fst e)) es"
  have "(k0, v0) \<in> set good" using assms by (simp add: good_def)
  then have "good \<noteq> []" by auto
  then have "Max ((length \<circ> fst) ` set good) \<in> (length \<circ> fst) ` set good"
    by (intro Max_in) simp_all
  then obtain e where e: "e \<in> set good" "length (fst e) = Max ((length \<circ> fst) ` set good)"
    by auto
  then have "\<forall>e' \<in> set good. length (fst e') \<le> length (fst e)" by simp
  with e(1) show ?thesis
    unfolding good_def by (intro exI [of _ "fst e"] exI [of _ "snd e"]) auto
qed

lemma prefix_scan_Some_iff:
  assumes "wf_map es"
  shows "prefix_scan es model None 0 = Some v \<longleftrightarrow>
    (\<exists>k. (k, v) \<in> set es \<and> k \<noteq> [] \<and> has_prefix model k \<and>
      (\<forall>k' v'. (k', v') \<in> set es \<longrightarrow> has_prefix model k' \<longrightarrow> length k' \<le> length k))"
    (is "?L \<longleftrightarrow> ?R")
proof
  assume ?R
  then show ?L using prefix_scan_longest [OF assms] by (metis length_greater_0_conv)
next
  assume L: ?L
  have "\<exists>k0 v0. (k0, v0) \<in> set es \<and> has_prefix model k0 \<and> k0 \<noteq> []"
  proof (rule ccontr)
    assume "\<not> ?thesis"
    then have "prefix_scan es model None 0 = None"
      by (intro prefix_scan_keep) auto
    with L show False by simp
  qed
  then obtain k0 v0 where k0: "(k0, v0) \<in> set es" "has_prefix model k0" "k0 \<noteq> []" by blast
  from longest_match_exists [OF k0(1,2)] obtain k w where k: "(k, w) \<in> set es" "has_prefix model k"
    "\<forall>k' v'. (k', v') \<in> set es \<longrightarrow> has_prefix model k' \<longrightarrow> length k' \<le> length k"
    by blast
  with k0 have "0 < length k" using length_greater_0_conv le_zero_eq by fastforce
  then have "prefix_scan es model None 0 = Some w"
    using prefix_scan_longest [OF assms k(1,2), of 0] k(3) by blast
  with L k \<open>0 < length k\<close> show ?R by auto
qed

lemma prefix_scan_order:
  assumes "wf_map es" and "wf_map es'" and "set es = set es'"
  shows "prefix_scan es model None 0 = prefix_scan es' model None 0"
proof -
  have "prefix_scan es model None 0 = Some v \<longleftrightarrow> prefix_scan es' model None 0 = Some v" for v
    using assms by (simp add: prefix_scan_Some_iff)
  then show ?thesis by (metis option.exhaust)
qed

section \<open>The interface of a lookup by model name\<close>

locale prefix_lookup =
  fixes get :: "(string \<times> 'v) list \<Rightarrow> string \<Rightarrow> 'v option"
  assumes get_exact: "map_of es model = Some v \<Longrightarrow> get es model = Some v"
    and get_scan: "map_of es model = None \<Longrightarrow> get es model = prefix_scan es model None 0"
begin

lemma get_order:
  assumes "wf_map es" and "wf_map es'" and "set es = set es'"
  shows "get es model = get es' model"
proof (cases "map_of es model")
  case None
  with assms show ?thesis
    using get_scan [of es model] get_scan [of es' model] prefix_scan_order [OF assms, of model]
      map_of_set_eq [OF assms] by simp
next
  case (Some v)
  with assms show ?thesis
    using get_exact [of es model v] get_exact [of es' model v] map_of_set_eq [OF assms] by simp
qed

lemma get_Some_iff:
  assumes "wf_map es" and "model \<noteq> []"
  shows "get es model = Some v \<longleftrightarrow>
    (\<exists>k. (k, v) \<in> set es \<and> k \<noteq> [] \<and> has_prefix model k \<and>
      (\<forall>k' v'. (k', v') \<in> set es \<longrightarrow> has_prefix model k' \<longrightarrow> length k' \<le> length k))"
proof (cases "map_of es model")
  case None
  then show ?thesis using prefix_scan_Some_iff [OF assms(1)] get_scan by metis
next
  case (Some w)
  then have w: "(model, w) \<in> set es" by (rule map_of_SomeD)
  have self: "has_prefix model model" by (simp add: has_prefix_def)
  have longest: "length k \<le> length model" if "has_prefix model k" for k
    using that by (metis has_prefix_def length_take min.cobounded1)
  have unique: "k = model" if "has_prefix model k" "length model \<le> length k" for k
    using that longest has_prefix_eq_length [OF _ self] by (simp add: order_antisym)
  have same: "v = w" if "(model, v) \<in> set es"
    using that w assms(1) by (metis eq_key_imp_eq_value)
  show ?thesis
    using Some get_exact [OF Some] w self longest unique same assms(2) by (metis option.inject)
qed

lemma get_None_iff:
  assumes "wf_map es" and "model \<noteq> []"
  shows "get es model = None \<longleftrightarrow>
    (\<forall>k v. (k, v) \<in> set es \<longrightarrow> has_prefix model k \<longrightarrow> k = [])"
proof -
  have "(\<exists>v. get es model = Some v) \<longleftrightarrow>
      (\<exists>k v. (k, v) \<in> set es \<and> has_prefix model k \<and> k \<noteq> [])"
    unfolding get_Some_iff [OF assms]
    using longest_match_exists [of _ _ es model] by (metis le_zero_eq length_0_conv)
  then show ?thesis by (metis not_None_eq)
qed

end
section \<open>The built-in price table\<close>

record priceTable =
  pt_version :: string
  pt_models :: "(string \<times> model_pricing) list"

definition NewPriceTable :: "string \<Rightarrow> priceTable" where
  "NewPriceTable version = \<lparr> pt_version = version, pt_models = [] \<rparr>"

definition Get :: "(string \<times> 'v) list \<Rightarrow> string \<Rightarrow> 'v option" where
  "Get models modelID =
     (case map_of models modelID of
        Some p \<Rightarrow> Some p
      | None \<Rightarrow> prefix_scan models modelID None 0)"

definition PriceTable_Get :: "priceTable \<Rightarrow> string \<Rightarrow> model_pricing option" where
  "PriceTable_Get pt modelID = Get (pt_models pt) modelID"

definition Set_pricing :: "priceTable \<Rightarrow> model_pricing \<Rightarrow> priceTable" where
  "Set_pricing pt pricing =
     pt \<lparr> pt_models := AList.update (g_model_id pricing) pricing (pt_models pt) \<rparr>"

definition All_pricings :: "priceTable \<Rightarrow> model_pricing list" where
  "All_pricings pt = map snd (pt_models pt)"

interpretation pt: prefix_lookup Get
  by unfold_locales (simp_all add: Get_def)

definition GetEffectiveCacheReadPriceMicro :: "model_pricing \<Rightarrow> u64" where
  "GetEffectiveCacheReadPriceMicro p =
     (if 0 < g_cache_read p then g_cache_read p else g_input p div 10)"

definition GetEffectiveCache5mWritePriceMicro :: "model_pricing \<Rightarrow> u64" where
  "GetEffectiveCache5mWritePriceMicro p =
     (if 0 < g_cache5m p then g_cache5m p else g_input p * 5 div 4)"

definition GetEffectiveCache1hWritePriceMicro :: "model_pricing \<Rightarrow> u64" where
  "GetEffectiveCache1hWritePriceMicro p =
     (if 0 < g_cache1h p then g_cache1h p else g_input p * 2)"

definition GetContext1MThreshold :: "model_pricing \<Rightarrow> u64" where
  "GetContext1MThreshold p = (if 0 < g_threshold p then g_threshold p else 200000)"

definition GetInputPremiumNum :: "model_pricing \<Rightarrow> u64" where
  "GetInputPremiumNum p = (if 0 < g_in_num p then g_in_num p else 2)"

definition GetInputPremiumDenom :: "model_pricing \<Rightarrow> u64" where
  "GetInputPremiumDenom p = (if 0 < g_in_denom p then g_in_denom p else 1)"

definition GetOutputPremiumNum :: "model_pricing \<Rightarrow> u64" where
  "GetOutputPremiumNum p = (if 0 < g_out_num p then g_out_num p else 3)"

definition GetOutputPremiumDenom :: "model_pricing \<Rightarrow> u64" where
  "GetOutputPremiumDenom p = (if 0 < g_out_denom p then g_out_denom p else 2)"

definition ConvertToDBPrice :: "model_pricing \<Rightarrow> model_price" where
  "ConvertToDBPrice mp =
     \<lparr> p_id = 0, p_model_id = g_model_id mp, p_input = g_input mp, p_output = g_output mp,
       p_cache_read = g_cache_read mp, p_cache5m = g_cache5m mp, p_cache1h = g_cache1h mp,
       p_image_input = g_image_input mp, p_image_output = g_image_output mp,
       p_has1m = g_has1m mp, p_threshold = g_threshold mp,
       p_in_num = g_in_num mp, p_in_denom = g_in_denom mp,
       p_out_num = g_out_num mp, p_out_denom = g_out_denom mp \<rparr>"

definition ConvertToDBPrices :: "priceTable \<Rightarrow> model_price list" where
  "ConvertToDBPrices pt = map (\<lambda>(_, mp). ConvertToDBPrice mp) (pt_models pt)"

text \<open>The table's own accessors and the calculator's defaulting are the same rules.\<close>

lemma resolveEffective_convert:
  "resolveEffective (ConvertToDBPrice mp) =
     \<lparr> e_input = g_input mp, e_output = g_output mp,
       e_image_input = or_default (g_image_input mp) (g_input mp),
       e_image_output = or_default (g_image_output mp) (g_output mp),
       e_cache_read = GetEffectiveCacheReadPriceMicro mp,
       e_cache5m = GetEffectiveCache5mWritePriceMicro mp,
       e_cache1h = GetEffectiveCache1hWritePriceMicro mp,
       e_has1m = g_has1m mp, e_threshold = GetContext1MThreshold mp,
       e_in_num = GetInputPremiumNum mp, e_in_denom = GetInputPremiumDenom mp,
       e_out_num = GetOutputPremiumNum mp, e_out_denom = GetOutputPremiumDenom mp \<rparr>"
  by (simp add: resolveEffective_def ConvertToDBPrice_def or_default_def word_neq_0_conv
      GetEffectiveCacheReadPriceMicro_def GetEffectiveCache5mWritePriceMicro_def
      GetEffectiveCache1hWritePriceMicro_def GetContext1MThreshold_def GetInputPremiumNum_def
      GetInputPremiumDenom_def GetOutputPremiumNum_def GetOutputPremiumDenom_def)

section \<open>Tables built by a sequence of Set calls\<close>

definition table_of :: "string \<Rightarrow> model_pricing list \<Rightarrow> priceTable" where
  "table_of version ps = foldl Set_pricing (NewPriceTable version) ps"

lemma update_new: "k \<notin> fst ` set m \<Longrightarrow> AList.update k v m = m @ [(k, v)]"
  by (induction m) auto

lemma foldl_Set_pricing_distinct:
  "distinct (map fst (pt_models pt) @ map g_model_id ps) \<Longrightarrow>
   pt_models (foldl Set_pricing pt ps) = pt_models pt @ map (\<lambda>p. (g_model_id p, p)) ps"
proof (induction ps arbitrary: pt)
  case (Cons p ps)
  have upd: "pt_models (Set_pricing pt p) = pt_models pt @ [(g_model_id p, p)]"
    using Cons.prems by (simp add: Set_pricing_def update_new image_iff)
  have "distinct (map fst (pt_models (Set_pricing pt p)) @ map g_model_id ps)"
    using Cons.prems by (auto simp: upd)
  from Cons.IH [OF this] show ?case by (simp add: upd)
qed simp

lemma table_of_distinct:
  "distinct (map g_model_id ps) \<Longrightarrow>
   pt_models (table_of v ps) = map (\<lambda>p. (g_model_id p, p)) ps"
  by (simp add: table_of_def foldl_Set_pricing_distinct NewPriceTable_def)

lemma wf_Set_pricing: "wf_map (pt_models pt) \<Longrightarrow> wf_map (pt_models (Set_pricing pt p))"
  by (simp add: Set_pricing_def wf_intros)

end
