(* ===== verification/Default_Prices.thy ===== *)
theory Default_Prices
  imports Price_Table
begin

text \<open>
  The built-in price table of \<^verbatim>\<open>internal/pricing/default_prices.go\<close>, one list per section of
  the file, in the order of its \<^verbatim>\<open>Set\<close> calls.  Fields a literal leaves out are zero.  The lemmas
  show that the table has no duplicate key, so that every \<^verbatim>\<open>Set\<close> adds an entry, and what its
  entries have in common.
\<close>

definition pricing_entry :: "string \<Rightarrow> model_pricing" where
  "pricing_entry modelID =
     \<lparr> g_model_id = modelID, g_input = 0, g_output = 0, g_cache_read = 0, g_cache5m = 0,
       g_cache1h = 0, g_image_input = 0, g_image_output = 0, g_has1m = False,
       g_threshold = 0, g_in_num = 0, g_in_denom = 0, g_out_num = 0, g_out_denom = 0 \<rparr>"

definition prices_claude_45 :: "model_pricing list" where
  "prices_claude_45 =
    [(pricing_entry ''claude-sonnet-4-5'')
      \<lparr> g_input := 3000000, g_output := 15000000, g_cache5m := 3750000,
        g_cache1h := 3750000, g_cache_read := 300000, g_has1m := True \<rparr>,
     (pricing_entry ''claude-opus-4-5'')
      \<lparr> g_input := 5000000, g_output := 25000000, g_cache5m := 6250000,
        g_cache1h := 6250000, g_cache_read := 500000 \<rparr>,
     (pricing_entry ''claude-opus-4-6'')
      \<lparr> g_input := 5000000, g_output := 25000000, g_cache5m := 6250000,
        g_cache1h := 6250000, g_cache_read := 500000, g_has1m := True \<rparr>,
     (pricing_entry ''claude-haiku-4-5'')
      \<lparr> g_input := 1000000, g_output := 5000000, g_cache5m := 1250000,
        g_cache1h := 1250000, g_cache_read := 100000 \<rparr>,
     (pricing_entry ''claude-sonnet-4-5-20250514'')
      \<lparr> g_input := 3000000, g_output := 15000000, g_cache5m := 3750000,
        g_cache1h := 3750000, g_cache_read := 300000, g_has1m := True \<rparr>,
     (pricing_entry ''claude-sonnet-4-5-20250929'')
      \<lparr> g_input := 3000000, g_output := 15000000, g_cache5m := 3750000,
        g_cache1h := 3750000, g_cache_read := 300000, g_has1m := True \<rparr>,
     (pricing_entry ''claude-opus-4-5-20251101'')
      \<lparr> g_input := 5000000, g_output := 25000000, g_cache5m := 6250000,
        g_cache1h := 6250000, g_cache_read := 500000 \<rparr>,
     (pricing_entry ''claude-opus-4-6-20260205'')
      \<lparr> g_input := 5000000, g_output := 25000000, g_cache5m := 6250000,
        g_cache1h := 6250000, g_cache_read := 500000, g_has1m := True \<rparr>]"

definition prices_claude_4 :: "model_pricing list" where
  "prices_claude_4 =
    [(pricing_entry ''claude-sonnet-4'')
      \<lparr> g_input := 3000000, g_output := 15000000, g_cache5m := 3750000,
        g_cache1h := 3750000, g_cache_read := 300000 \<rparr>,
     (pricing_entry ''claude-opus-4'')
      \<lparr> g_input := 15000000, g_output := 75000000, g_cache5m := 18750000,
        g_cache1h := 18750000, g_cache_read := 1500000 \<rparr>,
     (pricing_entry ''claude-sonnet-4-20250514'')
      \<lparr> g_input := 3000000, g_output := 15000000, g_cache5m := 3750000,
        g_cache1h := 3750000, g_cache_read := 300000 \<rparr>]"

definition prices_claude_37 :: "model_pricing list" where
  "prices_claude_37 =
    [(pricing_entry ''claude-3-7-sonnet'')
      \<lparr> g_input := 3000000, g_output := 15000000, g_cache5m := 3750000,
        g_cache1h := 3750000, g_cache_read := 300000 \<rparr>]"

definition prices_claude_35 :: "model_pricing list" where
  "prices_claude_35 =
    [(pricing_entry ''claude-3-5-sonnet'')
      \<lparr> g_input := 3000000, g_output := 15000000, g_cache5m := 3750000,
        g_cache1h := 3750000, g_cache_read := 300000 \<rparr>,
     (pricing_entry ''claude-3-5-haiku'')
      \<lparr> g_input := 800000, g_output := 4000000, g_cache5m := 1000000,
        g_cache1h := 1000000, g_cache_read := 80000 \<rparr>,
     (pricing_entry ''claude-3-5-sonnet-20241022'')
      \<lparr> g_input := 3000000, g_output := 15000000, g_cache5m := 3750000,
        g_cache1h := 3750000, g_cache_read := 300000 \<rparr>,
     (pricing_entry ''claude-3-5-sonnet-20240620'')
      \<lparr> g_input := 3000000, g_output := 15000000, g_cache5m := 3750000,
        g_cache1h := 3750000, g_cache_read := 300000 \<rparr>,
     (pricing_entry ''claude-3-5-haiku-20241022'')
      \<lparr> g_input := 800000, g_output := 4000000, g_cache5m := 1000000,
        g_cache1h := 1000000, g_cache_read := 80000 \<rparr>]"

definition prices_claude_3 :: "model_pricing list" where
  "prices_claude_3 =
    [(pricing_entry ''claude-3-opus'')
      \<lparr> g_input := 15000000, g_output := 75000000, g_cache5m := 18750000,
        g_cache1h := 18750000, g_cache_read := 1500000 \<rparr>,
     (pricing_entry ''claude-3-sonnet'')
      \<lparr> g_input := 3000000, g_output := 15000000, g_cache5m := 3750000,
        g_cache1h := 3750000, g_cache_read := 300000 \<rparr>,
     (pricing_entry ''claude-3-haiku'')
      \<lparr> g_input := 250000, g_output := 1250000, g_cache5m := 312500, g_cache1h := 312500,
        g_cache_read := 30000 \<rparr>]"

definition prices_gpt_5 :: "model_pricing list" where
  "prices_gpt_5 =
    map (\<lambda>(id, input, cacheRead, cacheWrite, output). (pricing_entry id)
      \<lparr> g_input := input, g_output := output, g_cache_read := cacheRead,
        g_cache5m := cacheWrite, g_cache1h := cacheWrite, g_has1m := True,
        g_threshold := 272000, g_in_num := 2, g_in_denom := 1, g_out_num := 3,
        g_out_denom := 2 \<rparr>)
      [(''gpt-5.6'', 5000000, 500000, 6250000, 30000000),
       (''gpt-5.6-sol'', 5000000, 500000, 6250000, 30000000),
       (''gpt-5.6-terra'', 2500000, 250000, 3125000, 15000000),
       (''gpt-5.6-luna'', 1000000, 100000, 1250000, 6000000)] @
    [(pricing_entry ''gpt-5.5'')
      \<lparr> g_input := 5000000, g_output := 30000000 \<rparr>,
     (pricing_entry ''gpt-5.5-pro'')
      \<lparr> g_input := 30000000, g_output := 180000000 \<rparr>,
     (pricing_entry ''gpt-5.1'')
      \<lparr> g_input := 1250000, g_output := 10000000, g_cache_read := 125000 \<rparr>,
     (pricing_entry ''gpt-5.1-codex'')
      \<lparr> g_input := 1250000, g_output := 10000000, g_cache_read := 125000 \<rparr>,
     (pricing_entry ''gpt-5.1-codex-max'')
      \<lparr> g_input := 1250000, g_output := 10000000, g_cache_read := 125000 \<rparr>,
     (pricing_entry ''gpt-5.2'')
      \<lparr> g_input := 1750000, g_output := 14000000, g_cache_read := 175000 \<rparr>,
     (pricing_entry ''gpt-5.2-codex'')
      \<lparr> g_input := 1750000, g_output := 14000000, g_cache_read := 175000 \<rparr>,
     (pricing_entry ''gpt-5.3'')
      \<lparr> g_input := 1750000, g_output := 14000000, g_cache_read := 175000 \<rparr>,
     (pricing_entry ''gpt-5.3-codex'')
      \<lparr> g_input := 1750000, g_output := 14000000, g_cache_read := 175000 \<rparr>,
     (pricing_entry ''gpt-5.4'')
      \<lparr> g_input := 2500000, g_output := 15000000, g_cache_read := 250000 \<rparr>,
     (pricing_entry ''gpt-5.4-mini'')
      \<lparr> g_input := 750000, g_output := 4500000, g_cache_read := 75000 \<rparr>]"

definition prices_gpt_image :: "model_pricing list" where
  "prices_gpt_image =
    map (\<lambda>id. (pricing_entry id)
      \<lparr> g_input := 5000000, g_output := 10000000, g_image_input := 8000000,
        g_image_output := 30000000, g_cache_read := 1250000 \<rparr>)
      [''gpt-image-2'', ''openai/gpt-image-2''] @
    map (\<lambda>id. (pricing_entry id)
      \<lparr> g_input := 8000000, g_output := 15000000, g_image_output := 30000000 \<rparr>)
      [''gpt-5.4-image-2'', ''openai/gpt-5.4-image-2''] @
    [(pricing_entry ''x-ai/grok-imagine-image-quality'')
      \<lparr> g_image_output := 11980000 \<rparr>]"

definition prices_gpt_4o :: "model_pricing list" where
  "prices_gpt_4o =
    [(pricing_entry ''gpt-4o'')
      \<lparr> g_input := 2500000, g_output := 10000000, g_cache_read := 1250000 \<rparr>,
     (pricing_entry ''gpt-4o-mini'')
      \<lparr> g_input := 150000, g_output := 600000, g_cache_read := 75000 \<rparr>]"

definition prices_gpt_41 :: "model_pricing list" where
  "prices_gpt_41 =
    [(pricing_entry ''gpt-4.1'')
      \<lparr> g_input := 2000000, g_output := 8000000, g_cache_read := 500000 \<rparr>,
     (pricing_entry ''gpt-4.1-mini'')
      \<lparr> g_input := 400000, g_output := 1600000, g_cache_read := 100000 \<rparr>,
     (pricing_entry ''gpt-4.1-nano'')
      \<lparr> g_input := 100000, g_output := 400000, g_cache_read := 25000 \<rparr>]"

definition prices_openai_o :: "model_pricing list" where
  "prices_openai_o =
    [(pricing_entry ''o1'')
      \<lparr> g_input := 15000000, g_output := 60000000, g_cache_read := 7500000 \<rparr>,
     (pricing_entry ''o1-mini'')
      \<lparr> g_input := 1100000, g_output := 4400000, g_cache_read := 550000 \<rparr>,
     (pricing_entry ''o1-pro'')
      \<lparr> g_input := 150000000, g_output := 600000000, g_cache_read := 75000000 \<rparr>,
     (pricing_entry ''o3'')
      \<lparr> g_input := 2000000, g_output := 8000000, g_cache_read := 1000000 \<rparr>,
     (pricing_entry ''o3-mini'')
      \<lparr> g_input := 1100000, g_output := 4400000, g_cache_read := 550000 \<rparr>,
     (pricing_entry ''o4-mini'')
      \<lparr> g_input := 1100000, g_output := 4400000, g_cache_read := 550000 \<rparr>]"

definition prices_gemini_3 :: "model_pricing list" where
  "prices_gemini_3 =
    [(pricing_entry ''gemini-3-pro-preview'')
      \<lparr> g_input := 2000000, g_output := 12000000, g_cache_read := 200000 \<rparr>,
     (pricing_entry ''gemini-3-flash-preview'')
      \<lparr> g_input := 500000, g_output := 3000000, g_cache_read := 50000 \<rparr>] @
    map (\<lambda>id. (pricing_entry id)
      \<lparr> g_input := 2000000, g_output := 12000000, g_image_output := 120000000 \<rparr>)
      [''gemini-3-pro-image'', ''google/gemini-3-pro-image''] @
    map (\<lambda>id. (pricing_entry id)
      \<lparr> g_input := 500000, g_output := 3000000, g_image_output := 60000000 \<rparr>)
      [''gemini-3.1-flash-image'', ''google/gemini-3.1-flash-image''] @
    map (\<lambda>id. (pricing_entry id)
      \<lparr> g_input := 250000, g_output := 1500000, g_image_output := 30000000 \<rparr>)
      [''gemini-3.1-flash-lite-image'', ''google/gemini-3.1-flash-lite-image'']"

definition prices_gemini_25 :: "model_pricing list" where
  "prices_gemini_25 =
    [(pricing_entry ''gemini-2.5-pro'')
      \<lparr> g_input := 1250000, g_output := 10000000, g_cache_read := 312500 \<rparr>,
     (pricing_entry ''gemini-2.5-flash'')
      \<lparr> g_input := 150000, g_output := 600000, g_cache_read := 37500 \<rparr>,
     (pricing_entry ''gemini-2.5-flash-lite'')
      \<lparr> g_input := 100000, g_output := 400000, g_cache_read := 25000 \<rparr>] @
    map (\<lambda>id. (pricing_entry id)
      \<lparr> g_input := 300000, g_output := 2500000, g_image_output := 30000000 \<rparr>)
      [''gemini-2.5-flash-image'', ''google/gemini-2.5-flash-image'']"

definition prices_gemini_20 :: "model_pricing list" where
  "prices_gemini_20 =
    [(pricing_entry ''gemini-2.0-flash'')
      \<lparr> g_input := 100000, g_output := 400000, g_cache_read := 25000 \<rparr>,
     (pricing_entry ''gemini-2.0-flash-lite'')
      \<lparr> g_input := 75000, g_output := 300000, g_cache_read := 18750 \<rparr>]"

definition prices_gemini_15 :: "model_pricing list" where
  "prices_gemini_15 =
    [(pricing_entry ''gemini-1.5-pro'')
      \<lparr> g_input := 1250000, g_output := 5000000, g_cache_read := 312500 \<rparr>,
     (pricing_entry ''gemini-1.5-flash'')
      \<lparr> g_input := 75000, g_output := 300000, g_cache_read := 18750 \<rparr>,
     (pricing_entry ''gemini-1.5-flash-8b'')
      \<lparr> g_input := 37500, g_output := 150000, g_cache_read := 10000 \<rparr>]"

definition prices_deepseek :: "model_pricing list" where
  "prices_deepseek =
    [(pricing_entry ''deepseek-chat'')
      \<lparr> g_input := 270000, g_output := 1100000, g_cache_read := 70000 \<rparr>,
     (pricing_entry ''deepseek-reasoner'')
      \<lparr> g_input := 550000, g_output := 2190000, g_cache_read := 140000 \<rparr>]"

definition default_pricings :: "model_pricing list" where
  "default_pricings =
    prices_claude_45 @ prices_claude_4 @ prices_claude_37 @ prices_claude_35 @
    prices_claude_3 @ prices_gpt_5 @ prices_gpt_image @ prices_gpt_4o @
    prices_gpt_41 @ prices_openai_o @ prices_gemini_3 @ prices_gemini_25 @
    prices_gemini_20 @ prices_gemini_15 @ prices_deepseek"

definition initDefaultPrices :: priceTable where
  "initDefaultPrices = table_of ''2025.01'' default_pricings"

text \<open>\<open>DefaultPriceTable\<close> builds the table once and returns it from then on.\<close>

definition DefaultPriceTable :: priceTable where
  "DefaultPriceTable = initDefaultPrices"

section \<open>Facts on the table\<close>

lemmas price_sections = prices_claude_45_def prices_claude_4_def prices_claude_37_def prices_claude_35_def prices_claude_3_def prices_gpt_5_def prices_gpt_image_def prices_gpt_4o_def prices_gpt_41_def prices_openai_o_def prices_gemini_3_def prices_gemini_25_def prices_gemini_20_def prices_gemini_15_def prices_deepseek_def

lemma default_pricings_distinct: "distinct (map g_model_id default_pricings)"
  by (simp add: default_pricings_def price_sections pricing_entry_def)

lemma default_models: 
  "pt_models DefaultPriceTable = map (\<lambda>p. (g_model_id p, p)) default_pricings"
  by (simp add: DefaultPriceTable_def initDefaultPrices_def table_of_distinct
      default_pricings_distinct)

text \<open>Every price of the table is at most 600 dollars per million tokens, and every premium that
  is set is at least one and at most three.\<close>

definition price_bound :: u64 where "price_bound = 600000000"

definition pricing_bounded :: "model_pricing \<Rightarrow> bool" where
  "pricing_bounded p =
     (list_all (\<lambda>v. v \<le> price_bound)
        [g_input p, g_output p, g_cache_read p, g_cache5m p, g_cache1h p, g_image_input p,
         g_image_output p] \<and>
      GetInputPremiumDenom p \<le> GetInputPremiumNum p \<and> GetInputPremiumNum p \<le> 3 \<and>
      GetOutputPremiumDenom p \<le> GetOutputPremiumNum p \<and> GetOutputPremiumNum p \<le> 3)"

lemmas pricing_bounded_eval = pricing_bounded_def price_bound_def pricing_entry_def
  GetInputPremiumNum_def GetInputPremiumDenom_def GetOutputPremiumNum_def
  GetOutputPremiumDenom_def

lemma default_pricings_bounded: "list_all pricing_bounded default_pricings"
  by (simp add: default_pricings_def price_sections pricing_bounded_eval)

lemma class_cost_bound:
  assumes "t \<le> T" and "p \<le> P" and "n \<le> N" and "1 \<le> N"
  shows "class_cost pr t p n d \<le> T * P * N div 1000"
proof -
  have tp: "t * p * n \<le> T * P * N" using assms by (intro mult_le_mono)
  have "t * p * 1 \<le> T * P * N" using assms by (intro mult_le_mono)
  then have tp1: "t * p \<le> T * P * N" by simp
  have "t * p * 1000 * n div 1000000 div d \<le> t * p * 1000 * n div 1000000"
    by (rule div_le_dividend)
  also have "\<dots> = t * p * n * 1000 div (1000 * 1000)" by (simp add: ac_simps)
  also have "\<dots> = t * p * n div 1000" by (simp only: div_mult_mult2)
  also have "\<dots> \<le> T * P * N div 1000" using tp by (rule div_le_mono)
  finally have "t * p * 1000 * n div 1000000 div d \<le> T * P * N div 1000" .
  moreover have "t * p * 1000 div 1000000 \<le> T * P * N div 1000"
    using div_le_mono [OF tp1, of 1000] by (simp add: mult.commute)
  ultimately show ?thesis by (simp add: class_cost_def)
qed

definition counts_below :: "nat \<Rightarrow> metrics \<Rightarrow> bool" where
  "counts_below B m =
     list_all (\<lambda>v. unat v < B)
       [m_input m, m_output m, m_cache_creation m, m_cache_read m, m_cache5m m, m_cache1h m]"

lemma nat_default_le: "v \<le> b \<Longrightarrow> d \<le> b \<Longrightarrow> nat_default v d \<le> b"
  by (simp add: nat_default_def)

lemma bounded_request_cost:
  assumes "pricing_bounded mp" and "counts_below (2 ^ 32) m"
  shows "request_cost (ConvertToDBPrice mp) m < 2 ^ 64"
proof -
  have prices: "unat (g_input mp) \<le> 600000000" "unat (g_output mp) \<le> 600000000"
    "unat (g_cache_read mp) \<le> 600000000" "unat (g_cache5m mp) \<le> 600000000"
    "unat (g_cache1h mp) \<le> 600000000" "unat (g_image_input mp) \<le> 600000000"
    "unat (g_image_output mp) \<le> 600000000"
    using assms(1) by (simp_all add: pricing_bounded_def price_bound_def word_le_nat_alt)
  have nums: "nat_default (unat (g_in_num mp)) 2 \<le> 3" "nat_default (unat (g_out_num mp)) 3 \<le> 3"
    using assms(1)
    by (simp_all add: pricing_bounded_def word_le_nat_alt nat_default_def GetInputPremiumNum_def
        GetOutputPremiumNum_def word_pos_unat split: if_splits)
  have counts: "unat (m_input m) \<le> 2 ^ 32" "unat (m_output m) \<le> 2 ^ 32"
    "unat (m_cache_creation m) \<le> 2 ^ 32" "unat (m_cache_read m) \<le> 2 ^ 32"
    "unat (m_cache5m m) \<le> 2 ^ 32" "unat (m_cache1h m) \<le> 2 ^ 32"
    using assms(2) by (simp_all add: counts_below_def)
  have legacy: "unat (legacyCacheWrite m) \<le> 2 ^ 32"
    using counts(3) by (simp add: legacyCacheWrite_def)
  let ?B = "2 ^ 32 * 1200000000 * 3 div 1000 :: nat"
  have bound: "class_cost pr t p n d \<le> ?B"
    if "t \<le> 2 ^ 32" "p \<le> 1200000000" "n \<le> 3" for pr t p n d
    using class_cost_bound [OF that, of pr d] by simp
  have le: "min a b \<le> c" "a - b \<le> c" if "a \<le> c" for a b c :: nat using that by auto
  have derived: "unat (g_input mp) * 5 div 4 \<le> 1200000000" "unat (g_input mp) div 10 \<le> 1200000000"
    "unat (g_input mp) * 2 \<le> 1200000000" using prices(1) by linarith+
  have wide: "a \<le> (1200000000::nat)" if "a \<le> 600000000" for a using that by simp
  note small = counts legacy nums derived prices [THEN wide] le nat_default_le
  have "request_cost (ConvertToDBPrice mp) m \<le> ?B + ?B + ?B + ?B + ?B + ?B + ?B + ?B"
    unfolding request_cost_def Let_def ConvertToDBPrice_def model_price.simps
    by (intro add_mono bound; (intro small)?)
  also have "\<dots> < 2 ^ 64" by simp
  finally show ?thesis .
qed

end
