(* ===== verification/Pricing_Calculator.thy ===== *)
theory Pricing_Calculator
  imports Default_Prices
begin

text \<open>
  The price calculator of \<^verbatim>\<open>internal/pricing/calculator.go\<close> with its two indexes and its lazily
  filled history, and the consumers of \<^verbatim>\<open>attempt.go\<close> and \<^verbatim>\<open>writeback.go\<close>: costing an attempt when
  it finishes and recomputing a stored attempt with the price it was billed at.
\<close>

section \<open>The calculator\<close>

definition DefaultMultiplier :: u64 where "DefaultMultiplier = 10000"

record cost_result =
  r_cost :: u64
  r_price_id :: u64
  r_multiplier :: u64

type_synonym db_error = string

text \<open>\<open>HistoricalLookup\<close> is a query of the database: an error, no row, or a row.\<close>

type_synonym historical_lookup = "u64 \<Rightarrow> db_error + model_price option"

record calculator =
  c_by_key :: "(string \<times> model_price) list"
  c_by_id :: "(u64 \<times> model_price) list"
  c_historical :: "historical_lookup option"

definition loadBuiltinsLocked :: "calculator \<Rightarrow> calculator" where
  "loadBuiltinsLocked c =
     c \<lparr> c_by_key := fold (\<lambda>mp. AList.update (p_model_id mp) mp)
           (ConvertToDBPrices DefaultPriceTable) (c_by_key c) \<rparr>"

definition NewCalculator :: calculator where
  "NewCalculator = loadBuiltinsLocked \<lparr> c_by_key = [], c_by_id = [], c_historical = None \<rparr>"

definition load_row :: "model_price \<Rightarrow> calculator \<Rightarrow> calculator" where
  "load_row p c = c \<lparr> c_by_key := AList.update (p_model_id p) p (c_by_key c),
                      c_by_id := AList.update (p_id p) p (c_by_id c) \<rparr>"

definition LoadFromDatabase :: "model_price list \<Rightarrow> calculator \<Rightarrow> calculator" where
  "LoadFromDatabase prices c =
     fold load_row prices (loadBuiltinsLocked (c \<lparr> c_by_key := [], c_by_id := [] \<rparr>))"

definition lookupLocked :: "(string \<times> model_price) list \<Rightarrow> string \<Rightarrow> model_price option" where
  "lookupLocked pricesByKey model =
     (case map_of pricesByKey model of
        Some p \<Rightarrow> Some p
      | None \<Rightarrow> prefix_scan pricesByKey model None 0)"

definition GetModelPrice :: "calculator \<Rightarrow> string \<Rightarrow> model_price option" where
  "GetModelPrice c model = lookupLocked (c_by_key c) model"

definition GetModelPriceByID :: "calculator \<Rightarrow> u64 \<Rightarrow> model_price option" where
  "GetModelPriceByID c i = map_of (c_by_id c) i"

definition SetHistoricalLookup :: "historical_lookup option \<Rightarrow> calculator \<Rightarrow> calculator" where
  "SetHistoricalLookup f c = c \<lparr> c_historical := f \<rparr>"

text \<open>The second critical section of \<open>resolvePriceByID\<close>: another goroutine may have filled the
  entry since the first one, and then its row is kept.\<close>

definition fillPriceByID :: "u64 \<Rightarrow> model_price \<Rightarrow> calculator \<Rightarrow> calculator \<times> model_price" where
  "fillPriceByID i p c =
     (case map_of (c_by_id c) i of
        Some existing \<Rightarrow> (c, existing)
      | None \<Rightarrow> (c \<lparr> c_by_id := AList.update i p (c_by_id c) \<rparr>, p))"

definition resolvePriceByID ::
  "u64 \<Rightarrow> calculator \<Rightarrow> calculator \<times> (db_error + model_price option)" where
  "resolvePriceByID i c =
     (if i = 0 then (c, Inr None)
      else case map_of (c_by_id c) i of
        Some p \<Rightarrow> (c, Inr (Some p))
      | None \<Rightarrow>
          (case c_historical c of
             None \<Rightarrow> (c, Inr None)
           | Some lookup \<Rightarrow>
               (case lookup i of
                  Inl err \<Rightarrow> (c, Inl err)
                | Inr None \<Rightarrow> (c, Inr None)
                | Inr (Some p) \<Rightarrow>
                    (let (c', q) = fillPriceByID i p c in (c', Inr (Some q))))))"

definition normal_multiplier :: "u64 \<Rightarrow> u64" where
  "normal_multiplier m = (if m = 0 then DefaultMultiplier else m)"

definition applyMultiplier :: "u64 \<Rightarrow> u64 \<Rightarrow> u64" where
  "applyMultiplier cost multiplier =
     (if multiplier \<noteq> DefaultMultiplier then cost * multiplier div DefaultMultiplier else cost)"

definition applyPrice :: "model_price \<Rightarrow> metrics \<Rightarrow> u64 \<Rightarrow> cost_result" where
  "applyPrice price m multiplier =
     \<lparr> r_cost = applyMultiplier (computeCost price m) multiplier,
       r_price_id = p_id price, r_multiplier = multiplier \<rparr>"

definition zero_cost :: "u64 \<Rightarrow> cost_result" where
  "zero_cost multiplier = \<lparr> r_cost = 0, r_price_id = 0, r_multiplier = multiplier \<rparr>"

definition Calculate :: "calculator \<Rightarrow> string \<Rightarrow> metrics option \<Rightarrow> u64 \<Rightarrow> cost_result" where
  "Calculate c model mo multiplier0 =
     (let multiplier = normal_multiplier multiplier0
      in case mo of
           None \<Rightarrow> zero_cost multiplier
         | Some m \<Rightarrow>
             (case lookupLocked (c_by_key c) model of
                None \<Rightarrow> zero_cost multiplier
              | Some price \<Rightarrow> applyPrice price m multiplier))"

definition CalculateByPriceID ::
  "u64 \<Rightarrow> metrics option \<Rightarrow> u64 \<Rightarrow> calculator \<Rightarrow> calculator \<times> (db_error + cost_result option)" where
  "CalculateByPriceID priceID mo multiplier0 c =
     (let multiplier = normal_multiplier multiplier0
      in case mo of
           None \<Rightarrow> (c, Inr None)
         | Some m \<Rightarrow>
             (case resolvePriceByID priceID c of
                (c', Inl err) \<Rightarrow> (c', Inl err)
              | (c', Inr None) \<Rightarrow> (c', Inr None)
              | (c', Inr (Some price)) \<Rightarrow> (c', Inr (Some (applyPrice price m multiplier)))))"

text \<open>In the result of \<open>CalculateByPriceID\<close>, \<open>Inl\<close> is a lookup error, \<open>Inr None\<close> is \<open>ok = false\<close>
  (the cost result is then empty and unused by the callers), \<open>Inr (Some r)\<close> is \<open>ok = true\<close>.\<close>

section \<open>Attempts (attempt.go, writeback.go)\<close>

text \<open>The fields of an upstream attempt that costing reads or writes; \<open>AttemptCostData\<close> has the
  same ones.\<close>

record attempt =
  a_request_model :: string
  a_mapped_model :: string
  a_response_model :: string
  a_input :: u64
  a_output :: u64
  a_input_image :: u64
  a_output_image :: u64
  a_cache_read :: u64
  a_cache_write :: u64
  a_cache5m :: u64
  a_cache1h :: u64
  a_price_id :: u64
  a_multiplier :: u64
  a_cost :: u64
  a_upstream_cost :: u64

definition PricingModel :: "string \<Rightarrow> string \<Rightarrow> string \<Rightarrow> string" where
  "PricingModel responseModel mappedModel requestModel =
     (if responseModel \<noteq> '''' then responseModel
      else if mappedModel \<noteq> '''' then mappedModel
      else requestModel)"

definition attemptMetrics :: "attempt \<Rightarrow> metrics" where
  "attemptMetrics a =
     \<lparr> m_input = a_input a, m_output = a_output a,
       m_cache_creation = a_cache_write a, m_cache_read = a_cache_read a,
       m_cache5m = a_cache5m a, m_cache1h = a_cache1h a,
       m_input_image = a_input_image a, m_output_image = a_output_image a,
       m_upstream_cost = a_upstream_cost a \<rparr>"

record cost_update =
  u_cost :: u64
  u_price_id :: u64

definition no_update :: cost_update where
  "no_update = \<lparr> u_cost = 0, u_price_id = 0 \<rparr>"

text \<open>The result of a recomputation: the cost, the update to store, and whether it changed.\<close>

definition recalc_result ::
  "u64 \<Rightarrow> u64 \<Rightarrow> u64 \<Rightarrow> u64 \<Rightarrow> u64 \<times> cost_update \<times> bool" where
  "recalc_result cost priceID currentCost currentModelPriceID =
     (if cost = currentCost \<and> priceID = currentModelPriceID then (cost, no_update, False)
      else (cost, \<lparr> u_cost = cost, u_price_id = priceID \<rparr>, True))"

definition reported_cost :: "metrics option \<Rightarrow> u64" where
  "reported_cost mo = (case mo of None \<Rightarrow> 0 | Some m \<Rightarrow> m_upstream_cost m)"

definition RecalcAttemptUpdate ::
  "string \<Rightarrow> metrics option \<Rightarrow> u64 \<Rightarrow> u64 \<Rightarrow> u64 \<Rightarrow> calculator \<Rightarrow>
     calculator \<times> (u64 \<times> cost_update \<times> bool)" where
  "RecalcAttemptUpdate model mo multiplier currentCost currentModelPriceID c =
     (if 0 < reported_cost mo
      then (let mul = normal_multiplier multiplier;
                cost = applyMultiplier (reported_cost mo) mul
            in (c, recalc_result cost 0 currentCost currentModelPriceID))
      else if currentModelPriceID \<noteq> 0
      then (case CalculateByPriceID currentModelPriceID mo multiplier c of
              (c', Inl err) \<Rightarrow> (c', (currentCost, no_update, False))
            | (c', Inr (Some r)) \<Rightarrow>
                (c', recalc_result (r_cost r) (r_price_id r) currentCost currentModelPriceID)
            | (c', Inr None) \<Rightarrow>
                (let r = Calculate c' model mo multiplier
                 in (c', recalc_result (r_cost r) (r_price_id r)
                           currentCost currentModelPriceID)))
      else (let r = Calculate c model mo multiplier
            in (c, recalc_result (r_cost r) (r_price_id r) currentCost currentModelPriceID)))"

definition RecalcFromAttempt ::
  "attempt \<Rightarrow> calculator \<Rightarrow> calculator \<times> (u64 \<times> cost_update \<times> bool)" where
  "RecalcFromAttempt a c =
     RecalcAttemptUpdate
       (PricingModel (a_response_model a) (a_mapped_model a) (a_request_model a))
       (Some (attemptMetrics a)) (a_multiplier a) (a_cost a) (a_price_id a) c"

definition RecalcFromCostData ::
  "attempt \<Rightarrow> calculator \<Rightarrow> calculator \<times> (u64 \<times> cost_update \<times> bool)" where
  "RecalcFromCostData a c =
     RecalcAttemptUpdate
       (PricingModel (a_response_model a) (a_mapped_model a) (a_request_model a))
       (Some (attemptMetrics a)) (a_multiplier a) (a_cost a) (a_price_id a) c"

definition hasBillableTokens :: "attempt \<Rightarrow> bool" where
  "hasBillableTokens a =
     (0 < a_input a \<or> 0 < a_output a \<or> 0 < a_cache_read a \<or> 0 < a_cache_write a \<or>
      0 < a_cache5m a \<or> 0 < a_cache1h a)"

definition FinalizeAttemptCost ::
  "calculator \<Rightarrow> attempt option \<Rightarrow> u64 \<Rightarrow> attempt option \<times> cost_result" where
  "FinalizeAttemptCost c ao multiplier =
     (let mul = normal_multiplier multiplier
      in case ao of
           None \<Rightarrow> (None, zero_cost mul)
         | Some a \<Rightarrow>
             if 0 < a_upstream_cost a
             then (let cost = applyMultiplier (a_upstream_cost a) mul
                   in (Some (a \<lparr> a_cost := cost, a_price_id := 0, a_multiplier := mul \<rparr>),
                       \<lparr> r_cost = cost, r_price_id = 0, r_multiplier = mul \<rparr>))
             else if \<not> hasBillableTokens a
             then (Some (a \<lparr> a_multiplier := mul \<rparr>), zero_cost mul)
             else (let pricingModel = (if a_response_model a = '''' then a_mapped_model a
                                       else a_response_model a);
                       res = Calculate c pricingModel
                         (Some ((attemptMetrics a) \<lparr> m_upstream_cost := 0 \<rparr>)) mul
                   in (Some (a \<lparr> a_cost := r_cost res, a_price_id := r_price_id res,
                                 a_multiplier := r_multiplier res \<rparr>), res)))"

text \<open>The billing fields of a proxy request that are mirrored from its attempt.\<close>

record request_cost_fields =
  q_cost :: u64
  q_price_id :: u64
  q_multiplier :: u64
  q_input :: u64
  q_output :: u64
  q_cache_read :: u64
  q_cache_write :: u64
  q_cache5m :: u64
  q_cache1h :: u64

definition MirrorCostToRequest ::
  "request_cost_fields option \<Rightarrow> attempt option \<Rightarrow> request_cost_fields option" where
  "MirrorCostToRequest req ao =
     (case (req, ao) of
        (Some q, Some a) \<Rightarrow>
          Some (q \<lparr> q_cost := a_cost a, q_price_id := a_price_id a,
                    q_multiplier := a_multiplier a, q_input := a_input a,
                    q_output := a_output a, q_cache_read := a_cache_read a,
                    q_cache_write := a_cache_write a, q_cache5m := a_cache5m a,
                    q_cache1h := a_cache1h a \<rparr>)
      | _ \<Rightarrow> req)"

section \<open>Lookup by model name\<close>

interpretation calc: prefix_lookup lookupLocked
  by unfold_locales (simp_all add: lookupLocked_def)

section \<open>Well-formed calculators\<close>

text \<open>
  Both indexes are maps, the index by identifier is keyed by the row's own identifier, and every
  database row the index by name holds is also held by the index by identifier.
\<close>

definition calc_wf :: "calculator \<Rightarrow> bool" where
  "calc_wf c \<longleftrightarrow>
     wf_map (c_by_key c) \<and> wf_map (c_by_id c) \<and>
     all_entries (\<lambda>i p. p_id p = i) (c_by_id c) \<and>
     all_entries
       (\<lambda>k p. p_model_id p = k \<and> (p_id p \<noteq> 0 \<longrightarrow> map_of (c_by_id c) (p_id p) = Some p))
       (c_by_key c)"

text \<open>The history query returns the row it was asked for.\<close>

definition history_ok :: "calculator \<Rightarrow> bool" where
  "history_ok c \<longleftrightarrow>
     (\<forall>lookup i p. c_historical c = Some lookup \<longrightarrow> lookup i = Inr (Some p) \<longrightarrow> p_id p = i)"

lemma fold_update_keyed:
  "wf_map m \<Longrightarrow> all_entries Q m \<Longrightarrow> \<forall>p \<in> set ps. Q (f p) p \<Longrightarrow>
   wf_map (fold (\<lambda>p. AList.update (f p) p) ps m) \<and>
   all_entries Q (fold (\<lambda>p. AList.update (f p) p) ps m)"
  by (induction ps arbitrary: m) (simp_all add: wf_intros)

lemma builtins_keyed:
  assumes "c_by_key c = []"
  shows "wf_map (c_by_key (loadBuiltinsLocked c)) \<and>
   all_entries (\<lambda>k p. p_model_id p = k \<and> p_id p = 0) (c_by_key (loadBuiltinsLocked c))"
  using fold_update_keyed [of "[]" "\<lambda>k p. p_model_id p = k \<and> p_id p = 0"
      "ConvertToDBPrices DefaultPriceTable" p_model_id]
  by (simp add: loadBuiltinsLocked_def assms ConvertToDBPrices_def ConvertToDBPrice_def split_def)

lemma builtins_wf:
  assumes "c_by_key c = []" and "c_by_id c = []"
  shows "calc_wf (loadBuiltinsLocked c)"
  using builtins_keyed [OF assms(1)] assms
  by (auto simp: calc_wf_def loadBuiltinsLocked_def elim!: all_entries_mono)

lemma NewCalculator_wf: "calc_wf NewCalculator"
  unfolding NewCalculator_def by (rule builtins_wf) simp_all

lemma load_row_wf:
  assumes "calc_wf c" and "map_of (c_by_id c) (p_id p) = None"
  shows "calc_wf (load_row p c)"
proof -
  have keep: "map_of (AList.update (p_id p) p (c_by_id c)) i = Some q"
    if "map_of (c_by_id c) i = Some q" for i q
    using that assms(2) by (auto simp: go_map simp del: map_of_eq_None_iff map_of_eq_Some_iff)
  have "all_entries (\<lambda>k q. p_model_id q = k \<and>
      (p_id q \<noteq> 0 \<longrightarrow> map_of (AList.update (p_id p) p (c_by_id c)) (p_id q) = Some q))
    (c_by_key c)"
    using assms(1) keep unfolding calc_wf_def by (blast intro: all_entries_mono)
  then show ?thesis
    using assms(1) by (simp add: calc_wf_def load_row_def wf_intros go_map)
qed

lemma load_rows_wf:
  "calc_wf c \<Longrightarrow> distinct (map p_id ps) \<Longrightarrow> \<forall>p \<in> set ps. map_of (c_by_id c) (p_id p) = None \<Longrightarrow>
   calc_wf (fold load_row ps c)"
proof (induction ps arbitrary: c)
  case (Cons p ps)
  have "\<forall>q \<in> set ps. map_of (c_by_id (load_row p c)) (p_id q) = None"
    using Cons.prems(2,3)
    by (auto simp: load_row_def go_map simp del: map_of_eq_None_iff) (metis image_eqI)
  with Cons show ?case by (simp add: load_row_wf)
qed simp

lemma LoadFromDatabase_wf:
  assumes "distinct (map p_id prices)"
  shows "calc_wf (LoadFromDatabase prices c)"
proof -
  let ?c0 = "loadBuiltinsLocked (c \<lparr> c_by_key := [], c_by_id := [] \<rparr>)"
  have "calc_wf ?c0" by (rule builtins_wf) simp_all
  moreover have "c_by_id ?c0 = []" by (simp add: loadBuiltinsLocked_def)
  ultimately show ?thesis by (simp add: LoadFromDatabase_def load_rows_wf assms)
qed

section \<open>Recomputing a stored attempt\<close>

lemma resolvePriceByID_found:
  assumes "calc_wf c" and "history_ok c" and "resolvePriceByID i c = (c', Inr (Some p))"
  shows "p_id p = i \<and> i \<noteq> 0 \<and> map_of (c_by_id c') i = Some p"
proof (cases "map_of (c_by_id c) i")
  case None
  then show ?thesis
    using assms
    by (auto simp: resolvePriceByID_def fillPriceByID_def history_ok_def go_map
        simp del: map_of_eq_None_iff split: if_splits option.splits sum.splits)
next
  case (Some q)
  then have "p_id q = i"
    using assms(1) unfolding calc_wf_def by (blast dest: all_entriesD)
  then show ?thesis
    using assms(3) Some
    by (auto simp: resolvePriceByID_def simp del: map_of_eq_Some_iff split: if_splits)
qed

lemma resolvePriceByID_by_key [simp]: "c_by_key (fst (resolvePriceByID i c)) = c_by_key c"
  by (simp add: resolvePriceByID_def fillPriceByID_def split: option.split sum.split)

text \<open>Rows already known are never replaced by the history.\<close>

lemma resolvePriceByID_keeps:
  "map_of (c_by_id c) j = Some q \<Longrightarrow> map_of (c_by_id (fst (resolvePriceByID i c))) j = Some q"
  by (auto simp: resolvePriceByID_def fillPriceByID_def go_map
      simp del: map_of_eq_Some_iff map_of_eq_None_iff split: option.split sum.split)

lemma resolvePriceByID_wf:
  assumes "calc_wf c" and "history_ok c"
  shows "calc_wf (fst (resolvePriceByID i c))"
proof -
  have keys: "all_entries (\<lambda>k p. p_model_id p = k \<and>
      (p_id p \<noteq> 0 \<longrightarrow> map_of (c_by_id (fst (resolvePriceByID i c))) (p_id p) = Some p))
    (c_by_key c)"
    using assms(1) resolvePriceByID_keeps [of c _ _ i] unfolding calc_wf_def
    by (blast intro: all_entries_mono)
  show ?thesis
    using assms keys unfolding calc_wf_def
    by (auto simp: resolvePriceByID_def fillPriceByID_def history_ok_def wf_intros
        simp del: map_of_eq_Some_iff map_of_eq_None_iff split: option.splits sum.splits)
qed

lemma cached_price:
  assumes "i \<noteq> 0" and "map_of (c_by_id c) i = Some p"
  shows "resolvePriceByID i c = (c, Inr (Some p))"
  using assms by (simp add: resolvePriceByID_def del: map_of_eq_Some_iff)

lemma CalculateByPriceID_cases:
  assumes "calc_wf c" and "history_ok c"
    and "CalculateByPriceID i (Some m) mul c = (c', Inr (Some r))"
  shows "r_price_id r = i \<and> CalculateByPriceID i (Some m) mul c' = (c', Inr (Some r))"
proof -
  obtain p where p: "resolvePriceByID i c = (c', Inr (Some p))"
    and r: "r = applyPrice p m (normal_multiplier mul)"
    using assms(3) by (auto simp: CalculateByPriceID_def Let_def split: prod.splits sum.splits
        option.splits)
  note found = resolvePriceByID_found [OF assms(1,2) p]
  then show ?thesis
    using cached_price [of i c' p] r by (simp add: CalculateByPriceID_def applyPrice_def Let_def)
qed

lemma lookupLocked_in: "lookupLocked m model = Some p \<Longrightarrow> \<exists>k. map_of m k = Some p \<or> (k, p) \<in> set m"
proof (cases "map_of m model")
  case None
  assume "lookupLocked m model = Some p"
  with None have scan: "prefix_scan m model None 0 = Some p" by (simp add: lookupLocked_def)
  have "prefix_scan es md b n = Some p \<Longrightarrow> b = Some p \<or> (\<exists>k. (k, p) \<in> set es)" for es md b n
    by (induction es md b n rule: prefix_scan.induct) (auto split: if_splits)
  from this [OF scan] show ?thesis by auto
qed (auto simp: lookupLocked_def)

text \<open>A row the name lookup returns is also found under its identifier.\<close>

lemma lookup_then_by_id:
  assumes "calc_wf c" and "lookupLocked (c_by_key c) model = Some p" and "p_id p \<noteq> 0"
  shows "map_of (c_by_id c) (p_id p) = Some p"
proof -
  obtain k where "(k, p) \<in> set (c_by_key c)"
    using lookupLocked_in [OF assms(2)] by (auto dest: map_of_SomeD)
  then show ?thesis
    using assms(1,3) by (auto simp: calc_wf_def all_entries_def list_all_iff)
qed

lemma Calculate_then_by_id:
  assumes "calc_wf c" and "r_price_id (Calculate c model (Some m) mul) \<noteq> 0"
  shows "CalculateByPriceID (r_price_id (Calculate c model (Some m) mul)) (Some m) mul c =
    (c, Inr (Some (Calculate c model (Some m) mul)))"
proof -
  obtain p where p: "lookupLocked (c_by_key c) model = Some p"
    using assms(2) by (auto simp: Calculate_def Let_def zero_cost_def split: option.splits)
  then have r: "Calculate c model (Some m) mul = applyPrice p m (normal_multiplier mul)"
    by (simp add: Calculate_def Let_def)
  then have "r_price_id (Calculate c model (Some m) mul) = p_id p" by (simp add: applyPrice_def)
  moreover have "map_of (c_by_id c) (p_id p) = Some p"
    using lookup_then_by_id [OF assms(1) p] assms(2) r by (simp add: applyPrice_def)
  ultimately show ?thesis
    using assms(2) r cached_price [of "p_id p" c p] by (simp add: CalculateByPriceID_def Let_def)
qed

lemma recalc_result_same [simp]: "recalc_result cost i cost i = (cost, no_update, False)"
  by (simp add: recalc_result_def)

lemma recalc_result_again:
  "recalc_result cost i cost0 i0 = (cost', upd, True) \<Longrightarrow>
   cost' = cost \<and> u_cost upd = cost \<and> u_price_id upd = i \<and>
   recalc_result cost i (u_cost upd) (u_price_id upd) = (cost, no_update, False)"
  by (auto simp: recalc_result_def split: if_splits)

lemma resolve_by_key_eq: "resolvePriceByID i c = (c', r) \<Longrightarrow> c_by_key c' = c_by_key c"
  using resolvePriceByID_by_key [of i c] by simp

lemma CalculateByPriceID_state:
  assumes "calc_wf c" and "history_ok c" and "CalculateByPriceID i mo mul c = (c', r)"
  shows "calc_wf c' \<and> c_by_key c' = c_by_key c"
proof (cases mo)
  case None
  then show ?thesis using assms by (simp add: CalculateByPriceID_def Let_def)
next
  case (Some m)
  then have "c' = fst (resolvePriceByID i c)"
    using assms(3)
    by (auto simp: CalculateByPriceID_def Let_def split: prod.splits sum.splits option.splits)
  then show ?thesis using resolvePriceByID_wf [OF assms(1,2)] by simp
qed

lemma Calculate_None [simp]: "Calculate c model None mul = zero_cost (normal_multiplier mul)"
  by (simp add: Calculate_def Let_def)

text \<open>The result of billing by the current price is a fixpoint of the recomputation.\<close>

lemma recalc_current_price:
  assumes "calc_wf c" and "reported_cost mo = 0"
    and "r = Calculate c model mo mul"
  shows "RecalcAttemptUpdate model mo mul (r_cost r) (r_price_id r) c =
    (c, (r_cost r, no_update, False))"
proof (cases mo)
  case None
  with assms show ?thesis
    by (simp add: RecalcAttemptUpdate_def zero_cost_def recalc_result_def Let_def)
next
  case (Some m)
  show ?thesis
  proof (cases "r_price_id r = 0")
    case True
    with assms Some show ?thesis
      by (simp add: RecalcAttemptUpdate_def recalc_result_def Let_def)
  next
    case False
    with assms(3) Some have "CalculateByPriceID (r_price_id r) mo mul c = (c, Inr (Some r))"
      using Calculate_then_by_id [OF assms(1), of model m mul] by simp
    with assms False show ?thesis
      by (simp add: RecalcAttemptUpdate_def recalc_result_def)
  qed
qed

lemma recalc_idempotent:
  assumes wf: "calc_wf c" "history_ok c"
    and first: "RecalcAttemptUpdate model mo mul cost i c = (c', (cost', upd, True))"
  shows "cost' = u_cost upd \<and>
    RecalcAttemptUpdate model mo mul (u_cost upd) (u_price_id upd) c' =
      (c', (u_cost upd, no_update, False))"
proof (cases "0 < reported_cost mo")
  case True
  then show ?thesis
    using first recalc_result_again [of _ 0 cost i cost' upd]
    by (auto simp: RecalcAttemptUpdate_def Let_def)
next
  case nozero: False
  then have zero: "reported_cost mo = 0" by (simp add: word_neq_0_conv [symmetric])
  show ?thesis
  proof (cases "\<exists>r. i \<noteq> 0 \<and> CalculateByPriceID i mo mul c = (c', Inr (Some r))")
    case True
    then obtain r where r: "i \<noteq> 0" "CalculateByPriceID i mo mul c = (c', Inr (Some r))" by blast
    then obtain m where m: "mo = Some m"
      by (cases mo) (auto simp: CalculateByPriceID_def Let_def)
    have "r_price_id r = i" "CalculateByPriceID i mo mul c' = (c', Inr (Some r))"
      using CalculateByPriceID_cases [OF wf] r m by blast+
    moreover have "recalc_result (r_cost r) (r_price_id r) cost i = (cost', upd, True)"
      using first r zero by (simp add: RecalcAttemptUpdate_def)
    ultimately show ?thesis
      using r(1) zero recalc_result_again [of "r_cost r" "r_price_id r" cost i cost' upd]
      by (simp add: RecalcAttemptUpdate_def)
  next
    case False
    let ?r = "Calculate c' model mo mul"
    have "calc_wf c' \<and> recalc_result (r_cost ?r) (r_price_id ?r) cost i = (cost', upd, True)"
    proof (cases "i = 0")
      case True
      with first zero wf show ?thesis by (auto simp: RecalcAttemptUpdate_def Let_def)
    next
      case i: False
      obtain c1 res where step: "CalculateByPriceID i mo mul c = (c1, res)" by fastforce
      with first zero i have "c1 = c'"
        by (auto simp: RecalcAttemptUpdate_def Let_def split: sum.splits option.splits)
      with step False i have "\<not> (\<exists>r. res = Inr (Some r))" by auto
      then have "res = Inr None \<or> (\<exists>e. res = Inl e)" by (metis not_Some_eq sum.exhaust)
      with first zero i step \<open>c1 = c'\<close> CalculateByPriceID_state [OF wf step] show ?thesis
        by (auto simp: RecalcAttemptUpdate_def Let_def)
    qed
    then show ?thesis
      using recalc_current_price [OF _ zero refl] recalc_result_again by metis
  qed
qed

end
