(* ===== verification/Pricing_Properties.thy ===== *)
theory Pricing_Properties
  imports Pricing_Calculator
begin

text \<open>
  What the pricing of \<^verbatim>\<open>internal/pricing\<close> promises: the cost of a request is the mathematical cost
  of its token classes, the built-in table never overflows, names resolve to the longest known
  prefix, and recomputing stored attempts is stable.
\<close>

section \<open>Costs\<close>

lemma applyMultiplier_exact:
  "unat cost * unat mul < 2 ^ 64 \<Longrightarrow> unat (applyMultiplier cost mul) = unat cost * unat mul div 10000"
  by (simp add: applyMultiplier_def DefaultMultiplier_def unat_div unat_mult_small)

lemma normal_multiplier_idem [simp]:
  "normal_multiplier (normal_multiplier mul) = normal_multiplier mul"
  by (simp add: normal_multiplier_def)

lemma normal_multiplier_pos: "1 \<le> unat (normal_multiplier mul)"
  by (simp add: normal_multiplier_def DefaultMultiplier_def Suc_le_eq unat_eq_zero
      flip: neq0_conv)

lemma Calculate_known:
  "lookupLocked (c_by_key c) model = Some p \<Longrightarrow>
   r_cost (Calculate c model (Some m) mul) =
     applyMultiplier (computeCost p m) (normal_multiplier mul)"
  by (simp add: Calculate_def applyPrice_def Let_def)

text \<open>C29: with a price found for the model, the cost the calculator reports is the mathematical cost
  of the request (eight token classes, each rounded down to a nano-dollar, the premium applied to
  the whole request when the prompt exceeds the threshold) scaled by the multiplier, whenever that
  product fits 64 bits.\<close>

theorem Calculate_exact:
  assumes "lookupLocked (c_by_key c) model = Some p"
    and "prompt_size m < 2 ^ 64" and "unat (p_input p) * 5 < 2 ^ 64"
    and "request_cost p m * unat (normal_multiplier mul) < 2 ^ 64"
  shows "unat (r_cost (Calculate c model (Some m) mul)) =
    request_cost p m * unat (normal_multiplier mul) div 10000"
proof -
  have "request_cost p m * 1 \<le> request_cost p m * unat (normal_multiplier mul)"
    by (rule mult_le_mono2) (rule normal_multiplier_pos)
  then have "request_cost p m < 2 ^ 64"
    using assms(4) by (metis mult.right_neutral order_le_less_trans)
  then have "unat (computeCost p m) = request_cost p m"
    by (rule computeCost_exact [OF assms(2,3)])
  then show ?thesis
    using assms by (simp add: Calculate_known applyMultiplier_exact)
qed

definition sample_price :: model_price where
  "sample_price =
     \<lparr> p_id = 7, p_model_id = ''m'', p_input = 3000000, p_output = 15000000,
       p_cache_read = 0, p_cache5m = 0, p_cache1h = 0, p_image_input = 0, p_image_output = 0,
       p_has1m = True, p_threshold = 0, p_in_num = 0, p_in_denom = 0,
       p_out_num = 0, p_out_denom = 0 \<rparr>"

definition sample_metrics :: metrics where
  "sample_metrics =
     \<lparr> m_input = 300000, m_output = 1000, m_cache_creation = 0, m_cache_read = 500,
       m_cache5m = 0, m_cache1h = 20, m_input_image = 0, m_output_image = 0,
       m_upstream_cost = 0 \<rparr>"

definition sample_calculator :: calculator where
  "sample_calculator =
     \<lparr> c_by_key = [(''m'', sample_price)], c_by_id = [(7, sample_price)], c_historical = None \<rparr>"

lemmas sample_defs = sample_price_def sample_metrics_def sample_calculator_def

lemma sample_request_cost: "request_cost sample_price sample_metrics = 1823040000"
  by (simp add: request_cost_def sample_defs prompt_size_def nat_default_def class_cost_def
      legacyCacheWrite_def Let_def)

lemma sample_lookup: "lookupLocked (c_by_key sample_calculator) ''m'' = Some sample_price"
  by (simp add: lookupLocked_def sample_calculator_def)

lemma Calculate_exact_witness:
  "unat (r_cost (Calculate sample_calculator ''m'' (Some sample_metrics) 12000)) = 2187648000"
  using Calculate_exact [of sample_calculator "''m''" sample_price sample_metrics 12000]
  by (simp add: sample_lookup sample_request_cost)
     (simp add: sample_defs prompt_size_def normal_multiplier_def)

section \<open>The built-in table\<close>

lemma builtin_rows: "c_by_key NewCalculator = map (\<lambda>p. (g_model_id p, ConvertToDBPrice p)) default_pricings"
proof -
  have "fold (\<lambda>mp. AList.update (p_model_id mp) mp) (map ConvertToDBPrice ps) m =
      m @ map (\<lambda>p. (g_model_id p, ConvertToDBPrice p)) ps"
    if "distinct (map fst m @ map g_model_id ps)" for ps m
    using that
  proof (induction ps arbitrary: m)
    case (Cons p ps)
    then show ?case
      by (auto simp: ConvertToDBPrice_def update_new image_iff)
  qed simp
  then show ?thesis
    using default_pricings_distinct
    by (simp add: NewCalculator_def loadBuiltinsLocked_def ConvertToDBPrices_def default_models
        comp_def)
qed

lemma builtin_row_bounded:
  assumes "lookupLocked (c_by_key NewCalculator) model = Some p" and "counts_below (2 ^ 32) m"
  shows "request_cost p m < 2 ^ 64 \<and> unat (p_input p) * 5 < 2 ^ 64"
proof -
  obtain k where "(k, p) \<in> set (c_by_key NewCalculator)"
    using lookupLocked_in [OF assms(1)] by (auto dest: map_of_SomeD)
  then obtain mp where mp: "mp \<in> set default_pricings" "p = ConvertToDBPrice mp"
    by (auto simp: builtin_rows)
  then have b: "pricing_bounded mp" using default_pricings_bounded by (simp add: list_all_iff)
  then have "unat (p_input p) \<le> 600000000"
    by (simp add: mp(2) ConvertToDBPrice_def pricing_bounded_def price_bound_def word_le_nat_alt)
  then show ?thesis using bounded_request_cost [OF b assms(2)] mp(2) by simp
qed

lemma counts_prompt_size: "counts_below (2 ^ 32) m \<Longrightarrow> prompt_size m < 2 ^ 64"
  by (auto simp: counts_below_def prompt_size_def)

text \<open>with the built-in prices and token counts below \<open>2 ^ 32\<close> nothing overflows: at the
  default multiplier the reported cost is exactly the mathematical cost of the request, and zero
  for a model without a price.\<close>

theorem builtin_cost_exact:
  assumes "counts_below (2 ^ 32) m"
  shows "unat (r_cost (Calculate NewCalculator model (Some m) 0)) =
    (case GetModelPrice NewCalculator model of None \<Rightarrow> 0 | Some p \<Rightarrow> request_cost p m)"
proof (cases "lookupLocked (c_by_key NewCalculator) model")
  case None
  then show ?thesis by (simp add: Calculate_def GetModelPrice_def zero_cost_def Let_def)
next
  case (Some p)
  have "unat (computeCost p m) = request_cost p m"
    using builtin_row_bounded [OF Some assms] counts_prompt_size [OF assms]
    by (intro computeCost_exact) auto
  with Some show ?thesis
    by (simp add: Calculate_known GetModelPrice_def normal_multiplier_def applyMultiplier_def)
qed

lemma builtin_cost_exact_witness:
  "counts_below (2 ^ 32) sample_metrics \<and>
   unat (r_cost (Calculate NewCalculator ''gpt-5'' (Some sample_metrics) 0)) =
     (case GetModelPrice NewCalculator ''gpt-5'' of None \<Rightarrow> 0 | Some p \<Rightarrow> request_cost p sample_metrics)"
  using builtin_cost_exact [of sample_metrics "''gpt-5''"]
  by (simp add: counts_below_def sample_metrics_def)

text \<open>Every row of the built-in table is the price of its own model name; no row is shadowed by
  another one or by a shorter prefix (\<open>gpt-5.4-image-2\<close> is not billed as \<open>gpt-5.4\<close>).\<close>

theorem builtin_own_price:
  assumes "mp \<in> set default_pricings"
  shows "GetModelPrice NewCalculator (g_model_id mp) = Some (ConvertToDBPrice mp)"
proof -
  have "distinct (map fst (c_by_key NewCalculator))"
    using default_pricings_distinct by (simp add: builtin_rows comp_def)
  then have "map_of (c_by_key NewCalculator) (g_model_id mp) = Some (ConvertToDBPrice mp)"
    using assms by (auto simp: builtin_rows)
  then show ?thesis by (simp add: GetModelPrice_def calc.get_exact)
qed

lemma builtin_own_price_witness:
  "GetModelPrice NewCalculator (g_model_id (hd prices_gpt_image)) =
     Some (ConvertToDBPrice (hd prices_gpt_image))"
proof (rule builtin_own_price)
  show "hd prices_gpt_image \<in> set default_pricings"
    by (simp add: default_pricings_def prices_gpt_image_def)
qed

section \<open>Names\<close>

text \<open>Looking a non-empty model name up returns the row of the longest known name that is a
  prefix of it, whatever the iteration order of the Go map; so the result is unique.\<close>

theorem lookup_longest_prefix:
  assumes "wf_map es" and "model \<noteq> ''''"
  shows "lookupLocked es model = Some v \<longleftrightarrow>
    (\<exists>k. (k, v) \<in> set es \<and> k \<noteq> '''' \<and> has_prefix model k \<and>
      (\<forall>k' v'. (k', v') \<in> set es \<longrightarrow> has_prefix model k' \<longrightarrow> length k' \<le> length k))"
  using assms by (rule calc.get_Some_iff)

lemma lookup_longest_prefix_witness:
  "lookupLocked [(''gpt'', sample_price), (''gpt-5'', ConvertToDBPrice (hd prices_gpt_5))]
     ''gpt-5-mini'' = Some (ConvertToDBPrice (hd prices_gpt_5))"
  by (subst lookup_longest_prefix) (auto simp: has_prefix_def)

section \<open>Reloading and recomputing\<close>

text \<open>Reloading the calculator from database rows with distinct identifiers establishes the
  index invariant whatever the previous contents, and looking a stored price up by identifier,
  including the lazy fill from the history, preserves it.\<close>

theorem calculator_invariant:
  assumes "distinct (map p_id prices)" and "history_ok c"
  shows "calc_wf (fst (resolvePriceByID i (LoadFromDatabase prices c)))"
proof -
  have "c_historical (LoadFromDatabase prices c) = c_historical c"
    by (induction prices rule: rev_induct)
      (simp_all add: LoadFromDatabase_def loadBuiltinsLocked_def load_row_def)
  then have "history_ok (LoadFromDatabase prices c)" using assms(2) by (simp add: history_ok_def)
  with LoadFromDatabase_wf [OF assms(1)] show ?thesis by (rule resolvePriceByID_wf)
qed

lemma calculator_invariant_witness:
  "calc_wf (fst (resolvePriceByID 9 (LoadFromDatabase [sample_price] sample_calculator)))"
  by (rule calculator_invariant) (simp_all add: history_ok_def sample_calculator_def)

text \<open>Recomputing the cost of a stored attempt is idempotent: when the recomputation reports a
  change, storing that update and recomputing again reports none and leaves the calculator as it
  is, whichever of the three rules applied (cost reported upstream, price the attempt was billed
  at, current price).\<close>

theorem recalc_stable:
  assumes "calc_wf c" and "history_ok c"
    and "RecalcAttemptUpdate model mo mul cost i c = (c', (cost', upd, True))"
  shows "cost' = u_cost upd \<and>
    RecalcAttemptUpdate model mo mul (u_cost upd) (u_price_id upd) c' =
      (c', (u_cost upd, no_update, False))"
  using assms by (rule recalc_idempotent)

lemma sample_recalc:
  "RecalcAttemptUpdate ''m'' (Some sample_metrics) mul cost 0 sample_calculator =
     (let c = applyMultiplier (computeCost sample_price sample_metrics) (normal_multiplier mul)
      in (sample_calculator, (c, \<lparr> u_cost = c, u_price_id = 7 \<rparr>, True)))"
  by (simp add: RecalcAttemptUpdate_def reported_cost_def Calculate_def applyPrice_def Let_def
      recalc_result_def sample_lookup)
    (simp add: sample_defs)

lemma sample_wf: "calc_wf sample_calculator \<and> history_ok sample_calculator"
  by (simp add: calc_wf_def history_ok_def sample_calculator_def sample_price_def)

lemma recalc_stable_witness:
  "let c = applyMultiplier (computeCost sample_price sample_metrics) (normal_multiplier 0)
   in RecalcAttemptUpdate ''m'' (Some sample_metrics) 0 c 7 sample_calculator =
        (sample_calculator, (c, no_update, False))"
  using recalc_stable [OF conjunct1 [OF sample_wf] conjunct2 [OF sample_wf]
      sample_recalc [of 0 5, unfolded Let_def]]
  by (simp add: Let_def)

text \<open>An attempt billed at a historical price is never re-billed at the current one because the
  history could not be read: on a lookup error the recorded cost stays and nothing is stored.\<close>

theorem recalc_history_error:
  assumes "c_historical c = Some lookup" and "lookup i = Inl err"
    and "map_of (c_by_id c) i = None" and "i \<noteq> 0" and "m_upstream_cost m = 0"
  shows "RecalcAttemptUpdate model (Some m) mul cost i c = (c, (cost, no_update, False))"
  using assms
  by (simp add: RecalcAttemptUpdate_def reported_cost_def CalculateByPriceID_def Let_def
      resolvePriceByID_def del: map_of_eq_None_iff)

lemma recalc_history_error_witness:
  "RecalcAttemptUpdate ''m'' (Some sample_metrics) 0 5 9
     (sample_calculator \<lparr> c_historical := Some (\<lambda>_. Inl ''timeout'') \<rparr>) =
   (sample_calculator \<lparr> c_historical := Some (\<lambda>_. Inl ''timeout'') \<rparr>, (5, no_update, False))"
  by (rule recalc_history_error) (simp_all add: sample_metrics_def sample_calculator_def)

text \<open>an attempt whose cost was settled when it finished keeps that cost, price row and
  multiplier under recomputation with the same calculator; the attempt must have something to
  bill, and a response or mapped model (costing reads only those two names).\<close>

theorem finalized_attempt_stable:
  assumes "calc_wf c" and "FinalizeAttemptCost c (Some a) mul = (Some a', r)"
    and "0 < a_upstream_cost a \<or> hasBillableTokens a"
    and "a_response_model a \<noteq> '''' \<or> a_mapped_model a \<noteq> ''''"
  shows "RecalcFromAttempt a' c = (c, (a_cost a', no_update, False))"
proof (cases "0 < a_upstream_cost a")
  case True
  then show ?thesis
    using assms(2)
    by (auto simp: FinalizeAttemptCost_def RecalcFromAttempt_def RecalcAttemptUpdate_def
        attemptMetrics_def reported_cost_def Let_def)
next
  case False
  then have zero: "a_upstream_cost a = 0" by (simp flip: word_neq_0_conv)
  define model where "model = (if a_response_model a = '''' then a_mapped_model a
                               else a_response_model a)"
  define res where "res = Calculate c model (Some (attemptMetrics a)) (normal_multiplier mul)"
  have metrics: "(attemptMetrics a) \<lparr> m_upstream_cost := 0 \<rparr> = attemptMetrics a"
    by (simp add: attemptMetrics_def zero)
  have a': "a' = a \<lparr> a_cost := r_cost res, a_price_id := r_price_id res,
                    a_multiplier := r_multiplier res \<rparr>"
    using assms(2,3) zero by (auto simp: FinalizeAttemptCost_def Let_def metrics model_def res_def)
  have same: "attemptMetrics a' = attemptMetrics a" by (simp add: a' attemptMetrics_def)
  have mul: "r_multiplier res = normal_multiplier mul"
    by (simp add: res_def Calculate_def Let_def zero_cost_def applyPrice_def split: option.split)
  have model: "PricingModel (a_response_model a') (a_mapped_model a') (a_request_model a') = model"
    using assms(4) by (auto simp: PricingModel_def model_def a')
  have fields: "a_cost a' = r_cost res" "a_price_id a' = r_price_id res"
    "a_multiplier a' = normal_multiplier mul"
    by (simp_all add: a' mul)
  have "reported_cost (Some (attemptMetrics a)) = 0"
    by (simp add: reported_cost_def attemptMetrics_def zero)
  from recalc_current_price [OF assms(1) this res_def] show ?thesis
    by (simp only: RecalcFromAttempt_def same model fields)
qed

definition sample_attempt :: attempt where
  "sample_attempt =
     \<lparr> a_request_model = ''r'', a_mapped_model = ''m'', a_response_model = '''', a_input = 300000,
       a_output = 1000, a_input_image = 0, a_output_image = 0, a_cache_read = 500,
       a_cache_write = 0, a_cache5m = 0, a_cache1h = 20, a_price_id = 0, a_multiplier = 0,
       a_cost = 0, a_upstream_cost = 0 \<rparr>"

lemma finalized_attempt_stable_witness:
  "let a' = the (fst (FinalizeAttemptCost sample_calculator (Some sample_attempt) 12000))
   in RecalcFromAttempt a' sample_calculator =
        (sample_calculator, (a_cost a', no_update, False))"
  unfolding Let_def
  by (rule finalized_attempt_stable [of sample_calculator sample_attempt 12000 _
        "snd (FinalizeAttemptCost sample_calculator (Some sample_attempt) 12000)"])
    (simp_all add: sample_wf sample_attempt_def hasBillableTokens_def FinalizeAttemptCost_def
      Let_def)

text \<open>The cost of a finished attempt ignores the requested model, the recomputation does not: an
  attempt with neither a response nor a mapped model is free when it finishes and is charged by
  the next recomputation.\<close>

lemma sample_cost: "unat (computeCost sample_price sample_metrics) = 1823040000"
  by (subst computeCost_exact)
    (simp_all add: sample_request_cost, simp_all add: prompt_size_def sample_defs)

lemma finalize_recalc_divergence:
  "let a = sample_attempt \<lparr> a_request_model := ''m'', a_mapped_model := '''' \<rparr>;
       a' = the (fst (FinalizeAttemptCost sample_calculator (Some a) 0))
   in a_cost a' = 0 \<and>
      unat (fst (snd (RecalcFromAttempt a' sample_calculator))) = 1823040000"
proof -
  define a where "a = sample_attempt \<lparr> a_request_model := ''m'', a_mapped_model := '''' \<rparr>"
  have "lookupLocked (c_by_key sample_calculator) '''' = None"
    by (simp add: lookupLocked_def sample_calculator_def has_prefix_def)
  then have a': "the (fst (FinalizeAttemptCost sample_calculator (Some a) 0)) =
      a \<lparr> a_multiplier := 10000 \<rparr>"
    by (simp add: FinalizeAttemptCost_def Let_def Calculate_def zero_cost_def a_def
        sample_attempt_def hasBillableTokens_def normal_multiplier_def DefaultMultiplier_def)
  have "RecalcFromAttempt (a \<lparr> a_multiplier := 10000 \<rparr>) sample_calculator =
      RecalcAttemptUpdate ''m'' (Some sample_metrics) 10000 0 0 sample_calculator"
    by (simp add: RecalcFromAttempt_def a_def sample_attempt_def PricingModel_def
        attemptMetrics_def sample_metrics_def)
  then show ?thesis
    using sample_cost
    by (simp add: Let_def a' flip: a_def)
      (simp add: a_def sample_attempt_def sample_recalc Let_def applyMultiplier_def
        normal_multiplier_def DefaultMultiplier_def)
qed

end
