(* ===== verification/Cooldown_Policy.thy ===== *)
theory Cooldown_Policy
  imports Prelude
begin

text \<open>
  The cooldown policies of \<^verbatim>\<open>internal/cooldown/policy.go\<close> and the failure counters of
  \<^verbatim>\<open>failure_tracker.go\<close>.  Failure counts are Go \<open>int\<close>s and durations \<open>int64\<close> nanoseconds: the
  arithmetic wraps at 64 bits.  The database of failure counts is outside the model; what the
  tracker sends to it is a log of calls, and what it answers is an argument.
\<close>

section \<open>Reasons and policies\<close>

definition ReasonServerError :: string where "ReasonServerError = ''server_error''"
definition ReasonNetworkError :: string where "ReasonNetworkError = ''network_error''"
definition ReasonQuotaExhausted :: string where "ReasonQuotaExhausted = ''quota_exhausted''"
definition ReasonRateLimit :: string where "ReasonRateLimit = ''rate_limit_exceeded''"
definition ReasonConcurrentLimit :: string where "ReasonConcurrentLimit = ''concurrent_limit''"
definition ReasonUnknown :: string where "ReasonUnknown = ''unknown''"
definition ReasonAuthFailure :: string where "ReasonAuthFailure = ''auth_failure''"
definition ReasonModelUnavailable :: string where "ReasonModelUnavailable = ''model_unavailable''"
definition ReasonManual :: string where "ReasonManual = ''manual''"

lemmas reason_defs = ReasonServerError_def ReasonNetworkError_def ReasonQuotaExhausted_def
  ReasonRateLimit_def ReasonConcurrentLimit_def ReasonUnknown_def ReasonAuthFailure_def
  ReasonModelUnavailable_def ReasonManual_def

datatype cooldown_policy =
    FixedDurationPolicy go_duration
  | LinearIncrementalPolicy int int  \<comment> \<open>\<open>BaseSeconds\<close>, \<open>MaxSeconds\<close>\<close>
  | ExponentialBackoffPolicy int int

definition seconds_duration :: "int \<Rightarrow> go_duration" where
  "seconds_duration s = wrap_i64 (s * second)"

definition linear_seconds :: "int \<Rightarrow> int \<Rightarrow> int \<Rightarrow> int" where
  "linear_seconds base maxs failureCount =
     (let seconds = wrap_i64 (base * failureCount)
      in if 0 < maxs \<and> maxs < seconds then maxs else seconds)"

text \<open>The doubling loop of the exponential policy, with the number of rounds left.\<close>

fun exponential_loop :: "int \<Rightarrow> nat \<Rightarrow> int \<Rightarrow> int" where
  "exponential_loop maxs 0 seconds = seconds"
| "exponential_loop maxs (Suc n) seconds =
     (let seconds = wrap_i64 (seconds * 2)
      in if 0 < maxs \<and> maxs < seconds then maxs else exponential_loop maxs n seconds)"

fun CalculateCooldown :: "cooldown_policy \<Rightarrow> int \<Rightarrow> go_duration" where
  "CalculateCooldown (FixedDurationPolicy d) failureCount = d"
| "CalculateCooldown (LinearIncrementalPolicy base maxs) failureCount =
     seconds_duration (linear_seconds base maxs failureCount)"
| "CalculateCooldown (ExponentialBackoffPolicy base maxs) failureCount =
     (if failureCount = 0 then 0
      else seconds_duration (exponential_loop maxs (nat (failureCount - 1)) base))"

definition DefaultPolicies :: "(string \<times> cooldown_policy) list" where
  "DefaultPolicies =
     [(ReasonServerError, LinearIncrementalPolicy 5 600),
      (ReasonNetworkError, ExponentialBackoffPolicy 5 1800),
      (ReasonQuotaExhausted, FixedDurationPolicy (1 * hour)),
      (ReasonRateLimit, FixedDurationPolicy (5 * second)),
      (ReasonConcurrentLimit, FixedDurationPolicy (5 * second)),
      (ReasonUnknown, LinearIncrementalPolicy 5 300),
      (ReasonAuthFailure, FixedDurationPolicy (1 * hour)),
      (ReasonModelUnavailable, FixedDurationPolicy (5 * minute))]"

section \<open>The failure tracker\<close>

record failure_key =
  fk_provider :: u64
  fk_client :: string
  fk_reason :: string
  fk_model :: string

record failure_row =
  fr_key :: failure_key
  fr_count :: int
  fr_last_at :: go_time

datatype failure_call =
    FailureUpsert failure_row
  | FailureDeleteAll u64 string string
  | FailureDeleteExpired int

text \<open>\<open>ft_repo\<close> is \<open>None\<close> without a repository, otherwise the calls made to it, oldest first.  The
  errors of these calls are only logged.\<close>

record failure_tracker =
  ft_counts :: "(failure_key \<times> int) list"
  ft_repo :: "failure_call list option"

definition NewFailureTracker :: failure_tracker where
  "NewFailureTracker = \<lparr> ft_counts = [], ft_repo = None \<rparr>"

definition ft_call :: "failure_call \<Rightarrow> failure_tracker \<Rightarrow> failure_tracker" where
  "ft_call q ft = ft \<lparr> ft_repo := map_option (\<lambda>qs. qs @ [q]) (ft_repo ft) \<rparr>"

definition ft_SetRepository :: "failure_tracker \<Rightarrow> failure_tracker" where
  "ft_SetRepository ft = ft \<lparr> ft_repo := Some [] \<rparr>"

definition ft_LoadFromDatabase ::
  "(string + failure_row list) \<Rightarrow> failure_tracker \<Rightarrow> failure_tracker \<times> string option" where
  "ft_LoadFromDatabase getAll ft =
     (case ft_repo ft of
        None \<Rightarrow> (ft, None)
      | Some _ \<Rightarrow>
          (case getAll of
             Inl err \<Rightarrow> (ft, Some err)
           | Inr rows \<Rightarrow>
               (ft \<lparr> ft_counts := fold (\<lambda>r. AList.update (fr_key r) (fr_count r)) rows [] \<rparr>,
                None)))"

definition IncrementFailure ::
  "u64 \<Rightarrow> string \<Rightarrow> string \<Rightarrow> string \<Rightarrow> go_time \<Rightarrow> failure_tracker \<Rightarrow> failure_tracker \<times> int" where
  "IncrementFailure providerID clientType model reason now ft =
     (let key = \<lparr> fk_provider = providerID, fk_client = clientType, fk_reason = reason,
                  fk_model = model \<rparr>;
          newCount = wrap_i64 (lookup_default 0 (ft_counts ft) key + 1);
          ft = ft \<lparr> ft_counts := AList.update key newCount (ft_counts ft) \<rparr>
      in (ft_call (FailureUpsert \<lparr> fr_key = key, fr_count = newCount, fr_last_at = now \<rparr>) ft,
          newCount))"

definition GetFailureCount ::
  "u64 \<Rightarrow> string \<Rightarrow> string \<Rightarrow> string \<Rightarrow> failure_tracker \<Rightarrow> int" where
  "GetFailureCount providerID clientType model reason ft =
     lookup_default 0 (ft_counts ft)
       \<lparr> fk_provider = providerID, fk_client = clientType, fk_reason = reason, fk_model = model \<rparr>"

definition reset_matches :: "u64 \<Rightarrow> string \<Rightarrow> string \<Rightarrow> failure_key \<Rightarrow> bool" where
  "reset_matches providerID clientType model key =
     (fk_provider key = providerID \<and> (clientType = '''' \<or> fk_client key = clientType) \<and>
      (model = '''' \<or> fk_model key = model))"

definition ResetFailures ::
  "u64 \<Rightarrow> string \<Rightarrow> string \<Rightarrow> failure_tracker \<Rightarrow> failure_tracker" where
  "ResetFailures providerID clientType model ft =
     (let keysToDelete = filter (reset_matches providerID clientType model)
            (map fst (ft_counts ft))
      in if keysToDelete = [] then ft
         else ft_call (FailureDeleteAll providerID clientType model)
           (ft \<lparr> ft_counts := fold AList.delete keysToDelete (ft_counts ft) \<rparr>))"

definition ft_CleanupExpired ::
  "int \<Rightarrow> (string + failure_row list) \<Rightarrow> failure_tracker \<Rightarrow> failure_tracker" where
  "ft_CleanupExpired olderThanSeconds getAll ft =
     fst (ft_LoadFromDatabase getAll (ft_call (FailureDeleteExpired olderThanSeconds) ft))"

section \<open>Policy lemmas\<close>

lemma seconds_duration_small:
  "0 \<le> s \<Longrightarrow> s \<le> 9000000000 \<Longrightarrow> seconds_duration s = s * second"
  by (simp add: seconds_duration_def second_def wrap_i64_id)

lemma linear_seconds_min:
  "0 \<le> n \<Longrightarrow> n \<le> 2 ^ 60 \<Longrightarrow> 0 < maxs \<Longrightarrow> linear_seconds 5 maxs n = min (5 * n) maxs"
  by (simp add: linear_seconds_def wrap_i64_id min_def)

text \<open>The exponential loop computes the capped power: doubling stops at the cap, so it never
  overflows.\<close>

lemma exponential_loop_min:
  "0 < maxs \<Longrightarrow> maxs < 2 ^ 62 \<Longrightarrow> 0 < s \<Longrightarrow> s \<le> maxs \<Longrightarrow>
   exponential_loop maxs n s = min (s * 2 ^ n) maxs"
proof (induction maxs n s rule: exponential_loop.induct)
  case (2 maxs n s)
  have w: "wrap_i64 (s * 2) = s * 2" using "2.prems" by (simp add: wrap_i64_id)
  show ?case
  proof (cases "maxs < s * 2")
    case True
    have "s * 2 * 1 \<le> s * 2 * 2 ^ n" using "2.prems"(3) by (intro mult_left_mono) auto
    then have "maxs < s * (2 * 2 ^ n)" using True by (simp add: mult.assoc)
    then show ?thesis using w True "2.prems"(1) by (simp add: Let_def)
  next
    case False
    then show ?thesis using "2.IH" [OF w [symmetric]] "2.prems" w by (simp add: Let_def mult.assoc)
  qed
qed simp

lemma ExponentialBackoff_min:
  assumes "1 \<le> n" and "0 < base" and "base \<le> maxs" and "maxs \<le> 9000000000"
  shows "CalculateCooldown (ExponentialBackoffPolicy base maxs) n =
    min (base * 2 ^ nat (n - 1)) maxs * second"
proof -
  have "exponential_loop maxs (nat (n - 1)) base = min (base * 2 ^ nat (n - 1)) maxs"
    using assms by (intro exponential_loop_min) auto
  moreover have "0 \<le> min (base * 2 ^ nat (n - 1)) maxs" using assms(2,3) by auto
  ultimately show ?thesis using assms by (simp add: seconds_duration_small)
qed

lemma Linear_min:
  assumes "0 \<le> n" and "n \<le> 2 ^ 60" and "0 < maxs" and "maxs \<le> 9000000000"
  shows "CalculateCooldown (LinearIncrementalPolicy 5 maxs) n = min (5 * n) maxs * second"
  using assms by (simp add: linear_seconds_min seconds_duration_small)

definition policy_for :: "string \<Rightarrow> cooldown_policy" where
  "policy_for reason =
     (case map_of DefaultPolicies reason of Some p \<Rightarrow> p | None \<Rightarrow> FixedDurationPolicy (5 * second))"

lemma policy_for_cases:
  "policy_for reason \<in>
     {LinearIncrementalPolicy 5 600, ExponentialBackoffPolicy 5 1800, FixedDurationPolicy hour,
      FixedDurationPolicy (5 * second), LinearIncrementalPolicy 5 300,
      FixedDurationPolicy (5 * minute)}"
  by (simp add: policy_for_def DefaultPolicies_def)

lemma capped_bounds:
  assumes "5 \<le> x" and "x \<le> y" and "5 \<le> maxs" and "maxs \<le> 3600"
  shows "5 * second \<le> min x maxs * second \<and> min x maxs * second \<le> min y maxs * second \<and>
    min y maxs * second \<le> hour"
proof -
  have "5 \<le> min x maxs" "min x maxs \<le> min y maxs" "min y maxs \<le> 3600" using assms by auto
  then show ?thesis by (simp add: duration_units)
qed

lemma policy_bounds:
  assumes "1 \<le> n" and "n \<le> n'" and "n' \<le> 2 ^ 60"
  shows "5 * second \<le> CalculateCooldown (policy_for reason) n \<and>
    CalculateCooldown (policy_for reason) n \<le> CalculateCooldown (policy_for reason) n' \<and>
    CalculateCooldown (policy_for reason) n' \<le> hour"
proof -
  have pow: "(5::int) \<le> 5 * 2 ^ nat (n - 1)" "(5::int) * 2 ^ nat (n - 1) \<le> 5 * 2 ^ nat (n' - 1)"
    using assms by (auto intro: power_increasing)
  have n': "1 \<le> n'" using assms by simp
  have lin: "5 * second \<le> CalculateCooldown (LinearIncrementalPolicy 5 maxs) n \<and>
      CalculateCooldown (LinearIncrementalPolicy 5 maxs) n
        \<le> CalculateCooldown (LinearIncrementalPolicy 5 maxs) n' \<and>
      CalculateCooldown (LinearIncrementalPolicy 5 maxs) n' \<le> hour"
    if "5 \<le> maxs" "maxs \<le> 3600" for maxs
    using capped_bounds [of "5 * n" "5 * n'" maxs] that assms
    by (simp add: Linear_min del: CalculateCooldown.simps)
  have expo: "5 * second \<le> CalculateCooldown (ExponentialBackoffPolicy 5 1800) n \<and>
      CalculateCooldown (ExponentialBackoffPolicy 5 1800) n
        \<le> CalculateCooldown (ExponentialBackoffPolicy 5 1800) n' \<and>
      CalculateCooldown (ExponentialBackoffPolicy 5 1800) n' \<le> hour"
    using capped_bounds [OF pow, of 1800]
    by (simp add: ExponentialBackoff_min assms(1) n' del: CalculateCooldown.simps)
  show ?thesis
    using policy_for_cases [of reason] lin [of 600] lin [of 300] expo
    by (elim insertE emptyE) (simp_all add: duration_units del: CalculateCooldown.simps(2,3))
qed

text \<open>Whatever the reason, the cooldown of the \<open>n\<close>-th failure in a row is between five seconds
  and one hour, and it never decreases when failures accumulate.\<close>

theorem default_policy_bounds:
  assumes "1 \<le> n" and "n \<le> n'" and "n' \<le> 2 ^ 60"
  shows "5 * second \<le> CalculateCooldown (policy_for reason) n \<and>
    CalculateCooldown (policy_for reason) n \<le> CalculateCooldown (policy_for reason) n' \<and>
    CalculateCooldown (policy_for reason) n' \<le> hour"
  using assms by (rule policy_bounds)

lemma default_policy_bounds_witness:
  "5 * second \<le> CalculateCooldown (policy_for ReasonNetworkError) 3 \<and>
   CalculateCooldown (policy_for ReasonNetworkError) 3 \<le>
     CalculateCooldown (policy_for ReasonNetworkError) 10 \<and>
   CalculateCooldown (policy_for ReasonNetworkError) 10 \<le> hour"
  by (rule default_policy_bounds) simp_all

text \<open>The cap of the exponential policy is only checked after a doubling: a base above the cap is
  not capped at the first failure.\<close>

lemma exponential_first_uncapped:
  "CalculateCooldown (ExponentialBackoffPolicy 60 30) 1 = 60 * second"
  by (simp add: seconds_duration_small)

section \<open>Failure counter lemmas\<close>

lemma fold_delete_keys:
  "fold AList.delete ks m = filter (\<lambda>e. fst e \<notin> set ks) m"
proof (induction ks arbitrary: m)
  case (Cons k ks)
  then show ?case by (auto simp: AList.delete_eq conj_commute intro!: filter_cong)
qed simp

lemma reset_counts:
  "ft_counts (ResetFailures p c m ft) = filter (\<lambda>e. \<not> reset_matches p c m (fst e)) (ft_counts ft)"
proof -
  have "filter (\<lambda>e. fst e \<notin> set (filter (reset_matches p c m) (map fst (ft_counts ft))))
      (ft_counts ft) = filter (\<lambda>e. \<not> reset_matches p c m (fst e)) (ft_counts ft)"
    by (rule filter_cong) force+
  moreover have "filter (\<lambda>e. \<not> reset_matches p c m (fst e)) (ft_counts ft) = ft_counts ft"
    if "filter (reset_matches p c m) (map fst (ft_counts ft)) = []"
    using that by (force simp: filter_empty_conv filter_id_conv)
  ultimately show ?thesis
    by (simp add: ResetFailures_def ft_call_def fold_delete_keys Let_def)
qed

lemma GetFailureCount_reset:
  "GetFailureCount p' c' m' r (ResetFailures p c m ft) =
     (if p' = p \<and> (c = '''' \<or> c' = c) \<and> (m = '''' \<or> m' = m) then 0
      else GetFailureCount p' c' m' r ft)"
  by (simp add: GetFailureCount_def reset_counts lookup_default_def
      map_of_filter_key [of "\<lambda>k. \<not> reset_matches p c m k"])
    (auto simp: reset_matches_def)

lemma IncrementFailure_count:
  "IncrementFailure p c m r now ft = (ft', n) \<Longrightarrow>
   n = wrap_i64 (GetFailureCount p c m r ft + 1) \<and>
   GetFailureCount p' c' m' r' ft' =
     (if (p', c', m', r') = (p, c, m, r) then n else GetFailureCount p' c' m' r' ft)"
  by (auto simp: IncrementFailure_def GetFailureCount_def Let_def ft_call_def
      lookup_default_update)

end
