(* ===== verification/Cooldown_Store.thy ===== *)
theory Cooldown_Store
  imports Cooldown_Policy
begin

text \<open>
  The shared truth of cooldowns: the interface \<^verbatim>\<open>CooldownStore\<close> of \<^verbatim>\<open>internal/cooldown/store.go\<close> as
  a record of operations with its contract as a locale, the in-memory implementation of
  \<^verbatim>\<open>store_memory.go\<close>, which satisfies the contract, and the key encoding of \<^verbatim>\<open>store_redis.go\<close>.
  Every operation may fail (\<open>Inl\<close>, or \<open>Some\<close> error): the in-memory store never does, the Redis one
  may, so the manager is modelled over any store.
\<close>

section \<open>Keys and the store interface\<close>

record cooldown_key =
  ck_provider :: u64
  ck_client :: string
  ck_model :: string

definition ckey :: "u64 \<Rightarrow> string \<Rightarrow> string \<Rightarrow> cooldown_key" where
  "ckey p c m = \<lparr> ck_provider = p, ck_client = c, ck_model = m \<rparr>"

lemma ckey_sel [simp]:
  "ck_provider (ckey p c m) = p" "ck_client (ckey p c m) = c" "ck_model (ckey p c m) = m"
  by (simp_all add: ckey_def)

lemma ckey_eq [simp]: "(ckey p c m = ckey p' c' m') = (p = p' \<and> c = c' \<and> m = m')"
  by (simp add: ckey_def)

type_synonym store_error = string
type_synonym store_entries = "(cooldown_key \<times> go_time) list"

record 's store_ops =
  so_get :: "cooldown_key \<Rightarrow> go_time \<Rightarrow> 's \<Rightarrow> store_error + go_time option"
  so_list :: "u64 \<Rightarrow> go_time \<Rightarrow> 's \<Rightarrow> store_error + store_entries"
  so_set :: "cooldown_key \<Rightarrow> go_time \<Rightarrow> 's \<Rightarrow> 's \<times> store_error option"
  so_set_if_later :: "cooldown_key \<Rightarrow> go_time \<Rightarrow> 's \<Rightarrow> 's \<times> (store_error + bool)"
  so_delete :: "cooldown_key \<Rightarrow> 's \<Rightarrow> 's \<times> store_error option"
  so_delete_provider :: "u64 \<Rightarrow> 's \<Rightarrow> 's \<times> store_error option"
  so_get_gen :: "u64 \<Rightarrow> 's \<Rightarrow> store_error + int"
  so_bump :: "u64 \<Rightarrow> 's \<Rightarrow> 's \<times> (store_error + int)"

text \<open>The contract, stated on the entries and generations a well-formed store holds: reads return
  them, writes that report no error change exactly the named entry, \<open>SetIfLater\<close> refuses a time
  earlier than the one it holds, and generations only count up.\<close>

locale cooldown_store =
  fixes ops :: "'s store_ops"
    and inv :: "'s \<Rightarrow> bool"
    and entry :: "'s \<Rightarrow> cooldown_key \<Rightarrow> go_time option"
    and gen :: "'s \<Rightarrow> u64 \<Rightarrow> int"
  assumes get_ok: "inv s \<Longrightarrow> so_get ops k now s = Inr r \<Longrightarrow>
      r = (case entry s k of None \<Rightarrow> None | Some t \<Rightarrow> if now \<le> t then Some t else None)"
    and list_ok: "inv s \<Longrightarrow> so_list ops p now s = Inr es \<Longrightarrow>
      map_of es k = (if ck_provider k = p then
          (case entry s k of None \<Rightarrow> None | Some t \<Rightarrow> if now < t then Some t else None) else None)"
    and set_ok: "inv s \<Longrightarrow> so_set ops k u s = (s', None) \<Longrightarrow>
      inv s' \<and> entry s' = (entry s)(k \<mapsto> u) \<and> gen s' = gen s"
    and set_if_later_ok: "inv s \<Longrightarrow> so_set_if_later ops k u s = (s', Inr b) \<Longrightarrow>
      inv s' \<and> b = (\<forall>t. entry s k = Some t \<longrightarrow> t \<le> u) \<and>
      entry s' = (if b then (entry s)(k \<mapsto> u) else entry s) \<and> gen s' = gen s"
    and delete_ok: "inv s \<Longrightarrow> so_delete ops k s = (s', None) \<Longrightarrow>
      inv s' \<and> entry s' = (entry s)(k := None) \<and> gen s' = gen s"
    and delete_provider_ok: "inv s \<Longrightarrow> so_delete_provider ops p s = (s', None) \<Longrightarrow>
      inv s' \<and> entry s' = (\<lambda>k. if ck_provider k = p then None else entry s k) \<and> gen s' = gen s"
    and get_gen_ok: "inv s \<Longrightarrow> so_get_gen ops p s = Inr g \<Longrightarrow> g = gen s p"
    and bump_ok: "inv s \<Longrightarrow> so_bump ops p s = (s', Inr g) \<Longrightarrow>
      inv s' \<and> g = wrap_i64 (gen s p + 1) \<and> gen s' = (gen s)(p := g) \<and> entry s' = entry s"
begin

text \<open>A computed cooldown never shortens the one the store holds.\<close>

lemma set_if_later_max:
  "inv s \<Longrightarrow> so_set_if_later ops k u s = (s', Inr b) \<Longrightarrow>
   inv s' \<and> entry s' k = Some (case entry s k of None \<Rightarrow> u | Some t \<Rightarrow> max t u)"
  using set_if_later_ok [of s k u s' b] by (auto split: option.splits)

text \<open>What is written is what a later reload returns, until it expires.\<close>

lemma list_after_set:
  "inv s \<Longrightarrow> so_set ops k u s = (s', None) \<Longrightarrow> so_list ops (ck_provider k) now s' = Inr es \<Longrightarrow>
   now < u \<Longrightarrow> map_of es k = Some u"
  using set_ok [of s k u s'] list_ok [of s' "ck_provider k" now es k]
  by (simp del: map_of_eq_Some_iff map_of_eq_None_iff)

lemma list_after_delete:
  "inv s \<Longrightarrow> so_delete ops k s = (s', None) \<Longrightarrow> so_list ops (ck_provider k) now s' = Inr es \<Longrightarrow>
   map_of es k = None"
  using delete_ok [of s k s'] list_ok [of s' "ck_provider k" now es k]
  by (simp del: map_of_eq_Some_iff map_of_eq_None_iff)

lemma list_after_delete_provider:
  assumes "inv s" and "so_delete_provider ops p s = (s', None)"
    and "so_list ops p now s' = Inr es"
  shows "es = []"
proof -
  have "map_of es k = None" for k
    using delete_provider_ok [OF assms(1,2)] list_ok [of s' p now es k] assms(3)
    by (simp del: map_of_eq_None_iff)
  then show ?thesis by (metis list.set_intros(1) map_of_eq_None_iff list.exhaust image_eqI)
qed

text \<open>Of two writers, the order does not matter to \<open>SetIfLater\<close>: the later time remains.\<close>

lemma set_if_later_commutes:
  assumes "inv s"
    and "so_set_if_later ops k u s = (s1, Inr a)" "so_set_if_later ops k v s1 = (s2, Inr b)"
    and "so_set_if_later ops k v s = (s3, Inr c)" "so_set_if_later ops k u s3 = (s4, Inr d)"
  shows "entry s2 k = entry s4 k"
proof -
  note first = set_if_later_max [OF assms(1,2)] set_if_later_max [OF assms(1,4)]
  note second = set_if_later_max [OF _ assms(3)] set_if_later_max [OF _ assms(5)]
  from first second show ?thesis by (auto split: option.splits)
qed

end
section \<open>The in-memory store\<close>

record memory_store =
  ms_entries :: store_entries
  ms_generation :: "(u64 \<times> int) list"

definition NewMemoryCooldownStore :: memory_store where
  "NewMemoryCooldownStore = \<lparr> ms_entries = [], ms_generation = [] \<rparr>"

definition mem_Get :: "cooldown_key \<Rightarrow> go_time \<Rightarrow> memory_store \<Rightarrow> store_error + go_time option" where
  "mem_Get key now s =
     (case map_of (ms_entries s) key of
        None \<Rightarrow> Inr None
      | Some t \<Rightarrow> if t < now then Inr None else Inr (Some t))"

definition mem_ListByProvider ::
  "u64 \<Rightarrow> go_time \<Rightarrow> memory_store \<Rightarrow> store_error + store_entries" where
  "mem_ListByProvider providerID now s =
     Inr (filter (\<lambda>(k, until). ck_provider k = providerID \<and> now < until) (ms_entries s))"

definition mem_Set :: "cooldown_key \<Rightarrow> go_time \<Rightarrow> memory_store \<Rightarrow> memory_store \<times> store_error option" where
  "mem_Set key until s = (s \<lparr> ms_entries := AList.update key until (ms_entries s) \<rparr>, None)"

definition mem_SetIfLater ::
  "cooldown_key \<Rightarrow> go_time \<Rightarrow> memory_store \<Rightarrow> memory_store \<times> (store_error + bool)" where
  "mem_SetIfLater key until s =
     (if (case map_of (ms_entries s) key of None \<Rightarrow> False | Some existing \<Rightarrow> until < existing)
      then (s, Inr False)
      else (s \<lparr> ms_entries := AList.update key until (ms_entries s) \<rparr>, Inr True))"

definition mem_Delete :: "cooldown_key \<Rightarrow> memory_store \<Rightarrow> memory_store \<times> store_error option" where
  "mem_Delete key s = (s \<lparr> ms_entries := AList.delete key (ms_entries s) \<rparr>, None)"

definition mem_DeleteByProvider ::
  "u64 \<Rightarrow> memory_store \<Rightarrow> memory_store \<times> store_error option" where
  "mem_DeleteByProvider providerID s =
     (s \<lparr> ms_entries := filter (\<lambda>(k, _). ck_provider k \<noteq> providerID) (ms_entries s) \<rparr>, None)"

definition mem_GetGeneration :: "u64 \<Rightarrow> memory_store \<Rightarrow> store_error + int" where
  "mem_GetGeneration providerID s = Inr (lookup_default 0 (ms_generation s) providerID)"

definition mem_BumpGeneration :: "u64 \<Rightarrow> memory_store \<Rightarrow> memory_store \<times> (store_error + int)" where
  "mem_BumpGeneration providerID s =
     (let g = wrap_i64 (lookup_default 0 (ms_generation s) providerID + 1)
      in (s \<lparr> ms_generation := AList.update providerID g (ms_generation s) \<rparr>, Inr g))"

definition memory_ops :: "memory_store store_ops" where
  "memory_ops =
     \<lparr> so_get = mem_Get, so_list = mem_ListByProvider, so_set = mem_Set,
       so_set_if_later = mem_SetIfLater, so_delete = mem_Delete,
       so_delete_provider = mem_DeleteByProvider, so_get_gen = mem_GetGeneration,
       so_bump = mem_BumpGeneration \<rparr>"

lemmas memory_ops_defs = memory_ops_def mem_Get_def mem_ListByProvider_def mem_Set_def
  mem_SetIfLater_def mem_Delete_def mem_DeleteByProvider_def mem_GetGeneration_def
  mem_BumpGeneration_def

text \<open>The listing of a well-formed store keeps exactly the live entries of the provider.  The store
  is well-formed by construction; the contract is stated for the reachable states, of which the
  lookup function and the generations are the abstraction.\<close>

lemma map_of_list_entries:
  assumes "wf_map m"
  shows "map_of (filter (\<lambda>(k, until). ck_provider k = p \<and> now < until) m) k =
    (if ck_provider k = p then
       (case map_of m k of None \<Rightarrow> None | Some t \<Rightarrow> if now < t then Some t else None) else None)"
  using map_of_filter_entry [OF assms, of "\<lambda>k until. ck_provider k = p \<and> now < until" k]
  by (simp add: split_def split: option.split)

definition ms_inv :: "memory_store \<Rightarrow> bool" where
  "ms_inv s = (wf_map (ms_entries s) \<and> wf_map (ms_generation s))"

definition ms_entry :: "memory_store \<Rightarrow> cooldown_key \<Rightarrow> go_time option" where
  "ms_entry s k = map_of (ms_entries s) k"

definition ms_gen :: "memory_store \<Rightarrow> u64 \<Rightarrow> int" where
  "ms_gen s p = lookup_default 0 (ms_generation s) p"

lemmas ms_defs = ms_inv_def ms_entry_def ms_gen_def

interpretation mem: cooldown_store memory_ops ms_inv ms_entry ms_gen
proof unfold_locales
  fix s p now es k
  assume "ms_inv s" and "so_list memory_ops p now s = Inr es"
  then show "map_of es k = (if ck_provider k = p then
      (case ms_entry s k of None \<Rightarrow> None | Some t \<Rightarrow> if now < t then Some t else None) else None)"
    using map_of_list_entries [of "ms_entries s" p now k]
    by (auto simp: memory_ops_defs ms_defs)
qed (auto simp: memory_ops_defs ms_defs fun_eq_iff wf_intros
    lookup_default_update go_map Let_def split_def
    map_of_filter_key [of "\<lambda>k. ck_provider k \<noteq> p" for p]
    simp del: map_of_eq_Some_iff map_of_eq_None_iff split: option.splits if_splits)

end
