(* ===== verification/Cooldown_Manager.thy ===== *)
theory Cooldown_Manager
  imports Cooldown_Store
begin

text \<open>
  The cooldown manager of \<^verbatim>\<open>internal/cooldown/manager.go\<close> with the store synchronisation of
  \<^verbatim>\<open>events.go\<close>.  An operation of the manager is a function on its state; it is parameterised by
  the operations of the store it talks to, whose state is part of the manager's state, and by the
  clock, read once per operation.  The cooldown repository is a log of calls (its errors are only
  logged); its \<^verbatim>\<open>GetAll\<close> answer is an argument.  Events published to other instances are a log too.
\<close>

section \<open>State\<close>

record cooldown_row =
  cr_key :: cooldown_key
  cr_until :: go_time
  cr_reason :: string

datatype cooldown_call =
    CooldownUpsert cooldown_row
  | CooldownDelete u64 string string
  | CooldownDeleteAll u64
  | CooldownDeleteExpired

record 's manager =
  m_cooldowns :: store_entries
  m_reasons :: "(cooldown_key \<times> string) list"
  m_failures :: failure_tracker
  m_policies :: "(string \<times> cooldown_policy) list"
  m_repo :: "cooldown_call list option"
  m_coord :: "(u64 \<times> int) list option"
  m_store :: "'s option"
  m_gen :: "(u64 \<times> int) list"
  m_last_sync :: "(u64 \<times> go_time) list"
  m_every :: go_duration

definition NewManager :: "'s manager" where
  "NewManager =
     \<lparr> m_cooldowns = [], m_reasons = [], m_failures = NewFailureTracker,
       m_policies = DefaultPolicies, m_repo = None, m_coord = None, m_store = None,
       m_gen = [], m_last_sync = [], m_every = 2 * second \<rparr>"

definition SetRepository :: "'s manager \<Rightarrow> 's manager" where
  "SetRepository m = m \<lparr> m_repo := Some [] \<rparr>"

definition SetFailureCountRepository :: "'s manager \<Rightarrow> 's manager" where
  "SetFailureCountRepository m = m \<lparr> m_failures := ft_SetRepository (m_failures m) \<rparr>"

text \<open>\<open>SetCoordinator\<close> installs the store that fits the coordinator and starts publishing.\<close>

definition SetCoordinator :: "'s \<Rightarrow> 's manager \<Rightarrow> 's manager" where
  "SetCoordinator store m = m \<lparr> m_coord := Some [], m_store := Some store \<rparr>"

definition load_cooldown_row :: "cooldown_row \<Rightarrow> 's manager \<Rightarrow> 's manager" where
  "load_cooldown_row cd m =
     m \<lparr> m_cooldowns := AList.update (cr_key cd) (cr_until cd) (m_cooldowns m),
         m_reasons := AList.update (cr_key cd) (cr_reason cd) (m_reasons m) \<rparr>"

definition Manager_LoadFromDatabase ::
  "(string + cooldown_row list) \<Rightarrow> (string + failure_row list) \<Rightarrow> 's manager \<Rightarrow>
     's manager \<times> string option" where
  "Manager_LoadFromDatabase getAll getAllFailures m =
     (let load_failures = (\<lambda>m. m \<lparr> m_failures :=
            fst (ft_LoadFromDatabase getAllFailures (m_failures m)) \<rparr>)
      in case m_repo m of
           None \<Rightarrow> (load_failures m, None)
         | Some _ \<Rightarrow>
             (case getAll of
                Inl err \<Rightarrow> (m, Some err)
              | Inr rows \<Rightarrow>
                  (load_failures (fold load_cooldown_row rows
                     (m \<lparr> m_cooldowns := [], m_reasons := [] \<rparr>)), None)))"

section \<open>Shared steps\<close>

definition repo_call :: "cooldown_call \<Rightarrow> 's manager \<Rightarrow> 's manager" where
  "repo_call q m = m \<lparr> m_repo := map_option (\<lambda>qs. qs @ [q]) (m_repo m) \<rparr>"

definition forget_sync :: "u64 \<Rightarrow> 's manager \<Rightarrow> 's manager" where
  "forget_sync p m = m \<lparr> m_last_sync := AList.delete p (m_last_sync m) \<rparr>"

definition drop_local :: "cooldown_key \<Rightarrow> 's manager \<Rightarrow> 's manager" where
  "drop_local key m =
     m \<lparr> m_cooldowns := AList.delete key (m_cooldowns m),
         m_reasons := AList.delete key (m_reasons m) \<rparr>"

text \<open>The loop that deletes the local entries of a provider.\<close>

definition drop_provider :: "u64 \<Rightarrow> 's manager \<Rightarrow> 's manager" where
  "drop_provider p m =
     fold drop_local (filter (\<lambda>k. ck_provider k = p) (map fst (m_cooldowns m))) m"

definition put_local :: "cooldown_key \<Rightarrow> go_time \<Rightarrow> string \<Rightarrow> 's manager \<Rightarrow> 's manager" where
  "put_local key until reason m =
     m \<lparr> m_cooldowns := AList.update key until (m_cooldowns m),
         m_reasons := AList.update key reason (m_reasons m) \<rparr>"

definition reset_failures :: "u64 \<Rightarrow> string \<Rightarrow> string \<Rightarrow> 's manager \<Rightarrow> 's manager" where
  "reset_failures p c mo m = m \<lparr> m_failures := ResetFailures p c mo (m_failures m) \<rparr>"

definition bumpAndPublishLocked ::
  "'s store_ops \<Rightarrow> u64 \<Rightarrow> go_time \<Rightarrow> 's manager \<Rightarrow> 's manager" where
  "bumpAndPublishLocked ops providerID now m =
     (case m_store m of
        Some s \<Rightarrow>
          (case so_bump ops providerID s of
             (s', Inl err) \<Rightarrow> m \<lparr> m_store := Some s' \<rparr>
           | (s', Inr newGen) \<Rightarrow>
               m \<lparr> m_store := Some s',
                   m_gen := AList.update providerID newGen (m_gen m),
                   m_last_sync := AList.update providerID now (m_last_sync m),
                   m_coord := map_option (\<lambda>evs. evs @ [(providerID, newGen)]) (m_coord m) \<rparr>)
      | None \<Rightarrow>
          m \<lparr> m_gen := AList.update providerID
                 (wrap_i64 (lookup_default 0 (m_gen m) providerID + 1)) (m_gen m),
              m_last_sync := AList.update providerID now (m_last_sync m) \<rparr>)"

text \<open>Deleting one key: store first, then local map, database, failure counts, generation.  A store
  error stops everything else.\<close>

definition delete_key ::
  "'s store_ops \<Rightarrow> u64 \<Rightarrow> string \<Rightarrow> string \<Rightarrow> go_time \<Rightarrow> 's manager \<Rightarrow> 's manager" where
  "delete_key ops providerID clientType model now m =
     (let key = ckey providerID clientType model;
          rest = (\<lambda>m. bumpAndPublishLocked ops providerID now
                   (reset_failures providerID clientType model
                     (repo_call (CooldownDelete providerID clientType model)
                       (drop_local key m))))
      in case m_store m of
           None \<Rightarrow> rest m
         | Some s \<Rightarrow>
             (case so_delete ops key s of
                (s', Some err) \<Rightarrow> forget_sync providerID (m \<lparr> m_store := Some s' \<rparr>)
              | (s', None) \<Rightarrow> rest (m \<lparr> m_store := Some s' \<rparr>)))"

section \<open>Writing\<close>

text \<open>The outcome of the store write of \<open>setCooldownLocked\<close>: accepted (also without a store),
  rejected because the store holds a later time, or failed.\<close>

datatype store_outcome = Accepted | Rejected | Failed

definition store_write ::
  "'s store_ops \<Rightarrow> cooldown_key \<Rightarrow> go_time \<Rightarrow> bool \<Rightarrow> 's option \<Rightarrow> 's option \<times> store_outcome" where
  "store_write ops key until useIfLater so =
     (case so of
        None \<Rightarrow> (None, Accepted)
      | Some s \<Rightarrow>
          if useIfLater
          then (case so_set_if_later ops key until s of
                  (s', Inl err) \<Rightarrow> (Some s', Failed)
                | (s', Inr ok) \<Rightarrow> (Some s', if ok then Accepted else Rejected))
          else (case so_set ops key until s of
                  (s', Some err) \<Rightarrow> (Some s', Failed)
                | (s', None) \<Rightarrow> (Some s', Accepted)))"

definition setCooldownLocked ::
  "'s store_ops \<Rightarrow> u64 \<Rightarrow> string \<Rightarrow> string \<Rightarrow> go_time \<Rightarrow> string \<Rightarrow> bool \<Rightarrow> go_time \<Rightarrow>
     's manager \<Rightarrow> 's manager" where
  "setCooldownLocked ops providerID clientType model until reason useIfLater now m =
     (let key = ckey providerID clientType model
      in if until \<le> now then delete_key ops providerID clientType model now m
         else
           (let (so, outcome) = store_write ops key until useIfLater (m_store m);
                m = m \<lparr> m_store := so \<rparr>;
                m = (if outcome \<noteq> Rejected
                     then repo_call (CooldownUpsert
                            \<lparr> cr_key = key, cr_until = until, cr_reason = reason \<rparr>)
                            (put_local key until reason m)
                     else m)
            in if outcome = Accepted then bumpAndPublishLocked ops providerID now m
               else forget_sync providerID m))"

definition ScopeRequest :: string where "ScopeRequest = ''request''"
definition ScopeModel :: string where "ScopeModel = ''model''"
definition ScopeKey :: string where "ScopeKey = ''key''"
definition ScopeEndpoint :: string where "ScopeEndpoint = ''endpoint''"
definition ScopeProvider :: string where "ScopeProvider = ''provider''"

lemmas scope_defs = ScopeRequest_def ScopeModel_def ScopeKey_def ScopeEndpoint_def
  ScopeProvider_def

definition effectiveClientType :: "string \<Rightarrow> string \<Rightarrow> string" where
  "effectiveClientType scope clientType = (if scope = ScopeProvider then '''' else clientType)"

definition effectiveModel :: "string \<Rightarrow> string \<Rightarrow> string" where
  "effectiveModel scope model =
     (if scope = ScopeKey \<or> scope = ScopeEndpoint \<or> scope = ScopeProvider then '''' else model)"

definition RecordFailure ::
  "'s store_ops \<Rightarrow> u64 \<Rightarrow> string \<Rightarrow> string \<Rightarrow> string \<Rightarrow> string \<Rightarrow> go_time option \<Rightarrow> go_time \<Rightarrow>
     's manager \<Rightarrow> 's manager \<times> go_time" where
  "RecordFailure ops providerID clientType model reason scope explicitUntil now m =
     (if scope = ScopeRequest then (m, zero_time)
      else
        (let c = effectiveClientType scope clientType;
             mo = effectiveModel scope model
         in case explicitUntil of
              Some until \<Rightarrow>
                (setCooldownLocked ops providerID c mo until reason False now m, until)
            | None \<Rightarrow>
                (let (ft, failureCount) =
                       IncrementFailure providerID c mo reason now (m_failures m);
                     m = m \<lparr> m_failures := ft \<rparr>;
                     policy = (case map_of (m_policies m) reason of
                                 Some p \<Rightarrow> p
                               | None \<Rightarrow> FixedDurationPolicy (5 * second));
                     until = now + CalculateCooldown policy failureCount
                 in (setCooldownLocked ops providerID c mo until reason True now m, until))))"

definition RecordSuccess ::
  "'s store_ops \<Rightarrow> u64 \<Rightarrow> string \<Rightarrow> string \<Rightarrow> go_time \<Rightarrow> 's manager \<Rightarrow> 's manager" where
  "RecordSuccess ops providerID clientType model now m =
     delete_key ops providerID clientType model now m"

definition SetCooldownDuration ::
  "'s store_ops \<Rightarrow> u64 \<Rightarrow> string \<Rightarrow> string \<Rightarrow> go_duration \<Rightarrow> go_time \<Rightarrow> 's manager \<Rightarrow> 's manager" where
  "SetCooldownDuration ops providerID clientType model duration now m =
     setCooldownLocked ops providerID clientType model (now + duration) ReasonUnknown False now m"

definition SetCooldownUntil ::
  "'s store_ops \<Rightarrow> u64 \<Rightarrow> string \<Rightarrow> string \<Rightarrow> go_time \<Rightarrow> go_time \<Rightarrow> 's manager \<Rightarrow> 's manager" where
  "SetCooldownUntil ops providerID clientType model until now m =
     setCooldownLocked ops providerID clientType model until ReasonManual False now m"

definition ClearCooldown ::
  "'s store_ops \<Rightarrow> u64 \<Rightarrow> string \<Rightarrow> string \<Rightarrow> go_time \<Rightarrow> 's manager \<Rightarrow> 's manager" where
  "ClearCooldown ops providerID clientType model now m =
     (if clientType = '''' \<and> model = '''' then
        (let rest = (\<lambda>m. bumpAndPublishLocked ops providerID now
                    (reset_failures providerID '''' ''''
                      (repo_call (CooldownDeleteAll providerID) (drop_provider providerID m))))
         in case m_store m of
              None \<Rightarrow> rest m
            | Some s \<Rightarrow>
                (case so_delete_provider ops providerID s of
                   (s', Some err) \<Rightarrow> forget_sync providerID (m \<lparr> m_store := Some s' \<rparr>)
                 | (s', None) \<Rightarrow> rest (m \<lparr> m_store := Some s' \<rparr>)))
      else delete_key ops providerID clientType model now m)"

definition UpdateCooldown ::
  "'s store_ops \<Rightarrow> u64 \<Rightarrow> string \<Rightarrow> string \<Rightarrow> go_time \<Rightarrow> go_time \<Rightarrow> 's manager \<Rightarrow> 's manager" where
  "UpdateCooldown ops providerID clientType model until now m =
     (if until \<le> now then ClearCooldown ops providerID clientType model now m
      else
        (let reason = (case map_of (m_reasons m) (ckey providerID clientType model) of
                         Some r \<Rightarrow> r
                       | None \<Rightarrow> ReasonUnknown)
         in setCooldownLocked ops providerID clientType model until reason False now m))"

section \<open>Synchronisation with the store\<close>

text \<open>\<open>time.Since\<close> saturates at the bounds of a duration.\<close>

definition time_since :: "go_time \<Rightarrow> go_time \<Rightarrow> go_duration" where
  "time_since t now = max (- (2 ^ 63)) (min (2 ^ 63 - 1) (now - t))"

text \<open>The locked half of \<open>reloadProvider\<close>: replace the provider's local entries by the list read
  from the store before the lock was taken.\<close>

definition load_store_entry :: "cooldown_key \<times> go_time \<Rightarrow> 's manager \<Rightarrow> 's manager" where
  "load_store_entry e m =
     m \<lparr> m_cooldowns := AList.update (fst e) (snd e) (m_cooldowns m),
         m_reasons := (if map_of (m_reasons m) (fst e) = None
                       then AList.update (fst e) ReasonUnknown (m_reasons m)
                       else m_reasons m) \<rparr>"

definition reload_apply ::
  "u64 \<Rightarrow> store_entries \<Rightarrow> int \<Rightarrow> go_time \<Rightarrow> 's manager \<Rightarrow> 's manager" where
  "reload_apply providerID entries targetGen now m =
     (let m = fold load_store_entry entries (drop_provider providerID m);
          current = lookup_default 0 (m_gen m) providerID;
          m = (if current < targetGen
               then m \<lparr> m_gen := AList.update providerID targetGen (m_gen m) \<rparr> else m)
      in m \<lparr> m_last_sync := AList.update providerID now (m_last_sync m) \<rparr>)"

definition reloadProvider ::
  "'s store_ops \<Rightarrow> u64 \<Rightarrow> int \<Rightarrow> go_time \<Rightarrow> 's manager \<Rightarrow> 's manager" where
  "reloadProvider ops providerID targetGen now m =
     (case m_store m of
        None \<Rightarrow> m
      | Some s \<Rightarrow>
          (case so_list ops providerID now s of
             Inl err \<Rightarrow> m
           | Inr entries \<Rightarrow>
               (let targetGen = (if targetGen = 0
                                 then (case so_get_gen ops providerID s of
                                         Inl err \<Rightarrow> 0 | Inr g \<Rightarrow> g)
                                 else targetGen)
                in reload_apply providerID entries targetGen now m)))"

definition applyRemoteEvent ::
  "'s store_ops \<Rightarrow> u64 \<times> int \<Rightarrow> go_time \<Rightarrow> 's manager \<Rightarrow> 's manager" where
  "applyRemoteEvent ops ev now m =
     (if m_store m = None then m
      else if snd ev \<le> lookup_default 0 (m_gen m) (fst ev) then m
      else reloadProvider ops (fst ev) (snd ev) now m)"

definition syncProviderGeneration ::
  "'s store_ops \<Rightarrow> u64 \<Rightarrow> go_time \<Rightarrow> 's manager \<Rightarrow> 's manager" where
  "syncProviderGeneration ops providerID now m =
     (case m_store m of
        None \<Rightarrow> m
      | Some s \<Rightarrow>
          (let last = lookup_default zero_time (m_last_sync m) providerID;
               localGen = lookup_default 0 (m_gen m) providerID;
               every = (if m_every m \<le> 0 then 2 * second else m_every m);
               touched = m \<lparr> m_last_sync := AList.update providerID now (m_last_sync m) \<rparr>
           in if time_since last now < every then m
              else case so_get_gen ops providerID s of
                     Inl err \<Rightarrow> touched
                   | Inr remoteGen \<Rightarrow>
                       if remoteGen = localGen then touched
                       else reloadProvider ops providerID remoteGen now m))"

section \<open>Reading\<close>

definition frozen_at :: "store_entries \<Rightarrow> cooldown_key \<Rightarrow> go_time \<Rightarrow> bool" where
  "frozen_at cds key now = (case map_of cds key of None \<Rightarrow> False | Some until \<Rightarrow> now < until)"

definition in_cooldown :: "store_entries \<Rightarrow> u64 \<Rightarrow> string \<Rightarrow> string \<Rightarrow> go_time \<Rightarrow> bool" where
  "in_cooldown cds providerID clientType model now =
     (if frozen_at cds (ckey providerID '''' '''') now then True
      else if clientType \<noteq> '''' \<and> frozen_at cds (ckey providerID clientType '''') now then True
      else if model \<noteq> '''' \<and> frozen_at cds (ckey providerID '''' model) now then True
      else if clientType \<noteq> '''' \<and> model \<noteq> '''' \<and>
              frozen_at cds (ckey providerID clientType model) now then True
      else False)"

definition IsInCooldown ::
  "'s store_ops \<Rightarrow> u64 \<Rightarrow> string \<Rightarrow> string \<Rightarrow> go_time \<Rightarrow> 's manager \<Rightarrow> 's manager \<times> bool" where
  "IsInCooldown ops providerID clientType model now m =
     (let m = syncProviderGeneration ops providerID now m
      in (m, in_cooldown (m_cooldowns m) providerID clientType model now))"

fun latest_cooldown :: "store_entries \<Rightarrow> go_time \<Rightarrow> cooldown_key list \<Rightarrow> go_time \<Rightarrow> go_time" where
  "latest_cooldown cds now [] latest = latest"
| "latest_cooldown cds now (key # keys) latest =
     latest_cooldown cds now keys
       (case map_of cds key of
          None \<Rightarrow> latest
        | Some until \<Rightarrow> if now < until \<and> latest < until then until else latest)"

definition getCooldownUntilLocked ::
  "store_entries \<Rightarrow> u64 \<Rightarrow> string \<Rightarrow> string \<Rightarrow> go_time \<Rightarrow> go_time" where
  "getCooldownUntilLocked cds providerID clientType model now =
     latest_cooldown cds now
       [ckey providerID '''' '''', ckey providerID clientType '''', ckey providerID '''' model,
        ckey providerID clientType model] zero_time"

definition GetCooldownUntil ::
  "'s store_ops \<Rightarrow> u64 \<Rightarrow> string \<Rightarrow> string \<Rightarrow> go_time \<Rightarrow> 's manager \<Rightarrow> 's manager \<times> go_time" where
  "GetCooldownUntil ops providerID clientType model now m =
     (let m = syncProviderGeneration ops providerID now m
      in (m, getCooldownUntilLocked (m_cooldowns m) providerID clientType model now))"

definition GetAllCooldowns :: "go_time \<Rightarrow> 's manager \<Rightarrow> store_entries" where
  "GetAllCooldowns now m = filter (\<lambda>(key, until). now < until) (m_cooldowns m)"

definition CleanupExpired ::
  "(string + failure_row list) \<Rightarrow> go_time \<Rightarrow> 's manager \<Rightarrow> 's manager" where
  "CleanupExpired getAllFailures now m =
     (let expiredKeys = map fst (filter (\<lambda>(key, until). until < now) (m_cooldowns m));
          m = fold drop_local expiredKeys m;
          m = fold (\<lambda>k. reset_failures (ck_provider k) (ck_client k) (ck_model k)) expiredKeys m;
          m = repo_call CooldownDeleteExpired m
      in m \<lparr> m_failures := ft_CleanupExpired (24 * 60 * 60) getAllFailures (m_failures m) \<rparr>)"

text \<open>\<open>Duration.Round\<close> for a non-negative duration: half up, saturating.\<close>

definition duration_round :: "go_duration \<Rightarrow> go_duration \<Rightarrow> go_duration" where
  "duration_round d u =
     (let r = d mod u
      in if r + r < u then d - r
         else if d + u - r < 2 ^ 63 then d + u - r else 2 ^ 63 - 1)"

definition formatWithUnits ::
  "int \<Rightarrow> string \<Rightarrow> int \<Rightarrow> string \<Rightarrow> int \<Rightarrow> string \<Rightarrow> string" where
  "formatWithUnits val1 unit1 val2 unit2 val3 unit3 =
     (let result = '''';
          result = (if 0 < val1 then result @ show_nat (nat val1) @ unit1 else result);
          result = (if 0 < val2
                    then (if result \<noteq> '''' then result @ '' '' else result) @
                      show_nat (nat val2) @ unit2
                    else result);
          result = (if 0 < val3 \<and> unit3 \<noteq> ''''
                    then (if result \<noteq> '''' then result @ '' '' else result) @
                      show_nat (nat val3) @ unit3
                    else result)
      in result)"

definition formatDuration :: "go_duration \<Rightarrow> string" where
  "formatDuration d0 =
     (let d = duration_round d0 second;
          h = d div hour;
          d = d - h * hour;
          m = d div minute;
          d = d - m * minute;
          s = d div second
      in if 0 < h then formatWithUnits h ''h'' m ''m'' s ''s''
         else if 0 < m then formatWithUnits m ''m'' s ''s'' 0 ''''
         else formatWithUnits s ''s'' 0 '''' 0 '''')"

record cooldown_info =
  ci_provider :: u64
  ci_name :: string
  ci_client :: string
  ci_model :: string
  ci_until :: go_time
  ci_remaining :: string
  ci_reason :: string

fun first_reason :: "(cooldown_key \<times> string) list \<Rightarrow> cooldown_key list \<Rightarrow> string" where
  "first_reason reasons [] = ReasonUnknown"
| "first_reason reasons (k # ks) =
     (case map_of reasons k of Some r \<Rightarrow> r | None \<Rightarrow> first_reason reasons ks)"

definition GetCooldownInfo ::
  "'s store_ops \<Rightarrow> u64 \<Rightarrow> string \<Rightarrow> string \<Rightarrow> string \<Rightarrow> go_time \<Rightarrow> 's manager \<Rightarrow>
     's manager \<times> cooldown_info option" where
  "GetCooldownInfo ops providerID clientType model providerName now m =
     (let m = syncProviderGeneration ops providerID now m;
          until = getCooldownUntilLocked (m_cooldowns m) providerID clientType model now;
          remaining = time_since now until
      in if until = zero_time then (m, None)
         else if remaining < 0 then (m, None)
         else (m, Some
           \<lparr> ci_provider = providerID, ci_name = providerName, ci_client = clientType,
             ci_model = model, ci_until = until, ci_remaining = formatDuration remaining,
             ci_reason = first_reason (m_reasons m)
               [ckey providerID clientType model, ckey providerID '''' model,
                ckey providerID clientType '''', ckey providerID '''' ''''] \<rparr>))"

definition GetAllCooldownsFromDB ::
  "(string + cooldown_row list) \<Rightarrow> 's manager \<Rightarrow> string + cooldown_row list" where
  "GetAllCooldownsFromDB getAll m = (if m_repo m = None then Inr [] else getAll)"

end
