(* ===== verification/Cooldown_Lemmas.thy ===== *)
theory Cooldown_Lemmas
  imports Cooldown_Manager
begin

text \<open>
  The effect of each operation of the cooldown manager on its local map, its failure counts and its
  invariant, as equations the properties rewrite with.
\<close>

section \<open>Steps that leave the local map alone\<close>

named_theorems mgr_frame \<open>fields an auxiliary step of the manager does not touch\<close>

lemma bump_frame [mgr_frame]:
  "m_cooldowns (bumpAndPublishLocked ops p now m) = m_cooldowns m"
  "m_reasons (bumpAndPublishLocked ops p now m) = m_reasons m"
  "m_failures (bumpAndPublishLocked ops p now m) = m_failures m"
  "m_policies (bumpAndPublishLocked ops p now m) = m_policies m"
  by (simp_all add: bumpAndPublishLocked_def split: option.split sum.split prod.split)

lemma small_frame [mgr_frame]:
  "m_cooldowns (repo_call q m) = m_cooldowns m" "m_reasons (repo_call q m) = m_reasons m"
  "m_failures (repo_call q m) = m_failures m" "m_policies (repo_call q m) = m_policies m"
  "m_gen (repo_call q m) = m_gen m" "m_last_sync (repo_call q m) = m_last_sync m"
  "m_store (repo_call q m) = m_store m" "m_coord (repo_call q m) = m_coord m"
  "m_cooldowns (forget_sync p m) = m_cooldowns m" "m_reasons (forget_sync p m) = m_reasons m"
  "m_failures (forget_sync p m) = m_failures m" "m_policies (forget_sync p m) = m_policies m"
  "m_gen (forget_sync p m) = m_gen m" "m_store (forget_sync p m) = m_store m"
  "m_coord (forget_sync p m) = m_coord m"
  "m_last_sync (forget_sync p m) = AList.delete p (m_last_sync m)"
  "m_cooldowns (reset_failures p c mo m) = m_cooldowns m"
  "m_reasons (reset_failures p c mo m) = m_reasons m"
  "m_policies (reset_failures p c mo m) = m_policies m"
  "m_failures (reset_failures p c mo m) = ResetFailures p c mo (m_failures m)"
  "m_gen (reset_failures p c mo m) = m_gen m"
  "m_last_sync (reset_failures p c mo m) = m_last_sync m"
  "m_store (reset_failures p c mo m) = m_store m"
  "m_coord (reset_failures p c mo m) = m_coord m"
  by (simp_all add: repo_call_def forget_sync_def reset_failures_def)

lemma local_frame [mgr_frame]:
  "m_failures (drop_local k m) = m_failures m" "m_policies (drop_local k m) = m_policies m"
  "m_gen (drop_local k m) = m_gen m" "m_last_sync (drop_local k m) = m_last_sync m"
  "m_store (drop_local k m) = m_store m" "m_coord (drop_local k m) = m_coord m"
  "m_failures (put_local k u r m) = m_failures m" "m_policies (put_local k u r m) = m_policies m"
  "m_gen (put_local k u r m) = m_gen m" "m_last_sync (put_local k u r m) = m_last_sync m"
  "m_store (put_local k u r m) = m_store m" "m_coord (put_local k u r m) = m_coord m"
  "m_cooldowns (put_local k u r m) = AList.update k u (m_cooldowns m)"
  "m_reasons (put_local k u r m) = AList.update k r (m_reasons m)"
  "m_cooldowns (drop_local k m) = AList.delete k (m_cooldowns m)"
  "m_reasons (drop_local k m) = AList.delete k (m_reasons m)"
  by (simp_all add: drop_local_def put_local_def)

lemma fold_drop_local:
  "m_cooldowns (fold drop_local ks m) = filter (\<lambda>e. fst e \<notin> set ks) (m_cooldowns m)"
  "m_reasons (fold drop_local ks m) = filter (\<lambda>e. fst e \<notin> set ks) (m_reasons m)"
  by (induction ks arbitrary: m)
    (auto simp: mgr_frame AList.delete_eq conj_commute intro!: filter_cong)

lemma fold_drop_local_frame [mgr_frame]:
  "m_failures (fold drop_local ks m) = m_failures m"
  "m_policies (fold drop_local ks m) = m_policies m"
  "m_gen (fold drop_local ks m) = m_gen m" "m_last_sync (fold drop_local ks m) = m_last_sync m"
  "m_store (fold drop_local ks m) = m_store m" "m_coord (fold drop_local ks m) = m_coord m"
  by (induction ks arbitrary: m) (simp_all add: mgr_frame)

lemma drop_provider_frame [mgr_frame]:
  "m_failures (drop_provider p m) = m_failures m" "m_policies (drop_provider p m) = m_policies m"
  "m_gen (drop_provider p m) = m_gen m" "m_last_sync (drop_provider p m) = m_last_sync m"
  "m_store (drop_provider p m) = m_store m" "m_coord (drop_provider p m) = m_coord m"
  by (simp_all add: drop_provider_def mgr_frame)

lemma drop_provider_cooldowns:
  "m_cooldowns (drop_provider p m) = filter (\<lambda>e. ck_provider (fst e) \<noteq> p) (m_cooldowns m)"
  by (auto simp: drop_provider_def fold_drop_local intro!: filter_cong)

lemma drop_provider_lookup:
  "map_of (m_cooldowns (drop_provider p m)) k =
     (if ck_provider k = p then None else map_of (m_cooldowns m) k)"
  by (simp add: drop_provider_cooldowns map_of_filter_key [of "\<lambda>k. ck_provider k \<noteq> p"])

section \<open>Deleting and writing one key\<close>

definition delete_fails :: "'s store_ops \<Rightarrow> cooldown_key \<Rightarrow> 's manager \<Rightarrow> bool" where
  "delete_fails ops key m =
     (case m_store m of None \<Rightarrow> False | Some s \<Rightarrow> snd (so_delete ops key s) \<noteq> None)"

definition delete_provider_fails :: "'s store_ops \<Rightarrow> u64 \<Rightarrow> 's manager \<Rightarrow> bool" where
  "delete_provider_fails ops p m =
     (case m_store m of None \<Rightarrow> False | Some s \<Rightarrow> snd (so_delete_provider ops p s) \<noteq> None)"

lemma delete_key_cooldowns:
  "m_cooldowns (delete_key ops p c mo now m) =
     (if delete_fails ops (ckey p c mo) m then m_cooldowns m
      else AList.delete (ckey p c mo) (m_cooldowns m))"
  by (auto simp: delete_key_def Let_def delete_fails_def mgr_frame split: option.split prod.split)

lemma delete_key_reasons:
  "m_reasons (delete_key ops p c mo now m) =
     (if delete_fails ops (ckey p c mo) m then m_reasons m
      else AList.delete (ckey p c mo) (m_reasons m))"
  by (auto simp: delete_key_def Let_def delete_fails_def mgr_frame split: option.split prod.split)

lemma delete_key_failures:
  "m_failures (delete_key ops p c mo now m) =
     (if delete_fails ops (ckey p c mo) m then m_failures m
      else ResetFailures p c mo (m_failures m))"
  by (auto simp: delete_key_def Let_def delete_fails_def mgr_frame split: option.split prod.split)

lemma delete_key_policies [mgr_frame]:
  "m_policies (delete_key ops p c mo now m) = m_policies m"
  by (auto simp: delete_key_def Let_def mgr_frame split: option.split prod.split)

lemma set_cooldowns:
  assumes "now < until"
  shows "m_cooldowns (setCooldownLocked ops p c mo until reason later now m) =
    (if snd (store_write ops (ckey p c mo) until later (m_store m)) = Rejected
     then m_cooldowns m else AList.update (ckey p c mo) until (m_cooldowns m))"
  using assms
  by (auto simp: setCooldownLocked_def Let_def mgr_frame split: prod.split store_outcome.split)

lemma set_reasons:
  assumes "now < until"
  shows "m_reasons (setCooldownLocked ops p c mo until reason later now m) =
    (if snd (store_write ops (ckey p c mo) until later (m_store m)) = Rejected
     then m_reasons m else AList.update (ckey p c mo) reason (m_reasons m))"
  using assms
  by (auto simp: setCooldownLocked_def Let_def mgr_frame split: prod.split store_outcome.split)

lemma set_failures:
  assumes "now < until"
  shows "m_failures (setCooldownLocked ops p c mo until reason later now m) = m_failures m"
  using assms
  by (auto simp: setCooldownLocked_def Let_def mgr_frame split: prod.split store_outcome.split)

lemma set_policies [mgr_frame]:
  "m_policies (setCooldownLocked ops p c mo until reason later now m) = m_policies m"
  by (auto simp: setCooldownLocked_def Let_def mgr_frame split: prod.split store_outcome.split)

lemma set_expired:
  "until \<le> now \<Longrightarrow> setCooldownLocked ops p c mo until reason later now m =
     delete_key ops p c mo now m"
  by (simp add: setCooldownLocked_def Let_def)

lemma ClearCooldown_provider:
  "m_cooldowns (ClearCooldown ops p '''' '''' now m) =
     (if delete_provider_fails ops p m then m_cooldowns m
      else m_cooldowns (drop_provider p m))"
  "m_reasons (ClearCooldown ops p '''' '''' now m) =
     (if delete_provider_fails ops p m then m_reasons m
      else m_reasons (drop_provider p m))"
  "m_failures (ClearCooldown ops p '''' '''' now m) =
     (if delete_provider_fails ops p m then m_failures m
      else ResetFailures p '''' '''' (m_failures m))"
  by (auto simp: ClearCooldown_def Let_def delete_provider_fails_def mgr_frame drop_provider_def
      fold_drop_local split: option.split prod.split)

section \<open>Reading\<close>

lemma in_cooldown_iff:
  "in_cooldown cds p c mo now \<longleftrightarrow>
     frozen_at cds (ckey p '''' '''') now \<or> frozen_at cds (ckey p c '''') now \<or>
     frozen_at cds (ckey p '''' mo) now \<or> frozen_at cds (ckey p c mo) now"
  by (auto simp: in_cooldown_def)

lemma frozen_cong: "map_of cds k = map_of cds' k \<Longrightarrow> frozen_at cds k t = frozen_at cds' k t"
  by (simp add: frozen_at_def)

lemma frozen_update:
  "frozen_at (AList.update k u cds) k' t = (if k' = k then t < u else frozen_at cds k' t)"
  by (simp add: frozen_at_def go_map)

lemma frozen_delete:
  "frozen_at (AList.delete k cds) k' t = (k' \<noteq> k \<and> frozen_at cds k' t)"
  by (simp add: frozen_at_def go_map)

text \<open>The times of the live entries among some keys; \<open>getCooldownUntilLocked\<close> is their maximum.\<close>

definition live_time :: "store_entries \<Rightarrow> go_time \<Rightarrow> cooldown_key \<Rightarrow> go_time option" where
  "live_time cds now k =
     (case map_of cds k of None \<Rightarrow> None | Some u \<Rightarrow> if now < u then Some u else None)"

lemma frozen_live: "frozen_at cds k now = (\<exists>u. live_time cds now k = Some u)"
  by (simp add: frozen_at_def live_time_def split: option.split)

lemma latest_cooldown_fold:
  "latest_cooldown cds now keys latest = fold max (List.map_filter (live_time cds now) keys) latest"
  by (induction cds now keys latest rule: latest_cooldown.induct)
    (auto simp: List.map_filter_simps live_time_def max_def split: option.split)

lemma set_map_filter: "set (List.map_filter f ks) = {u. \<exists>k \<in> set ks. f k = Some u}"
  by (induction ks) (auto simp: List.map_filter_simps split: option.split)

lemma latest_cooldown_Max:
  "latest_cooldown cds now keys latest =
     Max (insert latest {u. \<exists>k \<in> set keys. live_time cds now k = Some u})"
  by (simp only: latest_cooldown_fold Max.set_eq_fold [symmetric] list.set set_map_filter)

lemma finite_live_times [simp]:
  "finite {u. \<exists>k \<in> set keys. live_time cds now k = Some u}"
  by (simp add: set_map_filter [symmetric])

lemma Max_insert_least:
  assumes "finite L" and "\<And>u. u \<in> L \<Longrightarrow> (z::int) < u"
  shows "Max (insert z L) = z \<longleftrightarrow> L = {}"
proof
  assume "Max (insert z L) = z"
  then have "u \<le> z" if "u \<in> L" for u using that assms(1) Max_ge [of "insert z L" u] by simp
  with assms(2) show "L = {}" by fastforce
qed simp

lemma until_zero_iff:
  assumes "zero_time \<le> now"
  shows "getCooldownUntilLocked cds p c mo now = zero_time \<longleftrightarrow> \<not> in_cooldown cds p c mo now"
proof -
  let ?keys = "[ckey p '''' '''', ckey p c '''', ckey p '''' mo, ckey p c mo]"
  let ?L = "{u. \<exists>k \<in> set ?keys. live_time cds now k = Some u}"
  have later: "zero_time < u" if "u \<in> ?L" for u
    using that assms by (auto simp: live_time_def split: option.splits if_splits)
  have "Max (insert zero_time ?L) = zero_time \<longleftrightarrow> ?L = {}"
    by (rule Max_insert_least [OF finite_live_times]) (rule later)
  also have "?L = {} \<longleftrightarrow> \<not> in_cooldown cds p c mo now"
    by (auto simp: in_cooldown_iff frozen_live all_conj_distrib)
  finally show ?thesis by (simp only: getCooldownUntilLocked_def latest_cooldown_Max)
qed

text \<open>The reported end is an upper bound of every live entry that applies, and is one of them.\<close>

lemma until_bound:
  assumes "k \<in> {ckey p '''' '''', ckey p c '''', ckey p '''' mo, ckey p c mo}"
    and "map_of cds k = Some u" and "now < u"
  shows "u \<le> getCooldownUntilLocked cds p c mo now"
proof -
  let ?keys = "[ckey p '''' '''', ckey p c '''', ckey p '''' mo, ckey p c mo]"
  have "live_time cds now k = Some u" using assms(2,3) by (simp add: live_time_def)
  moreover have "k \<in> set ?keys" using assms(1) by simp
  ultimately have "u \<in> {u. \<exists>k \<in> set ?keys. live_time cds now k = Some u}" by blast
  then show ?thesis
    unfolding getCooldownUntilLocked_def latest_cooldown_Max
    by (intro Max_ge finite.insertI finite_live_times insertI2)
qed

end
