(* ===== verification/Redis_Keys.thy ===== *)
theory Redis_Keys
  imports Cooldown_Store
begin

text \<open>
  The Redis key of a cooldown entry, \<^verbatim>\<open>keyName\<close> and \<^verbatim>\<open>parseKey\<close> of
  \<^verbatim>\<open>internal/cooldown/store_redis.go\<close>, over the functions of the Go standard library they use:
  \<^verbatim>\<open>url.QueryEscape\<close>, \<^verbatim>\<open>url.QueryUnescape\<close>, \<^verbatim>\<open>strings.Split\<close> and \<^verbatim>\<open>strconv.ParseUint\<close>.
  Strings are lists of bytes.  The Redis commands themselves are outside the model.
\<close>

section \<open>Standard library functions\<close>

text \<open>\<open>strings.Split\<close> with a separator of one byte.\<close>

fun split_on :: "char \<Rightarrow> string \<Rightarrow> string list" where
  "split_on sep [] = [[]]"
| "split_on sep (c # cs) =
     (if c = sep then [] # split_on sep cs
      else (case split_on sep cs of
              [] \<Rightarrow> [[c]]
            | p # ps \<Rightarrow> (c # p) # ps))"

lemma split_on_nonempty [simp]: "split_on sep s \<noteq> []"
  by (induction s) (auto split: list.splits)

lemma split_on_append:
  "sep \<notin> set xs \<Longrightarrow> split_on sep (xs @ sep # ys) = xs # split_on sep ys"
  by (induction xs) auto

lemma split_on_single: "sep \<notin> set xs \<Longrightarrow> split_on sep xs = [xs]"
  by (induction xs) auto

definition in_range :: "nat \<Rightarrow> nat \<Rightarrow> char \<Rightarrow> bool" where
  "in_range lo hi c = (lo \<le> of_char c \<and> of_char c \<le> hi)"

definition unreserved :: "char \<Rightarrow> bool" where
  "unreserved c = (in_range 97 122 c \<or> in_range 65 90 c \<or> in_range 48 57 c \<or>
     c \<in> {CHR ''-'', CHR ''_'', CHR ''.'', CHR ''~''})"

definition upperhex :: "nat \<Rightarrow> char" where
  "upperhex d = (if d < 10 then char_of (48 + d) else char_of (55 + d))"

definition unhex :: "char \<Rightarrow> nat option" where
  "unhex c = (if in_range 48 57 c then Some (of_char c - 48)
              else if in_range 97 102 c then Some (of_char c - 87)
              else if in_range 65 70 c then Some (of_char c - 55)
              else None)"

definition escape_char :: "char \<Rightarrow> string" where
  "escape_char c =
     (if unreserved c then [c]
      else if c = CHR '' '' then ''+''
      else [CHR ''%'', upperhex (of_char c div 16), upperhex (of_char c mod 16)])"

definition QueryEscape :: "string \<Rightarrow> string" where
  "QueryEscape s = concat (map escape_char s)"

fun QueryUnescape :: "string \<Rightarrow> string option" where
  "QueryUnescape [] = Some []"
| "QueryUnescape (c # cs) =
     (if c = CHR ''%'' then
        (case cs of
           h # l # cs' \<Rightarrow>
             (case (unhex h, unhex l) of
                (Some x, Some y) \<Rightarrow> map_option (Cons (char_of (16 * x + y))) (QueryUnescape cs')
              | _ \<Rightarrow> None)
         | _ \<Rightarrow> None)
      else if c = CHR ''+'' then map_option (Cons CHR '' '') (QueryUnescape cs)
      else map_option (Cons c) (QueryUnescape cs))"

section \<open>Key names\<close>

definition wildcardToken :: string where "wildcardToken = ''*''"
definition redisCooldownPrefix :: string where "redisCooldownPrefix = ''maxx:v1:cooldown''"

definition encodeKeyPart :: "string \<Rightarrow> string" where
  "encodeKeyPart v = (if v = '''' then wildcardToken else QueryEscape v)"

definition decodeKeyPart :: "string \<Rightarrow> string option" where
  "decodeKeyPart v = (if v = wildcardToken then Some '''' else QueryUnescape v)"

definition keyName :: "cooldown_key \<Rightarrow> string" where
  "keyName k =
     redisCooldownPrefix @ '':p:'' @ show_nat (unat (ck_provider k)) @
       '':c:'' @ encodeKeyPart (ck_client k) @ '':m:'' @ encodeKeyPart (ck_model k)"

definition parseKey :: "string \<Rightarrow> cooldown_key option" where
  "parseKey raw =
     (let parts = split_on CHR '':'' raw
      in if length parts \<noteq> 9 \<or> parts ! 0 \<noteq> ''maxx'' \<or> parts ! 1 \<noteq> ''v1'' \<or>
            parts ! 2 \<noteq> ''cooldown'' then None
         else if parts ! 3 \<noteq> ''p'' \<or> parts ! 5 \<noteq> ''c'' \<or> parts ! 7 \<noteq> ''m'' then None
         else case parse_uint64 (parts ! 4) of
                None \<Rightarrow> None
              | Some pid \<Rightarrow>
                  (case decodeKeyPart (parts ! 6) of
                     None \<Rightarrow> None
                   | Some clientType \<Rightarrow>
                       (case decodeKeyPart (parts ! 8) of
                          None \<Rightarrow> None
                        | Some model \<Rightarrow> Some (ckey pid clientType model))))"

section \<open>Round trip\<close>

lemma unhex_upperhex: "d < 16 \<Longrightarrow> unhex (upperhex d) = Some d"
  by (auto simp: unhex_def upperhex_def in_range_def)

lemma upperhex_not:
  assumes "d < 16"
  shows "upperhex d \<noteq> CHR '':''" "upperhex d \<noteq> CHR ''*''"
proof -
  have "of_char (upperhex d) \<noteq> (58::nat)" "of_char (upperhex d) \<noteq> (42::nat)"
    using assms by (auto simp: upperhex_def)
  then show "upperhex d \<noteq> CHR '':''" "upperhex d \<noteq> CHR ''*''" by auto
qed

lemma unreserved_not:
  "unreserved c \<Longrightarrow> c \<noteq> CHR ''%'' \<and> c \<noteq> CHR ''+'' \<and> c \<noteq> CHR '':'' \<and> c \<noteq> CHR ''*''"
  by (auto simp: unreserved_def in_range_def)

lemma hex_parts: "char_of (16 * (of_char c div 16) + of_char c mod (16::nat)) = c"
  by simp

lemma unescape_escape_char:
  "QueryUnescape (escape_char c @ s) = map_option (Cons c) (QueryUnescape s)"
  using unreserved_not [of c] nat_of_char_less_256 [of c]
  by (auto simp: escape_char_def unhex_upperhex less_mult_imp_div_less)

lemma unescape_escape: "QueryUnescape (QueryEscape s) = Some s"
  by (induction s) (simp_all add: QueryEscape_def unescape_escape_char)

lemma escape_char_clean: "c \<in> set (escape_char x) \<Longrightarrow> c \<noteq> CHR '':'' \<and> c \<noteq> CHR ''*''"
  using unreserved_not [of x] nat_of_char_less_256 [of x] upperhex_not
  by (auto simp: escape_char_def less_mult_imp_div_less split: if_splits)

lemma escape_clean: "CHR '':'' \<notin> set (QueryEscape s) \<and> CHR ''*'' \<notin> set (QueryEscape s)"
  using escape_char_clean by (auto simp: QueryEscape_def)

lemma encodeKeyPart_colon: "CHR '':'' \<notin> set (encodeKeyPart v)"
  using escape_clean [of v] by (simp add: encodeKeyPart_def wildcardToken_def)

lemma decode_encode: "decodeKeyPart (encodeKeyPart v) = Some v"
proof (cases "v = ''''")
  case False
  have "QueryEscape v \<noteq> wildcardToken" using escape_clean [of v] by (auto simp: wildcardToken_def)
  with False show ?thesis by (simp add: decodeKeyPart_def encodeKeyPart_def unescape_escape)
qed (simp add: decodeKeyPart_def encodeKeyPart_def)

lemma show_nat_colon: "CHR '':'' \<notin> set (show_nat n)"
proof
  assume "CHR '':'' \<in> set (show_nat n)"
  then obtain d where "d < 10" "CHR '':'' = digit d" using show_nat_digits by blast
  then have "(of_char CHR '':'' :: nat) = 48 + d" using of_char_digit by metis
  with \<open>d < 10\<close> show False by simp
qed

text \<open>C40: the Redis key of a cooldown entry decodes to that entry, whatever bytes its client type and
  model hold (a model may contain \<open>:\<close> or be \<open>*\<close>); so distinct entries have distinct keys.\<close>

theorem parseKey_keyName: "parseKey (keyName k) = Some k"
proof -
  have "split_on CHR '':'' (keyName k) =
      [''maxx'', ''v1'', ''cooldown'', ''p'', show_nat (unat (ck_provider k)), ''c'',
       encodeKeyPart (ck_client k), ''m'', encodeKeyPart (ck_model k)]"
    by (simp add: keyName_def redisCooldownPrefix_def split_on_append split_on_single
        show_nat_colon encodeKeyPart_colon)
  then show ?thesis
    by (simp add: parseKey_def parse_show_u64 decode_encode ckey_def nth_Cons')
qed

end
