(* ===== verification/Cooldown_Properties.thy ===== *)
theory Cooldown_Properties
  imports Cooldown_Lemmas Redis_Keys
begin

text \<open>
  What the cooldown manager promises: the two queries agree, a failure freezes exactly what its
  scope names, success and clearing lift exactly what they should, failures in a row escalate by
  the policy, and every reachable manager keeps its invariant.
\<close>

section \<open>The invariant of the reachable states\<close>

definition maps_wf :: "store_entries \<Rightarrow> (cooldown_key \<times> string) list \<Rightarrow> bool" where
  "maps_wf cds rs \<longleftrightarrow> wf_map cds \<and> wf_map rs \<and>
     (\<forall>k. map_of rs k = None \<longleftrightarrow> map_of cds k = None)"

abbreviation local_wf :: "'s manager \<Rightarrow> bool" where
  "local_wf m \<equiv> maps_wf (m_cooldowns m) (m_reasons m)"

inductive manager_step :: "'s store_ops \<Rightarrow> 's manager \<Rightarrow> 's manager \<Rightarrow> bool" for ops where
  repository: "manager_step ops m (SetRepository m)"
| failure_repository: "manager_step ops m (SetFailureCountRepository m)"
| coordinator: "manager_step ops m (SetCoordinator s m)"
| load: "manager_step ops m (fst (Manager_LoadFromDatabase rows counts m))"
| failure: "manager_step ops m (fst (RecordFailure ops p c mo r sc ex now m))"
| success: "manager_step ops m (RecordSuccess ops p c mo now m)"
| set_duration: "manager_step ops m (SetCooldownDuration ops p c mo d now m)"
| set_until: "manager_step ops m (SetCooldownUntil ops p c mo u now m)"
| clear: "manager_step ops m (ClearCooldown ops p c mo now m)"
| update: "manager_step ops m (UpdateCooldown ops p c mo u now m)"
| query: "manager_step ops m (fst (IsInCooldown ops p c mo now m))"
| query_until: "manager_step ops m (fst (GetCooldownUntil ops p c mo now m))"
| info: "manager_step ops m (fst (GetCooldownInfo ops p c mo n now m))"
| event: "manager_step ops m (applyRemoteEvent ops ev now m)"
| cleanup: "manager_step ops m (CleanupExpired counts now m)"

lemma maps_wf_Nil [simp]: "maps_wf [] []"
  by (simp add: maps_wf_def)

lemma maps_wf_update [simp]:
  "maps_wf cds rs \<Longrightarrow> maps_wf (AList.update k u cds) (AList.update k r rs)"
  by (simp add: maps_wf_def wf_intros go_map del: map_of_eq_None_iff)

lemma maps_wf_update_known:
  "maps_wf cds rs \<Longrightarrow> map_of rs k \<noteq> None \<Longrightarrow> maps_wf (AList.update k u cds) rs"
  by (auto simp: maps_wf_def wf_intros go_map simp del: map_of_eq_None_iff)

lemma maps_wf_delete [simp]:
  "maps_wf cds rs \<Longrightarrow> maps_wf (AList.delete k cds) (AList.delete k rs)"
  by (simp add: maps_wf_def wf_intros go_map del: map_of_eq_None_iff)

lemma local_wf_fold:
  "(\<And>x m. local_wf m \<Longrightarrow> local_wf (f x m)) \<Longrightarrow> local_wf m \<Longrightarrow> local_wf (fold f xs m)"
  by (induction xs arbitrary: m) simp_all

lemma local_wf_fold_drop: "local_wf m \<Longrightarrow> local_wf (fold drop_local ks m)"
  by (rule local_wf_fold) (simp_all add: mgr_frame)

lemma local_wf_drop_provider: "local_wf m \<Longrightarrow> local_wf (drop_provider p m)"
  by (simp add: drop_provider_def local_wf_fold_drop)

lemma local_wf_load_store: "local_wf m \<Longrightarrow> local_wf (load_store_entry e m)"
  by (simp add: load_store_entry_def maps_wf_update_known del: map_of_eq_None_iff)

lemma local_wf_load_row: "local_wf m \<Longrightarrow> local_wf (load_cooldown_row e m)"
  by (simp add: load_cooldown_row_def)

lemma local_wf_delete_key: "local_wf m \<Longrightarrow> local_wf (delete_key ops p c mo now m)"
  by (simp add: delete_key_cooldowns delete_key_reasons)

lemma local_wf_set: "local_wf m \<Longrightarrow> local_wf (setCooldownLocked ops p c mo u r later now m)"
  by (cases "u \<le> now") (simp_all add: set_expired local_wf_delete_key set_cooldowns set_reasons)

lemma local_wf_clear: "local_wf m \<Longrightarrow> local_wf (ClearCooldown ops p c mo now m)"
  by (cases "c = '''' \<and> mo = ''''")
    (simp_all add: ClearCooldown_provider local_wf_drop_provider,
     auto simp: ClearCooldown_def local_wf_delete_key)

lemma local_wf_reload: "local_wf m \<Longrightarrow> local_wf (reload_apply p es g now m)"
  using local_wf_fold [of load_store_entry, OF local_wf_load_store local_wf_drop_provider]
  by (simp add: reload_apply_def Let_def)

lemma local_wf_reloadProvider: "local_wf m \<Longrightarrow> local_wf (reloadProvider ops p g now m)"
  by (simp add: reloadProvider_def Let_def local_wf_reload split: option.split sum.split)

lemma local_wf_sync: "local_wf m \<Longrightarrow> local_wf (syncProviderGeneration ops p now m)"
  by (simp add: syncProviderGeneration_def Let_def local_wf_reloadProvider
      split: option.split sum.split)

lemma fold_reset_failures_local [mgr_frame]:
  "m_cooldowns (fold (\<lambda>k. reset_failures (a k) (b k) (d k)) ks m) = m_cooldowns m"
  "m_reasons (fold (\<lambda>k. reset_failures (a k) (b k) (d k)) ks m) = m_reasons m"
  by (induction ks arbitrary: m) (simp_all add: mgr_frame)

lemma local_wf_LoadFromDatabase:
  "local_wf m \<Longrightarrow> local_wf (fst (Manager_LoadFromDatabase rows counts m))"
  using local_wf_fold [of load_cooldown_row "m \<lparr> m_cooldowns := [], m_reasons := [] \<rparr>",
      OF local_wf_load_row]
  by (simp add: Manager_LoadFromDatabase_def Let_def split: option.split sum.split)

lemma local_wf_RecordFailure:
  "local_wf m \<Longrightarrow> local_wf (fst (RecordFailure ops p c mo r sc ex now m))"
  by (simp add: RecordFailure_def Let_def local_wf_set split: option.split prod.split)

lemma local_wf_CleanupExpired: "local_wf m \<Longrightarrow> local_wf (CleanupExpired counts now m)"
  by (simp add: CleanupExpired_def Let_def mgr_frame local_wf_fold_drop)

lemma manager_step_local_wf: "manager_step ops m m' \<Longrightarrow> local_wf m \<Longrightarrow> local_wf m'"
  by (induction rule: manager_step.induct)
    (simp_all add: SetRepository_def SetFailureCountRepository_def SetCoordinator_def
      RecordSuccess_def SetCooldownDuration_def SetCooldownUntil_def UpdateCooldown_def Let_def
      IsInCooldown_def GetCooldownUntil_def GetCooldownInfo_def applyRemoteEvent_def
      local_wf_delete_key local_wf_set local_wf_clear local_wf_sync local_wf_reloadProvider
      local_wf_LoadFromDatabase local_wf_RecordFailure local_wf_CleanupExpired)

text \<open>C31: in every state the manager can reach from its construction, by any operations with any
  arguments over any store (failing or not), the local maps of cooldowns and of reasons hold
  exactly the same keys.\<close>

theorem manager_local_invariant:
  assumes "(manager_step ops)\<^sup>*\<^sup>* NewManager m"
  shows "wf_map (m_cooldowns m) \<and> wf_map (m_reasons m) \<and>
    fst ` set (m_reasons m) = fst ` set (m_cooldowns m)"
proof -
  from assms have "local_wf m"
    by (induction rule: rtranclp_induct) (simp_all add: NewManager_def manager_step_local_wf)
  then show ?thesis
    by (auto simp: maps_wf_def map_of_eq_None_iff)
qed

definition sample_failure ::
  "string \<Rightarrow> string \<Rightarrow> go_time option \<Rightarrow> memory_store manager \<Rightarrow> memory_store manager" where
  "sample_failure r sc ex m =
     fst (RecordFailure memory_ops 1 ''claude'' ''opus'' r sc ex 1000 m)"

lemma manager_local_invariant_witness:
  "let m = sample_failure ReasonNetworkError ScopeKey None (SetCoordinator NewMemoryCooldownStore NewManager)
   in wf_map (m_cooldowns m) \<and> wf_map (m_reasons m) \<and>
      fst ` set (m_reasons m) = fst ` set (m_cooldowns m)"
  unfolding Let_def
  by (rule manager_local_invariant [of memory_ops])
    (auto simp: sample_failure_def intro: rtranclp.intros manager_step.coordinator
      manager_step.failure)

section \<open>The queries\<close>

text \<open>\<open>IsInCooldown\<close> and \<open>GetCooldownUntil\<close> agree: after the same synchronisation, a provider is
  in cooldown for a client type and model exactly when the reported end is not the zero time, and
  then the end is later than now.\<close>

theorem queries_agree:
  assumes "zero_time \<le> now"
  shows "let (m1, frozen) = IsInCooldown ops p c mo now m;
             (m2, until) = GetCooldownUntil ops p c mo now m
         in m1 = m2 \<and> (frozen \<longleftrightarrow> until \<noteq> zero_time) \<and> (frozen \<longrightarrow> now < until)"
proof -
  let ?cds = "m_cooldowns (syncProviderGeneration ops p now m)"
  have "now < getCooldownUntilLocked ?cds p c mo now" if "in_cooldown ?cds p c mo now"
  proof -
    from that obtain k u
      where k: "k \<in> {ckey p '''' '''', ckey p c '''', ckey p '''' mo, ckey p c mo}"
        and u: "map_of ?cds k = Some u" "now < u"
      by (auto simp: in_cooldown_iff frozen_at_def simp del: map_of_eq_Some_iff
          split: option.splits)
    from until_bound [OF k u] u(2) show ?thesis by simp
  qed
  then show ?thesis
    using until_zero_iff [OF assms, of ?cds p c mo]
    by (auto simp: IsInCooldown_def GetCooldownUntil_def Let_def)
qed

lemma queries_agree_witness:
  "let m = sample_failure ReasonNetworkError ScopeKey None NewManager;
       (m1, frozen) = IsInCooldown memory_ops 1 ''claude'' ''haiku'' 2000 m;
       (m2, until) = GetCooldownUntil memory_ops 1 ''claude'' ''haiku'' 2000 m
   in m1 = m2 \<and> (frozen \<longleftrightarrow> until \<noteq> zero_time) \<and> (frozen \<longrightarrow> 2000 < until)"
  using queries_agree [of 2000 memory_ops 1 "''claude''" "''haiku''"
      "sample_failure ReasonNetworkError ScopeKey None NewManager"]
  by (auto simp: zero_time_def Let_def split: prod.splits)

section \<open>Recording failures\<close>

text \<open>The client types and models a failure of some scope is about.\<close>

definition scope_covers :: "string \<Rightarrow> string \<Rightarrow> string \<Rightarrow> string \<Rightarrow> string \<Rightarrow> bool" where
  "scope_covers scope c mo c' mo' =
     ((scope = ScopeProvider \<or> c = '''' \<or> c' = c) \<and>
      (scope \<in> {ScopeProvider, ScopeKey, ScopeEndpoint} \<or> mo = '''' \<or> mo' = mo))"

definition failed_key ::
  "u64 \<Rightarrow> string \<Rightarrow> string \<Rightarrow> string \<Rightarrow> cooldown_key" where
  "failed_key p c mo scope = ckey p (effectiveClientType scope c) (effectiveModel scope mo)"

lemma frozen_covers:
  "scope_covers scope c mo c' mo' \<Longrightarrow> frozen_at cds (failed_key p c mo scope) t \<Longrightarrow>
   in_cooldown cds p c' mo' t"
  by (auto simp: in_cooldown_iff failed_key_def effectiveClientType_def effectiveModel_def
      scope_covers_def split: if_splits)

lemma RecordFailure_cooldowns:
  assumes "sc \<noteq> ScopeRequest" and "RecordFailure ops p c mo r sc ex now m = (m', until)"
    and "now < until"
  shows "m_cooldowns m' =
    (if snd (store_write ops (failed_key p c mo sc) until (ex = None) (m_store m)) = Rejected
     then m_cooldowns m else AList.update (failed_key p c mo sc) until (m_cooldowns m))"
  using assms
  by (auto simp: RecordFailure_def failed_key_def Let_def set_cooldowns
      split: option.splits prod.splits)

text \<open>C28: unless the store answers that it already has a later end, a failure of any scope but a single
  request freezes, in the view of the manager that records it and until the time it returns, every
  client type and model its scope covers (the model on that client type, the whole client type, or
  the whole provider), and changes nothing in that view for other providers.\<close>

theorem failure_freezes_scope:
  assumes "sc \<noteq> ScopeRequest" and "RecordFailure ops p c mo r sc ex now m = (m', until)"
    and "snd (store_write ops (failed_key p c mo sc) until (ex = None) (m_store m)) \<noteq> Rejected"
    and "now \<le> t" and "t < until" and "scope_covers sc c mo c' mo'"
  shows "in_cooldown (m_cooldowns m') p c' mo' t \<and>
    (p' \<noteq> p \<longrightarrow> in_cooldown (m_cooldowns m') p' c'' mo'' t' =
       in_cooldown (m_cooldowns m) p' c'' mo'' t')"
proof -
  have cds: "m_cooldowns m' = AList.update (failed_key p c mo sc) until (m_cooldowns m)"
    using RecordFailure_cooldowns [OF assms(1,2)] assms(3-5) by simp
  have "in_cooldown (m_cooldowns m') p c' mo' t"
    by (rule frozen_covers [OF assms(6)]) (simp add: cds frozen_update assms(5))
  then show ?thesis by (auto simp: cds in_cooldown_iff frozen_update failed_key_def)
qed

lemma failure_freezes_scope_witness:
  "in_cooldown (m_cooldowns (sample_failure ReasonNetworkError ScopeKey (Some 9000) NewManager))
     1 ''claude'' ''haiku'' 5000"
  using failure_freezes_scope [of ScopeKey memory_ops 1 "''claude''" "''opus''"
      ReasonNetworkError "Some 9000" 1000 NewManager _ 9000 5000 "''claude''" "''haiku''"]
  by (simp add: sample_failure_def RecordFailure_def Let_def scope_defs store_write_def
      NewManager_def scope_covers_def prod_eq_iff)

section \<open>Failures in a row\<close>

lemma RecordFailure_count:
  assumes "sc \<noteq> ScopeRequest" and "m_policies m = DefaultPolicies"
    and "GetFailureCount p (effectiveClientType sc c) (effectiveModel sc mo) r (m_failures m) = n"
    and "0 \<le> n" and "n < 2 ^ 60"
    and "RecordFailure ops p c mo r sc None now m = (m', until)"
  shows "until = now + CalculateCooldown (policy_for r) (n + 1) \<and>
    m_policies m' = DefaultPolicies \<and>
    GetFailureCount p (effectiveClientType sc c) (effectiveModel sc mo) r (m_failures m') = n + 1"
proof -
  let ?c = "effectiveClientType sc c" and ?mo = "effectiveModel sc mo"
  obtain ft k where inc: "IncrementFailure p ?c ?mo r now (m_failures m) = (ft, k)" by fastforce
  note count = IncrementFailure_count [OF inc, of p ?c ?mo r]
  have k: "k = n + 1" using count assms(3-5) by (simp add: wrap_i64_id)
  have until: "until = now + CalculateCooldown (policy_for r) (n + 1)"
    and m': "m' = setCooldownLocked ops p ?c ?mo until r True now (m \<lparr> m_failures := ft \<rparr>)"
    using assms(1,2,6) inc k by (auto simp: RecordFailure_def Let_def policy_for_def)
  have "now < until"
    using until policy_bounds [of "n + 1" "n + 1" r] assms(4,5) by (simp add: second_def)
  then show ?thesis
    using until m' count k assms(2) by (simp add: set_failures mgr_frame)
qed

text \<open>The ends reported for failures at the given times, one after the other.\<close>

fun failures_in_row ::
  "'s store_ops \<Rightarrow> u64 \<Rightarrow> string \<Rightarrow> string \<Rightarrow> string \<Rightarrow> string \<Rightarrow> go_time list \<Rightarrow>
     's manager \<Rightarrow> 's manager \<times> go_time list" where
  "failures_in_row ops p c mo r sc [] m = (m, [])"
| "failures_in_row ops p c mo r sc (now # ts) m =
     (let (m', until) = RecordFailure ops p c mo r sc None now m;
          (m'', untils) = failures_in_row ops p c mo r sc ts m'
      in (m'', until # untils))"

lemma failures_in_row_from:
  assumes "sc \<noteq> ScopeRequest" and "m_policies m = DefaultPolicies"
    and "GetFailureCount p (effectiveClientType sc c) (effectiveModel sc mo) r (m_failures m) = int n"
    and "n + length ts < 2 ^ 60"
  shows "snd (failures_in_row ops p c mo r sc ts m) =
    map2 (\<lambda>t k. t + CalculateCooldown (policy_for r) (int k)) ts [n + 1 ..< n + 1 + length ts]"
  using assms(2-4)
proof (induction ts arbitrary: m n)
  case (Cons t ts)
  obtain m' until where f: "RecordFailure ops p c mo r sc None t m = (m', until)" by fastforce
  have small: "int n < 2 ^ 60" using Cons.prems(3) by simp
  note step = RecordFailure_count [OF assms(1) Cons.prems(1,2) _ small f]
  have "snd (failures_in_row ops p c mo r sc ts m') =
      map2 (\<lambda>t k. t + CalculateCooldown (policy_for r) (int k)) ts
        [Suc n + 1 ..< Suc n + 1 + length ts]"
    using step Cons.prems(3) by (intro Cons.IH) auto
  then show ?case
    using step by (simp add: f Let_def split_def upt_rec add.commute)
qed simp

text \<open>Failures for the same reason and key in a row, at any times, whatever the store answers, are
  cooled down by the policy of the reason at count 1, 2, 3, and so on: for network errors 5, 10,
  20, 40 seconds up to half an hour.\<close>

theorem failures_escalate:
  assumes "sc \<noteq> ScopeRequest" and "m_policies m = DefaultPolicies"
    and "GetFailureCount p (effectiveClientType sc c) (effectiveModel sc mo) r (m_failures m) = 0"
    and "length ts < 2 ^ 59"
  shows "snd (failures_in_row ops p c mo r sc ts m) =
      map2 (\<lambda>t k. t + CalculateCooldown (policy_for r) (int k)) ts [1 ..< Suc (length ts)] \<and>
    (r = ReasonNetworkError \<longrightarrow> (\<forall>i < length ts.
       snd (failures_in_row ops p c mo r sc ts m) ! i = ts ! i + min (5 * 2 ^ i) 1800 * second))"
proof -
  have all: "snd (failures_in_row ops p c mo r sc ts m) =
      map2 (\<lambda>t k. t + CalculateCooldown (policy_for r) (int k)) ts [1 ..< Suc (length ts)]"
    using failures_in_row_from [OF assms(1,2), of p c mo r 0 ts ops] assms(3,4) by simp
  have "CalculateCooldown (policy_for ReasonNetworkError) (int (Suc i)) =
      min (5 * 2 ^ i) 1800 * second" for i
    using ExponentialBackoff_min [of "int (Suc i)" 5 1800]
    by (simp add: policy_for_def DefaultPolicies_def reason_defs del: CalculateCooldown.simps)
  then show ?thesis unfolding all by (simp del: upt_Suc)
qed

lemma failures_escalate_witness:
  "snd (failures_in_row memory_ops 1 ''claude'' ''opus'' ReasonNetworkError ScopeModel [0, 100]
     NewManager) ! 1 = 100 + 10 * second"
  using failures_escalate [of ScopeModel NewManager 1 "''claude''" "''opus''" ReasonNetworkError
      "[0, 100]" memory_ops]
  by (auto simp: scope_defs NewManager_def NewFailureTracker_def GetFailureCount_def
      lookup_default_def)

section \<open>Success and clearing\<close>

text \<open>A successful request on a model lifts that model's own cooldown and restarts its failure
  counts, and leaves every other entry of the local map, so a cooldown of the whole client type or
  provider outlives it; when the store cannot be reached nothing is lifted.\<close>

theorem success_clears_only_its_key:
  assumes "c \<noteq> ''''" and "mo \<noteq> ''''"
  shows "let m' = RecordSuccess ops p c mo now m in
    (if delete_fails ops (ckey p c mo) m
     then m_cooldowns m' = m_cooldowns m \<and> m_failures m' = m_failures m
     else \<not> frozen_at (m_cooldowns m') (ckey p c mo) t \<and>
          GetFailureCount p c mo r (m_failures m') = 0 \<and>
          (\<forall>k. k \<noteq> ckey p c mo \<longrightarrow> map_of (m_cooldowns m') k = map_of (m_cooldowns m) k) \<and>
          (frozen_at (m_cooldowns m) (ckey p c '''') t \<longrightarrow> in_cooldown (m_cooldowns m') p c mo t))"
  using assms
  by (auto simp: RecordSuccess_def Let_def delete_key_cooldowns delete_key_failures frozen_delete
      GetFailureCount_reset in_cooldown_iff go_map)

lemma success_clears_only_its_key_witness:
  "let m = sample_failure ReasonRateLimit ScopeModel None NewManager;
       m' = RecordSuccess memory_ops 1 ''claude'' ''opus'' 1500 m
   in frozen_at (m_cooldowns m) (ckey 1 ''claude'' ''opus'') 2000 \<and>
      \<not> frozen_at (m_cooldowns m') (ckey 1 ''claude'' ''opus'') 2000"
  using success_clears_only_its_key [of "''claude''" "''opus''" memory_ops 1 1500
      "sample_failure ReasonRateLimit ScopeModel None NewManager" 2000]
  by (simp add: Let_def delete_fails_def sample_failure_def RecordFailure_def scope_defs
      effectiveClientType_def effectiveModel_def IncrementFailure_def NewManager_def
      DefaultPolicies_def reason_defs setCooldownLocked_def store_write_def mgr_frame second_def
      frozen_at_def bumpAndPublishLocked_def ckey_def put_local_def repo_call_def)

text \<open>Clearing a provider lifts every cooldown it has, for all client types and models, and
  forgets all its failure counts, without touching other providers; when the store cannot delete
  them the local map is kept as it was.\<close>

theorem clear_provider:
  "let m' = ClearCooldown ops p '''' '''' now m in
    (if delete_provider_fails ops p m
     then m_cooldowns m' = m_cooldowns m \<and> m_failures m' = m_failures m
     else (\<forall>c mo t. \<not> in_cooldown (m_cooldowns m') p c mo t) \<and>
          (\<forall>c mo r. GetFailureCount p c mo r (m_failures m') = 0) \<and>
          (\<forall>p' c mo t. p' \<noteq> p \<longrightarrow>
             in_cooldown (m_cooldowns m') p' c mo t = in_cooldown (m_cooldowns m) p' c mo t))"
  by (auto simp: Let_def ClearCooldown_provider in_cooldown_iff frozen_at_def drop_provider_lookup
      GetFailureCount_reset)

lemma clear_provider_witness:
  "let m = sample_failure ReasonRateLimit ScopeProvider None NewManager;
       m' = ClearCooldown memory_ops 1 '''' '''' 1500 m
   in \<not> in_cooldown (m_cooldowns m') 1 ''claude'' ''opus'' 2000"
  using clear_provider [of memory_ops 1 1500
      "sample_failure ReasonRateLimit ScopeProvider None NewManager"]
  by (simp add: Let_def delete_provider_fails_def sample_failure_def RecordFailure_def scope_defs
      NewManager_def setCooldownLocked_def store_write_def mgr_frame IncrementFailure_def
      DefaultPolicies_def reason_defs second_def bumpAndPublishLocked_def put_local_def
      repo_call_def)

section \<open>The store as the truth\<close>

text \<open>What the manager's clients rely on when the store keeps its contract: reloading a provider
  makes the local map say exactly what the store says about it.\<close>

lemma fold_load_store:
  "map_of (m_cooldowns (fold load_store_entry es m)) k =
     (case map_of (rev es) k of None \<Rightarrow> map_of (m_cooldowns m) k | Some u \<Rightarrow> Some u)"
  by (induction es arbitrary: m)
    (auto simp: load_store_entry_def go_map simp del: map_of_eq_Some_iff map_of_eq_None_iff
      split: option.split)

context cooldown_store begin

lemma reload_matches_store:
  assumes "inv s" and "m_store m = Some s" and "so_list ops p now s = Inr es" and "wf_map es"
    and "ck_provider k = p" and "now \<le> t"
  shows "frozen_at (m_cooldowns (reloadProvider ops p g now m)) k t =
    (case entry s k of None \<Rightarrow> False | Some u \<Rightarrow> t < u)"
proof -
  have "map_of (rev es) = map_of es"
    using assms(4) by (intro map_of_set_eq) (simp_all add: rev_map [symmetric])
  moreover have "m_cooldowns (reloadProvider ops p g now m) =
      m_cooldowns (fold load_store_entry es (drop_provider p m))"
    using assms(2,3) by (simp add: reloadProvider_def reload_apply_def Let_def)
  ultimately have "map_of (m_cooldowns (reloadProvider ops p g now m)) k = map_of es k"
    using assms(5)
    by (simp add: fold_load_store drop_provider_lookup del: map_of_eq_Some_iff map_of_eq_None_iff
        split: option.split)
  then show ?thesis
    using list_ok [OF assms(1,3), of k] assms(5,6)
    by (auto simp: frozen_at_def simp del: map_of_eq_Some_iff map_of_eq_None_iff
        split: option.splits if_splits)
qed

text \<open>While the local map agrees with the store, a computed cooldown never shortens a local one.\<close>

lemma if_later_monotone:
  assumes "inv s" and "m_store m = Some s" and "entry s k = map_of (m_cooldowns m) k"
    and "k = ckey p c mo" and "now < until"
    and "snd (store_write ops k until True (Some s)) \<noteq> Failed"
    and "frozen_at (m_cooldowns m) k' t"
  shows "frozen_at (m_cooldowns (setCooldownLocked ops p c mo until r True now m)) k' t"
proof (cases "so_set_if_later ops k until s")
  case (Pair s' res)
  with assms(6) obtain b where b: "res = Inr b"
    by (cases res) (simp_all add: store_write_def)
  then have "b = (\<forall>t. entry s k = Some t \<longrightarrow> t \<le> until)"
    using set_if_later_ok [OF assms(1), of k until s' b] Pair by simp
  then show ?thesis
    using Pair b assms(2-5,7)
    by (auto simp: set_cooldowns store_write_def frozen_at_def go_map
        simp del: map_of_eq_Some_iff map_of_eq_None_iff split: option.splits if_splits)
qed

end

lemma reload_keeps_others:
  assumes "ck_provider k \<noteq> p" and "m_store m = Some s"
    and "so_list ops p now s = Inr es" and "list_all (\<lambda>e. ck_provider (fst e) = p) es"
  shows "map_of (m_cooldowns (reloadProvider ops p g now m)) k = map_of (m_cooldowns m) k"
proof -
  have "map_of (rev es) k = None"
    using assms(1,4) by (auto simp: map_of_eq_None_iff list_all_iff)
  moreover have "m_cooldowns (reloadProvider ops p g now m) =
      m_cooldowns (fold load_store_entry es (drop_provider p m))"
    using assms(2,3) by (simp add: reloadProvider_def reload_apply_def Let_def)
  ultimately show ?thesis
    using assms(1) by (simp add: fold_load_store drop_provider_lookup)
qed

text \<open>C34: reloading a provider from the in-memory store makes the local view of each of its keys the
  store's view, for this and every later instant, and leaves the keys of all other providers as
  they were.\<close>

theorem reload_refines_store:
  assumes "ms_inv s" and "m_store m = Some s" and "ck_provider k = p" and "now \<le> t"
    and "ck_provider k' \<noteq> p"
  shows "frozen_at (m_cooldowns (reloadProvider memory_ops p g now m)) k t =
      (case ms_entry s k of None \<Rightarrow> False | Some u \<Rightarrow> t < u) \<and>
    map_of (m_cooldowns (reloadProvider memory_ops p g now m)) k' = map_of (m_cooldowns m) k'"
proof
  define es where "es = filter (\<lambda>(k, until). ck_provider k = p \<and> now < until) (ms_entries s)"
  have list: "so_list memory_ops p now s = Inr es"
    by (simp add: memory_ops_def mem_ListByProvider_def es_def)
  have "wf_map es" using assms(1) by (simp add: ms_inv_def wf_intros es_def)
  with mem.reload_matches_store [OF assms(1,2) list _ assms(3,4)]
  show "frozen_at (m_cooldowns (reloadProvider memory_ops p g now m)) k t =
      (case ms_entry s k of None \<Rightarrow> False | Some u \<Rightarrow> t < u)" by blast
  show "map_of (m_cooldowns (reloadProvider memory_ops p g now m)) k' = map_of (m_cooldowns m) k'"
    by (rule reload_keeps_others [OF assms(5,2) list]) (auto simp: es_def list_all_iff)
qed

definition two_entries :: memory_store where
  "two_entries =
     \<lparr> ms_entries = [(ckey 1 ''claude'' '''', 500), (ckey 2 '''' '''', 900)],
       ms_generation = [(1, 3)] \<rparr>"

definition other_frozen :: "memory_store manager" where
  "other_frozen = (SetCoordinator two_entries NewManager)
     \<lparr> m_cooldowns := [(ckey 3 '''' '''', 700), (ckey 1 '''' ''opus'', 800)] \<rparr>"

lemma reload_refines_store_witness:
  "frozen_at (m_cooldowns (reloadProvider memory_ops 1 3 100 other_frozen)) (ckey 1 ''claude'' '''') 499 \<and>
   map_of (m_cooldowns (reloadProvider memory_ops 1 3 100 other_frozen)) (ckey 3 '''' '''') = Some 700"
  using reload_refines_store [of two_entries other_frozen "ckey 1 ''claude'' ''''" 1 100 499
      "ckey 3 '''' ''''" 3]
  by (simp add: two_entries_def ms_inv_def SetCoordinator_def ms_entry_def other_frozen_def)

text \<open>What a computed cooldown does to the in-memory store: the later end of the two stays.\<close>

lemma memory_set_store:
  assumes "m_store m = Some s" and "now < until"
  shows "\<exists>s'. m_store (setCooldownLocked memory_ops p c mo until r True now m) = Some s' \<and>
    (\<forall>k. ms_entry s' k = (if k = ckey p c mo
       then Some (case ms_entry s k of None \<Rightarrow> until | Some u \<Rightarrow> max u until) else ms_entry s k))"
proof (cases "case ms_entry s (ckey p c mo) of None \<Rightarrow> False | Some u \<Rightarrow> until < u")
  case True
  then have "so_set_if_later memory_ops (ckey p c mo) until s = (s, Inr False)"
    by (simp add: memory_ops_def mem_SetIfLater_def ms_entry_def)
  then have "m_store (setCooldownLocked memory_ops p c mo until r True now m) = Some s"
    using assms by (simp add: setCooldownLocked_def store_write_def mgr_frame)
  then show ?thesis using True by (auto simp: max_def split: option.splits)
next
  case False
  define s1 where "s1 = s \<lparr> ms_entries := AList.update (ckey p c mo) until (ms_entries s) \<rparr>"
  have "so_set_if_later memory_ops (ckey p c mo) until s = (s1, Inr True)"
    using False by (simp add: memory_ops_def mem_SetIfLater_def ms_entry_def s1_def)
  then obtain s' where s': "m_store (setCooldownLocked memory_ops p c mo until r True now m) = Some s'"
    "ms_entries s' = ms_entries s1"
    using assms
    by (auto simp: setCooldownLocked_def store_write_def mgr_frame bumpAndPublishLocked_def
        memory_ops_def mem_BumpGeneration_def Let_def split: prod.split)
  have "ms_entry s' k = (if k = ckey p c mo then Some until else ms_entry s k)" for k
    using s'(2) by (simp add: ms_entry_def s1_def go_map)
  then show ?thesis using s'(1) False by (auto simp: max_def split: option.splits)
qed

text \<open>C32: while the local map agrees with the in-memory store on the key of a failure, recording that
  failure with a computed cooldown never lifts or shortens any cooldown of the local map, and in the
  store the key of the failure keeps the later of the two ends while every other key stays as it is.\<close>

theorem failure_never_shortens:
  assumes "ms_inv s" and "m_store m = Some s" and "sc \<noteq> ScopeRequest"
    and "ms_entry s (failed_key p c mo sc) = map_of (m_cooldowns m) (failed_key p c mo sc)"
    and "RecordFailure memory_ops p c mo r sc None now m = (m', until)" and "now < until"
    and "frozen_at (m_cooldowns m) k t"
  shows "frozen_at (m_cooldowns m') k t \<and>
    (\<exists>s'. m_store m' = Some s' \<and>
       (\<forall>k'. ms_entry s' k' = (if k' = failed_key p c mo sc
          then Some (case ms_entry s k' of None \<Rightarrow> until | Some u \<Rightarrow> max u until) else ms_entry s k')))"
proof -
  obtain ft where m': "m' = setCooldownLocked memory_ops p (effectiveClientType sc c)
      (effectiveModel sc mo) until r True now (m \<lparr> m_failures := ft \<rparr>)"
    using assms(3,5) by (auto simp: RecordFailure_def Let_def split: prod.splits)
  have "snd (store_write memory_ops (failed_key p c mo sc) until True (Some s)) \<noteq> Failed"
    by (simp add: store_write_def memory_ops_def mem_SetIfLater_def)
  then have "frozen_at (m_cooldowns m') k t"
    using mem.if_later_monotone [OF assms(1), of "m \<lparr> m_failures := ft \<rparr>"
        "failed_key p c mo sc" p _ _ now until k t r] assms(2,4,6,7) m'
    by (simp add: failed_key_def)
  then show ?thesis
    using memory_set_store [of "m \<lparr> m_failures := ft \<rparr>" s now until p "effectiveClientType sc c"
        "effectiveModel sc mo" r] assms(2,6) m'
    by (simp add: failed_key_def)
qed

text \<open>The hypothesis on the agreement matters.  At start-up the cooldowns of the database are loaded
  into the local map before the (empty) in-memory store is attached, so the first failure after a
  restart is accepted by the store and shortens a longer cooldown that survived the restart.\<close>

definition restarted :: "memory_store manager" where
  "restarted =
     SetCoordinator NewMemoryCooldownStore
       (fst (Manager_LoadFromDatabase
          (Inr [\<lparr> cr_key = ckey 1 ''claude'' '''', cr_until = 3600 * second,
                 cr_reason = ReasonQuotaExhausted \<rparr>]) (Inr []) (SetRepository NewManager)))"

lemma restart_shortens_cooldown:
  "let m' = fst (RecordFailure memory_ops 1 ''claude'' ''opus'' ReasonRateLimit ScopeKey None 0
                   restarted)
   in in_cooldown (m_cooldowns restarted) 1 ''claude'' ''opus'' (10 * second) \<and>
      \<not> in_cooldown (m_cooldowns m') 1 ''claude'' ''opus'' (10 * second)"
  by (simp add: restarted_def SetCoordinator_def Manager_LoadFromDatabase_def SetRepository_def
      NewManager_def load_cooldown_row_def NewFailureTracker_def ft_LoadFromDatabase_def Let_def
      RecordFailure_def scope_defs effectiveClientType_def effectiveModel_def IncrementFailure_def
      DefaultPolicies_def reason_defs setCooldownLocked_def store_write_def mgr_frame second_def
      memory_ops_def mem_SetIfLater_def NewMemoryCooldownStore_def in_cooldown_iff frozen_at_def)

definition synced :: "memory_store manager" where
  "synced = (SetCoordinator two_entries NewManager) \<lparr> m_cooldowns := ms_entries two_entries \<rparr>"

lemma failure_never_shortens_witness:
  "let m' = fst (RecordFailure memory_ops 1 ''claude'' ''opus'' ReasonRateLimit ScopeKey None 100 synced)
   in frozen_at (m_cooldowns m') (ckey 1 ''claude'' '''') 499 \<and>
      (\<exists>s'. m_store m' = Some s' \<and> ms_entry s' (ckey 1 ''claude'' '''') = Some (100 + 5 * second))"
proof -
  define m' where
    "m' = fst (RecordFailure memory_ops 1 ''claude'' ''opus'' ReasonRateLimit ScopeKey None 100 synced)"
  have run: "RecordFailure memory_ops 1 ''claude'' ''opus'' ReasonRateLimit ScopeKey None 100 synced =
      (m', 100 + 5 * second)"
    by (simp add: m'_def prod_eq_iff RecordFailure_def Let_def scope_defs effectiveClientType_def
        effectiveModel_def IncrementFailure_def NewManager_def synced_def SetCoordinator_def
        DefaultPolicies_def reason_defs second_def)
  have "ScopeKey \<noteq> ScopeRequest" "(100::int) < 100 + 5 * second"
    "failed_key 1 ''claude'' ''opus'' ScopeKey = ckey 1 ''claude'' ''''"
    by (simp_all add: scope_defs second_def failed_key_def effectiveClientType_def effectiveModel_def)
  with failure_never_shortens [OF _ _ _ _ run, of two_entries "ckey 1 ''claude'' ''''" 499]
  show ?thesis
    unfolding m'_def [symmetric] Let_def
    by (auto simp: two_entries_def ms_inv_def SetCoordinator_def ms_entry_def synced_def
        frozen_at_def second_def)
qed

section \<open>A reload overtaken by a local failure\<close>

text \<open>
  \<open>reloadProvider\<close> reads the store before it takes the manager's lock.  In the run below another
  instance has frozen one model (generation 1); this instance receives the event and lists the
  store, then records a failure of its own (generation 2) before the reload takes the lock.  The
  reload then erases the new local entry while the known generation stays at 2, so later queries
  see no difference with the store and never reload: the cooldown the store holds is ignored.
\<close>

definition race_store :: memory_store where
  "race_store =
     \<lparr> ms_entries = [(ckey 1 ''claude'' ''haiku'', 50 * second)], ms_generation = [(1, 1)] \<rparr>"

definition race_listed :: store_entries where
  "race_listed = [(ckey 1 ''claude'' ''haiku'', 50 * second)]"

definition race_failed :: "memory_store manager" where
  "race_failed = fst (RecordFailure memory_ops 1 ''claude'' ''opus'' ReasonQuotaExhausted ScopeKey
     None second (SetCoordinator race_store NewManager))"

definition race_reloaded :: "memory_store manager" where
  "race_reloaded = reload_apply 1 race_listed 1 (2 * second) race_failed"

lemma race_failed_fields:
  "m_cooldowns race_failed = [(ckey 1 ''claude'' '''', 3601 * second)]"
  "m_store race_failed = Some \<lparr> ms_entries = [(ckey 1 ''claude'' ''haiku'', 50 * second),
     (ckey 1 ''claude'' '''', 3601 * second)], ms_generation = [(1, 2)] \<rparr>"
  "m_gen race_failed = [(1, 2)]" "m_every race_failed = 2 * second"
  by (simp_all add: race_failed_def race_store_def SetCoordinator_def NewManager_def
      NewFailureTracker_def RecordFailure_def scope_defs effectiveClientType_def
      effectiveModel_def IncrementFailure_def DefaultPolicies_def reason_defs
      setCooldownLocked_def store_write_def Let_def memory_ops_def mem_SetIfLater_def
      bumpAndPublishLocked_def mem_BumpGeneration_def lookup_default_def wrap_i64_def
      put_local_def repo_call_def duration_units)

lemma reload_race:
  "so_list memory_ops 1 (second div 2) race_store = Inr race_listed \<and>
   in_cooldown (m_cooldowns race_failed) 1 ''claude'' ''opus'' (2 * second) \<and>
   ms_entry (the (m_store race_reloaded)) (ckey 1 ''claude'' '''') = Some (3601 * second) \<and>
   \<not> snd (IsInCooldown memory_ops 1 ''claude'' ''opus'' now race_reloaded)"
proof -
  have fields: "m_cooldowns race_reloaded = race_listed" "m_gen race_reloaded = [(1, 2)]"
    "m_store race_reloaded = m_store race_failed" "m_every race_reloaded = 2 * second"
    by (simp_all add: race_reloaded_def race_listed_def reload_apply_def Let_def load_store_entry_def
        drop_provider_def drop_local_def race_failed_fields lookup_default_def)
  have "m_cooldowns (syncProviderGeneration memory_ops 1 now race_reloaded) = race_listed"
    by (simp add: syncProviderGeneration_def Let_def fields race_failed_fields memory_ops_def
        mem_GetGeneration_def lookup_default_def)
  then have "\<not> snd (IsInCooldown memory_ops 1 ''claude'' ''opus'' now race_reloaded)"
    by (simp add: IsInCooldown_def Let_def in_cooldown_iff frozen_at_def race_listed_def)
  then show ?thesis
    by (simp add: race_failed_fields fields ms_entry_def memory_ops_def mem_ListByProvider_def
        race_store_def race_listed_def in_cooldown_iff frozen_at_def second_def)
qed

end
