(* ===== verification/Provider_Capability.thy ===== *)
theory Provider_Capability
  imports Prelude
begin

text \<open>
  Providers, routes and what a provider natively speaks: \<^verbatim>\<open>internal/domain/provider_capability.go\<close>,
  the WebSocket switch of \<^verbatim>\<open>internal/domain/model.go\<close>, and the transport cooldown of
  \<^verbatim>\<open>internal/adapter/provider/responses_websocket_cooldown.go\<close>.
\<close>

section \<open>Data\<close>

definition ClientTypeClaude :: string where "ClientTypeClaude = ''claude''"
definition ClientTypeCodex :: string where "ClientTypeCodex = ''codex''"
definition ClientTypeGemini :: string where "ClientTypeGemini = ''gemini''"
definition ClientTypeOpenAI :: string where "ClientTypeOpenAI = ''openai''"

lemmas client_type_defs = ClientTypeClaude_def ClientTypeCodex_def ClientTypeGemini_def
  ClientTypeOpenAI_def

text \<open>The parts of \<open>ProviderConfig\<close> that routing and dispatch read.  Nil pointers are \<open>None\<close>, nil
  maps the empty map.\<close>

record custom_config =
  cu_websocket :: "bool option"
  cu_base_url :: string
  cu_client_base_url :: "(string \<times> string) list"
  cu_client_multiplier :: "(string \<times> u64) list"

record codex_config =
  cx_websocket :: "bool option"
  cx_cliproxy :: bool
  cx_reasoning :: string
  cx_service_tier :: string

record reasoning_policy =
  rp_max_effort :: string
  rp_default_effort :: string

record provider_config =
  cfg_quota :: bool
  cfg_disable_cooldown :: bool
  cfg_smart_retry :: bool
  cfg_smart_limit :: int
  cfg_custom :: "custom_config option"
  cfg_codex :: "codex_config option"
  cfg_reasoning :: "reasoning_policy option"

record provider =
  pv_id :: u64
  pv_type :: string
  pv_name :: string
  pv_config :: "provider_config option"
  pv_client_types :: "string list"
  pv_support_models :: "string list"
  pv_max_concurrency :: int

record route =
  rt_id :: u64
  rt_tenant :: u64
  rt_enabled :: bool
  rt_project :: u64
  rt_client :: string
  rt_provider :: u64
  rt_position :: int
  rt_weight :: int
  rt_retry :: u64

section \<open>Native client types\<close>

text \<open>The loop of \<open>ensureClientType\<close> copies the types and remembers whether it met the wanted one.\<close>

fun ensure_loop :: "string list \<Rightarrow> string \<Rightarrow> string list \<Rightarrow> bool \<Rightarrow> string list \<times> bool" where
  "ensure_loop [] ct out found = (out, found)"
| "ensure_loop (t # ts) ct out found = ensure_loop ts ct (out @ [t]) (found \<or> t = ct)"

definition ensureClientType :: "string list \<Rightarrow> string \<Rightarrow> string list" where
  "ensureClientType types ct =
     (let (out, found) = ensure_loop types ct [] False
      in if found then out else out @ [ct])"

definition CanonicalSupportedClientTypes :: "string \<Rightarrow> string list \<Rightarrow> string list" where
  "CanonicalSupportedClientTypes providerType configured =
     (if providerType = ''antigravity'' then [ClientTypeGemini, ClientTypeClaude]
      else if providerType = ''kiro'' then [ClientTypeClaude]
      else if providerType = ''codex'' then [ClientTypeCodex]
      else if providerType = ''claude'' then [ClientTypeClaude]
      else if providerType = ''ollama'' then [ClientTypeClaude]
      else if providerType = ''grok'' then [ClientTypeOpenAI]
      else if (providerType = ''custom'' \<or> providerType = ''newapi'') \<and> configured = []
      then [ClientTypeOpenAI]
      else if providerType = ''openrouter''
      then ensureClientType
             (if configured = [] then [ClientTypeClaude, ClientTypeOpenAI] else configured)
             ClientTypeCodex
      else configured)"

definition NormalizeProviderSupportedClientTypes :: "provider \<Rightarrow> provider" where
  "NormalizeProviderSupportedClientTypes p =
     p \<lparr> pv_client_types := CanonicalSupportedClientTypes (pv_type p) (pv_client_types p) \<rparr>"

definition ProviderNativelySupports :: "provider \<Rightarrow> string \<Rightarrow> bool" where
  "ProviderNativelySupports p clientType =
     list_ex (\<lambda>supported. supported = clientType)
       (CanonicalSupportedClientTypes (pv_type p) (pv_client_types p))"

definition RouteIsNative :: "provider \<Rightarrow> route \<Rightarrow> bool" where
  "RouteIsNative p r = ProviderNativelySupports p (rt_client r)"

definition ProviderResponsesWebSocketEnabled :: "provider \<Rightarrow> bool" where
  "ProviderResponsesWebSocketEnabled p =
     (if pv_type p = ''custom'' \<or> pv_type p = ''newapi'' then
        (case pv_config p of
           None \<Rightarrow> False
         | Some cfg \<Rightarrow> (case cfg_custom cfg of
                            None \<Rightarrow> False
                          | Some cu \<Rightarrow> (case cu_websocket cu of None \<Rightarrow> False | Some b \<Rightarrow> b)))
      else if pv_type p = ''codex'' then
        (case pv_config p of
           None \<Rightarrow> True
         | Some cfg \<Rightarrow>
             (case cfg_codex cfg of
                None \<Rightarrow> True
              | Some cx \<Rightarrow>
                  (case cx_websocket cx of
                     Some b \<Rightarrow> b
                   | None \<Rightarrow> \<not> cx_cliproxy cx)))
      else True)"

lemma ensure_loop_append:
  "ensure_loop ts ct out found = (out @ ts, found \<or> ct \<in> set ts)"
  by (induction ts ct out found rule: ensure_loop.induct) auto

lemma ensureClientType_eq:
  "ensureClientType types ct = (if ct \<in> set types then types else types @ [ct])"
  by (simp add: ensureClientType_def ensure_loop_append)

lemma canonical_idem:
  "CanonicalSupportedClientTypes ty (CanonicalSupportedClientTypes ty cs) =
     CanonicalSupportedClientTypes ty cs"
  by (simp add: CanonicalSupportedClientTypes_def ensureClientType_eq)

lemma canonical_nonempty:
  "ty \<in> {''antigravity'', ''kiro'', ''codex'', ''claude'', ''ollama'', ''grok'', ''custom'', ''newapi'',
         ''openrouter''} \<Longrightarrow> CanonicalSupportedClientTypes ty cs \<noteq> []"
  by (auto simp: CanonicalSupportedClientTypes_def ensureClientType_eq)

section \<open>WebSocket transport cooldowns\<close>

type_synonym ws_cooldowns = "(u64 \<times> go_time) list"

definition MarkResponsesWebSocketTransportUnavailable ::
  "u64 \<Rightarrow> go_time \<Rightarrow> ws_cooldowns \<Rightarrow> ws_cooldowns" where
  "MarkResponsesWebSocketTransportUnavailable p now es =
     (if p = 0 then es else AList.update p (now + 30 * second) es)"

definition ResponsesWebSocketTransportAvailable ::
  "u64 \<Rightarrow> go_time \<Rightarrow> ws_cooldowns \<Rightarrow> ws_cooldowns \<times> bool" where
  "ResponsesWebSocketTransportAvailable p now es =
     (if p = 0 then (es, False)
      else case map_of es p of
             None \<Rightarrow> (es, True)
           | Some expiresAt \<Rightarrow>
               if \<not> now < expiresAt then (AList.delete p es, True) else (es, False))"

definition ClearResponsesWebSocketTransportCooldown :: "u64 \<Rightarrow> ws_cooldowns \<Rightarrow> ws_cooldowns" where
  "ClearResponsesWebSocketTransportCooldown p es = AList.delete p es"

text \<open>Dropping an expired entry is not observable: availability is a function of the instant.\<close>

definition ws_live :: "ws_cooldowns \<Rightarrow> u64 \<Rightarrow> go_time \<Rightarrow> bool" where
  "ws_live es p now = (p \<noteq> 0 \<and> (\<forall>t. map_of es p = Some t \<longrightarrow> t \<le> now))"

lemma ws_available_live:
  "snd (ResponsesWebSocketTransportAvailable p now es) = ws_live es p now"
  by (auto simp: ResponsesWebSocketTransportAvailable_def ws_live_def
      simp del: map_of_eq_Some_iff split: option.split)

lemma ws_available_keeps:
  "now \<le> t \<Longrightarrow> ws_live (fst (ResponsesWebSocketTransportAvailable p now es)) q t = ws_live es q t"
  by (auto simp: ResponsesWebSocketTransportAvailable_def ws_live_def go_map
      simp del: map_of_eq_Some_iff map_of_eq_None_iff split: option.split)

end
