(* ===== verification/Limiter.thy ===== *)
theory Limiter
  imports Prelude
begin

text \<open>
  The concurrency limiter \<^verbatim>\<open>internal/router/provider_limiter.go\<close>.  A successful \<open>TryAcquire\<close> returns
  a release closure guarded by \<^verbatim>\<open>sync.Once\<close>; here it is a handle, and the state also holds the
  handles that have not fired yet.
\<close>

section \<open>The limiter\<close>

type_synonym inflight = "(u64 \<times> int) list"

definition inflight_of :: "inflight \<Rightarrow> u64 \<Rightarrow> int" where
  "inflight_of m p = lookup_default 0 m p"

definition IsAtLimit :: "inflight \<Rightarrow> u64 \<Rightarrow> int \<Rightarrow> bool" where
  "IsAtLimit m providerID limit =
     (if limit \<le> 0 then False else limit \<le> inflight_of m providerID)"

definition acquire_count :: "u64 \<Rightarrow> int \<Rightarrow> inflight \<Rightarrow> inflight option" where
  "acquire_count providerID limit m =
     (if 0 < limit \<and> limit \<le> inflight_of m providerID then None
      else Some (AList.update providerID (wrap_i64 (inflight_of m providerID + 1)) m))"

definition release_count :: "u64 \<Rightarrow> inflight \<Rightarrow> inflight" where
  "release_count providerID m =
     (if inflight_of m providerID \<le> 1 then AList.delete providerID m
      else AList.update providerID (wrap_i64 (inflight_of m providerID - 1)) m)"

text \<open>\<open>lm_open\<close> maps the handles whose \<^verbatim>\<open>sync.Once\<close> has not run to their provider.\<close>

record limiter =
  lm_inflight :: inflight
  lm_open :: "(nat \<times> u64) list"
  lm_next :: nat

definition NewProviderLimiter :: limiter where
  "NewProviderLimiter = \<lparr> lm_inflight = [], lm_open = [], lm_next = 0 \<rparr>"

definition TryAcquire :: "u64 \<Rightarrow> int \<Rightarrow> limiter \<Rightarrow> limiter \<times> nat option" where
  "TryAcquire providerID limit l =
     (case acquire_count providerID limit (lm_inflight l) of
        None \<Rightarrow> (l, None)
      | Some m \<Rightarrow>
          (\<lparr> lm_inflight = m, lm_open = (lm_next l, providerID) # lm_open l,
             lm_next = Suc (lm_next l) \<rparr>, Some (lm_next l)))"

definition release :: "nat \<Rightarrow> limiter \<Rightarrow> limiter" where
  "release h l =
     (case map_of (lm_open l) h of
        None \<Rightarrow> l
      | Some providerID \<Rightarrow>
          l \<lparr> lm_inflight := release_count providerID (lm_inflight l),
              lm_open := AList.delete h (lm_open l) \<rparr>)"

inductive limiter_step :: "limiter \<Rightarrow> limiter \<Rightarrow> bool" where
  acquire: "limiter_step l (fst (TryAcquire p limit l))"
| release: "limiter_step l (release h l)"

section \<open>The counter counts the open sessions\<close>

definition sessions :: "limiter \<Rightarrow> u64 \<Rightarrow> nat" where
  "sessions l p = length (filter (\<lambda>e. snd e = p) (lm_open l))"

definition limiter_wf :: "limiter \<Rightarrow> bool" where
  "limiter_wf l \<longleftrightarrow>
     wf_map (lm_open l) \<and> (\<forall>e \<in> set (lm_open l). fst e < lm_next l) \<and>
     (\<forall>p. inflight_of (lm_inflight l) p = int (sessions l p))"

lemma inflight_of_update [simp]:
  "inflight_of (AList.update p v m) q = (if q = p then v else inflight_of m q)"
  by (simp add: inflight_of_def lookup_default_update)

lemma inflight_of_delete [simp]:
  "inflight_of (AList.delete p m) q = (if q = p then 0 else inflight_of m q)"
  by (simp add: inflight_of_def lookup_default_del)

lemma sessions_delete:
  assumes "wf_map os" and "map_of os h = Some p"
  shows "length (filter (\<lambda>e. snd e = q) os) =
    length (filter (\<lambda>e. snd e = q) (AList.delete h os)) + (if q = p then 1 else 0)"
  using assms
proof (induction os)
  case (Cons e os)
  show ?case
  proof (cases "fst e = h")
    case True
    then have "AList.delete h os = os"
      using Cons.prems(1) by (induction os) auto
    with True Cons.prems show ?thesis by (cases e) auto
  next
    case False
    with Cons show ?thesis by (cases e) auto
  qed
qed simp

lemma sessions_le:
  assumes "limiter_wf l"
  shows "sessions l p \<le> lm_next l"
proof -
  have "fst ` set (lm_open l) \<subseteq> {..< lm_next l}" using assms by (auto simp: limiter_wf_def)
  then have "card (fst ` set (lm_open l)) \<le> lm_next l"
    using card_mono [of "{..< lm_next l}"] by fastforce
  moreover have "card (fst ` set (lm_open l)) = length (lm_open l)"
    using assms distinct_card [of "map fst (lm_open l)"] by (simp add: limiter_wf_def)
  ultimately show ?thesis
    unfolding sessions_def using length_filter_le order_trans by metis
qed

lemma TryAcquire_wf:
  assumes "limiter_wf l" and "lm_next l < 2 ^ 62"
  shows "limiter_wf (fst (TryAcquire p limit l))"
proof (cases "acquire_count p limit (lm_inflight l)")
  case (Some m)
  have "wrap_i64 (int (sessions l p) + 1) = int (sessions l p) + 1"
    using assms(2) sessions_le [OF assms(1), of p] by (intro wrap_i64_id) auto
  then show ?thesis
    using assms(1) Some
    by (auto simp: limiter_wf_def TryAcquire_def sessions_def acquire_count_def split: if_splits)
qed (use assms in \<open>simp add: TryAcquire_def\<close>)

lemma release_wf:
  assumes "limiter_wf l" and "lm_next l < 2 ^ 62"
  shows "limiter_wf (release h l)"
proof (cases "map_of (lm_open l) h")
  case (Some p)
  have del: "sessions l q = length (filter (\<lambda>e. snd e = q) (AList.delete h (lm_open l))) +
      (if q = p then 1 else 0)" for q
    using sessions_delete [OF _ Some, of q] assms(1) by (simp add: sessions_def limiter_wf_def)
  have open': "wf_map (AList.delete h (lm_open l))"
    "\<forall>e \<in> set (AList.delete h (lm_open l)). fst e < lm_next l"
    using assms(1) by (auto simp: limiter_wf_def wf_intros AList.delete_eq)
  have "wrap_i64 (int (sessions l p) - 1) = int (sessions l p) - 1"
    using assms(2) sessions_le [OF assms(1), of p] by (intro wrap_i64_id) auto
  then have "inflight_of (lm_inflight (release h l)) q =
      int (length (filter (\<lambda>e. snd e = q) (AList.delete h (lm_open l))))" for q
    using assms(1) Some del [of q] del [of p]
    by (simp add: limiter_wf_def release_def release_count_def)
  then show ?thesis
    using Some open' by (simp add: limiter_wf_def release_def sessions_def)
qed (use assms in \<open>simp add: release_def\<close>)

lemma limiter_step_next: "limiter_step l l' \<Longrightarrow> lm_next l \<le> lm_next l'"
  by (induction rule: limiter_step.induct)
    (auto simp: TryAcquire_def release_def split: option.split)

lemma limiter_reachable_wf:
  assumes "limiter_step\<^sup>*\<^sup>* NewProviderLimiter l" and "lm_next l < 2 ^ 62"
  shows "limiter_wf l"
  using assms
proof (induction rule: rtranclp_induct)
  case base
  show ?case
    by (simp add: limiter_wf_def NewProviderLimiter_def inflight_of_def sessions_def
        lookup_default_def)
next
  case (step l l')
  then have "limiter_wf l" "lm_next l < 2 ^ 62" using limiter_step_next [of l l'] by auto
  with step.hyps(2) show ?case
    by (cases rule: limiter_step.cases) (auto intro: TryAcquire_wf release_wf)
qed

text \<open>C30: in every reachable state of the limiter the counter of a provider is the number of its
  sessions that have been acquired and not released; a slot is refused exactly when a positive
  limit is reached by those sessions, and releasing the same slot twice counts once.\<close>

theorem limiter_counts_sessions:
  assumes "limiter_step\<^sup>*\<^sup>* NewProviderLimiter l" and "lm_next l < 2 ^ 62"
  shows "inflight_of (lm_inflight l) p = int (sessions l p) \<and>
    (snd (TryAcquire p limit l) = None \<longleftrightarrow> 0 < limit \<and> limit \<le> int (sessions l p)) \<and>
    IsAtLimit (lm_inflight l) p limit = (0 < limit \<and> limit \<le> int (sessions l p)) \<and>
    release h (release h l) = release h l"
proof -
  have wf: "limiter_wf l" using limiter_reachable_wf [OF assms] .
  then have count: "inflight_of (lm_inflight l) p = int (sessions l p)"
    by (simp add: limiter_wf_def)
  have "release h (release h l) = release h l"
    by (auto simp: release_def go_map simp del: map_of_eq_None_iff split: option.split)
  then show ?thesis
    using count by (auto simp: TryAcquire_def acquire_count_def IsAtLimit_def split: option.splits)
qed

lemma limiter_counts_sessions_witness:
  "let l = fst (TryAcquire 7 1 NewProviderLimiter)
   in sessions l 7 = 1 \<and> snd (TryAcquire 7 1 l) = None"
proof -
  have "limiter_step\<^sup>*\<^sup>* NewProviderLimiter (fst (TryAcquire 7 1 NewProviderLimiter))"
    using limiter_step.acquire by blast
  from limiter_counts_sessions [OF this, of 7 1] show ?thesis
    by (simp add: TryAcquire_def acquire_count_def inflight_of_def lookup_default_def
        NewProviderLimiter_def Let_def sessions_def wrap_i64_def)
qed

end
