(* ===== verification/Sticky.thy ===== *)
theory Sticky
  imports Prelude
begin

text \<open>
  Session affinity, \<^verbatim>\<open>internal/sticky\<close>: the store interface as a locale, the in-memory store of
  \<^verbatim>\<open>store_memory.go\<close> that satisfies it, and the manager of \<^verbatim>\<open>manager.go\<close>, which treats any read
  error as a miss.  SHA-256 is a parameter.
\<close>

section \<open>Keys\<close>

record sticky_key =
  sk_tenant :: u64
  sk_client :: string
  sk_project :: u64
  sk_policy :: string
  sk_base :: string

definition lower_hex :: "nat \<Rightarrow> char" where
  "lower_hex d = (if d < 10 then char_of (48 + d) else char_of (87 + d))"

definition hex_encode :: "string \<Rightarrow> string" where
  "hex_encode s = concat (map (\<lambda>c. [lower_hex (of_char c div 16), lower_hex (of_char c mod 16)]) s)"

definition shortHash :: "(string \<Rightarrow> string) \<Rightarrow> string \<Rightarrow> string" where
  "shortHash sha s = (if s = '''' then ''0'' else hex_encode (take 8 (sha s)))"

definition RoutingStickyScopeToken :: string where "RoutingStickyScopeToken = ''token''"
definition RoutingStickyScopeConversation :: string where
  "RoutingStickyScopeConversation = ''conversation''"

definition BaseKey :: "(string \<Rightarrow> string) \<Rightarrow> string \<Rightarrow> u64 \<Rightarrow> string \<Rightarrow> string" where
  "BaseKey sha scope apiTokenID sessionID =
     (if scope = RoutingStickyScopeConversation
      then ''c/'' @ show_nat (unat apiTokenID) @ ''/'' @ shortHash sha sessionID
      else ''t/'' @ show_nat (unat apiTokenID))"

definition DefaultTTL :: go_duration where "DefaultTTL = 30 * minute"

definition TTLFromConfig :: "int \<Rightarrow> go_duration" where
  "TTLFromConfig seconds = (if seconds \<le> 0 then DefaultTTL else wrap_i64 (seconds * second))"

section \<open>The store interface\<close>

type_synonym sticky_error = string

record 's sticky_ops =
  st_get :: "sticky_key \<Rightarrow> go_time \<Rightarrow> 's \<Rightarrow> 's \<times> (sticky_error + u64 option)"
  st_set :: "sticky_key \<Rightarrow> u64 \<Rightarrow> go_duration \<Rightarrow> go_time \<Rightarrow> 's \<Rightarrow> 's \<times> sticky_error option"
  st_delete :: "sticky_key \<Rightarrow> 's \<Rightarrow> 's \<times> sticky_error option"

definition Manager_Get ::
  "'s sticky_ops \<Rightarrow> sticky_key \<Rightarrow> go_time \<Rightarrow> 's option \<Rightarrow> 's option \<times> u64 option" where
  "Manager_Get ops key now store =
     (case store of
        None \<Rightarrow> (store, None)
      | Some s \<Rightarrow>
          (case st_get ops key now s of
             (s', Inl err) \<Rightarrow> (Some s', None)
           | (s', Inr None) \<Rightarrow> (Some s', None)
           | (s', Inr (Some p)) \<Rightarrow> (Some s', Some p)))"

definition Manager_Set ::
  "'s sticky_ops \<Rightarrow> sticky_key \<Rightarrow> u64 \<Rightarrow> go_duration \<Rightarrow> go_time \<Rightarrow> 's option \<Rightarrow>
     's option \<times> sticky_error option" where
  "Manager_Set ops key providerID ttl now store =
     (case store of
        None \<Rightarrow> (store, None)
      | Some s \<Rightarrow>
          (let ttl = (if ttl \<le> 0 then DefaultTTL else ttl);
               (s', err) = st_set ops key providerID ttl now s
           in (Some s', err)))"

definition Manager_Delete ::
  "'s sticky_ops \<Rightarrow> sticky_key \<Rightarrow> 's option \<Rightarrow> 's option \<times> sticky_error option" where
  "Manager_Delete ops key store =
     (case store of
        None \<Rightarrow> (store, None)
      | Some s \<Rightarrow> (let (s', err) = st_delete ops key s in (Some s', err)))"

text \<open>The contract: \<open>binding s k t\<close> is the provider bound to a key at an instant.\<close>

locale sticky_store =
  fixes ops :: "'s sticky_ops"
    and binding :: "'s \<Rightarrow> sticky_key \<Rightarrow> go_time \<Rightarrow> u64 option"
  assumes get_ok: "st_get ops k now s = (s', Inr r) \<Longrightarrow>
      r = binding s k now \<and> (\<forall>k' t. now \<le> t \<longrightarrow> binding s' k' t = binding s k' t)"
    and set_ok: "0 < ttl \<Longrightarrow> st_set ops k p ttl now s = (s', None) \<Longrightarrow> now \<le> t \<Longrightarrow>
      binding s' k' t =
        (if k' = k then if t < now + ttl then Some p else None else binding s k' t)"
    and delete_ok: "st_delete ops k s = (s', None) \<Longrightarrow>
      binding s' k' t = (if k' = k then None else binding s k' t)"
begin

lemma delete_then_get:
  "st_delete ops k s = (s', None) \<Longrightarrow> st_get ops k t s' = (s'', Inr r) \<Longrightarrow> r = None"
  using delete_ok [of k s s' k t] get_ok [of k t s' s'' r] by simp

end
text \<open>What other requests do to the store between a write and a read: they read, write and drop
  bindings.  The binding of \<open>k\<close> at \<open>t\<close> is left alone by what concerns other keys, and by reads that come
  no later.\<close>

datatype sticky_use =
    ReadBinding sticky_key go_time
  | WriteBinding sticky_key u64 go_duration go_time
  | DropBinding sticky_key

primrec sticky_do :: "'s sticky_ops \<Rightarrow> sticky_use \<Rightarrow> 's option \<Rightarrow> 's option" where
  "sticky_do ops (ReadBinding k now) store = fst (Manager_Get ops k now store)"
| "sticky_do ops (WriteBinding k p ttl now) store = fst (Manager_Set ops k p ttl now store)"
| "sticky_do ops (DropBinding k) store = fst (Manager_Delete ops k store)"

primrec leaves_binding :: "sticky_key \<Rightarrow> go_time \<Rightarrow> sticky_use \<Rightarrow> bool" where
  "leaves_binding k t (ReadBinding k' now) \<longleftrightarrow> now \<le> t"
| "leaves_binding k t (WriteBinding k' p ttl now) \<longleftrightarrow> k' \<noteq> k \<and> now \<le> t"
| "leaves_binding k t (DropBinding k') \<longleftrightarrow> k' \<noteq> k"

text \<open>A store that never fails keeps a binding through all of them.\<close>

locale reliable_sticky_store = sticky_store +
  assumes get_total: "\<exists>s' r. st_get ops k now s = (s', Inr r)"
    and set_total: "\<exists>s'. st_set ops k p ttl now s = (s', None)"
    and delete_total: "\<exists>s'. st_delete ops k s = (s', None)"
begin

lemma do_leaves_binding:
  assumes "leaves_binding k t u"
  shows "\<exists>s'. sticky_do ops u (Some s) = Some s' \<and> binding s' k t = binding s k t"
proof (cases u)
  case (ReadBinding k' now)
  obtain s' r where get: "st_get ops k' now s = (s', Inr r)" using get_total by blast
  then have "binding s' k t = binding s k t" using get_ok [OF get] assms ReadBinding by simp
  then show ?thesis using get ReadBinding by (cases r) (simp_all add: Manager_Get_def)
next
  case (WriteBinding k' p ttl now)
  let ?ttl = "if ttl \<le> 0 then DefaultTTL else ttl"
  obtain s' where set: "st_set ops k' p ?ttl now s = (s', None)" using set_total by blast
  have "0 < ?ttl" by (simp add: DefaultTTL_def minute_def second_def)
  then have "binding s' k t = binding s k t" using set_ok [OF _ set, of t k] assms WriteBinding by auto
  then show ?thesis using set WriteBinding by (simp add: Manager_Set_def Let_def split_def)
next
  case (DropBinding k')
  obtain s' where del: "st_delete ops k' s = (s', None)" using delete_total by blast
  then have "binding s' k t = binding s k t" using delete_ok [OF del] assms DropBinding by simp
  then show ?thesis using del DropBinding by (simp add: Manager_Delete_def)
qed

lemma run_leaves_binding:
  "list_all (leaves_binding k t) us \<Longrightarrow>
   \<exists>s'. fold (sticky_do ops) us (Some s) = Some s' \<and> binding s' k t = binding s k t"
proof (induction us arbitrary: s)
  case (Cons u us)
  obtain s1 where "sticky_do ops u (Some s) = Some s1" "binding s1 k t = binding s k t"
    using do_leaves_binding Cons.prems by fastforce
  then show ?case using Cons.IH [of s1] Cons.prems by auto
qed simp

text \<open>A binding that was written is the one read until its time is over.\<close>

lemma set_then_get:
  assumes "Manager_Set ops k p ttl now (Some s) = (Some s', None)" and "0 < ttl"
    and "now \<le> t" and "t < now + ttl" and "list_all (leaves_binding k t) us"
  shows "snd (Manager_Get ops k t (fold (sticky_do ops) us (Some s'))) = Some p"
proof -
  have "st_set ops k p ttl now s = (s', None)"
    using assms(1,2) by (simp add: Manager_Set_def Let_def split: prod.splits)
  then have bound: "binding s' k t = Some p" using set_ok [OF assms(2) _ assms(3)] assms(4) by simp
  obtain s2 where s2: "fold (sticky_do ops) us (Some s') = Some s2" "binding s2 k t = binding s' k t"
    using run_leaves_binding [OF assms(5)] by blast
  obtain s3 r where get: "st_get ops k t s2 = (s3, Inr r)" using get_total by blast
  have "r = Some p" using get_ok [OF get] s2(2) bound by simp
  then show ?thesis using s2(1) get by (simp add: Manager_Get_def)
qed

end

section \<open>The in-memory store\<close>

record memory_entry =
  me_provider :: u64
  me_expires :: go_time

type_synonym sticky_memory = "(sticky_key \<times> memory_entry) list"

text \<open>The re-check under the write lock sees the same entry here: an operation is atomic.\<close>

definition sm_Get :: "sticky_key \<Rightarrow> go_time \<Rightarrow> sticky_memory \<Rightarrow>
    sticky_memory \<times> (sticky_error + u64 option)" where
  "sm_Get key now s =
     (case map_of s key of
        None \<Rightarrow> (s, Inr None)
      | Some e \<Rightarrow>
          if now < me_expires e then (s, Inr (Some (me_provider e)))
          else (AList.delete key s, Inr None))"

definition sm_Set :: "sticky_key \<Rightarrow> u64 \<Rightarrow> go_duration \<Rightarrow> go_time \<Rightarrow> sticky_memory \<Rightarrow>
    sticky_memory \<times> sticky_error option" where
  "sm_Set key providerID ttl now s =
     (if ttl \<le> 0 then (s, None)
      else (AList.update key \<lparr> me_provider = providerID, me_expires = now + ttl \<rparr> s, None))"

definition sm_Delete :: "sticky_key \<Rightarrow> sticky_memory \<Rightarrow> sticky_memory \<times> sticky_error option" where
  "sm_Delete key s = (AList.delete key s, None)"

definition sticky_memory_ops :: "sticky_memory sticky_ops" where
  "sticky_memory_ops = \<lparr> st_get = sm_Get, st_set = sm_Set, st_delete = sm_Delete \<rparr>"

definition sm_binding :: "sticky_memory \<Rightarrow> sticky_key \<Rightarrow> go_time \<Rightarrow> u64 option" where
  "sm_binding s k t =
     (case map_of s k of
        None \<Rightarrow> None
      | Some e \<Rightarrow> if t < me_expires e then Some (me_provider e) else None)"

interpretation sticky_laws: sticky_store sticky_memory_ops sm_binding
  by unfold_locales
    (auto simp: sticky_memory_ops_def sm_Get_def sm_Set_def sm_Delete_def sm_binding_def go_map
      simp del: map_of_eq_Some_iff map_of_eq_None_iff split: option.splits if_splits)

interpretation sticky_mem: reliable_sticky_store sticky_memory_ops sm_binding
  by unfold_locales
    (simp_all add: sticky_memory_ops_def sm_Get_def sm_Set_def sm_Delete_def split: option.split)

text \<open>C38: with the in-memory store, a provider bound to a session stays the answer for that session's
  key for its time to live, through any number of reads of any keys and of writes and deletions
  under other keys.\<close>

theorem sticky_binding_holds:
  assumes "Manager_Set sticky_memory_ops k p ttl now (Some s) = (Some s', None)" and "0 < ttl"
    and "now \<le> t" and "t < now + ttl" and "list_all (leaves_binding k t) us"
  shows "snd (Manager_Get sticky_memory_ops k t
    (fold (sticky_do sticky_memory_ops) us (Some s'))) = Some p"
  using assms by (rule sticky_mem.set_then_get)

definition sample_key :: sticky_key where
  "sample_key = \<lparr> sk_tenant = 1, sk_client = ''claude'', sk_project = 0, sk_policy = ''v'',
     sk_base = ''t/5'' \<rparr>"

lemma sticky_binding_holds_witness:
  "snd (Manager_Get sticky_memory_ops sample_key 900
    (fold (sticky_do sticky_memory_ops)
       [WriteBinding (sample_key \<lparr> sk_tenant := 2 \<rparr>) 43 1000 300, ReadBinding sample_key 500,
        DropBinding (sample_key \<lparr> sk_project := 7 \<rparr>)]
       (fst (Manager_Set sticky_memory_ops sample_key 42 1000 0 (Some []))))) = Some 42"
  using sticky_binding_holds [of sample_key 42 1000 0 "[]"
      "[(sample_key, \<lparr> me_provider = 42, me_expires = 1000 \<rparr>)]" 900
      "[WriteBinding (sample_key \<lparr> sk_tenant := 2 \<rparr>) 43 1000 300, ReadBinding sample_key 500,
        DropBinding (sample_key \<lparr> sk_project := 7 \<rparr>)]"]
  by (simp add: Manager_Set_def sticky_memory_ops_def sm_Set_def sample_key_def)

end
