(* ===== verification/Wildcard.thy ===== *)
theory Wildcard
  imports Prelude
begin

text \<open>
  The glob matcher \<^verbatim>\<open>MatchWildcard\<close> of \<^verbatim>\<open>internal/domain/model.go\<close>, which decides whether a provider
  supports a model and whether a model mapping applies: an iterative matcher with backtracking to
  the last star, against a declarative definition of matching.
\<close>

section \<open>The matcher\<close>

definition star :: char where "star = CHR ''*''"

text \<open>
  One round per step of the loop of the source.  The indices \<open>pi\<close> and \<open>si\<close> are the remaining pattern
  and input; \<open>starIdx\<close> and \<open>matchIdx\<close> are the pattern after the last star and the input at
  the last position tried for it (\<open>starIdx = -1\<close> is \<open>None\<close>).  Running out of input leaves the loop
  for the trailing stars.
\<close>

partial_function (option) wildcard_loop ::
  "string \<Rightarrow> string \<Rightarrow> (string \<times> string) option \<Rightarrow> bool option" where
  "wildcard_loop p s saved =
     (if s = [] then Some (dropWhile (\<lambda>c. c = star) p = [])
      else if p \<noteq> [] \<and> hd p = hd s then wildcard_loop (tl p) (tl s) saved
      else if p \<noteq> [] \<and> hd p = star then wildcard_loop (tl p) s (Some (tl p, s))
      else case saved of
             Some (sp, si) \<Rightarrow> wildcard_loop sp (tl si) (Some (sp, tl si))
           | None \<Rightarrow> Some False)"

declare wildcard_loop.simps [code]

definition MatchWildcard :: "string \<Rightarrow> string \<Rightarrow> bool option" where
  "MatchWildcard pattern0 input0 =
     (let pattern = TrimSpace pattern0;
          inp = TrimSpace input0
      in if pattern = '''' then Some False
         else if pattern = [star] then Some True
         else wildcard_loop pattern inp None)"

section \<open>Declarative matching\<close>

fun glob :: "string \<Rightarrow> string \<Rightarrow> bool" where
  "glob [] s = (s = [])"
| "glob (x # p) s =
     (if x = star then (\<exists>k \<in> {0..length s}. glob p (drop k s))
      else (case s of [] \<Rightarrow> False | c # s' \<Rightarrow> x = c \<and> glob p s'))"

lemma glob_star_suffix: "glob (star # p) s \<longleftrightarrow> (\<exists>a t. s = a @ t \<and> glob p t)"
proof
  assume "\<exists>a t. s = a @ t \<and> glob p t"
  then obtain a t where "s = a @ t" "glob p t" by blast
  then show "glob (star # p) s" by (auto intro!: bexI [of _ "length a"])
qed (auto intro: append_take_drop_id [symmetric])

lemma glob_star_Nil: "glob (star # p) [] = glob p []"
  by simp

lemma glob_star_Cons: "glob (star # p) (c # s) = (glob p (c # s) \<or> glob (star # p) s)"
  unfolding glob_star_suffix by (auto simp: Cons_eq_append_conv)

lemma glob_star_tl: "glob (star # p) s = (glob p s \<or> glob (star # p) (tl s))"
  by (cases s) (simp_all only: glob_star_Cons glob_star_Nil list.sel, simp)

lemma glob_literal:
  "star \<notin> set u \<Longrightarrow> glob (u @ p) s = (\<exists>t. s = u @ t \<and> glob p t)"
  by (induction u arbitrary: s) (auto split: list.split)

lemma glob_all_stars: "glob p [] = (\<forall>c \<in> set p. c = star)"
  by (induction p) auto

section \<open>Correctness\<close>

text \<open>What is still to be tried: the current alignment, or a later one for the last star.\<close>

definition later :: "(string \<times> string) option \<Rightarrow> bool" where
  "later saved = (case saved of None \<Rightarrow> False | Some (sp, si) \<Rightarrow> glob (star # sp) (tl si))"

definition aligned :: "string \<Rightarrow> string \<Rightarrow> (string \<times> string) option \<Rightarrow> bool" where
  "aligned p s saved =
     (case saved of None \<Rightarrow> True
      | Some (sp, si) \<Rightarrow> \<exists>u. star \<notin> set u \<and> sp = u @ p \<and> si = u @ s)"

definition loop_measure ::
  "string \<times> string \<times> (string \<times> string) option \<Rightarrow> nat \<times> nat \<times> nat" where
  "loop_measure = (\<lambda>(p, s, saved).
     (length (filter (\<lambda>c. c = star) p),
      case saved of None \<Rightarrow> 0 | Some (sp, si) \<Rightarrow> length si, length s))"

text \<open>A later star subsumes the alternatives of the earlier one.\<close>

lemma later_subsumed:
  assumes "aligned (star # p) s saved" and "later saved"
  shows "glob (star # p) s"
proof -
  obtain u where u: "star \<notin> set u" "saved = Some (u @ star # p, u @ s)"
    using assms by (auto simp: aligned_def later_def split: option.splits)
  then have "glob (star # (u @ star # p)) (tl (u @ s))" using assms(2) by (simp add: later_def)
  then obtain a t1 where "tl (u @ s) = a @ t1" "glob (u @ star # p) t1"
    unfolding glob_star_suffix [of "u @ star # p"] by blast
  moreover from this(2) obtain t where "t1 = u @ t" "glob (star # p) t"
    unfolding glob_literal [OF u(1)] by blast
  ultimately have tl: "tl (u @ s) = a @ u @ t" and t: "glob (star # p) t" by simp_all
  have "\<exists>b. s = b @ t"
  proof (cases u)
    case Nil
    with tl show ?thesis by (cases s) (auto intro: exI [of _ "_ # _"])
  next
    case (Cons c u')
    with tl have "u' @ s = (a @ c # u') @ t" by simp
    then obtain us where "u' = (a @ c # u') @ us \<or> s = us @ t"
      unfolding append_eq_append_conv2 by blast
    moreover have "u' \<noteq> (a @ c # u') @ us" by (rule notI, drule arg_cong [of _ _ length]) simp
    ultimately show ?thesis by blast
  qed
  then show ?thesis using t unfolding glob_star_suffix [of p] by (metis append_assoc)
qed

lemma count_stars_literal: "star \<notin> set u \<Longrightarrow> filter (\<lambda>c. c = star) u = []"
  by (auto simp: filter_empty_conv)

lemma wildcard_loop_correct:
  assumes "star \<notin> set s" and "aligned p s saved"
    and "\<And>sp si. saved = Some (sp, si) \<Longrightarrow> star \<notin> set si"
  shows "wildcard_loop p s saved = Some (glob p s \<or> later saved)"
  using assms
proof (induction "(p, s, saved)" arbitrary: p s saved
    rule: wf_induct_rule [OF wf_inv_image [OF wf_lex_prod [OF wf_less_than
      wf_lex_prod [OF wf_less_than wf_less_than]], of loop_measure]])
  case (1 p s saved)
  note IH = "1.hyps"
  show ?case
  proof (cases s)
    case Nil
    have "later saved \<Longrightarrow> glob p []"
    proof -
      assume l: "later saved"
      then obtain u where u: "star \<notin> set u" "saved = Some (u @ p, u)"
        using "1.prems"(2) Nil by (auto simp: aligned_def later_def split: option.splits)
      from l u(2) have "glob (star # (u @ p)) (tl u)" by (simp add: later_def)
      then obtain a t where "tl u = a @ u @ t" "glob p t"
        unfolding glob_star_suffix [of "u @ p"] glob_literal [OF u(1)] by blast
      moreover have "u = [] \<and> t = []"
        using arg_cong [OF \<open>tl u = a @ u @ t\<close>, of length] by (cases u) auto
      ultimately show ?thesis by simp
    qed
    then show ?thesis
      using Nil by (subst wildcard_loop.simps) (auto simp: glob_all_stars)
  next
    case (Cons c s')
    have c: "c \<noteq> star" "star \<notin> set s'" using "1.prems"(1) Cons by auto
    consider (lit) p' where "p = c # p'" | (wild) p' where "p = star # p'"
      | (mismatch) "\<not> glob p s" "p \<noteq> [] \<longrightarrow> hd p \<noteq> c \<and> hd p \<noteq> star"
    proof (cases p)
      case Nil
      then show ?thesis using Cons by (intro mismatch) simp_all
    next
      case (Cons x p')
      then show ?thesis
        using \<open>s = c # s'\<close> by (cases "x = c \<or> x = star") (auto intro: lit wild mismatch)
    qed
    then show ?thesis
    proof cases
      case lit
      have "wildcard_loop p' s' saved = Some (glob p' s' \<or> later saved)"
      proof (rule IH)
        show "((p', s', saved), (p, s, saved)) \<in> inv_image (less_than <*lex*> less_than <*lex*> less_than) loop_measure"
          using lit Cons c by (simp add: loop_measure_def)
        show "aligned p' s' saved"
          using "1.prems"(2) lit Cons c(1)
          by (auto simp: aligned_def split: option.splits intro: exI [of _ "_ @ [c]"])
      qed (use "1.prems"(3) c in auto)
      then show ?thesis
        using lit Cons c by (subst wildcard_loop.simps) simp
    next
      case wild
      have "wildcard_loop p' s (Some (p', s)) = Some (glob p' s \<or> later (Some (p', s)))"
      proof (rule IH)
        show "((p', s, Some (p', s)), (p, s, saved)) \<in> inv_image (less_than <*lex*> less_than <*lex*> less_than) loop_measure"
          using wild by (simp add: loop_measure_def)
        show "aligned p' s (Some (p', s))" by (simp add: aligned_def)
      qed (use "1.prems"(1) in auto)
      moreover have "(glob p' s \<or> later (Some (p', s))) = glob p s"
        using wild glob_star_tl [of p' s] by (simp only: later_def option.case prod.case)
      moreover have "later saved \<Longrightarrow> glob p s"
        using later_subsumed [of p' s saved] "1.prems"(2) wild by simp
      ultimately show ?thesis
        using wild Cons c by (subst wildcard_loop.simps) (auto simp del: glob.simps)
    next
      case mismatch
      show ?thesis
      proof (cases saved)
        case None
        then show ?thesis
          using mismatch Cons by (subst wildcard_loop.simps) (auto simp: later_def)
      next
        case (Some e)
        then obtain u where u: "star \<notin> set u" "e = (u @ p, u @ s)"
          using "1.prems"(2) by (cases e) (auto simp: aligned_def)
        have "wildcard_loop (u @ p) (tl (u @ s)) (Some (u @ p, tl (u @ s))) =
            Some (glob (u @ p) (tl (u @ s)) \<or> later (Some (u @ p, tl (u @ s))))"
        proof (rule IH)
          show "((u @ p, tl (u @ s), Some (u @ p, tl (u @ s))), (p, s, saved)) \<in>
              inv_image (less_than <*lex*> less_than <*lex*> less_than) loop_measure"
            using u Some Cons by (simp add: loop_measure_def count_stars_literal)
          have "star \<notin> set (u @ s)" using "1.prems"(3) Some u(2) by blast
          then show "star \<notin> set (tl (u @ s))" by (metis list.set_sel(2) list.sel(2))
          then show "\<And>sp si. Some (u @ p, tl (u @ s)) = Some (sp, si) \<Longrightarrow> star \<notin> set si" by simp
          show "aligned (u @ p) (tl (u @ s)) (Some (u @ p, tl (u @ s)))"
            by (auto simp: aligned_def intro: exI [of _ "[]"])
        qed
        moreover have "(glob (u @ p) (tl (u @ s)) \<or> later (Some (u @ p, tl (u @ s)))) = later saved"
          unfolding later_def Some u(2) option.case prod.case
          using glob_star_tl [of "u @ p" "tl (u @ s)"] by blast
        ultimately show ?thesis
          using mismatch Cons Some u(2) by (subst wildcard_loop.simps) (auto simp del: glob.simps)
      qed
    qed
  qed
qed

definition glob_spec :: "string \<Rightarrow> string \<Rightarrow> bool" where
  "glob_spec pattern inp =
     (TrimSpace pattern \<noteq> '''' \<and> glob (TrimSpace pattern) (TrimSpace inp))"

lemma MatchWildcard_glob:
  assumes "star \<notin> set inp"
  shows "MatchWildcard pattern inp = Some (glob_spec pattern inp)"
proof -
  have "star \<notin> set (TrimSpace inp)" using assms set_TrimSpace by blast
  then have "wildcard_loop (TrimSpace pattern) (TrimSpace inp) None =
      Some (glob (TrimSpace pattern) (TrimSpace inp))"
    by (subst wildcard_loop_correct) (simp_all add: aligned_def later_def)
  moreover have "glob [star] s" for s by (auto intro: bexI [of _ "length s"])
  ultimately show ?thesis by (auto simp: MatchWildcard_def glob_spec_def Let_def)
qed

text \<open>C39: matching a wildcard pattern always terminates and decides, for every model name without a
  star, whether the trimmed pattern describes the trimmed name, each star standing for any bytes;
  the empty pattern matches nothing.\<close>

theorem MatchWildcard_correct:
  assumes "star \<notin> set inp"
  shows "MatchWildcard pattern inp =
    Some (TrimSpace pattern \<noteq> '''' \<and> glob (TrimSpace pattern) (TrimSpace inp))"
  using MatchWildcard_glob [OF assms] by (simp add: glob_spec_def)

lemma trim_samples:
  "TrimSpace ''claude-*-4'' = ''claude-*-4''" "TrimSpace ''claude-opus-4'' = ''claude-opus-4''"
  "TrimSpace ''a*'' = ''a*''" "TrimSpace ''a*b'' = ''a*b''"
  by (simp_all add: TrimSpace_visible visible_def)

lemma MatchWildcard_correct_witness:
  "MatchWildcard ''claude-*-4'' ''claude-opus-4'' = Some True"
proof -
  have "star \<notin> set ''claude-opus-4''" by (simp add: star_def)
  moreover have "glob ''claude-*-4'' ''claude-opus-4''"
    by (simp add: star_def) (rule bexI [of _ 4], simp_all)
  ultimately show ?thesis by (simp add: MatchWildcard_correct trim_samples del: glob.simps)
qed

text \<open>A name that itself contains a star is matched literally against the star of the pattern and
  may then be rejected although the pattern describes it.\<close>

lemma MatchWildcard_star_in_name:
  "MatchWildcard ''a*'' ''a*b'' = Some False \<and> glob_spec ''a*'' ''a*b''"
proof
  show "MatchWildcard ''a*'' ''a*b'' = Some False"
    by (simp add: MatchWildcard_def trim_samples star_def wildcard_loop.simps)
  show "glob_spec ''a*'' ''a*b''"
    by (simp add: glob_spec_def trim_samples star_def)
qed

end
