(* ===== verification/Router.thy ===== *)
theory Router
  imports Cooldown_Manager Provider_Capability Limiter Sticky Wildcard
begin

text \<open>
  Route matching, \<^verbatim>\<open>internal/router/router.go\<close>: which routes a request may use and in which order.
  The repositories are snapshots in an environment; the cooldown manager, the WebSocket transport
  cooldowns and the sticky store are state, because asking them may change them.

  Parameters of the environment stand for code of the Go standard library whose result is not
  fixed: the unstable \<^verbatim>\<open>sort.Slice\<close>, the pseudo-random generator, and the hash functions.
\<close>

section \<open>Data\<close>

record adapter =
  ad_client_types :: "string list"
  ad_websocket :: bool

record strategy_config =
  sc_enabled :: bool
  sc_scope :: string
  sc_ttl_seconds :: int

record routing_strategy =
  rs_type :: string
  rs_config :: "strategy_config option"

definition RoutingStrategyPriority :: string where "RoutingStrategyPriority = ''priority''"
definition RoutingStrategyWeightedRandom :: string where
  "RoutingStrategyWeightedRandom = ''weighted_random''"

record match_context =
  mc_tenant :: u64
  mc_client :: string
  mc_project :: u64
  mc_model :: string
  mc_token :: u64
  mc_session :: string
  mc_websocket :: bool
  mc_provider :: u64
  mc_strict :: bool

text \<open>\<open>'c\<close> and \<open>'k\<close> are the states of the cooldown and the sticky store, \<open>'g\<close> the state of the
  generator, \<open>'r\<close> a retry configuration.\<close>

record ('c, 'k, 'g, 'r) router_env =
  re_routes :: "route list"
  re_projects :: "u64 \<Rightarrow> u64 \<Rightarrow> string list option"
  re_strategy :: "u64 \<Rightarrow> u64 \<Rightarrow> routing_strategy option"
  re_default_retry :: "u64 \<Rightarrow> 'r option"
  re_retry :: "u64 \<Rightarrow> u64 \<Rightarrow> 'r option"
  re_providers :: "(u64 \<times> provider) list"
  re_adapters :: "(u64 \<times> adapter) list"
  re_inflight :: inflight
  re_strict :: bool
  re_cooldown_ops :: "'c store_ops"
  re_sticky_ops :: "'k sticky_ops"
  re_sort :: "route list \<Rightarrow> route list"
  re_sort_ids :: "u64 list \<Rightarrow> u64 list"
  re_rng :: "int \<Rightarrow> 'g"
  re_intn :: "int \<Rightarrow> 'g \<Rightarrow> 'g \<times> int"
  re_sha :: "string \<Rightarrow> string"
  re_hmac :: "string \<Rightarrow> string"

record ('c, 'k) router_state =
  st_manager :: "'c manager"
  st_ws :: ws_cooldowns
  st_sticky :: "'k option"

record 'r matched_route =
  mr_route :: route
  mr_provider :: provider
  mr_adapter :: adapter
  mr_retry :: "'r option"

record sticky_write =
  sw_key :: sticky_key
  sw_ttl :: go_duration

record 'r match_result =
  ms_routes :: "'r matched_route list"
  ms_sticky :: "sticky_write option"

datatype match_error =
    ErrNoRoutes
  | ErrNoAvailableProviders
  | ErrModelNotSupported
  | ErrNoResponsesWebSocketProviders
  | ErrResponsesWebSocketSessionUnavailable

section \<open>Which routes are in scope\<close>

definition useProjectRoutes :: "('c, 'k, 'g, 'r) router_env \<Rightarrow> match_context \<Rightarrow> bool" where
  "useProjectRoutes env ctx =
     (if mc_project ctx \<noteq> 0 then
        (case re_projects env (mc_tenant ctx) (mc_project ctx) of
           None \<Rightarrow> False
         | Some enabledCustomRoutes \<Rightarrow>
             list_ex (\<lambda>ct. ct = mc_client ctx) enabledCustomRoutes)
      else False)"

definition route_in :: "match_context \<Rightarrow> u64 \<Rightarrow> route \<Rightarrow> bool" where
  "route_in ctx project r =
     (rt_enabled r \<and> \<not> (0 < mc_tenant ctx \<and> rt_tenant r \<noteq> mc_tenant ctx) \<and>
      rt_client r = mc_client ctx \<and> rt_project r = project)"

definition filterRoutes :: "('c, 'k, 'g, 'r) router_env \<Rightarrow> match_context \<Rightarrow> route list" where
  "filterRoutes env ctx =
     (let projectRoutes =
            (if useProjectRoutes env ctx
             then filter (\<lambda>r. route_in ctx (mc_project ctx) r \<and> mc_project ctx \<noteq> 0) (re_routes env)
             else [])
      in if projectRoutes \<noteq> [] then projectRoutes
         else filter (route_in ctx 0) (re_routes env))"

definition getRoutingStrategy ::
  "('c, 'k, 'g, 'r) router_env \<Rightarrow> u64 \<Rightarrow> u64 \<Rightarrow> routing_strategy" where
  "getRoutingStrategy env tenantID projectID =
     (case (if projectID \<noteq> 0 then re_strategy env tenantID projectID else None) of
        Some s \<Rightarrow> s
      | None \<Rightarrow>
          (case re_strategy env tenantID 0 of
             Some s \<Rightarrow> s
           | None \<Rightarrow> \<lparr> rs_type = RoutingStrategyPriority, rs_config = None \<rparr>))"

section \<open>Ordering\<close>

definition norm_weight :: "route \<Rightarrow> int" where
  "norm_weight r = (if rt_weight r \<le> 0 then 1 else rt_weight r)"

definition totalWeight :: "route list \<Rightarrow> int" where
  "totalWeight rs = fold (\<lambda>r t. wrap_i64 (t + norm_weight r)) rs 0"

text \<open>The inner loop: the first route at which the cumulative weight exceeds the pick.\<close>

fun pick_index :: "int \<Rightarrow> int \<Rightarrow> nat \<Rightarrow> route list \<Rightarrow> nat option" where
  "pick_index pick cumulative j [] = None"
| "pick_index pick cumulative j (r # rs) =
     (let cumulative = wrap_i64 (cumulative + norm_weight r)
      in if pick < cumulative then Some j else pick_index pick cumulative (Suc j) rs)"

definition swap :: "nat \<Rightarrow> nat \<Rightarrow> 'a list \<Rightarrow> 'a list" where
  "swap i j xs = xs[i := xs ! j, j := xs ! i]"

text \<open>The outer loop, with the number of rounds left; \<open>None\<close> is the panic of \<^verbatim>\<open>rng.Intn\<close> on a
  non-positive bound.\<close>

fun shuffle_loop ::
  "(int \<Rightarrow> 'g \<Rightarrow> 'g \<times> int) \<Rightarrow> nat \<Rightarrow> nat \<Rightarrow> 'g \<Rightarrow> route list \<Rightarrow> route list option" where
  "shuffle_loop intn 0 i g routes = Some routes"
| "shuffle_loop intn (Suc n) i g routes =
     (let tot = totalWeight (drop i routes)
      in if tot \<le> 0 then None
         else (let (g', pick) = intn tot g;
                   routes = (case pick_index pick 0 i (drop i routes) of
                               None \<Rightarrow> routes
                             | Some j \<Rightarrow> swap i j routes)
               in shuffle_loop intn n (Suc i) g' routes))"

definition weightedShuffle ::
  "(int \<Rightarrow> 'g \<Rightarrow> 'g \<times> int) \<Rightarrow> 'g \<Rightarrow> route list \<Rightarrow> route list option" where
  "weightedShuffle intn g routes = shuffle_loop intn (length routes - 1) 0 g routes"

definition sortRoutes ::
  "('c, 'k, 'g, 'r) router_env \<Rightarrow> routing_strategy \<Rightarrow> int \<Rightarrow> route list \<Rightarrow> route list option" where
  "sortRoutes env strategy seed routes =
     (if rs_type strategy = RoutingStrategyWeightedRandom
      then weightedShuffle (re_intn env) (re_rng env seed) routes
      else Some (re_sort env routes))"

text \<open>\<^verbatim>\<open>binary.LittleEndian.PutUint64\<close> and \<^verbatim>\<open>Uint64\<close>.\<close>

definition le_bytes :: "u64 \<Rightarrow> string" where
  "le_bytes v = map (\<lambda>i. char_of (unat v div 256 ^ i mod 256)) [0 ..< 8]"

definition le_u64 :: "string \<Rightarrow> u64" where
  "le_u64 bs = word_of_nat (\<Sum>i \<leftarrow> [0 ..< 8]. of_char (bs ! i) * 256 ^ i)"

definition write_bytes :: "string \<Rightarrow> string" where
  "write_bytes b = le_bytes (word_of_nat (length b)) @ b"

definition sessionSeedInput :: "match_context \<Rightarrow> string" where
  "sessionSeedInput ctx =
     le_bytes (mc_tenant ctx) @ write_bytes (mc_client ctx) @ le_bytes (mc_project ctx) @
     le_bytes (mc_token ctx) @ write_bytes (mc_session ctx)"

definition makeSessionSeed :: "('c, 'k, 'g, 'r) router_env \<Rightarrow> match_context \<Rightarrow> int" where
  "makeSessionSeed env ctx = sint (le_u64 (take 8 (re_hmac env (sessionSeedInput ctx))))"

definition route_bytes :: "route \<Rightarrow> string" where
  "route_bytes r =
     le_bytes (rt_id r) @ le_bytes (rt_provider r) @
     le_bytes (word_of_int (rt_position r)) @ le_bytes (word_of_int (rt_weight r)) @
     [char_of (if rt_enabled r then 1 else 0 :: nat)]"

definition policyInput :: "(u64 list \<Rightarrow> u64 list) \<Rightarrow> route list \<Rightarrow> string" where
  "policyInput sort_ids routes =
     (let byID = fold (\<lambda>r. AList.update (rt_id r) r) routes [];
          ids = sort_ids (map rt_id routes)
      in concat (map (\<lambda>i. route_bytes (the (map_of byID i))) ids))"

definition policyFingerprint :: "('c, 'k, 'g, 'r) router_env \<Rightarrow> route list \<Rightarrow> string" where
  "policyFingerprint env routes =
     hex_encode (take 16 (re_sha env (policyInput (re_sort_ids env) routes)))"

section \<open>Candidates\<close>

definition isModelSupported :: "string \<Rightarrow> string list \<Rightarrow> bool" where
  "isModelSupported model supportModels =
     list_ex (\<lambda>pattern. MatchWildcard pattern model = Some True) supportModels"

definition adapterSupportsClientType :: "adapter \<Rightarrow> string \<Rightarrow> bool" where
  "adapterSupportsClientType a clientType =
     list_ex (\<lambda>supported. supported = clientType) (ad_client_types a)"

definition adapterSupportsResponsesWebSocket :: "adapter \<Rightarrow> bool" where
  "adapterSupportsResponsesWebSocket a =
     (if \<not> adapterSupportsClientType a ClientTypeCodex then False else ad_websocket a)"

definition route_retry ::
  "('c, 'k, 'g, 'r) router_env \<Rightarrow> match_context \<Rightarrow> route \<Rightarrow> 'r option" where
  "route_retry env ctx r =
     (case (if rt_retry r \<noteq> 0 then re_retry env (mc_tenant ctx) (rt_retry r) else None) of
        Some c \<Rightarrow> Some c
      | None \<Rightarrow> re_default_retry env (mc_tenant ctx))"

text \<open>What the candidate loop does with one route: keep it, or drop it for a reason.\<close>

datatype verdict = Keep | Drop | ModelReject | TransientSkip

definition strict_reject ::
  "('c, 'k, 'g, 'r) router_env \<Rightarrow> match_context \<Rightarrow> provider \<Rightarrow> adapter \<Rightarrow> bool" where
  "strict_reject env ctx p a =
     ((re_strict env \<or> mc_strict ctx) \<and> adapterSupportsClientType a (mc_client ctx) \<and>
      pv_support_models p \<noteq> [] \<and> mc_model ctx \<noteq> '''' \<and>
      \<not> isModelSupported (mc_model ctx) (pv_support_models p))"

definition consider_route ::
  "('c, 'k, 'g, 'r) router_env \<Rightarrow> match_context \<Rightarrow> go_time \<Rightarrow> route \<Rightarrow>
     ('c, 'k) router_state \<Rightarrow> ('c, 'k) router_state \<times> verdict" where
  "consider_route env ctx now r st =
     (case map_of (re_providers env) (rt_provider r) of
        None \<Rightarrow> (st, Drop)
      | Some prov \<Rightarrow>
          if IsAtLimit (re_inflight env) (pv_id prov) (pv_max_concurrency prov)
          then (st, TransientSkip)
          else
            (let (m, frozen) = IsInCooldown (re_cooldown_ops env) (rt_provider r) (mc_client ctx)
                   (mc_model ctx) now (st_manager st);
                 st = st \<lparr> st_manager := m \<rparr>
             in if frozen then (st, TransientSkip)
                else case map_of (re_adapters env) (rt_provider r) of
                  None \<Rightarrow> (st, Drop)
                | Some adp \<Rightarrow>
                    if mc_provider ctx \<noteq> 0 \<and> pv_id prov \<noteq> mc_provider ctx then (st, Drop)
                    else if mc_websocket ctx then
                      (let (ws, available) =
                             ResponsesWebSocketTransportAvailable (pv_id prov) now (st_ws st);
                           st = st \<lparr> st_ws := ws \<rparr>
                       in if \<not> available then (st, TransientSkip)
                          else if \<not> RouteIsNative prov r \<or>
                                  \<not> adapterSupportsResponsesWebSocket adp \<or>
                                  \<not> ProviderResponsesWebSocketEnabled prov then (st, Drop)
                          else if strict_reject env ctx prov adp then (st, ModelReject)
                          else (st, Keep))
                    else if strict_reject env ctx prov adp then (st, ModelReject)
                    else (st, Keep)))"

definition matched_of ::
  "('c, 'k, 'g, 'r) router_env \<Rightarrow> match_context \<Rightarrow> route \<Rightarrow> 'r matched_route" where
  "matched_of env ctx r =
     \<lparr> mr_route = r,
       mr_provider = the (map_of (re_providers env) (rt_provider r)),
       mr_adapter = the (map_of (re_adapters env) (rt_provider r)),
       mr_retry = route_retry env ctx r \<rparr>"

text \<open>The loop over the sorted candidates: matched routes and the verdicts seen.\<close>

fun match_loop ::
  "('c, 'k, 'g, 'r) router_env \<Rightarrow> match_context \<Rightarrow> go_time \<Rightarrow> route list \<Rightarrow>
     ('c, 'k) router_state \<Rightarrow> ('c, 'k) router_state \<times> 'r matched_route list \<times> verdict list" where
  "match_loop env ctx now [] st = (st, [], [])"
| "match_loop env ctx now (r # rs) st =
     (let (st, v) = consider_route env ctx now r st;
          (st, ms, vs) = match_loop env ctx now rs st
      in (st, (if v = Keep then matched_of env ctx r # ms else ms), v # vs))"

fun promote_scan ::
  "'r matched_route list \<Rightarrow> 'r matched_route list \<Rightarrow> u64 \<Rightarrow> 'r matched_route list" where
  "promote_scan before [] providerID = before"
| "promote_scan before (mr # rest) providerID =
     (if pv_id (mr_provider mr) = providerID then mr # before @ rest
      else promote_scan (before @ [mr]) rest providerID)"

definition promoteByProvider :: "'r matched_route list \<Rightarrow> u64 \<Rightarrow> 'r matched_route list" where
  "promoteByProvider matched providerID = promote_scan [] matched providerID"

definition sticky_write_for ::
  "('c, 'k, 'g, 'r) router_env \<Rightarrow> match_context \<Rightarrow> routing_strategy \<Rightarrow> route list \<Rightarrow>
     sticky_write option" where
  "sticky_write_for env ctx strategy filtered =
     (case rs_config strategy of
        None \<Rightarrow> None
      | Some cfg \<Rightarrow>
          if rs_type strategy = RoutingStrategyWeightedRandom \<and> sc_enabled cfg \<and> mc_token ctx \<noteq> 0
          then Some
            \<lparr> sw_key = \<lparr> sk_tenant = mc_tenant ctx, sk_client = mc_client ctx,
                         sk_project = mc_project ctx,
                         sk_policy = policyFingerprint env filtered,
                         sk_base = BaseKey (re_sha env) (sc_scope cfg) (mc_token ctx)
                           (mc_session ctx) \<rparr>,
              sw_ttl = TTLFromConfig (sc_ttl_seconds cfg) \<rparr>
          else None)"

definition empty_error :: "match_context \<Rightarrow> verdict list \<Rightarrow> match_error" where
  "empty_error ctx vs =
     (if mc_websocket ctx then
        (if mc_provider ctx \<noteq> 0 then ErrResponsesWebSocketSessionUnavailable
         else ErrNoResponsesWebSocketProviders)
      else if ModelReject \<in> set vs \<and> TransientSkip \<notin> set vs then ErrModelNotSupported
      else ErrNoAvailableProviders)"

text \<open>\<open>Match\<close>; the outer option is the panic of the shuffle.\<close>

definition Match ::
  "('c, 'k, 'g, 'r) router_env \<Rightarrow> match_context \<Rightarrow> go_time \<Rightarrow> ('c, 'k) router_state \<Rightarrow>
     (('c, 'k) router_state \<times> (match_error + 'r match_result)) option" where
  "Match env ctx now st =
     (let filtered = filterRoutes env ctx
      in if filtered = [] then
           Some (st, Inl (if mc_websocket ctx then ErrNoResponsesWebSocketProviders else ErrNoRoutes))
         else
           (let strategy = getRoutingStrategy env (mc_tenant ctx) (mc_project ctx);
                seed = makeSessionSeed env ctx
            in case sortRoutes env strategy seed filtered of
                 None \<Rightarrow> None
               | Some filtered \<Rightarrow>
                   (let (st, matched, vs) = match_loop env ctx now filtered st
                    in if matched = [] then Some (st, Inl (empty_error ctx vs))
                       else case sticky_write_for env ctx strategy filtered of
                         None \<Rightarrow> Some (st, Inr \<lparr> ms_routes = matched, ms_sticky = None \<rparr>)
                       | Some sw \<Rightarrow>
                           (let (store, pinned) =
                                  Manager_Get (re_sticky_ops env) (sw_key sw) now (st_sticky st);
                                matched = (case pinned of
                                             None \<Rightarrow> matched
                                           | Some p \<Rightarrow> promoteByProvider matched p)
                            in Some (st \<lparr> st_sticky := store \<rparr>,
                                 Inr \<lparr> ms_routes = matched, ms_sticky = Some sw \<rparr>)))))"

section \<open>The WebSocket probe\<close>

text \<open>The loop over the candidates of the probe; the transport cooldowns are state.\<close>

fun probe_loop ::
  "('c, 'k, 'g, 'r) router_env \<Rightarrow> go_time \<Rightarrow> route list \<Rightarrow> ws_cooldowns \<Rightarrow> ws_cooldowns \<times> bool" where
  "probe_loop env now [] ws = (ws, False)"
| "probe_loop env now (r # rs) ws =
     (case map_of (re_providers env) (rt_provider r) of
        None \<Rightarrow> probe_loop env now rs ws
      | Some prov \<Rightarrow>
          if IsAtLimit (re_inflight env) (pv_id prov) (pv_max_concurrency prov)
          then probe_loop env now rs ws
          else case map_of (re_adapters env) (rt_provider r) of
            None \<Rightarrow> probe_loop env now rs ws
          | Some adp \<Rightarrow>
              if \<not> RouteIsNative prov r then probe_loop env now rs ws
              else if \<not> adapterSupportsResponsesWebSocket adp then probe_loop env now rs ws
              else if \<not> ProviderResponsesWebSocketEnabled prov then probe_loop env now rs ws
              else (let (ws, available) = ResponsesWebSocketTransportAvailable (pv_id prov) now ws
                    in if available then (ws, True) else probe_loop env now rs ws))"

definition codex_context :: "u64 \<Rightarrow> u64 \<Rightarrow> match_context" where
  "codex_context tenantID projectID =
     \<lparr> mc_tenant = tenantID, mc_client = ClientTypeCodex, mc_project = projectID, mc_model = '''',
       mc_token = 0, mc_session = '''', mc_websocket = True, mc_provider = 0, mc_strict = False \<rparr>"

definition HasResponsesWebSocketProvider ::
  "('c, 'k, 'g, 'r) router_env \<Rightarrow> u64 \<Rightarrow> u64 \<Rightarrow> go_time \<Rightarrow> ws_cooldowns \<Rightarrow> ws_cooldowns \<times> bool" where
  "HasResponsesWebSocketProvider env tenantID projectID now ws =
     probe_loop env now (filterRoutes env (codex_context tenantID projectID)) ws"

definition ClearCooldown_router ::
  "('c, 'k, 'g, 'r) router_env \<Rightarrow> u64 \<Rightarrow> go_time \<Rightarrow> ('c, 'k) router_state \<Rightarrow> ('c, 'k) router_state" where
  "ClearCooldown_router env providerID now st =
     st \<lparr> st_manager := ClearCooldown (re_cooldown_ops env) providerID '''' '''' now (st_manager st),
         st_ws := ClearResponsesWebSocketTransportCooldown providerID (st_ws st) \<rparr>"

end
