(* ===== verification/Router_Shuffle.thy ===== *)
theory Router_Shuffle
  imports Router
begin

text \<open>
  The orderings of the router: what the parameters of the standard library promise, the weighted
  shuffle as a permutation that never panics and picks in proportion to the weights, the promotion
  of a pinned provider, and the unambiguous encodings behind the session seed and the policy
  fingerprint.
\<close>

section \<open>What the standard library promises\<close>

text \<open>\<^verbatim>\<open>sort.Slice\<close> returns some sorted permutation (it is not stable), \<^verbatim>\<open>rand.Intn(n)\<close> a number below
  \<open>n\<close>.\<close>

definition sorts_by :: "('a \<Rightarrow> 'b::linorder) \<Rightarrow> ('a list \<Rightarrow> 'a list) \<Rightarrow> bool" where
  "sorts_by key srt \<longleftrightarrow> (\<forall>xs. mset (srt xs) = mset xs \<and> sorted (map key (srt xs)))"

definition intn_ok :: "(int \<Rightarrow> 'g \<Rightarrow> 'g \<times> int) \<Rightarrow> bool" where
  "intn_ok intn \<longleftrightarrow> (\<forall>n g. 0 < n \<longrightarrow> 0 \<le> snd (intn n g) \<and> snd (intn n g) < n)"

lemma sorts_by_sort_key: "sorts_by key (sort_key key)"
  by (simp add: sorts_by_def)

section \<open>The weighted shuffle\<close>

definition weight_sum :: "route list \<Rightarrow> int" where
  "weight_sum rs = sum_list (map norm_weight rs)"

lemma weight_sum_simps [simp]:
  "weight_sum [] = 0" "weight_sum (r # rs) = norm_weight r + weight_sum rs"
  "weight_sum (xs @ ys) = weight_sum xs + weight_sum ys"
  by (simp_all add: weight_sum_def)

lemma norm_weight_pos: "1 \<le> norm_weight r"
  by (simp add: norm_weight_def)

lemma weight_sum_nonneg: "0 \<le> weight_sum rs"
  using norm_weight_pos by (induction rs) (auto, meson add_nonneg_nonneg order_trans zero_le_one)

lemma weight_sum_pos: "rs \<noteq> [] \<Longrightarrow> 0 < weight_sum rs"
  using norm_weight_pos [of "hd rs"] weight_sum_nonneg [of "tl rs"] by (cases rs) auto

lemma weight_sum_drop: "weight_sum (drop i rs) \<le> weight_sum rs"
  using weight_sum_nonneg [of "take i rs"] weight_sum_simps(3) [of "take i rs" "drop i rs"]
  by simp

lemma weight_sum_mset: "mset xs = mset ys \<Longrightarrow> weight_sum xs = weight_sum ys"
  unfolding weight_sum_def by (metis mset_map sum_mset_sum_list)

lemma totalWeight_sum:
  assumes "weight_sum rs < 2 ^ 63"
  shows "totalWeight rs = weight_sum rs"
proof -
  have "fold (\<lambda>r t. wrap_i64 (t + norm_weight r)) rs acc = acc + weight_sum rs"
    if "0 \<le> acc" "acc + weight_sum rs < 2 ^ 63" for acc
    using that
  proof (induction rs arbitrary: acc)
    case (Cons r rs)
    have "wrap_i64 (acc + norm_weight r) = acc + norm_weight r"
      using Cons.prems norm_weight_pos [of r] weight_sum_nonneg [of rs]
      by (intro wrap_i64_id) simp_all
    then show ?case
      using Cons.IH [of "acc + norm_weight r"] Cons.prems norm_weight_pos [of r] by simp
  qed simp
  from this [of 0] show ?thesis using assms by (simp add: totalWeight_def)
qed

text \<open>The inner loop picks position \<open>j\<close> exactly for the picks that fall in the interval of its
  weight.\<close>

lemma pick_index_Some:
  assumes "0 \<le> c" and "c \<le> pick" and "c + weight_sum rs < 2 ^ 63"
  shows "pick_index pick c i rs = Some (i + j) \<longleftrightarrow>
    j < length rs \<and> c + weight_sum (take j rs) \<le> pick \<and> pick < c + weight_sum (take (Suc j) rs)"
  using assms
proof (induction rs arbitrary: c i j)
  case (Cons r rs)
  let ?c = "c + norm_weight r"
  have w: "wrap_i64 ?c = ?c"
    using Cons.prems norm_weight_pos [of r] weight_sum_nonneg [of rs]
    by (intro wrap_i64_id) simp_all
  have pos: "0 \<le> weight_sum (take k rs)" for k by (rule weight_sum_nonneg)
  show ?case
  proof (cases "pick < ?c")
    case True
    then have "pick_index pick c i (r # rs) = Some i" by (simp add: w Let_def)
    moreover have "\<not> ?c + weight_sum (take k rs) \<le> pick" for k using True pos [of k] by linarith
    ultimately show ?thesis using True Cons.prems by (cases j) (auto simp: algebra_simps)
  next
    case False
    then have step: "pick_index pick c i (r # rs) = pick_index pick ?c (Suc i) rs"
      by (simp add: w Let_def)
    show ?thesis
    proof (cases j)
      case 0
      have "pick_index pick ?c (Suc i) rs \<noteq> Some i"
      proof -
        have "pick_index p c' k xs = Some l \<Longrightarrow> k \<le> l" for p c' k xs l
          by (induction p c' k xs rule: pick_index.induct) (auto simp: Let_def split: if_splits)
        then show ?thesis by (metis not_less_eq_eq order_refl)
      qed
      then show ?thesis using 0 step False by simp
    next
      case (Suc k)
      have "pick_index pick ?c (Suc i) rs = Some (Suc i + k) \<longleftrightarrow>
          k < length rs \<and> ?c + weight_sum (take k rs) \<le> pick \<and>
          pick < ?c + weight_sum (take (Suc k) rs)"
        by (rule Cons.IH) (use Cons.prems False norm_weight_pos [of r] in simp_all)
      then show ?thesis using Suc step by (simp add: add.assoc)
    qed
  qed
qed simp

lemma pick_index_exists:
  assumes "0 \<le> c" and "c \<le> pick" and "pick < c + weight_sum rs" and "c + weight_sum rs < 2 ^ 63"
  shows "\<exists>j < length rs. pick_index pick c i rs = Some (i + j)"
  using assms
proof (induction rs arbitrary: c i)
  case (Cons r rs)
  have w: "wrap_i64 (c + norm_weight r) = c + norm_weight r"
    using Cons.prems norm_weight_pos [of r] weight_sum_nonneg [of rs]
    by (intro wrap_i64_id) simp_all
  show ?case
  proof (cases "pick < c + norm_weight r")
    case True
    then show ?thesis by (auto simp: w Let_def)
  next
    case False
    have "\<exists>j < length rs. pick_index pick (c + norm_weight r) (Suc i) rs = Some (Suc i + j)"
      by (rule Cons.IH) (use Cons.prems False norm_weight_pos [of r] in simp_all)
    then obtain j where "j < length rs"
      "pick_index pick (c + norm_weight r) (Suc i) rs = Some (Suc i + j)" by blast
    with False w show ?thesis by (intro exI [of _ "Suc j"]) (simp add: Let_def)
  qed
qed simp

lemma shuffle_loop_permutes:
  assumes "intn_ok intn" and "weight_sum routes < 2 ^ 63" and "i + n < length routes \<or> n = 0"
  shows "\<exists>rs. shuffle_loop intn n i g routes = Some rs \<and> mset rs = mset routes"
  using assms(2,3)
proof (induction n arbitrary: i g routes)
  case (Suc n)
  let ?rest = "drop i routes"
  have small: "weight_sum ?rest < 2 ^ 63" using Suc.prems(1) weight_sum_drop [of i routes] by simp
  have tot: "totalWeight ?rest = weight_sum ?rest" using small by (rule totalWeight_sum)
  have pos: "0 < weight_sum ?rest" using Suc.prems(2) by (intro weight_sum_pos) simp
  obtain g' pick where intn: "intn (weight_sum ?rest) g = (g', pick)" by fastforce
  have "0 \<le> pick" "pick < weight_sum ?rest"
    using assms(1) pos intn unfolding intn_ok_def by (metis snd_conv)+
  then obtain j where j: "j < length ?rest" "pick_index pick 0 i ?rest = Some (i + j)"
    using pick_index_exists [of 0 pick ?rest i] small by auto
  let ?routes = "swap i (i + j) routes"
  have perm: "mset ?routes = mset routes"
    using j(1) by (simp add: swap_def mset_swap)
  have "\<exists>rs. shuffle_loop intn n (Suc i) g' ?routes = Some rs \<and> mset rs = mset ?routes"
    using Suc.prems weight_sum_mset [OF perm] by (intro Suc.IH) (auto simp: swap_def)
  then show ?case using tot pos intn j(2) perm by simp
qed simp

lemma weightedShuffle_Some:
  assumes "intn_ok intn" and "weight_sum routes < 2 ^ 63"
  shows "\<exists>rs. weightedShuffle intn g routes = Some rs \<and> mset rs = mset routes"
  unfolding weightedShuffle_def using assms by (intro shuffle_loop_permutes) auto

lemma weight_take_Suc:
  "j < length rs \<Longrightarrow> weight_sum (take (Suc j) rs) = weight_sum (take j rs) + norm_weight (rs ! j)"
  by (simp add: take_Suc_conv_app_nth)

lemma weight_take_le: "weight_sum (take j rs) \<le> weight_sum rs"
  using weight_sum_nonneg [of "drop j rs"] weight_sum_simps(3) [of "take j rs" "drop j rs"] by simp

text \<open>Later draws leave the positions already filled.\<close>

lemma shuffle_loop_prefix:
  "shuffle_loop intn n i g routes = Some rs \<Longrightarrow> i + n < length routes \<or> n = 0 \<Longrightarrow>
   take i rs = take i routes"
proof (induction n arbitrary: i g routes)
  case (Suc n)
  let ?rest = "drop i routes"
  obtain g' pick where intn: "intn (totalWeight ?rest) g = (g', pick)" by fastforce
  define next' where "next' = (case pick_index pick 0 i ?rest of None \<Rightarrow> routes | Some j \<Rightarrow> swap i j routes)"
  have lower: "pick_index q c k xs = Some l \<Longrightarrow> k \<le> l" for q c k xs l
    by (induction q c k xs rule: pick_index.induct) (auto simp: Let_def split: if_splits)
  have kept: "take i next' = take i routes" "length next' = length routes"
    using lower [of pick 0 i ?rest] by (auto simp: next'_def swap_def split: option.split)
  have "shuffle_loop intn n (Suc i) g' next' = Some rs"
    using Suc.prems(1) intn by (simp add: next'_def Let_def split: if_splits)
  then have "take (Suc i) rs = take (Suc i) next'" using Suc.IH Suc.prems(2) kept(2) by auto
  then have "take i (take (Suc i) rs) = take i (take (Suc i) next')" by simp
  then show ?case using kept(1) by simp
qed simp

text \<open>C37: the weighted shuffle never panics and returns a permutation of the routes as long as their
  weights (at least one each) sum below \<open>2 ^ 63\<close>; and the route it puts first is the one whose interval
  contains the draw: of the equally likely draws below the sum of the weights, each route has an
  interval of its own, as long as its weight.\<close>

theorem weightedShuffle_fair:
  assumes "intn_ok intn" and "weight_sum routes < 2 ^ 63" and "routes \<noteq> []"
  shows "\<exists>rs j. weightedShuffle intn g routes = Some rs \<and> mset rs = mset routes \<and>
    j < length routes \<and> hd rs = routes ! j \<and>
    weight_sum (take j routes) \<le> snd (intn (weight_sum routes) g) \<and>
    snd (intn (weight_sum routes) g) < weight_sum (take j routes) + norm_weight (routes ! j)"
proof -
  obtain rs where rs: "weightedShuffle intn g routes = Some rs" "mset rs = mset routes"
    using weightedShuffle_Some [OF assms(1,2)] by blast
  have len: "length rs = length routes" using rs(2) by (metis size_mset)
  obtain g' pick where intn: "intn (weight_sum routes) g = (g', pick)" by fastforce
  have pos: "0 < weight_sum routes" using assms(3) by (rule weight_sum_pos)
  have pick: "0 \<le> pick" "pick < weight_sum routes"
    using assms(1) pos intn unfolding intn_ok_def by (metis snd_conv)+
  obtain j where j: "j < length routes" "pick_index pick 0 0 routes = Some j"
    using pick_index_exists [of 0 pick routes 0] pick assms(2) by auto
  have within: "weight_sum (take j routes) \<le> pick" "pick < weight_sum (take j routes) + norm_weight (routes ! j)"
    using pick_index_Some [of 0 pick routes 0 j] pick(1) j assms(2) weight_take_Suc [OF j(1)] by simp_all
  have "hd rs = routes ! j"
  proof (cases "length routes - 1")
    case 0
    then have "j = 0" "rs = routes" using j(1) rs(1) assms(3) by (auto simp: weightedShuffle_def)
    then show ?thesis using assms(3) by (simp add: hd_conv_nth)
  next
    case (Suc n)
    have tot: "totalWeight routes = weight_sum routes" by (rule totalWeight_sum [OF assms(2)])
    have "shuffle_loop intn n (Suc 0) g' (swap 0 j routes) = Some rs"
      using rs(1) Suc pos intn j(2) by (simp add: weightedShuffle_def tot)
    moreover have "Suc 0 + n < length (swap 0 j routes) \<or> n = 0" using Suc by (auto simp: swap_def)
    ultimately have "take (Suc 0) rs = take (Suc 0) (swap 0 j routes)" by (rule shuffle_loop_prefix)
    moreover have "hd (swap 0 j routes) = routes ! j"
      using assms(3) j(1) by (cases routes; cases j) (auto simp: swap_def)
    ultimately show ?thesis using assms(3) len by (cases rs; cases "swap 0 j routes") (auto simp: swap_def)
  qed
  then show ?thesis using rs j(1) within intn by auto
qed

definition mk_route :: "u64 \<Rightarrow> u64 \<Rightarrow> int \<Rightarrow> int \<Rightarrow> route" where
  "mk_route i p pos w = \<lparr> rt_id = i, rt_tenant = 1, rt_enabled = True, rt_project = 0,
     rt_client = ClientTypeClaude, rt_provider = p, rt_position = pos, rt_weight = w,
     rt_retry = 0 \<rparr>"

text \<open>Of eight draws the last five put the second route first.\<close>

definition late_draw :: "int \<Rightarrow> unit \<Rightarrow> unit \<times> int" where
  "late_draw n g = (g, if n \<le> 5 then 0 else n - 5)"

lemma weightedShuffle_fair_witness:
  "\<exists>rs. weightedShuffle late_draw () [mk_route 1 1 0 3, mk_route 2 2 0 5] = Some rs \<and>
     hd rs = mk_route 2 2 0 5"
proof -
  let ?routes = "[mk_route 1 1 0 3, mk_route 2 2 0 5]"
  have w: "norm_weight (mk_route i p pos 3) = 3" "norm_weight (mk_route i p pos 5) = 5" for i p pos
    by (simp_all add: norm_weight_def mk_route_def)
  have "intn_ok late_draw" "weight_sum ?routes < 2 ^ 63" "?routes \<noteq> []"
    by (simp_all add: intn_ok_def late_draw_def w)
  from weightedShuffle_fair [OF this, of "()"]
  obtain rs j where rs: "weightedShuffle late_draw () ?routes = Some rs" "j < length ?routes"
    "hd rs = ?routes ! j"
    "snd (late_draw (weight_sum ?routes) ()) < weight_sum (take j ?routes) + norm_weight (?routes ! j)"
    by blast
  have "j = 1" using rs(2,4) by (cases j) (simp_all add: late_draw_def w)
  then show ?thesis using rs(1,3) by auto
qed

section \<open>Promotion of the pinned provider\<close>

lemma promote_scan_eq:
  "promote_scan before ms p =
     (case find (\<lambda>mr. pv_id (mr_provider mr) = p) ms of
        None \<Rightarrow> before @ ms
      | Some mr \<Rightarrow> mr # before @ remove1 mr ms)"
proof (induction before ms p rule: promote_scan.induct)
  case (2 before mr rest p)
  show ?case
  proof (cases "pv_id (mr_provider mr) = p")
    case False
    then have "find (\<lambda>mr. pv_id (mr_provider mr) = p) rest = Some m \<Longrightarrow> m \<noteq> mr" for m
      by (auto simp: find_Some_iff)
    with 2 False show ?thesis by (auto split: option.split)
  qed simp
qed simp

lemma promote_eq:
  "promoteByProvider ms p =
     (case find (\<lambda>mr. pv_id (mr_provider mr) = p) ms of
        None \<Rightarrow> ms | Some mr \<Rightarrow> mr # remove1 mr ms)"
  by (simp add: promoteByProvider_def promote_scan_eq split: option.split)

text \<open>The first match moves to the front, and the others keep their order.\<close>

lemma promote_split:
  assumes "\<exists>mr \<in> set ms. pv_id (mr_provider mr) = p"
  obtains before mr after where "ms = before @ mr # after" "promoteByProvider ms p = mr # before @ after"
    "pv_id (mr_provider mr) = p" "\<forall>m \<in> set before. pv_id (mr_provider m) \<noteq> p"
proof -
  obtain before mr after where split: "ms = before @ mr # after" "pv_id (mr_provider mr) = p"
    "\<forall>m \<in> set before. pv_id (mr_provider m) \<noteq> p"
    using split_list_first_prop [OF assms] by blast
  have "promote_scan seen (before @ mr # after) p = mr # seen @ before @ after" for seen
    using split(2,3) by (induction before arbitrary: seen) simp_all
  then show thesis using split that by (simp add: promoteByProvider_def)
qed

lemma mset_promote: "mset (promoteByProvider ms p) = mset ms"
  by (auto simp: promote_eq find_Some_iff split: option.split)

lemma hd_promote:
  "mr \<in> set ms \<Longrightarrow> pv_id (mr_provider mr) = p \<Longrightarrow> pv_id (mr_provider (hd (promoteByProvider ms p))) = p"
  by (auto simp: promote_eq find_None_iff find_Some_iff split: option.split)

section \<open>Encodings\<close>

lemma le_bytes_length [simp]: "length (le_bytes v) = 8"
  by (simp add: le_bytes_def)

lemma digits_sum: "(\<Sum>i \<leftarrow> [0 ..< n]. (v div 256 ^ i mod 256) * 256 ^ i) = v mod (256 ^ n :: nat)"
proof (induction n)
  case (Suc n)
  have "v mod 256 ^ Suc n = v div 256 ^ n mod 256 * 256 ^ n + v mod 256 ^ n"
    using mod_mult2_eq [of v "256 ^ n" 256] by (simp add: mult.commute)
  with Suc show ?case by simp
qed simp

lemma le_u64_bytes: "le_u64 (le_bytes v) = v"
proof -
  have "(\<Sum>i \<leftarrow> [0 ..< 8]. of_char (le_bytes v ! i) * 256 ^ i) = unat v mod 256 ^ 8"
    by (subst digits_sum [symmetric], rule arg_cong [where f = sum_list], rule map_cong)
      (simp_all add: le_bytes_def)
  also have "\<dots> = unat v" using unat_u64_less [of v] by simp
  finally show ?thesis by (simp add: le_u64_def)
qed

lemma le_bytes_inj [simp]: "(le_bytes u = le_bytes v) = (u = v)"
  by (metis le_u64_bytes)

lemma le_bytes_append [simp]: "(le_bytes u @ xs = le_bytes v @ ys) = (u = v \<and> xs = ys)"
  by (simp add: append_eq_append_conv)

lemma write_bytes_append:
  assumes "length a < 2 ^ 64" and "length b < 2 ^ 64"
  shows "(write_bytes a @ xs = write_bytes b @ ys) = (a = b \<and> xs = ys)"
proof -
  have "(word_of_nat (length a) = (word_of_nat (length b) :: u64)) = (length a = length b)"
    using assms by (metis big_uint64_def unat_big_uint64_small)
  then show ?thesis by (auto simp: write_bytes_def)
qed

text \<open>The byte string behind the session seed is unambiguous: two requests have the same one
  exactly when tenant, client type, project, API token and session agree (no field can spill into
  another).\<close>

theorem session_seed_input_injective:
  assumes "length (mc_client c) < 2 ^ 64" "length (mc_session c) < 2 ^ 64"
    and "length (mc_client c') < 2 ^ 64" "length (mc_session c') < 2 ^ 64"
  shows "sessionSeedInput c = sessionSeedInput c' \<longleftrightarrow>
    mc_tenant c = mc_tenant c' \<and> mc_client c = mc_client c' \<and> mc_project c = mc_project c' \<and>
    mc_token c = mc_token c' \<and> mc_session c = mc_session c'"
  using write_bytes_append [OF assms(2,4), of "[]" "[]"]
  by (simp add: sessionSeedInput_def write_bytes_append [OF assms(1,3)])

lemma session_seed_input_injective_witness:
  "sessionSeedInput (codex_context 1 2) \<noteq> sessionSeedInput (codex_context 1 3)"
  using session_seed_input_injective [of "codex_context 1 2" "codex_context 1 3"]
  by (simp add: codex_context_def ClientTypeCodex_def)

section \<open>The policy fingerprint\<close>

lemma byID_other:
  "i \<notin> rt_id ` set rs \<Longrightarrow> map_of (fold (\<lambda>r. AList.update (rt_id r) r) rs m) i = map_of m i"
  by (induction rs arbitrary: m) (simp_all add: go_map del: map_of_eq_Some_iff map_of_eq_None_iff)

lemma byID_distinct:
  "distinct (map rt_id rs) \<Longrightarrow> r \<in> set rs \<Longrightarrow>
   map_of (fold (\<lambda>r. AList.update (rt_id r) r) rs m) (rt_id r) = Some r"
proof (induction rs arbitrary: m)
  case (Cons x rs)
  show ?case
  proof (cases "r \<in> set rs")
    case True
    with Cons show ?thesis by (simp del: map_of_eq_Some_iff)
  next
    case False
    with Cons.prems have "r = x" by simp
    with Cons.prems byID_other [of "rt_id x" rs "AList.update (rt_id x) x m"]
    show ?thesis by (simp add: go_map del: map_of_eq_Some_iff map_of_eq_None_iff)
  qed
qed simp

text \<open>The fields of a route the fingerprint covers, at the width it hashes them.\<close>

definition policy_fields :: "route \<Rightarrow> u64 \<times> u64 \<times> u64 \<times> u64 \<times> bool" where
  "policy_fields r = (rt_id r, rt_provider r, word_of_int (rt_position r), word_of_int (rt_weight r),
     rt_enabled r)"

lemma route_bytes_append:
  "(route_bytes r @ xs = route_bytes r' @ ys) = (policy_fields r = policy_fields r' \<and> xs = ys)"
  by (auto simp: route_bytes_def policy_fields_def char_of_eq_iff split: if_splits)

lemma route_bytes_concat:
  "concat (map route_bytes rs) = concat (map route_bytes rs') \<Longrightarrow>
   map policy_fields rs = map policy_fields rs'"
proof (induction rs arbitrary: rs')
  case Nil
  then show ?case by (cases rs') (auto simp: route_bytes_def)
next
  case (Cons r rs)
  then obtain r' rs'' where rs': "rs' = r' # rs''"
    by (cases rs') (auto simp: route_bytes_def)
  with Cons show ?case by (auto simp: route_bytes_append)
qed

lemma policyInput_eq:
  assumes "distinct (map rt_id rs)" and "sorts_by (\<lambda>i. i) srt"
  shows "\<exists>ss. mset ss = mset rs \<and> map rt_id ss = srt (map rt_id rs) \<and>
    policyInput srt rs = concat (map route_bytes ss)"
proof -
  let ?byID = "fold (\<lambda>r. AList.update (rt_id r) r) rs []"
  let ?ss = "map (\<lambda>i. the (map_of ?byID i)) (srt (map rt_id rs))"
  have perm: "mset (srt (map rt_id rs)) = mset (map rt_id rs)"
    using assms(2) by (simp add: sorts_by_def)
  then have ids: "set (srt (map rt_id rs)) = rt_id ` set rs" by (metis set_mset_mset set_map)
  have look: "the (map_of ?byID (rt_id r)) = r" if "r \<in> set rs" for r
    using byID_distinct [OF assms(1) that] by (simp del: map_of_eq_Some_iff)
  have "mset ?ss = image_mset (\<lambda>i. the (map_of ?byID i)) (mset (map rt_id rs))"
    by (simp only: mset_map perm)
  also have "\<dots> = image_mset (\<lambda>r. the (map_of ?byID (rt_id r))) (mset rs)"
    by (simp add: multiset.map_comp comp_def)
  also have "\<dots> = image_mset (\<lambda>r. r) (mset rs)"
    by (rule image_mset_cong) (simp add: look)
  also have "\<dots> = mset rs" by simp
  finally have "mset ?ss = mset rs" .
  moreover have "map rt_id ?ss = srt (map rt_id rs)"
    using look ids by (auto intro!: map_idI)
  moreover have "policyInput srt rs = concat (map route_bytes ?ss)"
    by (simp add: policyInput_def Let_def comp_def)
  ultimately show ?thesis by blast
qed

text \<open>The bytes behind the policy fingerprint identify the routing configuration: for routes with
  distinct identifiers they are equal exactly when the two sets of routes agree on identifiers,
  providers, positions, weights (as 64-bit values) and enabled flags, in whatever order the routes
  are given; so a sticky binding outlives a reordering and no other edit of these fields.\<close>

theorem policy_input_identifies:
  assumes "distinct (map rt_id rs)" and "distinct (map rt_id rs')"
    and "sorts_by (\<lambda>i. i) srt"
  shows "policyInput srt rs = policyInput srt rs' \<longleftrightarrow>
    mset (map policy_fields rs) = mset (map policy_fields rs')"
proof -
  obtain ss where ss: "mset ss = mset rs" "map rt_id ss = srt (map rt_id rs)"
    "policyInput srt rs = concat (map route_bytes ss)"
    using policyInput_eq [OF assms(1,3)] by blast
  obtain ss' where ss': "mset ss' = mset rs'" "map rt_id ss' = srt (map rt_id rs')"
    "policyInput srt rs' = concat (map route_bytes ss')"
    using policyInput_eq [OF assms(2,3)] by blast
  have same: "route_bytes r = route_bytes r'" if "policy_fields r = policy_fields r'" for r r'
    using that by (simp add: route_bytes_def policy_fields_def)
  have fields: "mset (map policy_fields ss) = mset (map policy_fields rs)"
    "mset (map policy_fields ss') = mset (map policy_fields rs')"
    by (simp_all add: ss(1) ss'(1))
  have ids: "map fst (map policy_fields xs) = map rt_id xs" for xs
    by (simp add: policy_fields_def)
  have srt: "mset (srt xs) = mset xs" "sorted (srt xs)" for xs
    using assms(3) by (simp_all add: sorts_by_def)
  have sorted: "sorted (map fst (map policy_fields ss))" "sorted (map fst (map policy_fields ss'))"
    unfolding ids ss(2) ss'(2) by (rule srt(2))+
  have distinct: "distinct (map fst (map policy_fields ss))"
    "distinct (map fst (map policy_fields ss'))"
    unfolding ids ss(2) ss'(2)
    using assms(1,2) mset_eq_imp_distinct_iff [OF srt(1)] by blast+
  show ?thesis
  proof
    assume "policyInput srt rs = policyInput srt rs'"
    then have "concat (map route_bytes ss) = concat (map route_bytes ss')"
      unfolding ss(3) ss'(3) .
    then have "map policy_fields ss = map policy_fields ss'" by (rule route_bytes_concat)
    then show "mset (map policy_fields rs) = mset (map policy_fields rs')"
      using fields by metis
  next
    assume "mset (map policy_fields rs) = mset (map policy_fields rs')"
    then have "set (map policy_fields ss) = set (map policy_fields ss')"
      using fields by (metis set_mset_mset)
    moreover from this have "inj_on fst (set (map policy_fields ss) \<union> set (map policy_fields ss'))"
      using distinct(1) unfolding distinct_map by (metis Un_absorb)
    ultimately have fs: "map policy_fields ss = map policy_fields ss'"
      using map_sorted_distinct_set_unique sorted distinct by metis
    then have "length ss = length ss'" by (metis length_map)
    then have "map route_bytes ss = map route_bytes ss'"
      using fs by (induction ss ss' rule: list_induct2) (auto intro: same)
    then show "policyInput srt rs = policyInput srt rs'" unfolding ss(3) ss'(3) by (rule arg_cong)
  qed
qed

lemma policy_input_identifies_witness:
  "policyInput (sort_key (\<lambda>i. i)) [mk_route 1 1 0 3, mk_route 2 2 0 5] =
     policyInput (sort_key (\<lambda>i. i)) [mk_route 2 2 0 5, mk_route 1 1 0 3] \<and>
   policyInput (sort_key (\<lambda>i. i)) [mk_route 1 1 0 3] \<noteq>
     policyInput (sort_key (\<lambda>i. i)) [mk_route 1 1 0 4]"
proof
  show "policyInput (sort_key (\<lambda>i. i)) [mk_route 1 1 0 3, mk_route 2 2 0 5] =
     policyInput (sort_key (\<lambda>i. i)) [mk_route 2 2 0 5, mk_route 1 1 0 3]"
    by (subst policy_input_identifies [OF _ _ sorts_by_sort_key])
      (simp_all add: mk_route_def add_mset_commute)
  show "policyInput (sort_key (\<lambda>i. i)) [mk_route 1 1 0 3] \<noteq>
     policyInput (sort_key (\<lambda>i. i)) [mk_route 1 1 0 4]"
    by (subst policy_input_identifies [OF _ _ sorts_by_sort_key])
      (simp_all add: mk_route_def policy_fields_def)
qed

end
