(* ===== verification/Router_Views.thy ===== *)
theory Router_Views
  imports Router_Shuffle Cooldown_Lemmas
begin

text \<open>
  Asking the cooldown manager about one provider may reload that provider from the store.  Here it
  is shown that this changes no later answer at the same instant, so the verdict on a candidate
  route does not depend on the candidates examined before it.
\<close>

section \<open>Synchronising one provider keeps the answers about all\<close>

text \<open>A store only lists keys of the provider it is asked for.\<close>

definition lists_own :: "'s store_ops \<Rightarrow> bool" where
  "lists_own ops \<longleftrightarrow>
     (\<forall>p now s es. so_list ops p now s = Inr es \<longrightarrow> (\<forall>e \<in> set es. ck_provider (fst e) = p))"

lemma memory_lists_own: "lists_own memory_ops"
  by (auto simp: lists_own_def memory_ops_def mem_ListByProvider_def)

definition pview :: "u64 \<Rightarrow> 's manager \<Rightarrow> 's manager \<Rightarrow> bool" where
  "pview p m m' \<longleftrightarrow>
     m_store m = m_store m' \<and> m_every m = m_every m' \<and>
     map_of (m_last_sync m) p = map_of (m_last_sync m') p \<and>
     map_of (m_gen m) p = map_of (m_gen m') p \<and>
     (\<forall>k. ck_provider k = p \<longrightarrow> map_of (m_cooldowns m) k = map_of (m_cooldowns m') k)"

lemma fold_load_lookup:
  "map_of (m_cooldowns (fold load_store_entry es m)) k =
     (case map_of (rev es) k of None \<Rightarrow> map_of (m_cooldowns m) k | Some u \<Rightarrow> Some u)"
  by (induction es arbitrary: m)
    (auto simp: load_store_entry_def go_map simp del: map_of_eq_Some_iff map_of_eq_None_iff
      split: option.split)

lemma fold_load_frame [simp]:
  "m_store (fold load_store_entry es m) = m_store m"
  "m_every (fold load_store_entry es m) = m_every m"
  "m_gen (fold load_store_entry es m) = m_gen m"
  "m_last_sync (fold load_store_entry es m) = m_last_sync m"
  by (induction es arbitrary: m) (simp_all add: load_store_entry_def)

lemma drop_provider_every [simp]: "m_every (drop_provider p m) = m_every m"
proof -
  have "m_every (fold drop_local ks m) = m_every m" for ks
    by (induction ks arbitrary: m) (simp_all add: drop_local_def)
  then show ?thesis by (simp add: drop_provider_def)
qed

lemma reload_apply_fields:
  "m_store (reload_apply p es g now m) = m_store m"
  "m_every (reload_apply p es g now m) = m_every m"
  "map_of (m_last_sync (reload_apply p es g now m)) q =
     (if q = p then Some now else map_of (m_last_sync m) q)"
  "q \<noteq> p \<Longrightarrow> map_of (m_gen (reload_apply p es g now m)) q = map_of (m_gen m) q"
  "m_cooldowns (reload_apply p es g now m) =
     m_cooldowns (fold load_store_entry es (drop_provider p m))"
  by (simp_all add: reload_apply_def Let_def mgr_frame go_map
      del: map_of_eq_Some_iff map_of_eq_None_iff)

lemma sync_other:
  assumes "lists_own ops" and "q \<noteq> p"
  shows "pview p (syncProviderGeneration ops q now m) m"
proof -
  have reload: "pview p (reloadProvider ops q g now m) m" for g
  proof (cases "m_store m")
    case (Some s)
    have "map_of (rev es) k = None" if "so_list ops q now s = Inr es" "ck_provider k = p" for es k
      using assms that by (force simp: lists_own_def map_of_eq_None_iff)
    then show ?thesis
      using Some assms(2)
      by (auto simp: reloadProvider_def Let_def pview_def reload_apply_fields fold_load_lookup
          drop_provider_lookup simp del: map_of_eq_Some_iff map_of_eq_None_iff
          split: sum.split option.split)
  qed (simp add: reloadProvider_def pview_def)
  show ?thesis
    using reload assms(2)
    by (auto simp: syncProviderGeneration_def Let_def split: option.split sum.split)
      (auto simp: pview_def go_map simp del: map_of_eq_Some_iff map_of_eq_None_iff)
qed

lemma sync_pview:
  assumes "pview p m m'" and "ck_provider k = p"
  shows "map_of (m_cooldowns (syncProviderGeneration ops p now m)) k =
    map_of (m_cooldowns (syncProviderGeneration ops p now m')) k"
proof -
  have last: "lookup_default d (m_last_sync m) p = lookup_default d (m_last_sync m') p"
    and gen: "lookup_default d' (m_gen m) p = lookup_default d' (m_gen m') p" for d d'
    using assms(1) by (simp_all add: pview_def lookup_default_def)
  have reload: "map_of (m_cooldowns (reloadProvider ops p g now m)) k =
      map_of (m_cooldowns (reloadProvider ops p g now m')) k" for g
    using assms
    by (simp add: reloadProvider_def Let_def pview_def reload_apply_fields fold_load_lookup
        drop_provider_lookup del: map_of_eq_Some_iff map_of_eq_None_iff
        split: sum.split option.split)
  show ?thesis
    using assms reload
    by (simp add: syncProviderGeneration_def Let_def last gen pview_def
        del: map_of_eq_Some_iff map_of_eq_None_iff split: option.split sum.split)
qed

lemma time_since_self [simp]: "time_since now now = 0"
  by (simp add: time_since_def)

lemma sync_throttled:
  assumes "map_of (m_last_sync m) p = Some now"
  shows "syncProviderGeneration ops p now m = m"
  using assms
  by (simp add: syncProviderGeneration_def Let_def lookup_default_def second_def
      del: map_of_eq_Some_iff split: option.split)

lemma sync_idem:
  "syncProviderGeneration ops p now (syncProviderGeneration ops p now m) =
     syncProviderGeneration ops p now m"
proof (cases "m_store m")
  case None
  then show ?thesis by (simp add: syncProviderGeneration_def)
next
  case (Some s)
  have "syncProviderGeneration ops p now m = m \<or>
      map_of (m_last_sync (syncProviderGeneration ops p now m)) p = Some now"
    using Some
    by (auto simp: syncProviderGeneration_def reloadProvider_def Let_def go_map
        reload_apply_fields simp del: map_of_eq_Some_iff map_of_eq_None_iff split: sum.split)
  then show ?thesis using sync_throttled by metis
qed

definition frozen_view ::
  "'s store_ops \<Rightarrow> go_time \<Rightarrow> 's manager \<Rightarrow> u64 \<Rightarrow> string \<Rightarrow> string \<Rightarrow> bool" where
  "frozen_view ops now m p c mo = snd (IsInCooldown ops p c mo now m)"

lemma in_cooldown_cong:
  "(\<And>k. ck_provider k = p \<Longrightarrow> map_of cds k = map_of cds' k) \<Longrightarrow>
   in_cooldown cds p c mo t = in_cooldown cds' p c mo t"
  by (simp add: in_cooldown_iff frozen_at_def)

lemma frozen_view_sync:
  assumes "lists_own ops"
  shows "frozen_view ops now (syncProviderGeneration ops q now m) = frozen_view ops now m"
proof (intro ext)
  fix p c mo
  show "frozen_view ops now (syncProviderGeneration ops q now m) p c mo = frozen_view ops now m p c mo"
  proof (cases "q = p")
    case True
    then show ?thesis by (simp add: frozen_view_def IsInCooldown_def Let_def sync_idem)
  next
    case False
    show ?thesis
      unfolding frozen_view_def IsInCooldown_def Let_def snd_conv
      by (rule in_cooldown_cong) (rule sync_pview [OF sync_other [OF assms False]])
  qed
qed

section \<open>Verdicts\<close>

definition eligible ::
  "('c, 'k, 'g, 'r) router_env \<Rightarrow> match_context \<Rightarrow> go_time \<Rightarrow> ('c, 'k) router_state \<Rightarrow> route \<Rightarrow> bool"
where
  "eligible env ctx now st r \<longleftrightarrow>
     (\<exists>prov adp. map_of (re_providers env) (rt_provider r) = Some prov \<and>
        map_of (re_adapters env) (rt_provider r) = Some adp \<and>
        \<not> IsAtLimit (re_inflight env) (pv_id prov) (pv_max_concurrency prov) \<and>
        \<not> frozen_view (re_cooldown_ops env) now (st_manager st) (rt_provider r) (mc_client ctx)
          (mc_model ctx) \<and>
        (mc_provider ctx = 0 \<or> pv_id prov = mc_provider ctx) \<and>
        (mc_websocket ctx \<longrightarrow>
           ws_live (st_ws st) (pv_id prov) now \<and> RouteIsNative prov r \<and>
           adapterSupportsResponsesWebSocket adp \<and> ProviderResponsesWebSocketEnabled prov) \<and>
        \<not> strict_reject env ctx prov adp)"

definition same_views ::
  "('c, 'k, 'g, 'r) router_env \<Rightarrow> go_time \<Rightarrow> ('c, 'k) router_state \<Rightarrow> ('c, 'k) router_state \<Rightarrow> bool"
where
  "same_views env now st st' \<longleftrightarrow>
     frozen_view (re_cooldown_ops env) now (st_manager st) =
       frozen_view (re_cooldown_ops env) now (st_manager st') \<and>
     (\<forall>p. ws_live (st_ws st) p now = ws_live (st_ws st') p now) \<and> st_sticky st = st_sticky st'"

definition verdict_on ::
  "('c, 'k, 'g, 'r) router_env \<Rightarrow> match_context \<Rightarrow> go_time \<Rightarrow> ('c, 'k) router_state \<Rightarrow> route \<Rightarrow> verdict"
where
  "verdict_on env ctx now st r = snd (consider_route env ctx now r st)"

lemma IsInCooldown_split:
  "IsInCooldown ops p c mo now m =
     (syncProviderGeneration ops p now m, frozen_view ops now m p c mo)"
  by (simp add: frozen_view_def IsInCooldown_def Let_def)

lemma ws_split:
  "ResponsesWebSocketTransportAvailable p now es =
     (fst (ResponsesWebSocketTransportAvailable p now es), ws_live es p now)"
  by (simp add: ws_available_live [symmetric])

lemma consider_same_views:
  assumes "lists_own (re_cooldown_ops env)"
  shows "same_views env now (fst (consider_route env ctx now r st)) st"
  using assms
  by (subst consider_route_def, subst ws_split)
    (simp add: same_views_def IsInCooldown_split frozen_view_sync ws_available_keeps Let_def
      split: option.split)

lemma verdict_same_views:
  assumes "same_views env now st st'"
  shows "verdict_on env ctx now st r = verdict_on env ctx now st' r"
proof -
  have "snd (consider_route env ctx now r st) = snd (consider_route env ctx now r st')"
    using assms unfolding same_views_def
    by (subst (1 2) consider_route_def, subst (1 2) ws_split)
      (simp add: IsInCooldown_split Let_def split: option.split)
  then show ?thesis by (simp add: verdict_on_def)
qed

lemma verdict_Keep: "(verdict_on env ctx now st r = Keep) = eligible env ctx now st r"
  unfolding verdict_on_def eligible_def
  by (subst consider_route_def, subst ws_split)
    (auto simp: IsInCooldown_split Let_def simp del: map_of_eq_Some_iff map_of_eq_None_iff
      split: option.split)

text \<open>The reasons behind the other verdicts, on the state itself.  A provider is busy when it is at its
  concurrency limit or in cooldown; it refuses the model when it could serve the request now but for
  its list of models.\<close>

definition provider_busy ::
  "('c, 'k, 'g, 'r) router_env \<Rightarrow> match_context \<Rightarrow> go_time \<Rightarrow> ('c, 'k) router_state \<Rightarrow> route \<Rightarrow> bool"
where
  "provider_busy env ctx now st r \<longleftrightarrow>
     (\<exists>prov. map_of (re_providers env) (rt_provider r) = Some prov \<and>
        (IsAtLimit (re_inflight env) (pv_id prov) (pv_max_concurrency prov) \<or>
         frozen_view (re_cooldown_ops env) now (st_manager st) (rt_provider r) (mc_client ctx)
           (mc_model ctx)))"

definition model_refused ::
  "('c, 'k, 'g, 'r) router_env \<Rightarrow> match_context \<Rightarrow> go_time \<Rightarrow> ('c, 'k) router_state \<Rightarrow> route \<Rightarrow> bool"
where
  "model_refused env ctx now st r \<longleftrightarrow> \<not> provider_busy env ctx now st r \<and>
     (\<exists>prov adp. map_of (re_providers env) (rt_provider r) = Some prov \<and>
        map_of (re_adapters env) (rt_provider r) = Some adp \<and>
        (mc_provider ctx = 0 \<or> pv_id prov = mc_provider ctx) \<and>
        strict_reject env ctx prov adp)"

lemma verdict_reasons:
  assumes "\<not> mc_websocket ctx"
  shows "verdict_on env ctx now st r = TransientSkip \<longleftrightarrow> provider_busy env ctx now st r"
    and "verdict_on env ctx now st r = ModelReject \<longleftrightarrow> model_refused env ctx now st r"
proof -
  note plain = consider_route_def [of env ctx now r st, unfolded IsInCooldown_split Let_def split_def]
  show "verdict_on env ctx now st r = TransientSkip \<longleftrightarrow> provider_busy env ctx now st r"
    using assms unfolding verdict_on_def provider_busy_def plain
    by (auto simp del: map_of_eq_Some_iff map_of_eq_None_iff split: option.split)
  show "verdict_on env ctx now st r = ModelReject \<longleftrightarrow> model_refused env ctx now st r"
    using assms unfolding verdict_on_def model_refused_def provider_busy_def plain
    by (auto simp del: map_of_eq_Some_iff map_of_eq_None_iff split: option.split)
qed

lemma match_loop_verdicts:
  assumes "lists_own (re_cooldown_ops env)" and "match_loop env ctx now rs st = (st', ms, vs)"
  shows "same_views env now st' st \<and> vs = map (verdict_on env ctx now st) rs \<and>
    ms = map (matched_of env ctx) (filter (eligible env ctx now st) rs)"
  using assms(2)
proof (induction rs arbitrary: st st' ms vs)
  case Nil
  then show ?case by (simp add: same_views_def)
next
  case (Cons r rs)
  obtain st1 v where v: "consider_route env ctx now r st = (st1, v)" by fastforce
  obtain ms' vs' where rest: "match_loop env ctx now rs st1 = (st', ms', vs')"
    "ms = (if v = Keep then matched_of env ctx r # ms' else ms')" "vs = v # vs'"
    using Cons.prems v by (auto simp: Let_def split: prod.splits)
  have views: "same_views env now st1 st" using consider_same_views [OF assms(1), of now ctx r st] v by simp
  have verdicts: "verdict_on env ctx now st1 = verdict_on env ctx now st"
    by (rule ext) (rule verdict_same_views [OF views])
  moreover have "eligible env ctx now st1 = eligible env ctx now st"
    by (rule ext) (simp only: verdict_Keep [symmetric] verdicts)
  ultimately show ?case
    using Cons.IH [OF rest(1)] rest(2,3) views v verdict_Keep [of env ctx now st r]
    by (auto simp: verdict_on_def same_views_def)
qed

end
