(* ===== verification/Router_Properties.thy ===== *)
theory Router_Properties
  imports Router_Views
begin

text \<open>
  What route matching promises: the routes returned are exactly the eligible routes in scope, each
  once, in the order of the strategy with the pinned provider first; and each error is reported
  exactly when its reason holds.
\<close>

section \<open>The environment's contract\<close>

definition env_ok :: "('c, 'k, 'g, 'r) router_env \<Rightarrow> bool" where
  "env_ok env \<longleftrightarrow>
     sorts_by rt_position (re_sort env) \<and> sorts_by (\<lambda>i. i) (re_sort_ids env) \<and>
     intn_ok (re_intn env) \<and> weight_sum (re_routes env) < 2 ^ 63 \<and>
     lists_own (re_cooldown_ops env)"

lemma weight_sum_filter: "weight_sum (filter P rs) \<le> weight_sum rs"
  using norm_weight_pos by (induction rs) (auto intro: add_mono order_trans, smt (verit))

lemma filterRoutes_filter: "\<exists>P. filterRoutes env ctx = filter P (re_routes env)"
  by (auto simp: filterRoutes_def Let_def)

lemma sortRoutes_perm:
  assumes "env_ok env"
  shows "\<exists>rs. sortRoutes env strategy seed (filterRoutes env ctx) = Some rs \<and>
    mset rs = mset (filterRoutes env ctx)"
proof (cases "rs_type strategy = RoutingStrategyWeightedRandom")
  case True
  obtain P where P: "filterRoutes env ctx = filter P (re_routes env)"
    using filterRoutes_filter by blast
  have "weight_sum (filterRoutes env ctx) < 2 ^ 63"
    using assms weight_sum_filter [of P "re_routes env"] unfolding P env_ok_def by linarith
  then show ?thesis
    using True weightedShuffle_Some [of "re_intn env"] assms by (simp add: sortRoutes_def env_ok_def)
next
  case False
  then show ?thesis using assms by (simp add: sortRoutes_def env_ok_def sorts_by_def)
qed

definition match_strategy :: "('c, 'k, 'g, 'r) router_env \<Rightarrow> match_context \<Rightarrow> routing_strategy" where
  "match_strategy env ctx = getRoutingStrategy env (mc_tenant ctx) (mc_project ctx)"

text \<open>The value of \<open>Match\<close>, with the candidate loop replaced by its result.\<close>

lemma Match_value:
  assumes "env_ok env"
  shows "\<exists>sorted st' pinned.
    mset sorted = mset (filterRoutes env ctx) \<and>
    sortRoutes env (match_strategy env ctx) (makeSessionSeed env ctx) (filterRoutes env ctx) =
      Some sorted \<and>
    (rs_type (match_strategy env ctx) \<noteq> RoutingStrategyWeightedRandom \<longrightarrow>
       sorted = re_sort env (filterRoutes env ctx)) \<and>
    (let kept = map (matched_of env ctx) (filter (eligible env ctx now st) sorted);
         sw = sticky_write_for env ctx (match_strategy env ctx) sorted
     in Match env ctx now st = Some (st',
          if filterRoutes env ctx = [] then
            Inl (if mc_websocket ctx then ErrNoResponsesWebSocketProviders else ErrNoRoutes)
          else if kept = [] then
            Inl (empty_error ctx (map (verdict_on env ctx now st) sorted))
          else Inr \<lparr> ms_routes = (case pinned of None \<Rightarrow> kept | Some p \<Rightarrow> promoteByProvider kept p),
                     ms_sticky = sw \<rparr>) \<and>
        (pinned = (case sw of None \<Rightarrow> None
           | Some w \<Rightarrow> snd (Manager_Get (re_sticky_ops env) (sw_key w) now (st_sticky st)))))"
proof -
  obtain rs where rs: "sortRoutes env (match_strategy env ctx) (makeSessionSeed env ctx)
      (filterRoutes env ctx) = Some rs" "mset rs = mset (filterRoutes env ctx)"
    using sortRoutes_perm [OF assms] by blast
  have prio: "rs_type (match_strategy env ctx) \<noteq> RoutingStrategyWeightedRandom \<longrightarrow>
      rs = re_sort env (filterRoutes env ctx)"
    using rs(1) by (auto simp: sortRoutes_def)
  obtain st1 ms vs where loop: "match_loop env ctx now rs st = (st1, ms, vs)"
    by (cases "match_loop env ctx now rs st") auto
  note loop_value = match_loop_verdicts [OF _ loop]
  have own: "lists_own (re_cooldown_ops env)" using assms by (simp add: env_ok_def)
  have sticky: "st_sticky st1 = st_sticky st" using loop_value [OF own] by (simp add: same_views_def)
  let ?sw = "sticky_write_for env ctx (match_strategy env ctx) rs"
  show ?thesis
  proof (cases "filterRoutes env ctx = []")
    case True
    then have "rs = []" using rs(2) by simp
    with True rs prio show ?thesis
      by (intro exI [of _ "[]"] exI [of _ st]) (auto simp: Match_def Let_def)
  next
    case False
    show ?thesis
      using rs prio False loop loop_value [OF own] sticky
      by (intro exI [of _ rs]) (auto simp: Match_def Let_def match_strategy_def split_def
          split: option.split)
  qed
qed

section \<open>Matching\<close>

lemma matched_of_route [simp]: "mr_route (matched_of env ctx r) = r"
  by (simp add: matched_of_def)

lemma match_outcome:
  assumes "env_ok env"
  shows "\<exists>st' res. Match env ctx now st = Some (st', res) \<and>
    (case res of
       Inl e \<Rightarrow> filter (eligible env ctx now st) (filterRoutes env ctx) = []
     | Inr r \<Rightarrow>
         mset (ms_routes r) =
           image_mset (matched_of env ctx)
             (mset (filter (eligible env ctx now st) (filterRoutes env ctx))) \<and>
         ms_routes r \<noteq> [])"
proof -
  obtain rs st' pinned where rs: "mset rs = mset (filterRoutes env ctx)"
    and m: "let kept = map (matched_of env ctx) (filter (eligible env ctx now st) rs);
         sw = sticky_write_for env ctx (match_strategy env ctx) rs
     in Match env ctx now st = Some (st',
          if filterRoutes env ctx = [] then
            Inl (if mc_websocket ctx then ErrNoResponsesWebSocketProviders else ErrNoRoutes)
          else if kept = [] then
            Inl (empty_error ctx (map (verdict_on env ctx now st) rs))
          else Inr \<lparr> ms_routes = (case pinned of None \<Rightarrow> kept | Some p \<Rightarrow> promoteByProvider kept p),
                     ms_sticky = sw \<rparr>) \<and>
        (pinned = (case sw of None \<Rightarrow> None
           | Some w \<Rightarrow> snd (Manager_Get (re_sticky_ops env) (sw_key w) now (st_sticky st))))"
    using Match_value [OF assms, of ctx now st] by blast
  let ?kept = "map (matched_of env ctx) (filter (eligible env ctx now st) rs)"
  have kept: "mset ?kept = image_mset (matched_of env ctx)
      (mset (filter (eligible env ctx now st) (filterRoutes env ctx)))"
    by (simp add: mset_filter rs)
  have empty: "(?kept = []) = (filter (eligible env ctx now st) (filterRoutes env ctx) = [])"
    using kept by (metis image_mset_is_empty_iff mset_zero_iff)
  have promote: "mset (case pinned of None \<Rightarrow> ?kept | Some p \<Rightarrow> promoteByProvider ?kept p) = mset ?kept"
    by (simp add: mset_promote split: option.split)
  then have nonempty: "(case pinned of None \<Rightarrow> ?kept | Some p \<Rightarrow> promoteByProvider ?kept p) = [] \<longleftrightarrow>
      ?kept = []"
    by (metis mset_zero_iff)
  show ?thesis
  proof (cases "?kept = []")
    case True
    then show ?thesis using m empty by (auto simp: Let_def)
  next
    case False
    then have "filterRoutes env ctx \<noteq> []" using empty by auto
    with False m show ?thesis
      using kept promote nonempty by (simp add: Let_def)
  qed
qed

text \<open>C27: a match never panics, and succeeds exactly when some route in scope is eligible: its
  provider is known, has an adapter, is below its concurrency limit, is not in cooldown for the
  client type and model, is the required one, can serve a WebSocket session when one is asked for,
  and does not reject the model under strict routing.  The routes returned are exactly the
  eligible ones, each as often as it is configured.\<close>

theorem match_exact:
  assumes "env_ok env"
  shows "\<exists>st' res. Match env ctx now st = Some (st', res) \<and>
    (case res of
       Inl e \<Rightarrow> filter (eligible env ctx now st) (filterRoutes env ctx) = []
     | Inr r \<Rightarrow>
         mset (ms_routes r) =
           image_mset (matched_of env ctx)
             (mset (filter (eligible env ctx now st) (filterRoutes env ctx))) \<and>
         ms_routes r \<noteq> [])"
  using assms by (rule match_outcome)

lemma match_succeeds:
  assumes "env_ok env" and "filter (eligible env ctx now st) (filterRoutes env ctx) \<noteq> []"
  shows "\<exists>st' r. Match env ctx now st = Some (st', Inr r)"
proof -
  obtain st' res where "Match env ctx now st = Some (st', res)" "\<not> (\<exists>e. res = Inl e)"
    using match_outcome [OF assms(1), of ctx now st] assms(2) by fastforce
  then show ?thesis by (cases res) auto
qed

lemma match_fails:
  assumes "env_ok env" and "filter (eligible env ctx now st) (filterRoutes env ctx) = []"
  shows "\<exists>st' e. Match env ctx now st = Some (st', Inl e)"
proof -
  have "image_mset (matched_of env ctx)
      (mset (filter (eligible env ctx now st) (filterRoutes env ctx))) = {#}"
    unfolding assms(2) by simp
  then obtain st' res where "Match env ctx now st = Some (st', res)" "\<not> (\<exists>r. res = Inr r)"
    using match_outcome [OF assms(1), of ctx now st] by fastforce
  then show ?thesis by (cases res) auto
qed

text \<open>Under the priority strategy (the default) the routes come back by position.\<close>

theorem match_priority_sorted:
  assumes "env_ok env" and "rs_type (match_strategy env ctx) \<noteq> RoutingStrategyWeightedRandom"
    and "Match env ctx now st = Some (st', Inr res)"
  shows "sorted (map (rt_position \<circ> mr_route) (ms_routes res))"
proof -
  obtain pinned where "ms_routes res = map (matched_of env ctx)
      (filter (eligible env ctx now st) (re_sort env (filterRoutes env ctx)))"
    using Match_value [OF assms(1), of ctx now st] assms(2,3)
    by (auto simp: Let_def sticky_write_for_def split: option.splits if_splits)
  moreover have "sorted (map rt_position (re_sort env (filterRoutes env ctx)))"
    using assms(1) by (simp add: env_ok_def sorts_by_def)
  ultimately show ?thesis by (simp add: comp_def sorted_filter)
qed

text \<open>C35: with sticky routing, when the session is bound to a provider that has an eligible route, the
  routes returned are those of the same match without the binding, in the same order, but for one:
  the first route of the bound provider comes before all others.\<close>

theorem match_sticky_first:
  assumes "env_ok env" and "Match env ctx now st = Some (st', Inr res)"
    and "ms_sticky res = Some w"
    and "snd (Manager_Get (re_sticky_ops env) (sw_key w) now (st_sticky st)) = Some p"
    and "r \<in> set (filterRoutes env ctx)" and "eligible env ctx now st r"
    and "pv_id (mr_provider (matched_of env ctx r)) = p"
    and "Match env ctx now (st \<lparr> st_sticky := k \<rparr>) = Some (st0, Inr res0)"
    and "snd (Manager_Get (re_sticky_ops env) (sw_key w) now k) = None"
  shows "\<exists>before mr after. ms_routes res0 = before @ mr # after \<and>
    ms_routes res = mr # before @ after \<and> pv_id (mr_provider mr) = p \<and>
    (\<forall>m \<in> set before. pv_id (mr_provider m) \<noteq> p)"
proof -
  have same: "eligible env ctx now (st \<lparr> st_sticky := k \<rparr>) = eligible env ctx now st"
    by (simp add: eligible_def fun_eq_iff)
  obtain rs where rs: "mset rs = mset (filterRoutes env ctx)"
    and order: "sortRoutes env (match_strategy env ctx) (makeSessionSeed env ctx) (filterRoutes env ctx) = Some rs"
    and routes: "ms_routes res = promoteByProvider
      (map (matched_of env ctx) (filter (eligible env ctx now st) rs)) p"
    and w: "sticky_write_for env ctx (match_strategy env ctx) rs = Some w"
    using Match_value [OF assms(1), of ctx now st] assms(2-4)
    by (auto simp: Let_def split: option.splits if_splits)
  have plain: "ms_routes res0 = map (matched_of env ctx) (filter (eligible env ctx now st) rs)"
    using Match_value [OF assms(1), of ctx now "st \<lparr> st_sticky := k \<rparr>"] assms(8,9) order w
    by (auto simp: Let_def same split: option.splits if_splits)
  have "r \<in> set rs" using rs assms(5) by (metis set_mset_mset)
  then have "matched_of env ctx r \<in>
      set (map (matched_of env ctx) (filter (eligible env ctx now st) rs))"
    using assms(6) by simp
  with assms(7) have "\<exists>mr \<in> set (ms_routes res0). pv_id (mr_provider mr) = p" unfolding plain by blast
  then show ?thesis using routes unfolding plain [symmetric] by (elim promote_split) metis
qed


section \<open>The WebSocket probe\<close>

definition ws_capable ::
  "('c, 'k, 'g, 'r) router_env \<Rightarrow> go_time \<Rightarrow> ws_cooldowns \<Rightarrow> route \<Rightarrow> bool" where
  "ws_capable env now ws r \<longleftrightarrow>
     (\<exists>prov adp. map_of (re_providers env) (rt_provider r) = Some prov \<and>
        map_of (re_adapters env) (rt_provider r) = Some adp \<and>
        \<not> IsAtLimit (re_inflight env) (pv_id prov) (pv_max_concurrency prov) \<and>
        RouteIsNative prov r \<and> adapterSupportsResponsesWebSocket adp \<and>
        ProviderResponsesWebSocketEnabled prov \<and> ws_live ws (pv_id prov) now)"

lemma probe_loop_capable: "snd (probe_loop env now rs ws) = (\<exists>r \<in> set rs. ws_capable env now ws r)"
proof (induction rs arbitrary: ws)
  case (Cons r rs)
  have keep: "ws_capable env now (fst (ResponsesWebSocketTransportAvailable p now ws)) =
      ws_capable env now ws" for p
    by (simp add: ws_capable_def fun_eq_iff ws_available_keeps)
  show ?case
  proof (cases "map_of (re_providers env) (rt_provider r)")
    case None
    then show ?thesis by (simp add: Cons.IH ws_capable_def [of env now ws r])
  next
    case (Some prov)
    obtain ws' where ws': "ResponsesWebSocketTransportAvailable (pv_id prov) now ws =
        (ws', ws_live ws (pv_id prov) now)"
      using ws_split by blast
    then have same: "ws_capable env now ws' = ws_capable env now ws"
      using keep [of "pv_id prov"] by simp
    show ?thesis
      by (cases "map_of (re_adapters env) (rt_provider r)")
        (auto simp: Some ws' Cons.IH same Let_def ws_capable_def [of env now ws r]
          simp del: map_of_eq_Some_iff map_of_eq_None_iff)
  qed
qed simp

lemma codex_context_sel [simp]:
  "mc_tenant (codex_context t p) = t" "mc_project (codex_context t p) = p"
  "mc_client (codex_context t p) = ClientTypeCodex"
  by (simp_all add: codex_context_def)

lemma filterRoutes_context:
  assumes "mc_tenant c = mc_tenant c'" "mc_project c = mc_project c'" "mc_client c = mc_client c'"
  shows "filterRoutes env c = filterRoutes env c'"
proof -
  have routes: "route_in c = route_in c'" by (simp add: route_in_def fun_eq_iff assms)
  have project: "useProjectRoutes env c = useProjectRoutes env c'"
    unfolding useProjectRoutes_def assms ..
  show ?thesis unfolding filterRoutes_def assms routes project ..
qed

text \<open>The WebSocket probe has no false negatives: whenever a Codex WebSocket request for that
  tenant and project would be matched, whatever its model, token or session, the probe says so.\<close>

theorem probe_complete:
  assumes "env_ok env" and "mc_client ctx = ClientTypeCodex" and "mc_websocket ctx"
    and "Match env ctx now st = Some (st', Inr res)"
  shows "snd (HasResponsesWebSocketProvider env (mc_tenant ctx) (mc_project ctx) now (st_ws st))"
proof -
  have scope: "filterRoutes env (codex_context (mc_tenant ctx) (mc_project ctx)) = filterRoutes env ctx"
    by (rule filterRoutes_context) (simp_all add: assms(2))
  have "filter (eligible env ctx now st) (filterRoutes env ctx) \<noteq> []"
    using match_fails [OF assms(1), of ctx now st] assms(4) by auto
  then obtain r where "r \<in> set (filterRoutes env ctx)" "eligible env ctx now st r"
    by (auto simp: filter_empty_conv)
  moreover from this(2) have "ws_capable env now (st_ws st) r"
    using assms(3) by (auto simp: eligible_def ws_capable_def simp del: map_of_eq_Some_iff)
  ultimately show ?thesis
    unfolding HasResponsesWebSocketProvider_def scope probe_loop_capable by blast
qed

section \<open>A concrete router\<close>

definition sample_env :: "(memory_store, sticky_memory, unit, unit) router_env" where
  "sample_env =
     \<lparr> re_routes = [mk_route 1 10 2 3, mk_route 2 20 1 5],
       re_projects = (\<lambda>_ _. None), re_strategy = (\<lambda>_ _. None),
       re_default_retry = (\<lambda>_. None), re_retry = (\<lambda>_ _. None),
       re_providers =
         [(10, \<lparr> pv_id = 10, pv_type = ''claude'', pv_name = ''p'', pv_config = None, pv_client_types = [],
                 pv_support_models = [], pv_max_concurrency = 0 \<rparr>),
          (20, \<lparr> pv_id = 20, pv_type = ''claude'', pv_name = ''p'', pv_config = None, pv_client_types = [],
                 pv_support_models = [], pv_max_concurrency = 1 \<rparr>)],
       re_adapters =
         [(10, \<lparr> ad_client_types = [ClientTypeClaude], ad_websocket = False \<rparr>),
          (20, \<lparr> ad_client_types = [ClientTypeClaude], ad_websocket = False \<rparr>)],
       re_inflight = [], re_strict = False,
       re_cooldown_ops = memory_ops, re_sticky_ops = sticky_memory_ops,
       re_sort = sort_key rt_position, re_sort_ids = sort_key (\<lambda>i. i),
       re_rng = (\<lambda>_. ()), re_intn = (\<lambda>_ g. (g, 0)),
       re_sha = (\<lambda>s. s), re_hmac = (\<lambda>s. s) \<rparr>"

definition sample_state :: "(memory_store, sticky_memory) router_state" where
  "sample_state = \<lparr> st_manager = NewManager, st_ws = [], st_sticky = None \<rparr>"

definition claude_context :: match_context where
  "claude_context = (codex_context 1 0) \<lparr> mc_client := ClientTypeClaude, mc_websocket := False,
     mc_token := 5 \<rparr>"

lemma sample_env_ok: "env_ok sample_env"
  by (simp add: env_ok_def sample_env_def sorts_by_sort_key intn_ok_def memory_lists_own
      norm_weight_def mk_route_def)

lemma sample_scope:
  "filterRoutes sample_env claude_context = [mk_route 1 10 2 3, mk_route 2 20 1 5]"
  by (simp add: filterRoutes_def useProjectRoutes_def sample_env_def claude_context_def
      codex_context_def route_in_def mk_route_def Let_def)

lemma sample_eligible:
  "eligible sample_env claude_context 0 sample_state (mk_route 1 10 2 3)"
  "eligible sample_env claude_context 0 sample_state (mk_route 2 20 1 5)"
  by (simp_all add: eligible_def sample_env_def claude_context_def codex_context_def mk_route_def
      IsAtLimit_def inflight_of_def lookup_default_def frozen_view_def IsInCooldown_def
      syncProviderGeneration_def sample_state_def NewManager_def in_cooldown_iff frozen_at_def
      strict_reject_def Let_def)

lemma match_exact_witness:
  "\<exists>st' r. Match sample_env claude_context 0 sample_state = Some (st', Inr r) \<and>
     length (ms_routes r) = 2"
proof -
  obtain st' res where m: "Match sample_env claude_context 0 sample_state = Some (st', res)"
    "case res of
       Inl e \<Rightarrow> filter (eligible sample_env claude_context 0 sample_state)
         (filterRoutes sample_env claude_context) = []
     | Inr r \<Rightarrow> mset (ms_routes r) = image_mset (matched_of sample_env claude_context)
         (mset (filter (eligible sample_env claude_context 0 sample_state)
            (filterRoutes sample_env claude_context))) \<and> ms_routes r \<noteq> []"
    using match_exact [OF sample_env_ok, of claude_context 0 sample_state] by blast
  then show ?thesis
    by (cases res) (auto simp: sample_scope sample_eligible dest: arg_cong [where f = size])
qed

lemma sample_match: "\<exists>st' r. Match sample_env claude_context 0 sample_state = Some (st', Inr r)"
  by (rule match_succeeds [OF sample_env_ok]) (simp add: sample_scope sample_eligible)

lemma match_priority_sorted_witness:
  "\<exists>st' r. Match sample_env claude_context 0 sample_state = Some (st', Inr r) \<and>
     sorted (map (rt_position \<circ> mr_route) (ms_routes r))"
proof -
  have "rs_type (match_strategy sample_env claude_context) \<noteq> RoutingStrategyWeightedRandom"
    by (simp add: match_strategy_def getRoutingStrategy_def sample_env_def
        RoutingStrategyPriority_def RoutingStrategyWeightedRandom_def)
  then show ?thesis using sample_match match_priority_sorted [OF sample_env_ok] by blast
qed








text \<open>A Codex route over WebSocket.\<close>

definition codex_env :: "(memory_store, sticky_memory, unit, unit) router_env" where
  "codex_env = sample_env
     \<lparr> re_routes := [(mk_route 1 10 2 3) \<lparr> rt_client := ClientTypeCodex \<rparr>],
       re_providers :=
         [(10, \<lparr> pv_id = 10, pv_type = ''codex'', pv_name = ''p'', pv_config = None, pv_client_types = [],
                 pv_support_models = [], pv_max_concurrency = 0 \<rparr>)],
       re_adapters := [(10, \<lparr> ad_client_types = [ClientTypeCodex], ad_websocket = True \<rparr>)] \<rparr>"

lemma codex_env_ok: "env_ok codex_env"
  using sample_env_ok by (simp add: env_ok_def codex_env_def norm_weight_def mk_route_def)

lemma codex_eligible:
  "filter (eligible codex_env (codex_context 1 0) 0 sample_state)
     (filterRoutes codex_env (codex_context 1 0)) \<noteq> []"
  by (simp add: eligible_def codex_env_def sample_env_def codex_context_def mk_route_def
      filterRoutes_def useProjectRoutes_def route_in_def Let_def
      IsAtLimit_def inflight_of_def lookup_default_def frozen_view_def IsInCooldown_def
      syncProviderGeneration_def sample_state_def NewManager_def in_cooldown_iff frozen_at_def
      strict_reject_def ws_live_def RouteIsNative_def ProviderNativelySupports_def
      CanonicalSupportedClientTypes_def adapterSupportsResponsesWebSocket_def
      adapterSupportsClientType_def ProviderResponsesWebSocketEnabled_def)

lemma probe_complete_witness:
  "snd (HasResponsesWebSocketProvider codex_env 1 0 0 [])"
proof -
  obtain st' r where m: "Match codex_env (codex_context 1 0) 0 sample_state = Some (st', Inr r)"
    using match_succeeds [OF codex_env_ok codex_eligible] by blast
  have "mc_websocket (codex_context 1 0)" by (simp add: codex_context_def)
  from probe_complete [OF codex_env_ok _ this m] show ?thesis by (simp add: sample_state_def)
qed

text \<open>The probe does not consult the cooldown manager, the match does: with the only capable provider
  in cooldown the probe still answers yes and the match refuses.\<close>

lemma probe_false_positive:
  "let st = sample_state \<lparr> st_manager := NewManager \<lparr> m_cooldowns := [(ckey 10 '''' '''', 99)] \<rparr> \<rparr>
   in snd (HasResponsesWebSocketProvider codex_env 1 0 0 (st_ws st)) \<and>
      (\<exists>st'. Match codex_env (codex_context 1 0) 0 st =
         Some (st', Inl ErrNoResponsesWebSocketProviders))"
proof -
  let ?st = "sample_state \<lparr> st_manager := NewManager \<lparr> m_cooldowns := [(ckey 10 '''' '''', 99)] \<rparr> \<rparr>"
  have probe: "snd (HasResponsesWebSocketProvider codex_env 1 0 0 (st_ws ?st))"
    by (simp add: HasResponsesWebSocketProvider_def codex_env_def sample_env_def codex_context_def
        filterRoutes_def useProjectRoutes_def route_in_def Let_def mk_route_def IsAtLimit_def
        RouteIsNative_def ProviderNativelySupports_def CanonicalSupportedClientTypes_def
        adapterSupportsResponsesWebSocket_def adapterSupportsClientType_def sample_state_def
        ProviderResponsesWebSocketEnabled_def ResponsesWebSocketTransportAvailable_def)
  have "filter (eligible codex_env (codex_context 1 0) 0 ?st)
     (filterRoutes codex_env (codex_context 1 0)) = []"
    by (simp add: eligible_def codex_env_def sample_env_def codex_context_def mk_route_def
        filterRoutes_def useProjectRoutes_def route_in_def Let_def frozen_view_def
        IsInCooldown_def syncProviderGeneration_def sample_state_def NewManager_def
        in_cooldown_iff frozen_at_def)
  then obtain st' e where "Match codex_env (codex_context 1 0) 0 ?st = Some (st', Inl e)"
    using match_fails [OF codex_env_ok, of "codex_context 1 0" 0 ?st] by blast
  moreover from this have "e = ErrNoResponsesWebSocketProviders"
    using Match_value [OF codex_env_ok, of "codex_context 1 0" 0 ?st]
    by (auto simp: Let_def empty_error_def codex_context_def split: if_splits)
  ultimately show ?thesis using probe by (simp add: Let_def)
qed

text \<open>The same router under sticky weighted routing, the session bound to provider 20.\<close>

definition sticky_strategy :: routing_strategy where
  "sticky_strategy = \<lparr> rs_type = RoutingStrategyWeightedRandom,
     rs_config = Some \<lparr> sc_enabled = True, sc_scope = '''', sc_ttl_seconds = 0 \<rparr> \<rparr>"

definition sticky_env :: "(memory_store, sticky_memory, unit, unit) router_env" where
  "sticky_env = sample_env \<lparr> re_strategy := (\<lambda>_ _. Some sticky_strategy) \<rparr>"

definition sticky_binding :: sticky_write where
  "sticky_binding =
     the (sticky_write_for sticky_env claude_context sticky_strategy
       [mk_route 1 10 2 3, mk_route 2 20 1 5])"

definition sticky_state :: "(memory_store, sticky_memory) router_state" where
  "sticky_state = sample_state
     \<lparr> st_sticky := Some [(sw_key sticky_binding, \<lparr> me_provider = 20, me_expires = 99 \<rparr>)] \<rparr>"

lemma sticky_env_ok: "env_ok sticky_env"
  using sample_env_ok by (simp add: env_ok_def sticky_env_def)

lemma sticky_scope: "filterRoutes sticky_env claude_context = [mk_route 1 10 2 3, mk_route 2 20 1 5]"
  by (simp add: filterRoutes_def useProjectRoutes_def sticky_env_def sample_env_def
      claude_context_def codex_context_def route_in_def mk_route_def Let_def)

lemma sticky_eligible: "eligible sticky_env claude_context 0 sticky_state = eligible sample_env claude_context 0 sample_state"
  by (simp add: fun_eq_iff eligible_def sticky_env_def sticky_state_def strict_reject_def)

lemma mset_two: "mset rs = {#a, b#} \<Longrightarrow> rs = [a, b] \<or> rs = [b, a]"
proof -
  assume m: "mset rs = {#a, b#}"
  then have "length rs = 2" by (metis size_mset size_add_mset size_empty One_nat_def Suc_1)
  then obtain x y where "rs = [x, y]" by (auto simp: numeral_2_eq_2 length_Suc_conv)
  with m show ?thesis by (auto simp: add_eq_conv_ex)
qed

lemma sticky_write_fixed:
  "mset rs = mset [mk_route 1 10 2 3, mk_route 2 20 1 5] \<Longrightarrow>
   sticky_write_for sticky_env claude_context sticky_strategy rs = Some sticky_binding"
proof -
  assume "mset rs = mset [mk_route 1 10 2 3, mk_route 2 20 1 5]"
  then have "rs = [mk_route 1 10 2 3, mk_route 2 20 1 5] \<or>
      rs = [mk_route 2 20 1 5, mk_route 1 10 2 3]"
    by (intro mset_two) simp
  moreover have "\<not> (2::u64) \<le> 1" by (simp add: word_le_nat_alt)
  ultimately have "policyInput (sort_key (\<lambda>i. i)) rs =
      policyInput (sort_key (\<lambda>i. i)) [mk_route 1 10 2 3, mk_route 2 20 1 5]"
    by (auto simp: policyInput_def mk_route_def Let_def)
  then have "policyFingerprint sticky_env rs =
      policyFingerprint sticky_env [mk_route 1 10 2 3, mk_route 2 20 1 5]"
    by (simp add: policyFingerprint_def sticky_env_def sample_env_def)
  then show ?thesis
    by (simp add: sticky_binding_def sticky_write_for_def sticky_strategy_def claude_context_def
        codex_context_def)
qed

lemma unbound_match:
  "\<exists>st0 r0. Match sticky_env claude_context 0 (sticky_state \<lparr> st_sticky := Some [] \<rparr>) = Some (st0, Inr r0)"
proof -
  have "eligible sticky_env claude_context 0 (sticky_state \<lparr> st_sticky := Some [] \<rparr>) =
      eligible sticky_env claude_context 0 sticky_state"
    by (simp add: eligible_def fun_eq_iff)
  then show ?thesis
    using match_succeeds [OF sticky_env_ok, of claude_context 0 "sticky_state \<lparr> st_sticky := Some [] \<rparr>"]
    by (auto simp: sticky_scope sticky_eligible sample_eligible)
qed

lemma match_sticky_first_witness:
  "\<exists>st' r. Match sticky_env claude_context 0 sticky_state = Some (st', Inr r) \<and>
     pv_id (mr_provider (hd (ms_routes r))) = 20"
proof -
  obtain st' r where m: "Match sticky_env claude_context 0 sticky_state = Some (st', Inr r)"
    using match_succeeds [OF sticky_env_ok, of claude_context 0 sticky_state]
    by (auto simp: sticky_scope sticky_eligible sample_eligible)
  have strat: "match_strategy sticky_env claude_context = sticky_strategy"
    by (simp add: match_strategy_def getRoutingStrategy_def sticky_env_def)
  have w: "ms_sticky r = Some sticky_binding"
    using Match_value [OF sticky_env_ok, of claude_context 0 sticky_state] m sticky_write_fixed
    by (auto simp: Let_def strat sticky_scope split: if_splits)
  have get: "snd (Manager_Get (re_sticky_ops sticky_env) (sw_key sticky_binding) 0
      (st_sticky sticky_state)) = Some 20"
    by (simp add: Manager_Get_def sticky_env_def sample_env_def sticky_memory_ops_def sm_Get_def
        sticky_state_def)
  have free: "snd (Manager_Get (re_sticky_ops sticky_env) (sw_key sticky_binding) 0 (Some [])) = None"
    by (simp add: Manager_Get_def sticky_env_def sample_env_def sticky_memory_ops_def sm_Get_def)
  have prov: "pv_id (mr_provider (matched_of sticky_env claude_context (mk_route 2 20 1 5))) = 20"
    by (simp add: matched_of_def sticky_env_def sample_env_def mk_route_def)
  have r: "mk_route 2 20 1 5 \<in> set (filterRoutes sticky_env claude_context)"
    "eligible sticky_env claude_context 0 sticky_state (mk_route 2 20 1 5)"
    by (simp_all add: sticky_scope sticky_eligible sample_eligible)
  obtain st0 r0 where m0: "Match sticky_env claude_context 0 (sticky_state \<lparr> st_sticky := Some [] \<rparr>) =
      Some (st0, Inr r0)" using unbound_match by blast
  have "pv_id (mr_provider (hd (ms_routes r))) = 20"
    using match_sticky_first [OF sticky_env_ok m w get r prov m0 free] by auto
  with m show ?thesis by blast
qed

end
