(* ===== verification/Grouping.thy ===== *)
theory Grouping
  imports Prelude
begin

text \<open>
  Grouping a list into a Go map by key: the loop that all aggregation functions of
  \<^verbatim>\<open>internal/stats/pure.go\<close> run.  The first element with a key makes the entry, every later one
  is added to it.  The locale states what the entry maker and the adder have to satisfy, in terms
  of numbered counters that wrap at 64 bits, and gives the contents of the map.
\<close>

definition collect_step ::
  "('a \<Rightarrow> 'k) \<Rightarrow> ('a \<Rightarrow> 's) \<Rightarrow> ('s \<Rightarrow> 'a \<Rightarrow> 's) \<Rightarrow> 'a \<Rightarrow> ('k \<times> 's) list \<Rightarrow> ('k \<times> 's) list" where
  "collect_step key mk add x m =
     (case map_of m (key x) of
        Some existing \<Rightarrow> AList.update (key x) (add existing x) m
      | None \<Rightarrow> AList.update (key x) (mk x) m)"

definition collect ::
  "('a \<Rightarrow> 'k) \<Rightarrow> ('a \<Rightarrow> 's) \<Rightarrow> ('s \<Rightarrow> 'a \<Rightarrow> 's) \<Rightarrow> 'a list \<Rightarrow> ('k \<times> 's) list" where
  "collect key mk add xs = fold (collect_step key mk add) xs []"

text \<open>The entry a key should have: built from the first element with the key, with the sums of all
  of them.\<close>

definition group_sum :: "('a \<Rightarrow> 'k) \<Rightarrow> ('a \<Rightarrow> u64) \<Rightarrow> 'a list \<Rightarrow> 'k \<Rightarrow> u64" where
  "group_sum key w xs k = (\<Sum>x \<leftarrow> filter (\<lambda>x. key x = k) xs. w x)"

definition group_entry ::
  "('a \<Rightarrow> 'k) \<Rightarrow> ('a \<Rightarrow> ('c \<Rightarrow> u64) \<Rightarrow> 's) \<Rightarrow> ('c \<Rightarrow> 'a \<Rightarrow> u64) \<Rightarrow> 'a list \<Rightarrow> 'k \<Rightarrow> 's option" where
  "group_entry key build w xs k =
     map_option (\<lambda>x. build x (\<lambda>c. group_sum key (w c) xs k)) (find (\<lambda>x. key x = k) xs)"

lemma find_snoc:
  "find P (xs @ [x]) = (case find P xs of None \<Rightarrow> if P x then Some x else None | Some y \<Rightarrow> Some y)"
  by (induction xs) auto

lemma group_sum_snoc:
  "group_sum key w (xs @ [x]) k = group_sum key w xs k + (if key x = k then w x else 0)"
  by (simp add: group_sum_def)

lemma group_sum_none: "find (\<lambda>x. key x = k) xs = None \<Longrightarrow> group_sum key w xs k = 0"
  by (induction xs) (auto simp: group_sum_def split: if_splits)

lemma collect_snoc:
  "collect key mk add (xs @ [x]) = collect_step key mk add x (collect key mk add xs)"
  by (simp add: collect_def)

lemma wf_collect [simp]: "wf_map (collect key mk add xs)"
  by (induction xs rule: rev_induct)
    (auto simp: collect_snoc collect_step_def collect_def intro: wf_intros
      simp del: map_of_eq_Some_iff map_of_eq_None_iff split: option.split)

lemma collect_keys: "fst ` set (collect key mk add xs) = key ` set xs"
proof (induction xs rule: rev_induct)
  case (snoc x xs)
  then show ?case
    by (auto simp: collect_snoc collect_step_def dom_update [unfolded dom_map_of_conv_image_fst]
        split: option.split)
qed (simp add: collect_def)

text \<open>Sums over a map after one write.\<close>

lemma sum_update_new:
  "map_of m k = None \<Longrightarrow>
   (\<Sum>e \<leftarrow> AList.update k v m. f (fst e) (snd e)) =
     (\<Sum>e \<leftarrow> m. f (fst e) (snd e)) + (f k v :: u64)"
  by (induction m) (auto simp: ac_simps split: if_splits)

lemma sum_update_old:
  "map_of m k = Some e0 \<Longrightarrow> f k v = f k e0 + d \<Longrightarrow>
   (\<Sum>e \<leftarrow> AList.update k v m. f (fst e) (snd e)) =
     (\<Sum>e \<leftarrow> m. f (fst e) (snd e)) + (d :: u64)"
  by (induction m) (auto simp: ac_simps split: if_splits)

locale grouping =
  fixes key :: "'a \<Rightarrow> 'k" and mk :: "'a \<Rightarrow> 's" and add :: "'s \<Rightarrow> 'a \<Rightarrow> 's"
    and build :: "'a \<Rightarrow> ('c \<Rightarrow> u64) \<Rightarrow> 's" and w :: "'c \<Rightarrow> 'a \<Rightarrow> u64"
    and val :: "'c \<Rightarrow> 's \<Rightarrow> u64"
  assumes mk_build: "mk x = build x (\<lambda>c. w c x)"
    and add_build: "add (build x f) y = build x (\<lambda>c. f c + w c y)"
    and val_build: "val c (build x f) = f c"
begin

lemma val_mk: "val c (mk x) = w c x"
  by (simp add: mk_build val_build)

lemma collect_entry:
  "map_of (collect key mk add xs) k = group_entry key build w xs k"
proof (induction xs arbitrary: k rule: rev_induct)
  case (snoc x xs)
  show ?case
  proof (cases "find (\<lambda>y. key y = key x) xs")
    case None
    then have "map_of (collect key mk add xs) (key x) = None"
      unfolding snoc group_entry_def by simp
    with None snoc [of k] show ?thesis
      by (auto simp: collect_snoc collect_step_def group_entry_def find_snoc group_sum_snoc go_map
          mk_build group_sum_none simp del: map_of_eq_Some_iff map_of_eq_None_iff
          split: option.split)
  next
    case (Some y)
    then have "map_of (collect key mk add xs) (key x) =
        Some (build y (\<lambda>c. group_sum key (w c) xs (key x)))"
      unfolding snoc group_entry_def by simp
    with Some snoc [of k] show ?thesis
      by (auto simp: collect_snoc collect_step_def group_entry_def find_snoc group_sum_snoc go_map
          add_build simp del: map_of_eq_Some_iff map_of_eq_None_iff split: option.split)
  qed
qed (simp add: collect_def group_entry_def)

text \<open>Nothing is lost and nothing is counted twice.\<close>

lemma collect_total_if:
  "(\<Sum>e \<leftarrow> collect key mk add xs. if P (fst e) then val c (snd e) else 0) =
   (\<Sum>x \<leftarrow> xs. if P (key x) then w c x else 0)"
proof (induction xs rule: rev_induct)
  case (snoc x xs)
  let ?f = "\<lambda>k s. if P k then val c s else 0"
  show ?case
  proof (cases "map_of (collect key mk add xs) (key x)")
    case None
    then show ?thesis
      using sum_update_new [OF None, where f = ?f] snoc
      by (simp add: collect_snoc collect_step_def val_mk del: map_of_eq_Some_iff map_of_eq_None_iff)
  next
    case (Some e)
    then obtain y f where "e = build y f" unfolding collect_entry group_entry_def by auto
    then have "?f (key x) (add e x) = ?f (key x) e + (if P (key x) then w c x else 0)"
      by (simp add: add_build val_build)
    then show ?thesis
      using sum_update_old [OF Some, where f = ?f] snoc Some
      by (simp add: collect_snoc collect_step_def del: map_of_eq_Some_iff map_of_eq_None_iff)
  qed
qed (simp add: collect_def)

lemma collect_total:
  "(\<Sum>s \<leftarrow> map snd (collect key mk add xs). val c s) = (\<Sum>x \<leftarrow> xs. w c x)"
  using collect_total_if [where P = "\<lambda>_. True" and c = c and xs = xs] by (simp add: comp_def)

end

text \<open>When the key can be read off an entry, the list of entries determines the map.\<close>

locale keyed_grouping = grouping +
  fixes dim
  assumes dim_build: "dim (build x f) = key x"
begin

lemma collect_dim: "e \<in> set (collect key mk add xs) \<Longrightarrow> dim (snd e) = fst e"
proof -
  assume "e \<in> set (collect key mk add xs)"
  then have "map_of (collect key mk add xs) (fst e) = Some (snd e)" by simp
  then obtain x f where "snd e = build x f" "key x = fst e"
    unfolding collect_entry group_entry_def by (auto simp: find_Some_iff) metis
  then show ?thesis by (simp add: dim_build)
qed

lemma rows_keyed:
  "map (\<lambda>s. (dim s, s)) (map snd (collect key mk add xs)) = collect key mk add xs"
  by (rule nth_equalityI) (auto simp: collect_dim dest: nth_mem)

lemma rows_entry:
  "map_of (map (\<lambda>s. (dim s, s)) (map snd (collect key mk add xs))) k =
     group_entry key build w xs k"
  unfolding rows_keyed by (rule collect_entry)

lemma rows_distinct: "distinct (map dim (map snd (collect key mk add xs)))"
proof -
  have "map dim (map snd (collect key mk add xs)) = map fst (collect key mk add xs)"
    by (simp add: collect_dim)
  then show ?thesis by (simp only: wf_collect)
qed

lemma rows_filter_sum:
  "(\<Sum>s \<leftarrow> filter (\<lambda>s. P (dim s)) (map snd (collect key mk add xs)). val c s) =
   (\<Sum>x \<leftarrow> filter (\<lambda>x. P (key x)) xs. w c x)"
proof -
  have "(\<Sum>s \<leftarrow> map snd (collect key mk add xs). if P (dim s) then val c s else 0) =
      (\<Sum>e \<leftarrow> collect key mk add xs. if P (fst e) then val c (snd e) else 0)"
    by (simp add: comp_def collect_dim cong: map_cong)
  then show ?thesis
    by (simp only: sum_list_map_filter' collect_total_if)
qed

end

end
