(* ===== verification/Go_Calendar.thy ===== *)
theory Go_Calendar
  imports Prelude
begin

text \<open>
  The parts of \<^verbatim>\<open>time.Time\<close> and \<^verbatim>\<open>time.Location\<close> that the statistics use.  A location is the offset
  from UTC, in seconds, in force at each Unix second: the time-zone database is outside the
  sources, so it is an argument.
\<close>

type_synonym location = "int \<Rightarrow> int"

definition millisecond :: int where "millisecond = 1000000"

definition UnixMilli :: "go_time \<Rightarrow> int" where "UnixMilli t = t div millisecond"

definition from_UnixMilli :: "int \<Rightarrow> go_time" where "from_UnixMilli ms = ms * millisecond"

text \<open>\<open>Time.Truncate\<close> rounds down to a multiple of the duration since the zero time, whatever the
  location; for a minute and an hour these are the multiples since the epoch.\<close>

definition Truncate :: "go_duration \<Rightarrow> go_time \<Rightarrow> go_time" where
  "Truncate d t = t - (t - zero_time) mod d"

definition unix_sec :: "go_time \<Rightarrow> int" where "unix_sec t = t div second"

definition local_sec :: "location \<Rightarrow> go_time \<Rightarrow> int" where
  "local_sec loc t = unix_sec t + loc (unix_sec t)"

definition day_secs :: int where "day_secs = 86400"

definition local_day :: "location \<Rightarrow> go_time \<Rightarrow> int" where
  "local_day loc t = local_sec loc t div day_secs"

text \<open>\<open>time.Date\<close> with hour 0: the offset in force at the local reading taken as UTC is a first
  guess, corrected once.\<close>

definition date_unix :: "location \<Rightarrow> int \<Rightarrow> int" where
  "date_unix loc unix =
     (let offset = loc unix
      in if offset \<noteq> 0 then unix - loc (unix - offset) else unix)"

definition midnight :: "location \<Rightarrow> int \<Rightarrow> go_time" where
  "midnight loc day = date_unix loc (day * day_secs) * second"

section \<open>The proleptic Gregorian calendar\<close>

text \<open>Days are counted from the epoch.  The calendar starts its years in March, in cycles of 400
  years of 146097 days.\<close>

record civil =
  cv_year :: int
  cv_month :: int
  cv_day :: int

definition civil_of_day :: "int \<Rightarrow> civil" where
  "civil_of_day day =
     (let z = day + 719468;
          era = z div 146097;
          doe = z mod 146097;
          yoe = (doe - doe div 1460 + doe div 36524 - doe div 146096) div 365;
          doy = doe - (365 * yoe + yoe div 4 - yoe div 100);
          mp = (5 * doy + 2) div 153;
          month = (if mp < 10 then mp + 3 else mp - 9)
      in \<lparr> cv_year = yoe + era * 400 + (if month \<le> 2 then 1 else 0), cv_month = month,
           cv_day = doy - (153 * mp + 2) div 5 + 1 \<rparr>)"

lemma civil_epoch: "civil_of_day 0 = \<lparr> cv_year = 1970, cv_month = 1, cv_day = 1 \<rparr>"
  by code_simp

lemma civil_leap_day: "civil_of_day 19782 = \<lparr> cv_year = 2024, cv_month = 2, cv_day = 29 \<rparr>"
  by code_simp

text \<open>The first of the month of a day.\<close>

definition month_start :: "int \<Rightarrow> int" where
  "month_start day = day - (cv_day (civil_of_day day) - 1)"

section \<open>Formats\<close>

definition pad2 :: "int \<Rightarrow> string" where
  "pad2 n = [digit (nat (n div 10)), digit (nat (n mod 10))]"

definition pad4 :: "int \<Rightarrow> string" where
  "pad4 n = pad2 (n div 100) @ pad2 (n mod 100)"

text \<open>Layout \<^verbatim>\<open>2006-01-02\<close> for a year of four digits, and layout \<^verbatim>\<open>15:04\<close>.\<close>

definition format_date :: "location \<Rightarrow> go_time \<Rightarrow> string" where
  "format_date loc t =
     (let c = civil_of_day (local_day loc t)
      in pad4 (cv_year c) @ ''-'' @ pad2 (cv_month c) @ ''-'' @ pad2 (cv_day c))"

definition format_hour :: "location \<Rightarrow> go_time \<Rightarrow> string" where
  "format_hour loc t =
     (let s = local_sec loc t mod day_secs
      in pad2 (s div 3600) @ '':'' @ pad2 (s mod 3600 div 60))"

section \<open>Facts\<close>

lemmas time_defs = duration_units millisecond_def day_secs_def zero_time_def

lemma mod_minus_multiple: "z mod d = 0 \<Longrightarrow> (t - z) mod d = t mod (d :: int)"
  by (metis diff_zero mod_diff_right_eq)

lemma zero_time_aligned: "zero_time mod minute = 0" "zero_time mod hour = 0"
  by (simp_all add: time_defs)

lemma Truncate_minute: "Truncate minute t = t - t mod minute"
  and Truncate_hour: "Truncate hour t = t - t mod hour"
  by (simp_all add: Truncate_def mod_minus_multiple zero_time_aligned)

lemma from_UnixMilli_inverse [simp]: "UnixMilli (from_UnixMilli ms) = ms"
  by (simp add: UnixMilli_def from_UnixMilli_def millisecond_def)

end
