(* ===== verification/Usage_Stats.thy ===== *)
theory Usage_Stats
  imports Grouping Go_Calendar "HOL-Library.List_Lexorder" "HOL-Library.Char_ord"
    "HOL-Library.Product_Lexorder"
begin

text \<open>
  The statistics functions of \<^verbatim>\<open>internal/stats/pure.go\<close>: minute aggregation of attempts, roll-up to
  coarser buckets, merging, and the dashboard summaries.  Counters are 64-bit words and wrap.
  The floating-point success rates are left out.
\<close>

section \<open>Data\<close>

definition GranularityMinute :: string where "GranularityMinute = ''minute''"
definition GranularityHour :: string where "GranularityHour = ''hour''"
definition GranularityDay :: string where "GranularityDay = ''day''"
definition GranularityMonth :: string where "GranularityMonth = ''month''"

lemmas granularity_defs = GranularityMinute_def GranularityHour_def GranularityDay_def
  GranularityMonth_def

record attempt_record =
  at_end :: go_time
  at_tenant :: u64
  at_route :: u64
  at_provider :: u64
  at_project :: u64
  at_token :: u64
  at_client :: string
  at_model :: string
  at_successful :: bool
  at_failed :: bool
  at_duration :: u64
  at_ttft :: u64
  at_input :: u64
  at_output :: u64
  at_cache_read :: u64
  at_cache_write :: u64
  at_cost :: u64

record usage_stats =
  us_id :: u64
  us_created :: go_time
  us_tenant :: u64
  us_bucket :: go_time
  us_granularity :: string
  us_route :: u64
  us_provider :: u64
  us_project :: u64
  us_token :: u64
  us_client :: string
  us_model :: string
  us_requests :: u64
  us_successful :: u64
  us_failed :: u64
  us_duration :: u64
  us_ttft :: u64
  us_input :: u64
  us_output :: u64
  us_cache_read :: u64
  us_cache_write :: u64
  us_cost :: u64

text \<open>The dimensions of a row besides its bucket: tenant, route, provider, project, token, client
  type and model.\<close>

type_synonym dims = "u64 \<times> u64 \<times> u64 \<times> u64 \<times> u64 \<times> string \<times> string"

section \<open>Time buckets\<close>

definition TruncateToGranularity :: "go_time \<Rightarrow> string \<Rightarrow> location \<Rightarrow> go_time" where
  "TruncateToGranularity t g loc =
     (if g = GranularityMinute then Truncate minute t
      else if g = GranularityHour then Truncate hour t
      else if g = GranularityDay then midnight loc (local_day loc t)
      else if g = GranularityMonth then midnight loc (month_start (local_day loc t))
      else Truncate hour t)"

section \<open>Aggregation of attempts\<close>

definition attempt_dims :: "attempt_record \<Rightarrow> dims" where
  "attempt_dims r =
     (at_tenant r, at_route r, at_provider r, at_project r, at_token r, at_client r, at_model r)"

definition attempt_bucket :: "location \<Rightarrow> attempt_record \<Rightarrow> int" where
  "attempt_bucket loc r = UnixMilli (TruncateToGranularity (at_end r) GranularityMinute loc)"

definition attempt_key :: "location \<Rightarrow> attempt_record \<Rightarrow> int \<times> dims" where
  "attempt_key loc r = (attempt_bucket loc r, attempt_dims r)"

definition flag :: "bool \<Rightarrow> u64" where "flag b = (if b then 1 else 0)"

definition new_minute_stats :: "location \<Rightarrow> attempt_record \<Rightarrow> usage_stats" where
  "new_minute_stats loc r =
     \<lparr> us_id = 0, us_created = zero_time, us_tenant = at_tenant r,
       us_bucket = from_UnixMilli (attempt_bucket loc r), us_granularity = GranularityMinute,
       us_route = at_route r, us_provider = at_provider r, us_project = at_project r,
       us_token = at_token r, us_client = at_client r, us_model = at_model r,
       us_requests = 1, us_successful = flag (at_successful r), us_failed = flag (at_failed r),
       us_duration = at_duration r, us_ttft = at_ttft r,
       us_input = at_input r, us_output = at_output r,
       us_cache_read = at_cache_read r, us_cache_write = at_cache_write r,
       us_cost = at_cost r \<rparr>"

definition add_attempt :: "usage_stats \<Rightarrow> attempt_record \<Rightarrow> usage_stats" where
  "add_attempt s r =
     s \<lparr> us_requests := us_requests s + 1,
         us_successful := us_successful s + flag (at_successful r),
         us_failed := us_failed s + flag (at_failed r),
         us_duration := us_duration s + at_duration r,
         us_ttft := us_ttft s + at_ttft r,
         us_input := us_input s + at_input r,
         us_output := us_output s + at_output r,
         us_cache_read := us_cache_read s + at_cache_read r,
         us_cache_write := us_cache_write s + at_cache_write r,
         us_cost := us_cost s + at_cost r \<rparr>"

definition AggregateAttempts :: "attempt_record list \<Rightarrow> location \<Rightarrow> usage_stats list" where
  "AggregateAttempts records loc =
     (if records = [] then []
      else map snd (collect (attempt_key loc) (new_minute_stats loc) add_attempt records))"

section \<open>Roll-up and merge\<close>

definition stats_dims :: "usage_stats \<Rightarrow> dims" where
  "stats_dims s =
     (us_tenant s, us_route s, us_provider s, us_project s, us_token s, us_client s, us_model s)"

definition rollup_key :: "string \<Rightarrow> location \<Rightarrow> usage_stats \<Rightarrow> int \<times> dims" where
  "rollup_key to loc s = (UnixMilli (TruncateToGranularity (us_bucket s) to loc), stats_dims s)"

definition new_rollup :: "string \<Rightarrow> location \<Rightarrow> usage_stats \<Rightarrow> usage_stats" where
  "new_rollup to loc s =
     s \<lparr> us_id := 0, us_created := zero_time, us_granularity := to,
         us_bucket := TruncateToGranularity (us_bucket s) to loc \<rparr>"

definition add_stats :: "usage_stats \<Rightarrow> usage_stats \<Rightarrow> usage_stats" where
  "add_stats existing s =
     existing \<lparr> us_requests := us_requests existing + us_requests s,
                us_successful := us_successful existing + us_successful s,
                us_failed := us_failed existing + us_failed s,
                us_duration := us_duration existing + us_duration s,
                us_ttft := us_ttft existing + us_ttft s,
                us_input := us_input existing + us_input s,
                us_output := us_output existing + us_output s,
                us_cache_read := us_cache_read existing + us_cache_read s,
                us_cache_write := us_cache_write existing + us_cache_write s,
                us_cost := us_cost existing + us_cost s \<rparr>"

definition RollUp :: "usage_stats list \<Rightarrow> string \<Rightarrow> location \<Rightarrow> usage_stats list" where
  "RollUp stats to loc =
     (if stats = [] then []
      else map snd (collect (rollup_key to loc) (new_rollup to loc) add_stats stats))"

definition merge_key :: "usage_stats \<Rightarrow> string \<times> int \<times> dims" where
  "merge_key s = (us_granularity s, UnixMilli (us_bucket s), stats_dims s)"

text \<open>The nested loops over the lists; the first row with a key is copied.\<close>

definition MergeStats :: "usage_stats list list \<Rightarrow> usage_stats list" where
  "MergeStats statsList =
     map snd (fold (fold (collect_step merge_key (\<lambda>s. s) add_stats)) statsList [])"

section \<open>Sums\<close>

record stats_sum =
  ss_requests :: u64
  ss_successful :: u64
  ss_failed :: u64
  ss_input :: u64
  ss_output :: u64
  ss_cache_read :: u64
  ss_cache_write :: u64
  ss_cost :: u64

definition zero_sum :: stats_sum where
  "zero_sum = \<lparr> ss_requests = 0, ss_successful = 0, ss_failed = 0, ss_input = 0, ss_output = 0,
     ss_cache_read = 0, ss_cache_write = 0, ss_cost = 0 \<rparr>"

definition add_to_sum :: "usage_stats \<Rightarrow> stats_sum \<Rightarrow> stats_sum" where
  "add_to_sum s t =
     t \<lparr> ss_requests := ss_requests t + us_requests s,
         ss_successful := ss_successful t + us_successful s,
         ss_failed := ss_failed t + us_failed s,
         ss_input := ss_input t + us_input s,
         ss_output := ss_output t + us_output s,
         ss_cache_read := ss_cache_read t + us_cache_read s,
         ss_cache_write := ss_cache_write t + us_cache_write s,
         ss_cost := ss_cost t + us_cost s \<rparr>"

definition SumStats :: "usage_stats list \<Rightarrow> stats_sum" where
  "SumStats stats = fold add_to_sum stats zero_sum"

record provider_stats =
  ps_provider :: u64
  ps_sum :: stats_sum

definition new_provider_stats :: "usage_stats \<Rightarrow> provider_stats" where
  "new_provider_stats s =
     \<lparr> ps_provider = us_provider s,
       ps_sum = \<lparr> ss_requests = us_requests s, ss_successful = us_successful s,
         ss_failed = us_failed s, ss_input = us_input s, ss_output = us_output s,
         ss_cache_read = us_cache_read s, ss_cache_write = us_cache_write s,
         ss_cost = us_cost s \<rparr> \<rparr>"

definition add_provider_stats :: "provider_stats \<Rightarrow> usage_stats \<Rightarrow> provider_stats" where
  "add_provider_stats p s = p \<lparr> ps_sum := add_to_sum s (ps_sum p) \<rparr>"

definition GroupByProvider :: "usage_stats list \<Rightarrow> (u64 \<times> provider_stats) list" where
  "GroupByProvider stats =
     collect us_provider new_provider_stats add_provider_stats
       (filter (\<lambda>s. us_provider s \<noteq> 0) stats)"

section \<open>Dashboard\<close>

record model_stats =
  ms_model :: string
  ms_requests :: u64
  ms_tokens :: u64

definition row_tokens :: "usage_stats \<Rightarrow> u64" where
  "row_tokens s = us_input s + us_output s + us_cache_read s + us_cache_write s"

definition new_model_stats :: "usage_stats \<Rightarrow> model_stats" where
  "new_model_stats s =
     \<lparr> ms_model = us_model s, ms_requests = 0 + us_requests s, ms_tokens = 0 + row_tokens s \<rparr>"

definition add_model_stats :: "model_stats \<Rightarrow> usage_stats \<Rightarrow> model_stats" where
  "add_model_stats a s =
     a \<lparr> ms_requests := ms_requests a + us_requests s, ms_tokens := ms_tokens a + row_tokens s \<rparr>"

text \<open>Descending requests, then ascending model name.  The names are distinct, so the comparison is
  total on the slice and the unstable \<^verbatim>\<open>sort.Slice\<close> has one result.\<close>

definition model_rank :: "model_stats \<Rightarrow> int \<times> string" where
  "model_rank m = (- uint (ms_requests m), ms_model m)"

definition TopModelsByRequests :: "usage_stats list \<Rightarrow> int \<Rightarrow> model_stats list" where
  "TopModelsByRequests stats limit =
     (if limit \<le> 0 then []
      else (let models = sort_key model_rank (map snd
              (collect us_model new_model_stats add_model_stats
                 (filter (\<lambda>s. us_model s \<noteq> '''') stats)))
            in if limit < int (length models) then take (nat limit) models else models))"

definition DailyCounts :: "usage_stats list \<Rightarrow> location \<Rightarrow> (string \<times> u64) list" where
  "DailyCounts stats loc =
     (let byDate = collect (\<lambda>s. format_date loc (us_bucket s)) us_requests
            (\<lambda>n s. n + us_requests s) (filter (\<lambda>s. us_requests s \<noteq> 0) stats)
      in map (\<lambda>d. (d, lookup_default 0 byDate d)) (sort (map fst byDate)))"

definition trend_starts :: "go_time \<Rightarrow> location \<Rightarrow> go_time list" where
  "trend_starts start loc =
     (let snappedStart = TruncateToGranularity start GranularityHour loc
      in map (\<lambda>i. snappedStart + int i * hour) [0 ..< 24])"

definition count_hour :: "usage_stats \<Rightarrow> (int \<times> u64) list \<Rightarrow> (int \<times> u64) list" where
  "count_hour s counts =
     (let k = UnixMilli (us_bucket s)
      in case map_of counts k of
           None \<Rightarrow> counts
         | Some n \<Rightarrow> AList.update k (n + us_requests s) counts)"

definition HourlyTrend ::
  "usage_stats list \<Rightarrow> go_time \<Rightarrow> location \<Rightarrow> (string \<times> u64) list" where
  "HourlyTrend stats start loc =
     (let starts = trend_starts start loc;
          keys = map UnixMilli starts;
          counts = fold count_hour stats (fold (\<lambda>k. AList.update k 0) keys [])
      in map (\<lambda>t. (format_hour loc t, lookup_default 0 counts (UnixMilli t))) starts)"

section \<open>Filters\<close>

definition FilterByGranularity :: "usage_stats list \<Rightarrow> string \<Rightarrow> usage_stats list" where
  "FilterByGranularity stats g = filter (\<lambda>s. us_granularity s = g) stats"

definition FilterByTimeRange ::
  "usage_stats list \<Rightarrow> go_time \<Rightarrow> go_time \<Rightarrow> usage_stats list" where
  "FilterByTimeRange stats start end =
     filter (\<lambda>s. \<not> us_bucket s < start \<and> us_bucket s < end) stats"

end
