(* ===== verification/Usage_Properties.thy ===== *)
theory Usage_Properties
  imports Usage_Stats
begin

text \<open>
  Correctness of the statistics functions: every aggregation is the grouping it is meant to be,
  totals survive every step, rolling up in steps equals rolling up at once where bucket borders
  nest, and the dashboard summaries are exact.
\<close>

section \<open>Counters\<close>

datatype counter = Requests | Successful | FailedRequests | Duration | TTFT | InputTokens
  | OutputTokens | CacheRead | CacheWrite | Cost

fun counter_of :: "counter \<Rightarrow> usage_stats \<Rightarrow> u64" where
  "counter_of Requests = us_requests"
| "counter_of Successful = us_successful"
| "counter_of FailedRequests = us_failed"
| "counter_of Duration = us_duration"
| "counter_of TTFT = us_ttft"
| "counter_of InputTokens = us_input"
| "counter_of OutputTokens = us_output"
| "counter_of CacheRead = us_cache_read"
| "counter_of CacheWrite = us_cache_write"
| "counter_of Cost = us_cost"

text \<open>What one attempt contributes to each counter.\<close>

fun attempt_counter :: "counter \<Rightarrow> attempt_record \<Rightarrow> u64" where
  "attempt_counter Requests r = 1"
| "attempt_counter Successful r = flag (at_successful r)"
| "attempt_counter FailedRequests r = flag (at_failed r)"
| "attempt_counter Duration r = at_duration r"
| "attempt_counter TTFT r = at_ttft r"
| "attempt_counter InputTokens r = at_input r"
| "attempt_counter OutputTokens r = at_output r"
| "attempt_counter CacheRead r = at_cache_read r"
| "attempt_counter CacheWrite r = at_cache_write r"
| "attempt_counter Cost r = at_cost r"

definition with_counters :: "usage_stats \<Rightarrow> (counter \<Rightarrow> u64) \<Rightarrow> usage_stats" where
  "with_counters s f =
     s \<lparr> us_requests := f Requests, us_successful := f Successful, us_failed := f FailedRequests,
         us_duration := f Duration, us_ttft := f TTFT, us_input := f InputTokens,
         us_output := f OutputTokens, us_cache_read := f CacheRead,
         us_cache_write := f CacheWrite, us_cost := f Cost \<rparr>"

lemma counter_of_with [simp]: "counter_of c (with_counters s f) = f c"
  by (cases c) (simp_all add: with_counters_def)

lemma with_counters_sel [simp]:
  "us_bucket (with_counters s f) = us_bucket s" "stats_dims (with_counters s f) = stats_dims s"
  "us_granularity (with_counters s f) = us_granularity s"
  by (simp_all add: with_counters_def stats_dims_def)

lemma with_counters_self: "with_counters s (\<lambda>c. counter_of c s) = s"
  by (simp add: with_counters_def)

lemma add_stats_with: "add_stats (with_counters s f) t = with_counters s (\<lambda>c. f c + counter_of c t)"
  by (simp add: add_stats_def with_counters_def)

lemma add_attempt_with:
  "add_attempt (with_counters s f) r = with_counters s (\<lambda>c. f c + attempt_counter c r)"
  by (simp add: add_attempt_def with_counters_def)

section \<open>Buckets are whole milliseconds\<close>

lemma UnixMilli_whole: "millisecond dvd t \<Longrightarrow> UnixMilli t * millisecond = t"
  by (simp add: UnixMilli_def)

lemma bucket_ms: "millisecond dvd t - t mod minute" "millisecond dvd t - t mod hour"
    "millisecond dvd n * second"
  by (simp_all add: minus_mod_eq_mult_div time_defs dvd_mult2)

lemma TruncateToGranularity_ms:
  "from_UnixMilli (UnixMilli (TruncateToGranularity t g loc)) = TruncateToGranularity t g loc"
  by (simp add: from_UnixMilli_def TruncateToGranularity_def Truncate_minute Truncate_hour
      UnixMilli_whole bucket_ms midnight_def)

section \<open>The groupings\<close>

definition row_key :: "usage_stats \<Rightarrow> int \<times> dims" where
  "row_key s = (UnixMilli (us_bucket s), stats_dims s)"

lemma new_minute_sel:
  "UnixMilli (us_bucket (new_minute_stats loc r)) = attempt_bucket loc r"
  "stats_dims (new_minute_stats loc r) = attempt_dims r"
  by (simp_all add: new_minute_stats_def stats_dims_def attempt_dims_def)

lemma new_rollup_sel:
  "us_bucket (new_rollup to loc s) = TruncateToGranularity (us_bucket s) to loc"
  "stats_dims (new_rollup to loc s) = stats_dims s"
  by (simp_all add: new_rollup_def stats_dims_def)

interpretation agg: keyed_grouping "attempt_key loc" "new_minute_stats loc" add_attempt
    "\<lambda>r. with_counters (new_minute_stats loc r)" attempt_counter counter_of row_key
  for loc :: location
proof unfold_locales
  fix r
  show "new_minute_stats loc r =
      with_counters (new_minute_stats loc r) (\<lambda>c. attempt_counter c r)"
    by (simp add: with_counters_def new_minute_stats_def)
qed (simp_all add: add_attempt_with row_key_def attempt_key_def new_minute_sel)

interpretation roll: keyed_grouping "rollup_key to loc" "new_rollup to loc" add_stats
    "\<lambda>s. with_counters (new_rollup to loc s)" counter_of counter_of row_key
  for to :: string and loc :: location
proof unfold_locales
  fix s
  show "new_rollup to loc s = with_counters (new_rollup to loc s) (\<lambda>c. counter_of c s)"
    by (simp add: with_counters_def new_rollup_def)
qed (simp_all add: add_stats_with row_key_def rollup_key_def new_rollup_sel)

interpretation merge: keyed_grouping merge_key "\<lambda>s. s" add_stats with_counters counter_of counter_of
    merge_key
  by unfold_locales (simp_all add: with_counters_self add_stats_with merge_key_def)

lemma AggregateAttempts_collect:
  "AggregateAttempts rs loc =
     map snd (collect (attempt_key loc) (new_minute_stats loc) add_attempt rs)"
  by (simp add: AggregateAttempts_def collect_def)

lemma RollUp_collect:
  "RollUp xs to loc = map snd (collect (rollup_key to loc) (new_rollup to loc) add_stats xs)"
  by (simp add: RollUp_def collect_def)

lemma MergeStats_collect:
  "MergeStats xss = map snd (collect merge_key (\<lambda>s. s) add_stats (concat xss))"
proof -
  have "fold (fold (collect_step merge_key (\<lambda>s. s) add_stats)) xss m =
      fold (collect_step merge_key (\<lambda>s. s) add_stats) (concat xss) m" for m
    by (induction xss arbitrary: m) simp_all
  then show ?thesis by (simp add: MergeStats_def collect_def)
qed

text \<open>Aggregating attempts gives one row per minute and combination of dimensions that occurs,
  whose counters are the sums over exactly those attempts.\<close>

theorem AggregateAttempts_groups:
  "distinct (map row_key (AggregateAttempts rs loc)) \<and>
   map_of (map (\<lambda>s. (row_key s, s)) (AggregateAttempts rs loc)) k =
     group_entry (attempt_key loc) (\<lambda>r. with_counters (new_minute_stats loc r))
       attempt_counter rs k"
  unfolding AggregateAttempts_collect by (intro conjI agg.rows_distinct agg.rows_entry)

text \<open>Rolling up gives one row per target bucket and combination of dimensions that occurs, whose
  counters are the sums over exactly the source rows that fall into it.\<close>

theorem RollUp_groups:
  "distinct (map row_key (RollUp xs to loc)) \<and>
   map_of (map (\<lambda>s. (row_key s, s)) (RollUp xs to loc)) k =
     group_entry (rollup_key to loc) (\<lambda>s. with_counters (new_rollup to loc s)) counter_of xs k"
  unfolding RollUp_collect by (intro conjI roll.rows_distinct roll.rows_entry)

text \<open>Merging lists of rows gives one row per granularity, bucket and dimensions that occurs in
  any of them, with the counters of all rows of that key added up.\<close>

theorem MergeStats_groups:
  "distinct (map merge_key (MergeStats xss)) \<and>
   map_of (map (\<lambda>s. (merge_key s, s)) (MergeStats xss)) k =
     group_entry merge_key with_counters counter_of (concat xss) k"
  unfolding MergeStats_collect by (intro conjI merge.rows_distinct merge.rows_entry)

section \<open>Totals\<close>

definition sum_of :: "(counter \<Rightarrow> u64) \<Rightarrow> stats_sum" where
  "sum_of f = \<lparr> ss_requests = f Requests, ss_successful = f Successful,
     ss_failed = f FailedRequests, ss_input = f InputTokens, ss_output = f OutputTokens,
     ss_cache_read = f CacheRead, ss_cache_write = f CacheWrite, ss_cost = f Cost \<rparr>"

lemma SumStats_sum: "SumStats xs = sum_of (\<lambda>c. \<Sum>s \<leftarrow> xs. counter_of c s)"
proof -
  have "add_to_sum s (sum_of f) = sum_of (\<lambda>c. f c + counter_of c s)" for s f
    by (simp add: add_to_sum_def sum_of_def)
  then have "fold add_to_sum xs (sum_of f) = sum_of (\<lambda>c. f c + (\<Sum>s \<leftarrow> xs. counter_of c s))" for f
    by (induction xs arbitrary: f) (simp_all add: add.assoc)
  from this [of "\<lambda>_. 0"] show ?thesis
    by (simp add: SumStats_def zero_sum_def sum_of_def)
qed

text \<open>The totals of the summary do not depend on how the rows were combined: rolling up or merging
  changes none of them, and the totals of the minute rows are the totals of the attempts.\<close>

theorem SumStats_invariant:
  "SumStats (RollUp xs to loc) = SumStats xs \<and>
   SumStats (MergeStats xss) = SumStats (concat xss) \<and>
   SumStats (AggregateAttempts rs loc) = sum_of (\<lambda>c. \<Sum>r \<leftarrow> rs. attempt_counter c r)"
  unfolding SumStats_sum RollUp_collect MergeStats_collect AggregateAttempts_collect
    roll.collect_total merge.collect_total agg.collect_total by simp

section \<open>Rolling up in steps\<close>

text \<open>Bucket borders nest at an instant when truncating twice gives the coarser bucket.\<close>

definition nests :: "string \<Rightarrow> location \<Rightarrow> string \<Rightarrow> location \<Rightarrow> go_time \<Rightarrow> bool" where
  "nests g1 loc1 g2 loc2 t =
     (TruncateToGranularity (TruncateToGranularity t g1 loc1) g2 loc2 =
      TruncateToGranularity t g2 loc2)"

lemma row_of_key:
  assumes "rollup_key g loc a = rollup_key g loc b"
  shows "with_counters (new_rollup g loc a) f = with_counters (new_rollup g loc b) f"
proof -
  have "TruncateToGranularity (us_bucket a) g loc = TruncateToGranularity (us_bucket b) g loc"
    using assms TruncateToGranularity_ms [of _ g loc] unfolding rollup_key_def by (metis Pair_inject)
  then show ?thesis
    using assms by (simp add: rollup_key_def with_counters_def new_rollup_def stats_dims_def)
qed

definition coarser_key :: "string \<Rightarrow> location \<Rightarrow> int \<times> dims \<Rightarrow> int \<times> dims" where
  "coarser_key g loc k =
     (UnixMilli (TruncateToGranularity (from_UnixMilli (fst k)) g loc), snd k)"

lemma coarser_source:
  "nests g1 loc1 g2 loc2 (us_bucket x) \<Longrightarrow>
   coarser_key g2 loc2 (rollup_key g1 loc1 x) = rollup_key g2 loc2 x"
  by (simp add: coarser_key_def rollup_key_def nests_def TruncateToGranularity_ms)

lemma RollUp_row:
  "y \<in> set (RollUp xs g loc) \<Longrightarrow> \<exists>x \<in> set xs. \<exists>f. y = with_counters (new_rollup g loc x) f"
proof -
  assume "y \<in> set (RollUp xs g loc)"
  then obtain k where "(k, y) \<in> set (collect (rollup_key g loc) (new_rollup g loc) add_stats xs)"
    by (auto simp: RollUp_collect)
  then have "map_of (collect (rollup_key g loc) (new_rollup g loc) add_stats xs) k = Some y"
    by simp
  then show ?thesis
    unfolding roll.collect_entry group_entry_def
    by (auto simp: find_Some_iff)
qed

lemma coarser_row:
  "y \<in> set (RollUp xs g1 loc1) \<Longrightarrow> coarser_key g2 loc2 (row_key y) = rollup_key g2 loc2 y"
  using RollUp_row [of y xs g1 loc1]
  by (auto simp: coarser_key_def row_key_def rollup_key_def new_rollup_sel TruncateToGranularity_ms)

lemma group_sum_RollUp:
  assumes "\<forall>x \<in> set xs. nests g1 loc1 g2 loc2 (us_bucket x)"
  shows "group_sum (rollup_key g2 loc2) (counter_of c) (RollUp xs g1 loc1) k =
         group_sum (rollup_key g2 loc2) (counter_of c) xs k"
proof -
  let ?P = "\<lambda>q. coarser_key g2 loc2 q = k"
  have "filter (\<lambda>y. rollup_key g2 loc2 y = k) (RollUp xs g1 loc1) =
      filter (\<lambda>y. ?P (row_key y)) (RollUp xs g1 loc1)"
    by (rule filter_cong) (simp_all add: coarser_row)
  moreover have "filter (\<lambda>x. rollup_key g2 loc2 x = k) xs =
      filter (\<lambda>x. ?P (rollup_key g1 loc1 x)) xs"
    using assms by (intro filter_cong) (simp_all add: coarser_source)
  ultimately show ?thesis
    using roll.rows_filter_sum [where P = ?P and to = g1 and loc = loc1 and xs = xs and c = c] by (simp add: group_sum_def RollUp_collect)
qed

lemma RollUp_covers:
  assumes "\<forall>x \<in> set xs. nests g1 loc1 g2 loc2 (us_bucket x)"
  shows "rollup_key g2 loc2 ` set (RollUp xs g1 loc1) = rollup_key g2 loc2 ` set xs"
proof -
  have "row_key ` set (RollUp xs g1 loc1) = rollup_key g1 loc1 ` set xs"
    using arg_cong [OF roll.rows_keyed [of g1 loc1 xs], of "\<lambda>m. fst ` set m"]
      collect_keys [of "rollup_key g1 loc1" "new_rollup g1 loc1" add_stats xs]
    by (simp add: RollUp_collect image_image)
  then have "coarser_key g2 loc2 ` row_key ` set (RollUp xs g1 loc1) =
      coarser_key g2 loc2 ` rollup_key g1 loc1 ` set xs" by simp
  then show ?thesis
    using assms by (simp add: image_image coarser_row coarser_source cong: image_cong)
qed

lemma RollUp_RollUp:
  assumes "\<forall>x \<in> set xs. nests g1 loc1 g2 loc2 (us_bucket x)"
  shows "mset (RollUp (RollUp xs g1 loc1) g2 loc2) = mset (RollUp xs g2 loc2)"
proof -
  let ?key = "rollup_key g2 loc2" and ?ys = "RollUp xs g1 loc1"
  let ?col = "collect ?key (new_rollup g2 loc2) add_stats"
  have "map_of (?col ?ys) k = map_of (?col xs) k" for k
  proof (cases "k \<in> ?key ` set xs")
    case True
    then obtain x y where "find (\<lambda>x. ?key x = k) xs = Some x" "find (\<lambda>x. ?key x = k) ?ys = Some y"
      using RollUp_covers [OF assms] by (metis (mono_tags, lifting) find_None_iff imageE option.exhaust)
    moreover from this have "?key y = ?key x" by (auto simp: find_Some_iff)
    ultimately show ?thesis
      unfolding roll.collect_entry group_entry_def
      using row_of_key [of g2 loc2 y x] by (simp add: group_sum_RollUp [OF assms])
  next
    case False
    then have "k \<notin> ?key ` set ?ys" by (simp only: RollUp_covers [OF assms] not_False_eq_True)
    with False have "find (\<lambda>x. ?key x = k) xs = None" "find (\<lambda>x. ?key x = k) ?ys = None"
      by (simp_all add: find_None_iff image_iff) blast+
    then show ?thesis unfolding roll.collect_entry group_entry_def by simp
  qed
  then have "map_of (?col ?ys) = map_of (?col xs)" ..
  then have "set (?col ?ys) = set (?col xs)" by (rule map_of_inject_set [THEN iffD1, rotated 2]) simp_all
  then have "set (RollUp ?ys g2 loc2) = set (RollUp xs g2 loc2)" by (simp add: RollUp_collect)
  moreover have "distinct (RollUp zs g2 loc2)" for zs
    using roll.rows_distinct [of g2 loc2 zs] unfolding RollUp_collect distinct_map by blast
  ultimately show ?thesis by (simp add: set_eq_iff_mset_eq_distinct)
qed

text \<open>Zones in which hour borders are local hour borders (the offset is a whole number of hours and
  changes only on the hour), and zones in which every local midnight exists.\<close>

definition whole_hours :: "location \<Rightarrow> bool" where
  "whole_hours loc \<longleftrightarrow> (\<forall>s. loc s mod 3600 = 0 \<and> loc (s - s mod 3600) = loc s)"

definition midnights_exist :: "location \<Rightarrow> bool" where
  "midnights_exist loc \<longleftrightarrow> (\<forall>day. local_day loc (midnight loc day) = day)"

lemma unix_sec_hour: "unix_sec (t - t mod hour) = unix_sec t - unix_sec t mod 3600"
proof -
  have "t - t mod hour = (3600 * (t div hour)) * second"
    by (simp add: minus_mod_eq_mult_div time_defs)
  then have "unix_sec (t - t mod hour) = 3600 * (t div hour)"
    by (simp add: unix_sec_def time_defs)
  also have "t div hour = unix_sec t div 3600"
    by (simp add: unix_sec_def time_defs zdiv_zmult2_eq [symmetric])
  finally show ?thesis by (simp add: minus_mod_eq_mult_div)
qed

lemma floor_hours:
  "(off :: int) mod 3600 = 0 \<Longrightarrow> (s - s mod 3600 + off) div 86400 = (s + off) div 86400"
proof -
  assume "off mod 3600 = 0"
  then have "s - s mod 3600 + off = 3600 * ((s + off) div 3600)"
    by (auto simp: minus_mod_eq_mult_div [symmetric] mod_add_right_eq [of s off, symmetric])
  then have "(s - s mod 3600 + off) div 86400 = (3600 * ((s + off) div 3600)) div (3600 * 24)" by simp
  also have "\<dots> = (s + off) div 3600 div 24" by (subst div_mult_mult1) simp_all
  also have "\<dots> = (s + off) div 86400" by (simp add: zdiv_zmult2_eq [symmetric])
  finally show ?thesis .
qed

lemma local_day_hour:
  assumes "whole_hours loc"
  shows "local_day loc (t - t mod hour) = local_day loc t"
proof -
  have "loc (unix_sec t) mod 3600 = 0"
    and "loc (unix_sec t - unix_sec t mod 3600) = loc (unix_sec t)"
    using assms unfolding whole_hours_def by auto
  then show ?thesis
    by (simp add: local_day_def local_sec_def unix_sec_hour day_secs_def floor_hours)
qed

lemma nests_hour_day: "whole_hours loc \<Longrightarrow> nests GranularityHour loc' GranularityDay loc t"
  by (simp add: nests_def TruncateToGranularity_def granularity_defs Truncate_hour local_day_hour)

lemma nests_day_month:
  "midnights_exist loc \<Longrightarrow> nests GranularityDay loc GranularityMonth loc t"
  by (simp add: nests_def TruncateToGranularity_def granularity_defs midnights_exist_def)

lemma nests_hour_month: "whole_hours loc \<Longrightarrow> nests GranularityHour loc' GranularityMonth loc t"
  by (simp add: nests_def TruncateToGranularity_def granularity_defs Truncate_hour local_day_hour)

text \<open>C33: rolling hour rows up to days, and those up to months, gives the rows that rolling the original
  rows up at once gives, in every zone whose offsets are whole hours and whose midnights exist.\<close>

theorem rollup_in_steps:
  assumes "whole_hours loc" and "midnights_exist loc"
  shows "mset (RollUp (RollUp xs GranularityHour utc) GranularityDay loc) =
           mset (RollUp xs GranularityDay loc) \<and>
         mset (RollUp (RollUp xs GranularityDay loc) GranularityMonth loc) =
           mset (RollUp xs GranularityMonth loc)"
  by (simp_all add: RollUp_RollUp nests_hour_day nests_day_month assms)

definition shanghai :: location where "shanghai = (\<lambda>_. 28800)"

definition sample_row :: "go_time \<Rightarrow> u64 \<Rightarrow> usage_stats" where
  "sample_row t n =
     \<lparr> us_id = 1, us_created = 0, us_tenant = 1, us_bucket = t, us_granularity = GranularityMinute,
       us_route = 1, us_provider = 2, us_project = 0, us_token = 3, us_client = ''claude'',
       us_model = ''opus'', us_requests = n, us_successful = n, us_failed = 0, us_duration = 10,
       us_ttft = 1, us_input = 5, us_output = 6, us_cache_read = 0, us_cache_write = 0,
       us_cost = 100 \<rparr>"

lemma shanghai_ok: "whole_hours shanghai" "midnights_exist shanghai"
  by (simp_all add: whole_hours_def midnights_exist_def shanghai_def local_day_def local_sec_def
      unix_sec_def midnight_def date_unix_def day_secs_def second_def)

lemma rollup_in_steps_witness:
  "mset (RollUp (RollUp [sample_row (90 * minute) 1, sample_row (95 * minute) 2] GranularityHour
       (\<lambda>_. 0)) GranularityDay shanghai) =
     mset (RollUp [sample_row (90 * minute) 1, sample_row (95 * minute) 2] GranularityDay shanghai)"
  by (rule rollup_in_steps [OF shanghai_ok, THEN conjunct1])

text \<open>With a half-hour offset the borders do not nest: hour buckets are cut in UTC, and the one that
  contains the local midnight is counted on the wrong day.\<close>

definition india :: location where "india = (\<lambda>_. 19800)"

lemma rollup_half_hour:
  "map us_bucket (RollUp [sample_row (18 * hour + 45 * minute) 1] GranularityDay india) =
     [18 * hour + 30 * minute] \<and>
   map us_bucket (RollUp (RollUp [sample_row (18 * hour + 45 * minute) 1] GranularityHour (\<lambda>_. 0))
       GranularityDay india) = [- (5 * hour) - 30 * minute]"
  by code_simp

section \<open>The hourly trend\<close>

lemma map_of_zero_fold:
  "map_of (fold (\<lambda>k. AList.update k (0 :: u64)) ks m) k =
     (if k \<in> set ks then Some 0 else map_of m k)"
  by (induction ks arbitrary: m) (simp_all add: go_map)

lemma map_of_count_hours:
  "map_of (fold count_hour xs m) k =
     map_option (\<lambda>n. n + (\<Sum>s \<leftarrow> filter (\<lambda>s. UnixMilli (us_bucket s) = k) xs. us_requests s))
       (map_of m k)"
proof (induction xs arbitrary: m)
  case (Cons x xs)
  show ?case
    unfolding fold.simps comp_def Cons
    by (cases "map_of m (UnixMilli (us_bucket x))")
      (auto simp: count_hour_def go_map Let_def add.assoc option.map_comp comp_def
        simp del: map_of_eq_Some_iff map_of_eq_None_iff)
qed (simp add: option.map_ident)

lemma HourlyTrend_sums:
  "HourlyTrend xs start loc =
     map (\<lambda>t. (format_hour loc t,
            \<Sum>s \<leftarrow> filter (\<lambda>s. UnixMilli (us_bucket s) = UnixMilli t) xs. us_requests s))
       (trend_starts start loc)"
  by (simp add: HourlyTrend_def lookup_default_def map_of_count_hours map_of_zero_fold Let_def)

lemma aligned_in_hour:
  assumes "b mod hour = 0" and "t mod hour = 0"
  shows "(UnixMilli b = UnixMilli t) = (t \<le> b \<and> b < t + hour)"
proof -
  have "b = hour * (b div hour)" and "t = hour * (t div hour)"
    using assms by (simp_all add: minus_mod_eq_mult_div [symmetric])
  then obtain i j where "b = hour * i" "t = hour * j" by blast
  then show ?thesis by (auto simp: UnixMilli_def time_defs)
qed

text \<open>for rows in hour buckets, the trend has 24 points, one per hour from the hour of the start on,
  and each counts exactly the requests of the rows whose bucket lies in its hour.\<close>

theorem HourlyTrend_exact:
  assumes "\<forall>s \<in> set xs. us_bucket s mod hour = 0"
  shows "HourlyTrend xs start loc =
    map (\<lambda>i. let t = Truncate hour start + int i * hour
             in (format_hour loc t,
                 \<Sum>s \<leftarrow> filter (\<lambda>s. t \<le> us_bucket s \<and> us_bucket s < t + hour) xs. us_requests s))
      [0 ..< 24]"
proof -
  have "(Truncate hour start + int i * hour) mod hour = 0" for i
    by (simp add: Truncate_hour minus_mod_eq_mult_div mod_add_eq [symmetric])
  then have "filter (\<lambda>s. UnixMilli (us_bucket s) = UnixMilli (Truncate hour start + int i * hour)) xs =
      filter (\<lambda>s. Truncate hour start + int i * hour \<le> us_bucket s \<and>
        us_bucket s < Truncate hour start + int i * hour + hour) xs" for i
    using assms by (intro filter_cong) (simp_all add: aligned_in_hour)
  then show ?thesis
    by (simp add: HourlyTrend_sums trend_starts_def TruncateToGranularity_def granularity_defs Let_def
        comp_def del: upt_Suc)
qed

definition sample_rows :: "usage_stats list" where
  "sample_rows = [sample_row hour 4, sample_row (3 * hour) 5, sample_row hour 1]"

lemma HourlyTrend_exact_witness:
  "length (HourlyTrend sample_rows (hour + 7 * minute) shanghai) = 24 \<and>
   map (\<lambda>i. snd (HourlyTrend sample_rows (hour + 7 * minute) shanghai ! i)) [0, 1, 2] = [5, 0, 5]"
proof -
  have "\<forall>s \<in> set sample_rows. us_bucket s mod hour = 0"
    by (simp add: sample_rows_def sample_row_def)
  note trend = HourlyTrend_exact [OF this, of "hour + 7 * minute" shanghai]
  show ?thesis
    unfolding trend
    by (simp add: Let_def sample_rows_def sample_row_def Truncate_def time_defs del: upt_Suc)
qed

section \<open>The model ranking\<close>

definition model_total :: "usage_stats list \<Rightarrow> string \<Rightarrow> model_stats" where
  "model_total xs name =
     \<lparr> ms_model = name,
       ms_requests = (\<Sum>s \<leftarrow> filter (\<lambda>s. us_model s = name) xs. us_requests s),
       ms_tokens = (\<Sum>s \<leftarrow> filter (\<lambda>s. us_model s = name) xs. row_tokens s) \<rparr>"

definition model_names :: "usage_stats list \<Rightarrow> string set" where
  "model_names xs = us_model ` set xs - {''''}"

interpretation models: keyed_grouping us_model new_model_stats add_model_stats
    "\<lambda>s f. \<lparr> ms_model = us_model s, ms_requests = f False, ms_tokens = f True \<rparr>"
    "\<lambda>c. if c then row_tokens else us_requests" "\<lambda>c. if c then ms_tokens else ms_requests" ms_model
  by unfold_locales (simp_all add: new_model_stats_def add_model_stats_def)

lemma collected_names:
  "set (map fst (collect us_model new_model_stats add_model_stats
      (filter (\<lambda>s. us_model s \<noteq> '''') xs))) = model_names xs"
  by (auto simp: collect_keys model_names_def)

lemma models_collected:
  "map snd (collect us_model new_model_stats add_model_stats
      (filter (\<lambda>s. us_model s \<noteq> '''') xs)) =
   map (model_total xs) (map fst (collect us_model new_model_stats add_model_stats
      (filter (\<lambda>s. us_model s \<noteq> '''') xs)))"
  (is "map snd ?m = _")
proof -
  have "snd e = model_total xs (fst e)" if "e \<in> set ?m" for e
  proof -
    have "map_of ?m (fst e) = Some (snd e)" using that by simp
    moreover have "fst e \<noteq> ''''"
      using that collected_names [of xs] by (force simp: model_names_def)
    moreover from this have "filter (\<lambda>s. us_model s = fst e) (filter (\<lambda>s. us_model s \<noteq> '''') xs) =
        filter (\<lambda>s. us_model s = fst e) xs"
      by (auto intro: filter_cong)
    ultimately show ?thesis
      unfolding models.collect_entry group_entry_def
      by (auto simp only: group_sum_def model_total_def find_Some_iff map_option_eq_Some if_True if_False)
  qed
  then show ?thesis by simp
qed

lemma model_rank_total: "model_rank (model_total xs a) = model_rank (model_total xs b) \<Longrightarrow> a = b"
  by (simp add: model_rank_def model_total_def)

lemma distinct_ranks:
  "distinct ns \<Longrightarrow> distinct (map model_rank (map (model_total xs) ns))"
  by (auto simp: distinct_map inj_on_def dest: model_rank_total)

text \<open>the ranking lists the requested number of models, or all there are; each with its true totals,
  in strictly descending order of requests with ties by name; and every model it leaves out ranks
  after all of those it lists.\<close>

theorem TopModels_ranked:
  assumes "0 < limit" and "best = TopModelsByRequests xs limit"
  shows "length best = min (nat limit) (card (model_names xs)) \<and>
    set best \<subseteq> model_total xs ` model_names xs \<and>
    sorted_wrt (\<lambda>a b. model_rank a < model_rank b) best \<and>
    (\<forall>m \<in> set best. \<forall>n \<in> model_names xs.
       model_total xs n \<notin> set best \<longrightarrow> model_rank m < model_rank (model_total xs n))"
proof -
  let ?names = "map fst (collect us_model new_model_stats add_model_stats
      (filter (\<lambda>s. us_model s \<noteq> '''') xs))"
  define ranked where "ranked = sort_key model_rank (map (model_total xs) ?names)"
  have best: "best = take (nat limit) ranked"
    using assms by (auto simp: TopModelsByRequests_def models_collected ranked_def Let_def)
  have all_set: "set ranked = model_total xs ` model_names xs"
    unfolding ranked_def by (simp only: set_sort set_map [of "model_total xs"] collected_names)
  have len: "length ranked = card (model_names xs)"
    unfolding ranked_def using distinct_card [of ?names] by (simp only: length_sort length_map collected_names wf_collect)
  have "distinct (map model_rank (map (model_total xs) ?names))"
    by (rule distinct_ranks) (rule wf_collect)
  moreover have "mset (map model_rank ranked) = mset (map model_rank (map (model_total xs) ?names))"
    unfolding ranked_def by (simp only: mset_map mset_sort)
  ultimately have "distinct (map model_rank ranked)" by (metis mset_eq_imp_distinct_iff)
  moreover have "sorted (map model_rank ranked)" unfolding ranked_def by (rule sorted_sort_key)
  ultimately have sorted: "sorted_wrt (\<lambda>a b. model_rank a < model_rank b) ranked"
    using strict_sorted_iff [of "map model_rank ranked"] by (simp add: sorted_wrt_map)
  then have "sorted_wrt (\<lambda>a b. model_rank a < model_rank b)
      (take (nat limit) ranked @ drop (nat limit) ranked)"
    by (simp only: append_take_drop_id)
  then have parts: "sorted_wrt (\<lambda>a b. model_rank a < model_rank b) best"
    "\<And>m n. m \<in> set best \<Longrightarrow> n \<in> set (drop (nat limit) ranked) \<Longrightarrow> model_rank m < model_rank n"
    unfolding best sorted_wrt_append by simp_all
  have "set ranked = set best \<union> set (drop (nat limit) ranked)"
    by (metis append_take_drop_id set_append best)
  then have "model_total xs n \<in> set (drop (nat limit) ranked)"
    if "n \<in> model_names xs" "model_total xs n \<notin> set best" for n
    using that all_set by blast
  then have "\<forall>m \<in> set best. \<forall>n \<in> model_names xs.
      model_total xs n \<notin> set best \<longrightarrow> model_rank m < model_rank (model_total xs n)"
    using parts(2) by blast
  moreover have "length best = min (nat limit) (card (model_names xs))"
    by (simp add: best len)
  moreover have "set best \<subseteq> model_total xs ` model_names xs"
    unfolding all_set [symmetric] best by (rule set_take_subset)
  ultimately show ?thesis using parts(1) by blast
qed

lemma TopModels_ranked_witness:
  "map ms_model (TopModelsByRequests
     [sample_row hour 4, (sample_row hour 6) \<lparr> us_model := ''sonnet'' \<rparr>,
      sample_row hour 1, (sample_row hour 9) \<lparr> us_model := '''' \<rparr>] 1) = [''sonnet'']"
proof -
  let ?xs = "[sample_row hour 4, (sample_row hour 6) \<lparr> us_model := ''sonnet'' \<rparr>,
      sample_row hour 1, (sample_row hour 9) \<lparr> us_model := '''' \<rparr>]"
  have names: "model_names ?xs = {''opus'', ''sonnet''}"
    by (auto simp: model_names_def sample_row_def)
  have ranks: "model_rank (model_total ?xs ''sonnet'') < model_rank (model_total ?xs ''opus'')"
    by (simp add: model_rank_def model_total_def sample_row_def less_prod_def)
  note top = TopModels_ranked [OF zero_less_one refl, of ?xs]
  then obtain m where m: "TopModelsByRequests ?xs 1 = [m]"
    unfolding names by (auto simp: length_Suc_conv numeral_eq_Suc)
  then have "m = model_total ?xs ''opus'' \<or> m = model_total ?xs ''sonnet''"
    using top unfolding names by auto
  moreover have "m \<noteq> model_total ?xs ''opus''"
  proof
    assume "m = model_total ?xs ''opus''"
    moreover have "model_total ?xs ''sonnet'' \<noteq> model_total ?xs ''opus''"
      by (simp add: model_total_def)
    ultimately show False using top m ranks unfolding names by auto
  qed
  ultimately show ?thesis using m by (simp add: model_total_def)
qed

section \<open>The heat map\<close>

interpretation days: grouping "\<lambda>s. format_date loc (us_bucket s)" us_requests
    "\<lambda>n s. n + us_requests s" "\<lambda>s f. f ()" "\<lambda>_. us_requests" "\<lambda>_ n. n"
  for loc :: location
  by unfold_locales simp_all

lemma sum_nonzero_rows:
  "(\<Sum>s \<leftarrow> filter P (filter (\<lambda>s. us_requests s \<noteq> 0) xs). us_requests s) =
   (\<Sum>s \<leftarrow> filter P xs. us_requests s)"
  by (induction xs) auto

text \<open>The heat map has one point for each date on which some row has requests, in ascending order,
  and its count is the sum of the requests of all rows of that date.\<close>

theorem DailyCounts_exact:
  "DailyCounts xs loc =
     map (\<lambda>d. (d, \<Sum>s \<leftarrow> filter (\<lambda>s. format_date loc (us_bucket s) = d) xs. us_requests s))
       (sorted_list_of_set
          ((\<lambda>s. format_date loc (us_bucket s)) ` {s \<in> set xs. us_requests s \<noteq> 0}))"
proof -
  let ?xs = "filter (\<lambda>s. us_requests s \<noteq> 0) xs"
  let ?m = "collect (\<lambda>s. format_date loc (us_bucket s)) us_requests (\<lambda>n s. n + us_requests s) ?xs"
  have keys: "set (map fst ?m) = (\<lambda>s. format_date loc (us_bucket s)) ` {s \<in> set xs. us_requests s \<noteq> 0}"
    by (simp add: collect_keys)
  have "sort (map fst ?m) = sorted_list_of_set (set (map fst ?m))"
    by (rule sorted_list_of_set_sort_remdups [symmetric, THEN trans [rotated]])
      (simp add: distinct_remdups_id)
  moreover have "lookup_default 0 ?m d =
      (\<Sum>s \<leftarrow> filter (\<lambda>s. format_date loc (us_bucket s) = d) xs. us_requests s)"
    if "d \<in> set (map fst ?m)" for d
  proof -
    have "\<exists>s \<in> set ?xs. format_date loc (us_bucket s) = d" using that unfolding keys by auto
    then obtain y where "find (\<lambda>s. format_date loc (us_bucket s) = d) ?xs = Some y"
      by (metis (mono_tags, lifting) find_None_iff option.exhaust)
    then show ?thesis
      by (simp only: lookup_default_def days.collect_entry group_entry_def group_sum_def
          sum_nonzero_rows option.map option.case)
  qed
  ultimately show ?thesis
    unfolding DailyCounts_def Let_def keys [symmetric] 
    by (intro map_cong) (simp_all only: set_sorted_list_of_set [OF finite_set])
qed

end
