(* ===== verification/Go_Text.thy ===== *)
theory Go_Text
  imports Prelude
begin

text \<open>
  The text helpers of the Go standard library that the sources use beyond those of the prelude:
  \<open>strings.ToLower\<close>, \<open>Contains\<close>, \<open>TrimPrefix\<close>, \<open>TrimRight\<close>, \<open>Join\<close>, \<open>EqualFold\<close> and
  \<open>strconv.Atoi\<close>, on byte strings.
\<close>

section \<open>Lower case\<close>

text \<open>\<open>strings.ToLower\<close> seen through ASCII: the only characters outside ASCII whose lower case is an
  ASCII letter are the Kelvin sign and the dotted capital I.  All other characters outside ASCII
  stay outside ASCII, so they are kept as they are; the sources compare the result with ASCII
  texts only.\<close>

definition lower_byte :: "char \<Rightarrow> char" where
  "lower_byte c =
     (let n = of_char c :: nat in if 65 \<le> n \<and> n \<le> 90 then char_of (n + 32) else c)"

definition kelvin_sign :: string where "kelvin_sign = byte_string [0xE2, 0x84, 0xAA]"
definition dotted_I :: string where "dotted_I = byte_string [0xC4, 0xB0]"

function to_lower :: "string \<Rightarrow> string" where
  "to_lower [] = []"
| "to_lower (c # cs) =
     (if has_prefix (c # cs) kelvin_sign then CHR ''k'' # to_lower (drop 2 cs)
      else if has_prefix (c # cs) dotted_I then CHR ''i'' # to_lower (drop 1 cs)
      else lower_byte c # to_lower cs)"
  by pat_completeness auto
termination by (relation "measure length") auto

definition is_ascii :: "string \<Rightarrow> bool" where
  "is_ascii s = list_all (\<lambda>c. (of_char c :: nat) < 128) s"

lemma not_prefix_outside:
  "(of_char c :: nat) < 128 \<Longrightarrow>
   \<not> has_prefix (c # cs) kelvin_sign \<and> \<not> has_prefix (c # cs) dotted_I"
  by (auto simp: has_prefix_def kelvin_sign_def dotted_I_def byte_string_def)

lemma to_lower_ascii: "is_ascii s \<Longrightarrow> to_lower s = map lower_byte s"
  by (induction s) (auto simp: is_ascii_def not_prefix_outside)

definition equal_fold_ascii :: "string \<Rightarrow> string \<Rightarrow> bool" where
  "equal_fold_ascii s lower = (to_lower s = lower)"

section \<open>Parts of strings\<close>

fun contains :: "string \<Rightarrow> string \<Rightarrow> bool" where
  "contains [] sub = (sub = [])"
| "contains (c # cs) sub = (has_prefix (c # cs) sub \<or> contains cs sub)"

lemma contains_iff: "contains s sub = (\<exists>before rest. s = before @ sub @ rest)"
proof (induction s)
  case (Cons c cs)
  have "has_prefix (c # cs) sub = (\<exists>rest. c # cs = sub @ rest)"
    unfolding has_prefix_def by (metis append_eq_conv_conj append_take_drop_id)
  then have "contains (c # cs) sub =
      ((\<exists>rest. c # cs = [] @ sub @ rest) \<or> (\<exists>before rest. c # cs = (c # before) @ sub @ rest))"
    using Cons.IH by simp
  also have "\<dots> = (\<exists>before rest. c # cs = before @ sub @ rest)"
    by (auto simp: Cons_eq_append_conv)
  finally show ?case .
qed auto

lemma contains_appendI: "contains s sub \<Longrightarrow> contains (a @ s @ b) sub"
  by (auto simp: contains_iff) (metis append.assoc)

definition trim_prefix :: "string \<Rightarrow> string \<Rightarrow> string" where
  "trim_prefix s p = (if has_prefix s p then drop (length p) s else s)"

definition trim_right_char :: "char \<Rightarrow> string \<Rightarrow> string" where
  "trim_right_char c s = rev (dropWhile (\<lambda>d. d = c) (rev s))"

fun join :: "string \<Rightarrow> string list \<Rightarrow> string" where
  "join sep [] = []"
| "join sep [s] = s"
| "join sep (s # t # ss) = s @ sep @ join sep (t # ss)"

section \<open>Integers in decimal\<close>

text \<open>\<open>strconv.Atoi\<close>: an optional sign, then at least one digit; \<open>None\<close> is its error, also for a
  number outside the 64-bit range.\<close>

definition parse_nat :: "string \<Rightarrow> nat option" where
  "parse_nat s = (if s = [] then None else parse_digits 0 s)"

definition Atoi :: "string \<Rightarrow> int option" where
  "Atoi s =
     (let (neg, ds) = (case s of
                         [] \<Rightarrow> (False, [])
                       | c # cs \<Rightarrow> if c = CHR ''-'' then (True, cs)
                                  else if c = CHR ''+'' then (False, cs) else (False, s))
      in case parse_nat ds of
           None \<Rightarrow> None
         | Some n \<Rightarrow>
             (let i = (if neg then - int n else int n)
              in if - (2 ^ 63) \<le> i \<and> i < 2 ^ 63 then Some i else None))"

lemma Atoi_range: "Atoi s = Some i \<Longrightarrow> - (2 ^ 63) \<le> i \<and> i < 2 ^ 63"
  by (auto simp: Atoi_def Let_def split: prod.splits option.splits if_splits)

definition show_int :: "int \<Rightarrow> string" where
  "show_int i = (if i < 0 then CHR ''-'' # show_nat (nat (- i)) else show_nat (nat i))"

lemma parse_nat_show [simp]: "parse_nat (show_nat n) = Some n"
  by (simp add: parse_nat_def parse_show_nat)

lemma show_nat_head: "\<exists>d cs. d < 10 \<and> show_nat n = digit d # cs"
proof -
  obtain c cs where c: "show_nat n = c # cs" using show_nat_nonempty by (meson neq_Nil_conv)
  then show ?thesis using show_nat_digits [of c n] by auto
qed

lemma Atoi_show_nat: "n < 2 ^ 63 \<Longrightarrow> Atoi (show_nat n) = Some (int n)"
proof -
  assume n: "n < 2 ^ 63"
  obtain d cs where d: "d < 10" "show_nat n = digit d # cs" using show_nat_head by blast
  have "digit d \<noteq> CHR ''-''" "digit d \<noteq> CHR ''+''"
    using d(1) of_char_digit [OF d(1)] by auto
  then show ?thesis using n parse_nat_show [of n] d(2) by (simp add: Atoi_def)
qed

end
