(* ===== verification/Go_Errors.thy ===== *)
theory Go_Errors
  imports Go_Text Cooldown_Manager
begin

text \<open>
  Errors of the gateway, \<^verbatim>\<open>internal/domain/errors.go\<close> and
  \<^verbatim>\<open>internal/domain/responses_websocket.go\<close>: sentinels, wrapped errors, and the structured errors
  that carry what the executor needs to know about a failed upstream call.
\<close>

section \<open>Error values\<close>

text \<open>A \<open>ProxyError\<close> without its cause.\<close>

record proxy_fields =
  pf_message :: string
  pf_code :: string
  pf_scope :: string
  pf_reason :: string
  pf_status :: int
  pf_retry_after :: go_duration
  pf_until :: "go_time option"
  pf_async :: bool
  pf_retryable :: bool
  pf_model :: string
  pf_client :: string

text \<open>A sentinel is known by its text, which is distinct in the sources; an opaque error is any other
  error without a cause; \<open>Wrap\<close> is \<^verbatim>\<open>fmt.Errorf\<close> with \<^verbatim>\<open>%w\<close>: its text and its cause.  A nil cause of
  a structured error is \<open>None\<close>.\<close>

datatype go_error =
    Sentinel string
  | Opaque string
  | Wrap string go_error
  | ProxyError proxy_fields "go_error option"
  | WsAttemptError bool "go_error option"

definition ErrNotFound :: go_error where "ErrNotFound = Sentinel ''not found''"
definition ErrInvalidInput :: go_error where "ErrInvalidInput = Sentinel ''invalid input''"
definition ErrInvalidState :: go_error where "ErrInvalidState = Sentinel ''invalid state''"
definition ErrNoRoutes_error :: go_error where "ErrNoRoutes_error = Sentinel ''no routes available''"
definition ErrNoAvailableProviders_error :: go_error where
  "ErrNoAvailableProviders_error = Sentinel ''no available providers''"
definition ErrModelNotSupported_error :: go_error where
  "ErrModelNotSupported_error = Sentinel ''model not supported by any provider''"
definition ErrAllRoutesFailed :: go_error where "ErrAllRoutesFailed = Sentinel ''all routes failed''"
definition ErrUpstreamError :: go_error where "ErrUpstreamError = Sentinel ''upstream error''"
definition ErrNoResponsesWebSocketProviders_error :: go_error where
  "ErrNoResponsesWebSocketProviders_error =
     Sentinel ''no native responses websocket providers available''"
definition ErrResponsesWebSocketSessionUnavailable_error :: go_error where
  "ErrResponsesWebSocketSessionUnavailable_error =
     Sentinel ''responses websocket session unavailable''"
definition ErrResponsesWebSocketProtocol :: go_error where
  "ErrResponsesWebSocketProtocol = Sentinel ''responses websocket protocol error''"
definition ErrAPITokenQuotaExhausted :: go_error where
  "ErrAPITokenQuotaExhausted = Sentinel ''API token quota exhausted''"

lemmas sentinel_defs = ErrNotFound_def ErrInvalidInput_def ErrInvalidState_def
  ErrNoRoutes_error_def ErrNoAvailableProviders_error_def ErrModelNotSupported_error_def
  ErrAllRoutesFailed_def ErrUpstreamError_def ErrNoResponsesWebSocketProviders_error_def
  ErrResponsesWebSocketSessionUnavailable_error_def ErrResponsesWebSocketProtocol_def
  ErrAPITokenQuotaExhausted_def

text \<open>The two errors of a finished context.\<close>

definition Canceled :: go_error where "Canceled = Sentinel ''context canceled''"
definition DeadlineExceeded :: go_error where
  "DeadlineExceeded = Sentinel ''context deadline exceeded''"

lemma Canceled_neq_DeadlineExceeded [simp]:
  "Canceled \<noteq> DeadlineExceeded" "DeadlineExceeded \<noteq> Canceled"
  by (simp_all add: Canceled_def DeadlineExceeded_def)

text \<open>\<open>Error()\<close>.  A structured error without cause and message dereferences a nil pointer; the sources
  give every error without cause a message.\<close>

primrec error_text :: "go_error \<Rightarrow> string" where
  "error_text (Sentinel s) = s"
| "error_text (Opaque s) = s"
| "error_text (Wrap s e) = s"
| "error_text (ProxyError f c) =
     (let cause = (case map_option error_text c of None \<Rightarrow> ''<nil>'' | Some t \<Rightarrow> t)
      in if pf_message f \<noteq> '''' then pf_message f @ '': '' @ cause
         else if c = None then '''' else cause)"
| "error_text (WsAttemptError cap c) =
     (case map_option error_text c of
        None \<Rightarrow> ''responses websocket attempt failed''
      | Some t \<Rightarrow> t)"

text \<open>\<^verbatim>\<open>errors.Is\<close> against a sentinel and \<^verbatim>\<open>errors.As\<close> for the two structured kinds: they follow the
  chain of causes.\<close>

primrec error_is :: "go_error \<Rightarrow> go_error \<Rightarrow> bool" where
  "error_is (Sentinel s) target = (Sentinel s = target)"
| "error_is (Opaque s) target = False"
| "error_is (Wrap s e) target = error_is e target"
| "error_is (ProxyError f c) target =
     (case map_option (\<lambda>e. error_is e target) c of None \<Rightarrow> False | Some b \<Rightarrow> b)"
| "error_is (WsAttemptError cap c) target =
     (case map_option (\<lambda>e. error_is e target) c of None \<Rightarrow> False | Some b \<Rightarrow> b)"

primrec asProxyError :: "go_error \<Rightarrow> (proxy_fields \<times> go_error option) option" where
  "asProxyError (Sentinel s) = None"
| "asProxyError (Opaque s) = None"
| "asProxyError (Wrap s e) = asProxyError e"
| "asProxyError (ProxyError f c) = Some (f, c)"
| "asProxyError (WsAttemptError cap c) =
     (case map_option asProxyError c of None \<Rightarrow> None | Some r \<Rightarrow> r)"

primrec as_ws_error :: "go_error \<Rightarrow> bool option" where
  "as_ws_error (Sentinel s) = None"
| "as_ws_error (Opaque s) = None"
| "as_ws_error (Wrap s e) = as_ws_error e"
| "as_ws_error (ProxyError f c) =
     (case map_option as_ws_error c of None \<Rightarrow> None | Some r \<Rightarrow> r)"
| "as_ws_error (WsAttemptError cap c) = Some cap"

text \<open>The executor changes the structured error it found in place, through the pointer.\<close>

primrec with_proxy_fields :: "proxy_fields \<Rightarrow> go_error \<Rightarrow> go_error" where
  "with_proxy_fields g (Sentinel s) = Sentinel s"
| "with_proxy_fields g (Opaque s) = Opaque s"
| "with_proxy_fields g (Wrap s e) = Wrap s (with_proxy_fields g e)"
| "with_proxy_fields g (ProxyError f c) = ProxyError g c"
| "with_proxy_fields g (WsAttemptError cap c) =
     WsAttemptError cap (map_option (with_proxy_fields g) c)"

lemma asProxyError_with [simp]:
  "asProxyError e = Some (f, c) \<Longrightarrow> asProxyError (with_proxy_fields g e) = Some (g, c)"
proof (induction e)
  case (WsAttemptError cap c')
  then show ?case by (cases c') auto
qed auto

text \<open>A change that keeps message and cause is not visible in the text of the error.\<close>

lemma error_text_with:
  "asProxyError e = Some (f, c) \<Longrightarrow> pf_message g = pf_message f \<Longrightarrow>
   error_text (with_proxy_fields g e) = error_text e"
proof (induction e)
  case (WsAttemptError cap c')
  then show ?case by (cases c') auto
qed (auto simp: Let_def)

section \<open>Constructors\<close>

definition blank_fields :: proxy_fields where
  "blank_fields =
     \<lparr> pf_message = '''', pf_code = '''', pf_scope = '''', pf_reason = '''', pf_status = 0,
       pf_retry_after = 0, pf_until = None, pf_async = False, pf_retryable = False,
       pf_model = '''', pf_client = '''' \<rparr>"

definition NewProxyErrorWithMessage :: "go_error \<Rightarrow> bool \<Rightarrow> string \<Rightarrow> go_error" where
  "NewProxyErrorWithMessage err retryable msg =
     ProxyError (blank_fields \<lparr> pf_retryable := retryable, pf_message := msg \<rparr>) (Some err)"

definition NewScopedProxyError :: "go_error \<Rightarrow> string \<Rightarrow> string \<Rightarrow> go_error" where
  "NewScopedProxyError err scope reason =
     ProxyError (blank_fields \<lparr> pf_scope := scope, pf_reason := reason,
                   pf_retryable := (scope \<noteq> ScopeRequest) \<rparr>) (Some err)"

definition NewUpstreamConnectionError :: "string \<Rightarrow> go_error" where
  "NewUpstreamConnectionError message =
     ProxyError (blank_fields \<lparr> pf_scope := ScopeProvider, pf_reason := ReasonNetworkError,
                   pf_retryable := True,
                   pf_message := (if message = '''' then ''failed to connect to upstream''
                                  else message) \<rparr>) (Some ErrUpstreamError)"

lemma NewUpstreamConnectionError_scoped:
  "message = '''' \<Longrightarrow>
   NewUpstreamConnectionError message =
     (case NewScopedProxyError ErrUpstreamError ScopeProvider ReasonNetworkError of
        ProxyError f c \<Rightarrow> ProxyError (f \<lparr> pf_message := ''failed to connect to upstream'' \<rparr>) c
      | e \<Rightarrow> e)"
  by (simp add: NewUpstreamConnectionError_def NewScopedProxyError_def scope_defs)

end
