(* ===== verification/Exec_Policy.thy ===== *)
theory Exec_Policy
  imports Go_Errors Provider_Capability Wildcard
begin

text \<open>
  The decisions of the executor that depend on the request, the provider's configuration and the
  error alone: retry configuration and back-off, which errors are retried, which freeze a provider,
  how a failed request is labelled, smart model mapping and the settings that steer a dispatch.
  Sources: \<^verbatim>\<open>internal/executor/executor.go\<close>, \<^verbatim>\<open>cancel_status.go\<close>, \<^verbatim>\<open>force_retry_setting.go\<close>,
  \<^verbatim>\<open>openrouter_bridge.go\<close>, \<^verbatim>\<open>stream_timeout_settings.go\<close> and the helpers at the end of
  \<^verbatim>\<open>middleware_dispatch.go\<close>.
\<close>

section \<open>Retries\<close>

text \<open>\<open>BackoffRate\<close> is the 64 bits of its floating-point number.\<close>

record retry_config =
  rc_max_retries :: int
  rc_initial :: go_duration
  rc_rate :: u64
  rc_max_interval :: go_duration
  rc_force :: bool

definition float_one :: u64 where "float_one = 0x3FF0000000000000"

definition no_retry :: retry_config where
  "no_retry = \<lparr> rc_max_retries = 0, rc_initial = 0, rc_rate = float_one, rc_max_interval = 0,
     rc_force = False \<rparr>"

definition getRetryConfig :: "retry_config option \<Rightarrow> retry_config option \<Rightarrow> retry_config" where
  "getRetryConfig config defaultConfig =
     (case config of
        Some c \<Rightarrow> c
      | None \<Rightarrow> (case defaultConfig of Some c \<Rightarrow> c | None \<Rightarrow> no_retry))"

text \<open>The floating-point product \<open>initial * rate ^ attempt\<close>, truncated to a duration, is the
  parameter \<open>scaled\<close>.\<close>

definition calculateBackoff ::
  "(go_duration \<Rightarrow> u64 \<Rightarrow> nat \<Rightarrow> go_duration) \<Rightarrow> retry_config \<Rightarrow> int \<Rightarrow> go_duration" where
  "calculateBackoff scaled config attempt =
     (let wait = scaled (rc_initial config) (rc_rate config) (nat attempt)
      in if rc_max_interval config < wait then rc_max_interval config else wait)"

lemma calculateBackoff_max: "calculateBackoff scaled config n \<le> rc_max_interval config"
  by (simp add: calculateBackoff_def Let_def)

section \<open>How a failure is labelled\<close>

definition isClientDisconnectText :: "string \<Rightarrow> bool" where
  "isClientDisconnectText v =
     (let text = to_lower v
      in contains text ''client disconnected'' \<or> contains text ''client cancelled'' \<or>
         contains text ''client canceled'' \<or> contains text ''broken pipe'' \<or>
         contains text ''connection reset by peer'')"

definition cause_is :: "go_error option \<Rightarrow> go_error \<Rightarrow> bool" where
  "cause_is c target = (case c of None \<Rightarrow> False | Some e \<Rightarrow> error_is e target)"

definition isClientDisconnectError :: "go_error option \<Rightarrow> bool" where
  "isClientDisconnectError eo =
     (case eo of
        None \<Rightarrow> False
      | Some err \<Rightarrow>
          (case asProxyError err of
             Some (f, c) \<Rightarrow>
               if cause_is c DeadlineExceeded then False
               else if isClientDisconnectText (pf_message f) \<or> isClientDisconnectText (pf_code f)
               then True
               else if \<not> cause_is c Canceled \<and>
                       (case c of None \<Rightarrow> False | Some e \<Rightarrow> isClientDisconnectText (error_text e))
               then True
               else False
           | None \<Rightarrow>
               if error_is err Canceled \<or> error_is err DeadlineExceeded then False
               else isClientDisconnectText (error_text err)))"

definition requestFailureStatusAndError ::
  "go_error option \<Rightarrow> go_error option \<Rightarrow> string \<times> string" where
  "requestFailureStatusAndError ctx err =
     (case ctx of
        None \<Rightarrow> (case err of
                   Some e \<Rightarrow> (''FAILED'', error_text e)
                 | None \<Rightarrow> (''FAILED'', ''request did not complete''))
      | Some ce \<Rightarrow>
          if error_is ce Canceled \<and> isClientDisconnectError err
          then (''CANCELLED'', ''client disconnected'')
          else if error_is ce DeadlineExceeded then (''FAILED'', ''request timeout'')
          else (case err of
                  Some e \<Rightarrow> (''FAILED'', error_text e)
                | None \<Rightarrow> (''FAILED'', error_text ce)))"

definition attemptFailureStatus :: "go_error option \<Rightarrow> go_error option \<Rightarrow> string" where
  "attemptFailureStatus ctx err = fst (requestFailureStatusAndError ctx err)"

lemma failure_status_cases:
  "fst (requestFailureStatusAndError ctx err) \<in> {''FAILED'', ''CANCELLED''}"
  by (auto simp: requestFailureStatusAndError_def split: option.split)

lemma cancelled_iff:
  "fst (requestFailureStatusAndError ctx err) = ''CANCELLED'' \<longleftrightarrow>
   (\<exists>ce. ctx = Some ce \<and> error_is ce Canceled \<and> isClientDisconnectError err)"
  by (auto simp: requestFailureStatusAndError_def split: option.split)

section \<open>Which errors are retried\<close>

definition shouldSkipErrorCooldown :: "provider \<Rightarrow> bool" where
  "shouldSkipErrorCooldown p =
     (case pv_config p of None \<Rightarrow> False | Some cfg \<Rightarrow> cfg_disable_cooldown cfg)"

definition shouldSkipErrorCooldownUpdate :: "provider \<Rightarrow> bool" where
  "shouldSkipErrorCooldownUpdate p = shouldSkipErrorCooldown p"

type_synonym proxy_err = "proxy_fields \<times> go_error option"

definition isCommittedStreamReadRetryableError :: "proxy_err \<Rightarrow> bool" where
  "isCommittedStreamReadRetryableError pe =
     (let (f, c) = pe
      in if pf_scope f \<noteq> ScopeProvider then False
         else if pf_reason f \<noteq> ReasonNetworkError then False
         else (let msg = (case c of
                            None \<Rightarrow> pf_message f
                          | Some e \<Rightarrow> pf_message f @ '' '' @ error_text e);
                   msg = to_lower msg
               in contains msg ''stream read error'' \<or> contains msg ''upstream stream'' \<or>
                  contains msg ''unexpected eof''))"

definition isBedrockAdaptiveThinkingSchemaError :: "proxy_err \<Rightarrow> bool" where
  "isBedrockAdaptiveThinkingSchemaError pe =
     (let (f, c) = pe
      in if pf_scope f \<noteq> ScopeRequest \<or> pf_status f \<noteq> 400 then False
         else (let text = (case c of
                             None \<Rightarrow> to_lower (pf_message f)
                           | Some e \<Rightarrow> to_lower (pf_message f) @ '' '' @ to_lower (error_text e))
               in contains text ''bedrock runtime'' \<and> contains text ''validationexception'' \<and>
                  contains text ''enabled'' \<and> contains text ''adaptive'' \<and>
                  contains text ''output_config.effort''))"

definition isDisabledErrorCooldownRetryableError :: "proxy_err \<Rightarrow> bool" where
  "isDisabledErrorCooldownRetryableError pe =
     (if isBedrockAdaptiveThinkingSchemaError pe then False
      else if 400 \<le> pf_status (fst pe) \<and> pf_status (fst pe) < 600 then True
      else isCommittedStreamReadRetryableError pe)"

definition applyDisabledErrorCooldownRetryPolicy :: "provider \<Rightarrow> proxy_err \<Rightarrow> proxy_err" where
  "applyDisabledErrorCooldownRetryPolicy p pe =
     (if \<not> shouldSkipErrorCooldown p then pe
      else if \<not> isDisabledErrorCooldownRetryableError pe then pe
      else ((fst pe) \<lparr> pf_retryable := True \<rparr>, snd pe))"

definition applyCommittedStreamReadRetryPolicy :: "proxy_err \<Rightarrow> proxy_err" where
  "applyCommittedStreamReadRetryPolicy pe =
     (if isCommittedStreamReadRetryableError pe
      then ((fst pe) \<lparr> pf_retryable := True \<rparr>, snd pe) else pe)"

definition shouldRetryCommittedResponseError :: "proxy_err option \<Rightarrow> bool" where
  "shouldRetryCommittedResponseError po =
     (case po of
        None \<Rightarrow> False
      | Some pe \<Rightarrow> pf_retryable (fst pe) \<and> isCommittedStreamReadRetryableError pe)"

definition normalizeUpstreamConnectionError :: "proxy_err \<Rightarrow> proxy_err" where
  "normalizeUpstreamConnectionError pe =
     (let (f, c) = pe
      in if \<not> cause_is c ErrUpstreamError then pe
         else if pf_message f \<noteq> ''failed to connect to upstream'' \<and>
                 pf_message f \<noteq> ''failed to connect to upstream after token refresh'' then pe
         else (f \<lparr> pf_scope := ScopeProvider, pf_reason := ReasonNetworkError,
                  pf_retryable := True \<rparr>, c))"

definition forceRetryUpstreamErrorIfSafe ::
  "proxy_err \<Rightarrow> go_error option \<Rightarrow> bool \<Rightarrow> bool \<Rightarrow> proxy_err" where
  "forceRetryUpstreamErrorIfSafe pe ctx responseCommitted enabled =
     (let f = fst pe
      in if \<not> enabled \<or> pf_retryable f then pe
         else if cause_is ctx Canceled \<or> cause_is ctx DeadlineExceeded then pe
         else if responseCommitted \<and> \<not> shouldRetryCommittedResponseError (Some pe) then pe
         else if pf_scope f = ScopeRequest \<or> pf_scope f = ScopeKey then pe
         else if 400 \<le> pf_status f \<and> pf_status f < 500 \<and> pf_status f \<noteq> 429 then pe
         else if pf_scope f = ScopeProvider \<or> pf_scope f = ScopeEndpoint \<or>
                 pf_scope f = ScopeModel
         then (f \<lparr> pf_retryable := True \<rparr>, snd pe)
         else pe)"

definition shouldDeferNetworkErrorCooldown :: "proxy_fields \<Rightarrow> int \<Rightarrow> retry_config \<Rightarrow> bool" where
  "shouldDeferNetworkErrorCooldown f attempt retryConfig =
     (if \<not> pf_retryable f \<or> pf_reason f \<noteq> ReasonNetworkError then False
      else if pf_until f \<noteq> None \<or> 0 < pf_retry_after f then False
      else attempt < rc_max_retries retryConfig)"

text \<open>None of the policies touches message or cause.\<close>

lemma policies_keep [simp]:
  "pf_message (fst (normalizeUpstreamConnectionError pe)) = pf_message (fst pe)"
  "snd (normalizeUpstreamConnectionError pe) = snd pe"
  "pf_message (fst (applyDisabledErrorCooldownRetryPolicy p pe)) = pf_message (fst pe)"
  "snd (applyDisabledErrorCooldownRetryPolicy p pe) = snd pe"
  "pf_message (fst (applyCommittedStreamReadRetryPolicy pe)) = pf_message (fst pe)"
  "snd (applyCommittedStreamReadRetryPolicy pe) = snd pe"
  "pf_message (fst (forceRetryUpstreamErrorIfSafe pe ctx w en)) = pf_message (fst pe)"
  "snd (forceRetryUpstreamErrorIfSafe pe ctx w en) = snd pe"
  by (simp_all add: normalizeUpstreamConnectionError_def applyDisabledErrorCooldownRetryPolicy_def
      applyCommittedStreamReadRetryPolicy_def forceRetryUpstreamErrorIfSafe_def split_def Let_def)

section \<open>Cooldown of a failure\<close>

definition isConfigurableRateLimitFallback :: "string \<Rightarrow> bool" where
  "isConfigurableRateLimitFallback reason =
     (reason = ReasonRateLimit \<or> reason = ReasonConcurrentLimit \<or> reason = ReasonNetworkError)"

text \<open>A settings repository: \<open>None\<close> is an error, also for a missing key.\<close>

type_synonym settings = "string \<Rightarrow> string option"

definition rateLimitDefaultDuration :: "settings option \<Rightarrow> go_duration" where
  "rateLimitDefaultDuration so =
     (case so of
        None \<Rightarrow> 5 * second
      | Some get \<Rightarrow>
          (case get ''cooldown_rate_limit_default_seconds'' of
             None \<Rightarrow> 5 * second
           | Some value \<Rightarrow>
               if TrimSpace value = '''' then 5 * second
               else (case Atoi (TrimSpace value) of
                       None \<Rightarrow> 5 * second
                     | Some seconds \<Rightarrow>
                         if 1 \<le> seconds \<and> seconds \<le> 86400 then seconds * second
                         else 5 * second)))"

definition rateLimitDefaultCooldownUntil :: "settings option \<Rightarrow> go_time \<Rightarrow> go_time" where
  "rateLimitDefaultCooldownUntil so now = now + rateLimitDefaultDuration so"

lemma rateLimitDefault_range:
  "second \<le> rateLimitDefaultDuration so \<and> rateLimitDefaultDuration so \<le> 86400 * second"
  by (auto simp: rateLimitDefaultDuration_def duration_units split: option.split)

definition explicit_until :: "settings option \<Rightarrow> proxy_fields \<Rightarrow> go_time \<Rightarrow> go_time option" where
  "explicit_until so f now =
     (case pf_until f of
        Some t \<Rightarrow> Some t
      | None \<Rightarrow>
          if 0 < pf_retry_after f then Some (now + pf_retry_after f)
          else if isConfigurableRateLimitFallback (pf_reason f)
          then Some (rateLimitDefaultCooldownUntil so now)
          else None)"

definition cooldown_model :: "proxy_fields \<Rightarrow> string \<Rightarrow> string" where
  "cooldown_model f model =
     (if pf_scope f = ScopeModel then (if pf_model f = '''' then model else pf_model f) else '''')"

definition handleCooldown ::
  "'c store_ops \<Rightarrow> settings option \<Rightarrow> proxy_fields \<Rightarrow> provider \<Rightarrow> string \<Rightarrow> string \<Rightarrow> go_time \<Rightarrow>
     'c manager \<Rightarrow> 'c manager" where
  "handleCooldown ops so f p clientType model now m =
     (if pf_scope f = ScopeRequest then m
      else fst (RecordFailure ops (pv_id p)
                  (if pf_client f = '''' then clientType else pf_client f)
                  (cooldown_model f model) (pf_reason f) (pf_scope f)
                  (explicit_until so f now) now m))"

text \<open>An adapter may send one later correction of the cooldown; \<open>None\<close> is the fifteen-second timeout.\<close>

definition handleAsyncCooldownUpdate ::
  "'c store_ops \<Rightarrow> go_time option \<Rightarrow> provider \<Rightarrow> string \<Rightarrow> string \<Rightarrow> go_time \<Rightarrow>
     'c manager \<Rightarrow> 'c manager" where
  "handleAsyncCooldownUpdate ops update p clientType model now m =
     (case update of
        None \<Rightarrow> m
      | Some newCooldownTime \<Rightarrow>
          if newCooldownTime \<noteq> zero_time
          then UpdateCooldown ops (pv_id p) clientType model newCooldownTime now m
          else m)"

section \<open>Smart model mapping\<close>

definition shouldUseSmartMappingRetry :: "provider \<Rightarrow> nat \<Rightarrow> bool" where
  "shouldUseSmartMappingRetry p candidateCount =
     (case pv_config p of
        None \<Rightarrow> False
      | Some cfg \<Rightarrow> cfg_disable_cooldown cfg \<and> cfg_smart_retry cfg \<and> 1 < candidateCount)"

definition getSmartMappingRetryLimit :: "provider \<Rightarrow> int" where
  "getSmartMappingRetryLimit p =
     (case pv_config p of
        None \<Rightarrow> 1
      | Some cfg \<Rightarrow> if cfg_smart_limit cfg \<le> 0 then 1 else cfg_smart_limit cfg)"

definition smartMappingCacheKey ::
  "u64 \<Rightarrow> string \<Rightarrow> route \<Rightarrow> provider \<Rightarrow> string \<Rightarrow> u64 \<Rightarrow> u64 \<Rightarrow> string list \<Rightarrow> string" where
  "smartMappingCacheKey tenantID requestModel r p clientType projectID apiTokenID candidates =
     join [char_of (0x1f :: nat)]
       [show_nat (unat tenantID), show_nat (unat projectID), show_nat (unat apiTokenID),
        show_nat (unat (rt_id r)), show_nat (unat (pv_id p)), pv_type p, clientType, requestModel,
        join [char_of (0 :: nat)] candidates]"

fun index_of :: "string \<Rightarrow> string list \<Rightarrow> nat \<Rightarrow> nat option" where
  "index_of wanted [] i = None"
| "index_of wanted (c # cs) i = (if c = wanted then Some i else index_of wanted cs (Suc i))"

definition smartMappingStartIndex :: "(string \<times> string) list \<Rightarrow> string \<Rightarrow> string list \<Rightarrow> nat" where
  "smartMappingStartIndex success key candidates =
     (if key = '''' \<or> candidates = [] then 0
      else (let prev = lookup_default '''' success key
            in if prev = '''' then 0
               else (case index_of prev candidates 0 of None \<Rightarrow> 0 | Some i \<Rightarrow> i)))"

definition recordSmartMappingSuccess ::
  "string \<Rightarrow> string \<Rightarrow> (string \<times> string) list \<Rightarrow> (string \<times> string) list" where
  "recordSmartMappingSuccess key mappedModel success =
     (if key = '''' \<or> mappedModel = '''' then success else AList.update key mappedModel success)"

lemma index_of_bound: "index_of l cs i = Some j \<Longrightarrow> i \<le> j \<and> j < i + length cs \<and> cs ! (j - i) = l"
  by (induction l cs i rule: index_of.induct) (auto split: if_splits simp: nth_Cons')

lemma smartMappingStartIndex_less:
  "candidates \<noteq> [] \<Longrightarrow> smartMappingStartIndex success key candidates < length candidates"
  by (auto simp: smartMappingStartIndex_def Let_def split: option.split dest: index_of_bound)

section \<open>Price multiplier of a provider\<close>

definition getProviderMultiplier :: "provider \<Rightarrow> string \<Rightarrow> u64" where
  "getProviderMultiplier p clientType =
     (case pv_config p of
        None \<Rightarrow> 10000
      | Some cfg \<Rightarrow>
          (case cfg_custom cfg of
             None \<Rightarrow> 10000
           | Some cu \<Rightarrow>
               (case map_of (cu_client_multiplier cu) clientType of
                  Some multiplier \<Rightarrow> if 0 < multiplier then multiplier else 10000
                | None \<Rightarrow> 10000)))"

lemma getProviderMultiplier_pos: "0 < getProviderMultiplier p ct"
  by (auto simp: getProviderMultiplier_def split: option.split)

section \<open>Request detail retention\<close>

record retention_config =
  rd_unified :: int
  rd_split :: bool
  rd_success :: int
  rd_failed :: int

definition parse_setting :: "settings \<Rightarrow> string \<Rightarrow> int \<Rightarrow> int" where
  "parse_setting get key fallback =
     (case get key of
        None \<Rightarrow> fallback
      | Some v \<Rightarrow> if v = '''' then fallback
                  else (case Atoi v of None \<Rightarrow> fallback | Some n \<Rightarrow> n))"

definition requestDetailRetentionConfig :: "settings option \<Rightarrow> retention_config option" where
  "requestDetailRetentionConfig so =
     (case so of
        None \<Rightarrow> None
      | Some get \<Rightarrow>
          (let unified = parse_setting get ''request_detail_retention_seconds'' (- 1);
               split = (get ''request_detail_retention_split_enabled'' = Some ''true'')
           in Some (if split
                    then \<lparr> rd_unified = unified, rd_split = True,
                           rd_success = parse_setting get
                             ''request_detail_retention_seconds_success'' unified,
                           rd_failed = parse_setting get
                             ''request_detail_retention_seconds_failed'' unified \<rparr>
                    else \<lparr> rd_unified = unified, rd_split = False, rd_success = unified,
                           rd_failed = unified \<rparr>)))"

definition shouldClearRequestDetail :: "settings option \<Rightarrow> bool" where
  "shouldClearRequestDetail so =
     (case requestDetailRetentionConfig so of
        None \<Rightarrow> False
      | Some cfg \<Rightarrow> if \<not> rd_split cfg then rd_unified cfg = 0
                    else rd_success cfg = 0 \<and> rd_failed cfg = 0)"

definition shouldClearFailedRequestDetail :: "settings option \<Rightarrow> bool" where
  "shouldClearFailedRequestDetail so =
     (case requestDetailRetentionConfig so of
        None \<Rightarrow> False
      | Some cfg \<Rightarrow> if \<not> rd_split cfg then rd_unified cfg = 0 else rd_failed cfg = 0)"

definition shouldClearRequestDetailFor :: "settings option \<Rightarrow> bool \<Rightarrow> bool" where
  "shouldClearRequestDetailFor so devMode = (if devMode then False else shouldClearRequestDetail so)"

definition shouldClearFailedRequestDetailFor :: "settings option \<Rightarrow> bool \<Rightarrow> bool" where
  "shouldClearFailedRequestDetailFor so devMode =
     (if devMode then False else shouldClearFailedRequestDetail so)"

text \<open>Detail that is dropped at once without knowing the outcome is also dropped for a failure.\<close>

lemma clear_unknown_clears_failed:
  "shouldClearRequestDetailFor so d \<Longrightarrow> shouldClearFailedRequestDetailFor so d"
  by (auto simp: shouldClearRequestDetailFor_def shouldClearFailedRequestDetailFor_def
      shouldClearRequestDetail_def shouldClearFailedRequestDetail_def split: option.splits if_splits)

section \<open>Stream timeouts\<close>

definition openAIChatStreamTimeoutsEnabled :: "settings option \<Rightarrow> bool" where
  "openAIChatStreamTimeoutsEnabled so =
     (case so of
        None \<Rightarrow> False
      | Some get \<Rightarrow>
          (case get ''openai_chat_stream_timeouts_enabled'' of
             None \<Rightarrow> False
           | Some value \<Rightarrow> TrimSpace (to_lower value) = ''true''))"

definition millisecond_d :: go_duration where "millisecond_d = 1000000"

definition streamTimeoutSetting :: "settings option \<Rightarrow> string \<Rightarrow> go_duration \<Rightarrow> go_duration" where
  "streamTimeoutSetting so key fallback =
     (case so of
        None \<Rightarrow> fallback
      | Some get \<Rightarrow>
          (case get key of
             None \<Rightarrow> fallback
           | Some value \<Rightarrow>
               (case Atoi (TrimSpace value) of
                  None \<Rightarrow> fallback
                | Some ms \<Rightarrow> if ms < 1000 \<or> 600000 < ms then fallback else ms * millisecond_d)))"

definition streamFirstEventTimeout :: "settings option \<Rightarrow> go_duration" where
  "streamFirstEventTimeout so =
     streamTimeoutSetting so ''openai_chat_stream_first_event_timeout_ms'' (20 * second)"

definition streamIdleTimeout :: "settings option \<Rightarrow> go_duration" where
  "streamIdleTimeout so =
     streamTimeoutSetting so ''openai_chat_stream_idle_timeout_ms'' (45 * second)"

definition shouldApplyOpenAIChatStreamTimeouts ::
  "settings option \<Rightarrow> string \<Rightarrow> string \<Rightarrow> bool" where
  "shouldApplyOpenAIChatStreamTimeouts so originalClientType requestURI =
     (if originalClientType \<noteq> ClientTypeOpenAI then False
      else (let path = trim_right_char CHR ''/'' requestURI
            in if path \<noteq> ''/v1/chat/completions'' \<and> \<not> has_suffix path ''/v1/chat/completions''
               then False
               else openAIChatStreamTimeoutsEnabled so))"

lemma stream_timeouts_range:
  "second \<le> streamFirstEventTimeout so \<and> streamFirstEventTimeout so \<le> 600 * second"
  "second \<le> streamIdleTimeout so \<and> streamIdleTimeout so \<le> 600 * second"
  by (auto simp: streamFirstEventTimeout_def streamIdleTimeout_def streamTimeoutSetting_def
      duration_units millisecond_d_def split: option.split)

section \<open>The OpenRouter bridge\<close>

definition supportsClientType :: "string list \<Rightarrow> string \<Rightarrow> bool" where
  "supportsClientType types target = list_ex (\<lambda>candidate. candidate = target) types"

text \<open>\<^verbatim>\<open>url.Parse\<close> followed by \<open>Hostname\<close> is the parameter \<open>hostname\<close>; \<open>None\<close> is a parse error.\<close>

definition isOpenRouterCompatibleURL :: "(string \<Rightarrow> string option) \<Rightarrow> string \<Rightarrow> bool" where
  "isOpenRouterCompatibleURL hostname rawURL =
     (let trimmed = TrimSpace (to_lower rawURL)
      in if trimmed = '''' then False
         else (case hostname trimmed of
                 None \<Rightarrow> False
               | Some h \<Rightarrow>
                   (let host = trim_prefix h ''www.''
                    in host = ''openrouter.ai'' \<or> has_suffix host ''.openrouter.ai'')))"

definition isOpenRouterCompatibleProviderName :: "string \<Rightarrow> bool" where
  "isOpenRouterCompatibleProviderName nm = contains (to_lower (TrimSpace nm)) ''openrouter''"

definition shouldBridgeCustomCodexViaOpenAI ::
  "(string \<Rightarrow> string option) \<Rightarrow> provider \<Rightarrow> string \<Rightarrow> string list \<Rightarrow> bool" where
  "shouldBridgeCustomCodexViaOpenAI hostname p clientType supportedTypes =
     (if clientType \<noteq> ClientTypeCodex then False
      else if \<not> supportsClientType supportedTypes ClientTypeOpenAI then False
      else if pv_type p = ''openrouter'' then True
      else if pv_type p \<noteq> ''custom'' then False
      else (case pv_config p of
              None \<Rightarrow> False
            | Some cfg \<Rightarrow>
                (case cfg_custom cfg of
                   None \<Rightarrow> False
                 | Some cu \<Rightarrow>
                     if isOpenRouterCompatibleURL hostname (cu_base_url cu) then True
                     else if isOpenRouterCompatibleURL hostname
                               (lookup_default '''' (cu_client_base_url cu) ClientTypeCodex) \<or>
                             isOpenRouterCompatibleURL hostname
                               (lookup_default '''' (cu_client_base_url cu) ClientTypeOpenAI)
                     then True
                     else isOpenRouterCompatibleProviderName (pv_name p))))"

definition bridgeCodexForOpenRouter ::
  "(string \<Rightarrow> string option) \<Rightarrow> bool \<Rightarrow> provider \<Rightarrow> string \<Rightarrow> string list \<Rightarrow> bool" where
  "bridgeCodexForOpenRouter hostname bridgeEnabled p clientType supportedTypes =
     (if \<not> bridgeEnabled then False
      else shouldBridgeCustomCodexViaOpenAI hostname p clientType supportedTypes)"

section \<open>Target format\<close>

definition NeedConvert :: "string \<Rightarrow> string list \<Rightarrow> bool" where
  "NeedConvert clientType supportedTypes = (\<not> list_ex (\<lambda>t. t = clientType) supportedTypes)"

definition GetPreferredTargetType :: "string list \<Rightarrow> string \<Rightarrow> string \<Rightarrow> string" where
  "GetPreferredTargetType supportedTypes originalType providerType =
     (if list_ex (\<lambda>t. t = originalType) supportedTypes then originalType
      else if providerType = ''codex'' \<and> list_ex (\<lambda>t. t = ClientTypeCodex) supportedTypes
      then ClientTypeCodex
      else if originalType = ClientTypeGemini \<and> list_ex (\<lambda>t. t = ClientTypeOpenAI) supportedTypes
      then ClientTypeOpenAI
      else if list_ex (\<lambda>t. t = ClientTypeGemini) supportedTypes then ClientTypeGemini
      else if list_ex (\<lambda>t. t = ClientTypeClaude) supportedTypes then ClientTypeClaude
      else (case supportedTypes of t # _ \<Rightarrow> t | [] \<Rightarrow> originalType))"

text \<open>A request is only ever sent in a format the provider supports.\<close>

lemma GetPreferredTargetType_supported:
  "supportedTypes \<noteq> [] \<Longrightarrow>
   GetPreferredTargetType supportedTypes original pt \<in> set supportedTypes"
  by (cases supportedTypes) (auto simp: GetPreferredTargetType_def list_ex_iff)

lemma NeedConvert_target:
  "NeedConvert ct supported \<Longrightarrow> supported \<noteq> [] \<Longrightarrow>
   GetPreferredTargetType supported ct pt \<noteq> ct"
  using GetPreferredTargetType_supported [of supported ct pt]
  by (auto simp: NeedConvert_def list_ex_iff)

end
