(* ===== verification/Exec_Records.thy ===== *)
theory Exec_Records
  imports Go_Text Cooldown_Manager Pricing_Calculator
begin

text \<open>
  Proxy requests and upstream attempts as the executor fills them (\<open>ProxyRequest\<close> and
  \<open>ProxyUpstreamAttempt\<close> of \<^verbatim>\<open>internal/domain/model.go\<close>), the events an adapter sends while it runs
  (\<^verbatim>\<open>internal/domain/adapter_event.go\<close>) and what they do to the attempt
  (\<open>processAdapterEventsRealtime\<close> of \<^verbatim>\<open>internal/executor/executor.go\<close>).
\<close>

section \<open>Requests and attempts\<close>

record request_info =
  ri_method :: string
  ri_url :: string
  ri_headers :: "(string \<times> string) list"
  ri_body :: string

record response_info =
  rsp_status :: int
  rsp_headers :: "(string \<times> string) list"
  rsp_body :: string

text \<open>The costing fields of an attempt are the record \<open>attempt\<close> of the price calculator, those of a
  request its record \<open>request_cost_fields\<close>.\<close>

record upstream_attempt =
  ua_id :: u64
  ua_tenant :: u64
  ua_request :: u64
  ua_route :: u64
  ua_provider :: u64
  ua_stream :: bool
  ua_status :: string
  ua_error :: string
  ua_start :: go_time
  ua_end :: go_time
  ua_duration :: go_duration
  ua_ttft :: go_duration
  ua_request_info :: "request_info option"
  ua_response_info :: "response_info option"
  ua_cost :: attempt

record proxy_request =
  pr_id :: u64
  pr_tenant :: u64
  pr_session :: string
  pr_client :: string
  pr_request_model :: string
  pr_mapped_model :: string
  pr_response_model :: string
  pr_effort :: string
  pr_start :: go_time
  pr_end :: go_time
  pr_duration :: go_duration
  pr_ttft :: go_duration
  pr_stream :: bool
  pr_protocol :: string
  pr_status :: string
  pr_status_code :: int
  pr_request_info :: "request_info option"
  pr_response_info :: "response_info option"
  pr_error :: string
  pr_attempts :: u64
  pr_final_attempt :: u64
  pr_route :: u64
  pr_provider :: u64
  pr_project :: u64
  pr_token :: u64
  pr_dev_mode :: bool
  pr_cost :: request_cost_fields

definition ResolveProxyRequestProtocol :: "bool \<Rightarrow> bool \<Rightarrow> string" where
  "ResolveProxyRequestProtocol isStream isWebSocket =
     (if isWebSocket then ''websocket'' else if isStream then ''sse'' else ''http'')"

text \<open>\<^verbatim>\<open>Time.Sub\<close> saturates.\<close>

abbreviation elapsed :: "go_time \<Rightarrow> go_time \<Rightarrow> go_duration" where
  "elapsed from until \<equiv> time_since from until"

section \<open>WebSocket turns\<close>

text \<open>One turn on a client's WebSocket (\<open>ResponsesWebSocketExchange\<close>): the frame, and the provider the
  connection is pinned to, or 0.  The sink for the answer is the adapter's business.\<close>

record ws_exchange =
  wx_frame :: string
  wx_pinned :: u64

text \<open>What an adapter is called with for a turn, and what it answers; the response model is \<open>None\<close>
  without a result.\<close>

record ws_call =
  wc_provider :: u64
  wc_mapped :: string
  wc_frame :: string
  wc_pinned :: u64
  wc_attempt :: u64

section \<open>Adapter events\<close>

record adapter_metrics =
  am_input :: u64
  am_output :: u64
  am_cache_read :: u64
  am_cache_creation :: u64
  am_cache5m :: u64
  am_cache1h :: u64
  am_input_image :: u64
  am_output_image :: u64
  am_upstream_cost :: u64

datatype adapter_event =
    EventRequestInfo "request_info option"
  | EventResponseInfo "response_info option"
  | EventMetrics "adapter_metrics option"
  | EventResponseModel string
  | EventFirstToken int

text \<open>The channel holds ten events; a full one drops what is sent.\<close>

type_synonym event_chan = "adapter_event list"

definition send_event :: "adapter_event \<Rightarrow> event_chan \<Rightarrow> event_chan" where
  "send_event ev ch = (if length ch < 10 then ch @ [ev] else ch)"

definition SendRequestInfo :: "request_info option \<Rightarrow> event_chan \<Rightarrow> event_chan" where
  "SendRequestInfo info ch = (if info = None then ch else send_event (EventRequestInfo info) ch)"

definition SendResponseInfo :: "response_info option \<Rightarrow> event_chan \<Rightarrow> event_chan" where
  "SendResponseInfo info ch = (if info = None then ch else send_event (EventResponseInfo info) ch)"

definition SendMetrics :: "adapter_metrics option \<Rightarrow> event_chan \<Rightarrow> event_chan" where
  "SendMetrics m ch = (if m = None then ch else send_event (EventMetrics m) ch)"

definition SendResponseModel :: "string \<Rightarrow> event_chan \<Rightarrow> event_chan" where
  "SendResponseModel model ch =
     (if model = '''' then ch else send_event (EventResponseModel model) ch)"

definition SendFirstToken :: "int \<Rightarrow> event_chan \<Rightarrow> event_chan" where
  "SendFirstToken timeMs ch = (if timeMs = 0 then ch else send_event (EventFirstToken timeMs) ch)"

definition put_metrics :: "adapter_metrics \<Rightarrow> attempt \<Rightarrow> attempt" where
  "put_metrics m a =
     a \<lparr> a_input := am_input m, a_output := am_output m,
         a_input_image := am_input_image m, a_output_image := am_output_image m,
         a_cache_read := am_cache_read m, a_cache_write := am_cache_creation m,
         a_cache5m := am_cache5m m, a_cache1h := am_cache1h m,
         a_upstream_cost := am_upstream_cost m \<rparr>"

definition first_token_time :: "int \<Rightarrow> go_time" where
  "first_token_time ms = ms * 1000000"

text \<open>One event of the running adapter; a nil event is \<open>None\<close>.  Broadcasting is left out.\<close>

definition adapter_event_step ::
  "bool \<Rightarrow> adapter_event option \<Rightarrow> upstream_attempt \<Rightarrow> upstream_attempt" where
  "adapter_event_step clearDetail evo a =
     (case evo of
        None \<Rightarrow> a
      | Some ev \<Rightarrow>
          (case ev of
             EventRequestInfo info \<Rightarrow>
               if \<not> clearDetail \<and> info \<noteq> None then a \<lparr> ua_request_info := info \<rparr> else a
           | EventResponseInfo info \<Rightarrow>
               if \<not> clearDetail \<and> info \<noteq> None then a \<lparr> ua_response_info := info \<rparr> else a
           | EventMetrics mo \<Rightarrow>
               (case mo of None \<Rightarrow> a | Some m \<Rightarrow> a \<lparr> ua_cost := put_metrics m (ua_cost a) \<rparr>)
           | EventResponseModel model \<Rightarrow>
               if model \<noteq> '''' then a \<lparr> ua_cost := (ua_cost a) \<lparr> a_response_model := model \<rparr> \<rparr>
               else a
           | EventFirstToken ms \<Rightarrow>
               if 0 < ms then a \<lparr> ua_ttft := elapsed (ua_start a) (first_token_time ms) \<rparr>
               else a))"

definition processAdapterEventsRealtime ::
  "bool \<Rightarrow> adapter_event option list \<Rightarrow> upstream_attempt \<Rightarrow> upstream_attempt" where
  "processAdapterEventsRealtime clearDetail evs a = fold (adapter_event_step clearDetail) evs a"

text \<open>The draining variant always keeps details.\<close>

definition processAdapterEvents ::
  "adapter_event option list \<Rightarrow> upstream_attempt \<Rightarrow> upstream_attempt" where
  "processAdapterEvents evs a = fold (adapter_event_step False) evs a"

text \<open>Events never touch the identity, the models asked for, or the bill of an attempt.\<close>

lemma event_step_keeps [simp]:
  "ua_id (adapter_event_step d e a) = ua_id a"
  "ua_tenant (adapter_event_step d e a) = ua_tenant a"
  "ua_request (adapter_event_step d e a) = ua_request a"
  "ua_route (adapter_event_step d e a) = ua_route a"
  "ua_provider (adapter_event_step d e a) = ua_provider a"
  "ua_stream (adapter_event_step d e a) = ua_stream a"
  "ua_status (adapter_event_step d e a) = ua_status a"
  "ua_error (adapter_event_step d e a) = ua_error a"
  "ua_start (adapter_event_step d e a) = ua_start a"
  "ua_end (adapter_event_step d e a) = ua_end a"
  "ua_duration (adapter_event_step d e a) = ua_duration a"
  "a_cost (ua_cost (adapter_event_step d e a)) = a_cost (ua_cost a)"
  "a_price_id (ua_cost (adapter_event_step d e a)) = a_price_id (ua_cost a)"
  "a_multiplier (ua_cost (adapter_event_step d e a)) = a_multiplier (ua_cost a)"
  "a_mapped_model (ua_cost (adapter_event_step d e a)) = a_mapped_model (ua_cost a)"
  "a_request_model (ua_cost (adapter_event_step d e a)) = a_request_model (ua_cost a)"
  by (simp_all add: adapter_event_step_def put_metrics_def split: option.split adapter_event.split)

lemma events_keep [simp]:
  "ua_id (processAdapterEventsRealtime d es a) = ua_id a"
  "ua_tenant (processAdapterEventsRealtime d es a) = ua_tenant a"
  "ua_request (processAdapterEventsRealtime d es a) = ua_request a"
  "ua_route (processAdapterEventsRealtime d es a) = ua_route a"
  "ua_provider (processAdapterEventsRealtime d es a) = ua_provider a"
  "ua_stream (processAdapterEventsRealtime d es a) = ua_stream a"
  "ua_status (processAdapterEventsRealtime d es a) = ua_status a"
  "ua_error (processAdapterEventsRealtime d es a) = ua_error a"
  "ua_start (processAdapterEventsRealtime d es a) = ua_start a"
  "ua_end (processAdapterEventsRealtime d es a) = ua_end a"
  "ua_duration (processAdapterEventsRealtime d es a) = ua_duration a"
  "a_cost (ua_cost (processAdapterEventsRealtime d es a)) = a_cost (ua_cost a)"
  "a_price_id (ua_cost (processAdapterEventsRealtime d es a)) = a_price_id (ua_cost a)"
  "a_multiplier (ua_cost (processAdapterEventsRealtime d es a)) = a_multiplier (ua_cost a)"
  "a_mapped_model (ua_cost (processAdapterEventsRealtime d es a)) = a_mapped_model (ua_cost a)"
  "a_request_model (ua_cost (processAdapterEventsRealtime d es a)) = a_request_model (ua_cost a)"
  unfolding processAdapterEventsRealtime_def by (induction es arbitrary: a; simp)+

lemma processAdapterEvents_eq:
  "processAdapterEvents evs a = processAdapterEventsRealtime False evs a"
  by (simp add: processAdapterEvents_def processAdapterEventsRealtime_def)

text \<open>The last metrics delivered are the ones the attempt is billed for.\<close>

definition billed_usage :: "attempt \<Rightarrow> adapter_metrics" where
  "billed_usage a =
     \<lparr> am_input = a_input a, am_output = a_output a, am_cache_read = a_cache_read a,
       am_cache_creation = a_cache_write a, am_cache5m = a_cache5m a, am_cache1h = a_cache1h a,
       am_input_image = a_input_image a, am_output_image = a_output_image a,
       am_upstream_cost = a_upstream_cost a \<rparr>"

definition is_metrics :: "adapter_event option \<Rightarrow> bool" where
  "is_metrics e = (case e of Some (EventMetrics (Some m)) \<Rightarrow> True | _ \<Rightarrow> False)"

lemma step_keeps_usage:
  "\<not> is_metrics e \<Longrightarrow> billed_usage (ua_cost (adapter_event_step d e a)) = billed_usage (ua_cost a)"
  by (auto simp: is_metrics_def adapter_event_step_def billed_usage_def split: option.splits
      adapter_event.splits)

lemma last_metrics_billed:
  assumes "\<forall>e \<in> set later. \<not> is_metrics e"
  shows "billed_usage (ua_cost (processAdapterEventsRealtime d
           (earlier @ Some (EventMetrics (Some m)) # later) a)) = m"
proof -
  have keep: "billed_usage (ua_cost (fold (adapter_event_step d) later b)) =
      billed_usage (ua_cost b)" for b
    using assms by (induction later arbitrary: b) (simp_all add: step_keeps_usage)
  have "billed_usage (ua_cost (adapter_event_step d (Some (EventMetrics (Some m))) b)) = m" for b
    by (simp add: adapter_event_step_def put_metrics_def billed_usage_def)
  then show ?thesis by (simp add: processAdapterEventsRealtime_def keep)
qed

lemma send_event_length: "length ch \<le> 10 \<Longrightarrow> length (send_event ev ch) \<le> 10"
  by (simp add: send_event_def)

end
