(* ===== verification/Model_Mapping.thy ===== *)
theory Model_Mapping
  imports Provider_Capability Wildcard "HOL-Library.Product_Lexorder"
begin

text \<open>
  Model mapping rules: their table, \<^verbatim>\<open>internal/repository/sqlite/model_mapping.go\<close>, as a list of rows
  over which the queries of the source are written out, and the candidates the executor takes from
  it (\<open>mapModelCandidates\<close> of \<^verbatim>\<open>internal/executor/executor.go\<close>).
\<close>

section \<open>Rows\<close>

text \<open>\<open>mm_deleted\<close> is the deletion time in milliseconds, zero for a live row.\<close>

record mapping_row =
  mm_id :: u64
  mm_tenant :: u64
  mm_deleted :: int
  mm_scope :: string
  mm_client :: string
  mm_provider_type :: string
  mm_provider :: u64
  mm_project :: u64
  mm_route :: u64
  mm_token :: u64
  mm_pattern :: string
  mm_target :: string
  mm_priority :: int

record mapping_query =
  mq_client :: string
  mq_provider_type :: string
  mq_provider :: u64
  mq_project :: u64
  mq_route :: u64
  mq_token :: u64

definition tenant_scope :: "u64 \<Rightarrow> mapping_row \<Rightarrow> bool" where
  "tenant_scope tenantID r = (tenantID = 0 \<or> mm_tenant r = tenantID)"

definition scope_rank :: "string \<Rightarrow> nat" where
  "scope_rank s = (if s = ''route'' then 1 else if s = ''provider'' then 2 else 3)"

text \<open>\<open>ORDER BY CASE scope \<dots> END, priority, id\<close>.\<close>

definition mapping_order :: "mapping_row \<Rightarrow> nat \<times> int \<times> u64" where
  "mapping_order r = (scope_rank (mm_scope r), mm_priority r, mm_id r)"

definition listActive :: "u64 \<Rightarrow> mapping_row list \<Rightarrow> mapping_row list" where
  "listActive tenantID rows =
     sort_key mapping_order (filter (\<lambda>r. tenant_scope tenantID r \<and> mm_deleted r = 0) rows)"

definition query_match :: "mapping_query \<Rightarrow> mapping_row \<Rightarrow> bool" where
  "query_match q r =
     ((mm_client r = '''' \<or> mm_client r = mq_client q) \<and>
      (mm_provider_type r = '''' \<or> mm_provider_type r = mq_provider_type q) \<and>
      (mm_provider r = 0 \<or> mm_provider r = mq_provider q) \<and>
      (mm_project r = 0 \<or> mm_project r = mq_project q) \<and>
      (mm_route r = 0 \<or> mm_route r = mq_route q) \<and>
      (mm_token r = 0 \<or> mm_token r = mq_token q))"

definition ListByQuery :: "u64 \<Rightarrow> mapping_query option \<Rightarrow> mapping_row list \<Rightarrow> mapping_row list" where
  "ListByQuery tenantID qo rows =
     (case qo of
        None \<Rightarrow> listActive tenantID rows
      | Some q \<Rightarrow>
          sort_key mapping_order
            (filter (\<lambda>r. tenant_scope tenantID r \<and> mm_deleted r = 0 \<and> query_match q r) rows))"

definition ListByClientType :: "u64 \<Rightarrow> string \<Rightarrow> mapping_row list \<Rightarrow> mapping_row list" where
  "ListByClientType tenantID clientType rows =
     sort_key mapping_order
       (filter (\<lambda>r. tenant_scope tenantID r \<and> mm_deleted r = 0 \<and>
                    (mm_client r = '''' \<or> mm_client r = clientType)) rows)"

definition Mapping_GetByID :: "u64 \<Rightarrow> u64 \<Rightarrow> mapping_row list \<Rightarrow> mapping_row option" where
  "Mapping_GetByID tenantID i rows =
     find (\<lambda>r. tenant_scope tenantID r \<and> mm_id r = i \<and> mm_deleted r = 0) (sort_key mm_id rows)"

definition Mapping_Count :: "u64 \<Rightarrow> mapping_row list \<Rightarrow> nat" where
  "Mapping_Count tenantID rows =
     length (filter (\<lambda>r. tenant_scope tenantID r \<and> mm_deleted r = 0) rows)"

section \<open>Changes\<close>

text \<open>\<open>toModel\<close> fills in the scope; the database chooses the identifier, here an argument.\<close>

definition toModel :: "mapping_row \<Rightarrow> mapping_row" where
  "toModel m = (if mm_scope m = '''' then m \<lparr> mm_scope := ''global'' \<rparr> else m)"

definition Mapping_Create :: "u64 \<Rightarrow> mapping_row \<Rightarrow> mapping_row list \<Rightarrow> mapping_row list" where
  "Mapping_Create newID m rows = rows @ [(toModel m) \<lparr> mm_id := newID \<rparr>]"

definition Mapping_Update :: "mapping_row \<Rightarrow> mapping_row list \<Rightarrow> mapping_row list" where
  "Mapping_Update m rows =
     (if \<exists>r \<in> set rows. mm_id r = mm_id m
      then map (\<lambda>r. if mm_id r = mm_id m then toModel m else r) rows
      else rows @ [toModel m])"

definition Mapping_Delete :: "u64 \<Rightarrow> u64 \<Rightarrow> int \<Rightarrow> mapping_row list \<Rightarrow> mapping_row list" where
  "Mapping_Delete tenantID i nowMs rows =
     map (\<lambda>r. if tenant_scope tenantID r \<and> mm_id r = i then r \<lparr> mm_deleted := nowMs \<rparr> else r) rows"

definition Mapping_DeleteAll :: "u64 \<Rightarrow> int \<Rightarrow> mapping_row list \<Rightarrow> mapping_row list" where
  "Mapping_DeleteAll tenantID nowMs rows =
     map (\<lambda>r. if tenant_scope tenantID r \<and> mm_deleted r = 0 then r \<lparr> mm_deleted := nowMs \<rparr> else r)
       rows"

definition Mapping_ClearAll :: "u64 \<Rightarrow> mapping_row list \<Rightarrow> mapping_row list" where
  "Mapping_ClearAll tenantID rows = filter (\<lambda>r. \<not> tenant_scope tenantID r) rows"

record reorder_request =
  ro_scope :: string
  ro_provider :: u64
  ro_ids :: "u64 list"

datatype reorder_error =
    UnsupportedScope
  | ProviderIDRequired
  | OrderedIDsRequired
  | ZeroID
  | DuplicateID u64
  | NotEveryMapping
  | MissingID u64

fun seen_loop :: "u64 list \<Rightarrow> u64 list \<Rightarrow> reorder_error + u64 list" where
  "seen_loop [] seen = Inr seen"
| "seen_loop (i # is) seen =
     (if i = 0 then Inl ZeroID
      else if i \<in> set seen then Inl (DuplicateID i)
      else seen_loop is (i # seen))"

definition reorder_rows :: "u64 \<Rightarrow> reorder_request \<Rightarrow> mapping_row \<Rightarrow> bool" where
  "reorder_rows tenantID req r =
     (tenant_scope tenantID r \<and> mm_deleted r = 0 \<and> mm_scope r = ro_scope req \<and>
      (ro_scope req = ''provider'' \<longrightarrow> mm_provider r = ro_provider req))"

fun renumber :: "u64 \<Rightarrow> reorder_request \<Rightarrow> nat \<Rightarrow> u64 list \<Rightarrow> mapping_row list \<Rightarrow> mapping_row list" where
  "renumber tenantID req i [] rows = rows"
| "renumber tenantID req i (k # ks) rows =
     renumber tenantID req (Suc i) ks
       (map (\<lambda>r. if mm_id r = k \<and> reorder_rows tenantID req r
                 then r \<lparr> mm_priority := int i * 10 \<rparr> else r) rows)"

definition Reorder ::
  "u64 \<Rightarrow> reorder_request \<Rightarrow> mapping_row list \<Rightarrow> reorder_error + mapping_row list" where
  "Reorder tenantID req0 rows =
     (let req = (if ro_scope req0 = '''' then req0 \<lparr> ro_scope := ''global'' \<rparr> else req0)
      in if ro_scope req \<notin> {''global'', ''provider'', ''route''} then Inl UnsupportedScope
         else if ro_scope req = ''provider'' \<and> ro_provider req = 0 then Inl ProviderIDRequired
         else if ro_ids req = [] then Inl OrderedIDsRequired
         else (case seen_loop (ro_ids req) [] of
                 Inl e \<Rightarrow> Inl e
               | Inr seen \<Rightarrow>
                   (let models = filter (reorder_rows tenantID req) rows
                    in if length models \<noteq> length (ro_ids req) then Inl NotEveryMapping
                       else (case find (\<lambda>r. mm_id r \<notin> set seen) models of
                               Some r \<Rightarrow> Inl (MissingID (mm_id r))
                             | None \<Rightarrow> Inr (renumber tenantID req 0 (ro_ids req) rows)))))"

text \<open>\<open>SeedDefaults\<close> replaces the rules of the tenant; the rules all go from Claude to Antigravity.\<close>

definition default_rules :: "(string \<times> string) list" where
  "default_rules =
     [(''gpt-4o-mini*'', ''gemini-2.5-flash''), (''gpt-4o*'', ''gemini-3-flash''),
      (''gpt-4*'', ''gemini-3-pro-high''), (''gpt-3.5*'', ''gemini-2.5-flash''),
      (''o1-*'', ''gemini-3-pro-high''), (''o3-*'', ''gemini-3-pro-high''),
      (''claude-3-5-sonnet-*'', ''claude-sonnet-4-5''),
      (''claude-3-opus-*'', ''claude-opus-4-6-thinking''),
      (''claude-opus-4-6*'', ''claude-opus-4-6-thinking''),
      (''claude-opus-4-5*'', ''claude-opus-4-5-thinking''),
      (''claude-opus-4-*'', ''claude-opus-4-6-thinking''),
      (''claude-haiku-*'', ''gemini-2.5-flash-lite''),
      (''claude-3-haiku-*'', ''gemini-2.5-flash-lite''),
      (''*opus*'', ''claude-opus-4-6-thinking''), (''*sonnet*'', ''claude-sonnet-4-5''),
      (''*haiku*'', ''gemini-2.5-flash-lite'')]"

definition default_row :: "u64 \<Rightarrow> nat \<times> u64 \<times> string \<times> string \<Rightarrow> mapping_row" where
  "default_row tenantID e =
     (case e of (i, newID, pattern, target) \<Rightarrow>
        \<lparr> mm_id = newID, mm_tenant = tenantID, mm_deleted = 0, mm_scope = ''global'',
          mm_client = ''claude'', mm_provider_type = ''antigravity'', mm_provider = 0,
          mm_project = 0, mm_route = 0, mm_token = 0, mm_pattern = pattern, mm_target = target,
          mm_priority = int i \<rparr>)"

definition SeedDefaults :: "u64 \<Rightarrow> u64 list \<Rightarrow> mapping_row list \<Rightarrow> mapping_row list" where
  "SeedDefaults tenantID newIDs rows =
     Mapping_ClearAll tenantID rows @
     map (default_row tenantID) (zip [0 ..< length default_rules] (zip newIDs default_rules))"

section \<open>Candidates\<close>

fun candidate_loop :: "string \<Rightarrow> mapping_row list \<Rightarrow> string list \<Rightarrow> string list" where
  "candidate_loop requestModel [] candidates = candidates"
| "candidate_loop requestModel (m # ms) candidates =
     (if MatchWildcard (mm_pattern m) requestModel \<noteq> Some True
      then candidate_loop requestModel ms candidates
      else if mm_target m \<in> set candidates then candidate_loop requestModel ms candidates
      else candidate_loop requestModel ms (candidates @ [mm_target m]))"

definition mapping_query_for ::
  "string \<Rightarrow> provider \<Rightarrow> u64 \<Rightarrow> route \<Rightarrow> u64 \<Rightarrow> mapping_query" where
  "mapping_query_for clientType p projectID r apiTokenID =
     \<lparr> mq_client = clientType, mq_provider_type = pv_type p, mq_provider = pv_id p,
       mq_project = projectID, mq_route = rt_id r, mq_token = apiTokenID \<rparr>"

text \<open>The argument \<open>listed\<close> is the answer of the repository; a failed query gives no rules.\<close>

definition mapModelCandidates :: "string \<Rightarrow> mapping_row list \<Rightarrow> string list" where
  "mapModelCandidates requestModel listed =
     (let candidates = candidate_loop requestModel listed []
      in if candidates = [] then [requestModel] else candidates)"

definition mapModel :: "string \<Rightarrow> mapping_row list \<Rightarrow> string" where
  "mapModel requestModel listed = mapModelCandidates requestModel listed ! 0"

section \<open>Lemmas\<close>

abbreviation matches :: "string \<Rightarrow> mapping_row \<Rightarrow> bool" where
  "matches requestModel m \<equiv> MatchWildcard (mm_pattern m) requestModel = Some True"

lemma remdups_snoc: "remdups (us @ [t]) = filter (\<lambda>u. u \<noteq> t) (remdups us) @ [t]"
  by (induction us) auto

lemma candidate_loop_eq:
  "candidate_loop rm ms cs =
     cs @ filter (\<lambda>t. t \<notin> set cs)
       (rev (remdups (rev (map mm_target (filter (matches rm) ms)))))"
proof (induction rm ms cs rule: candidate_loop.induct)
  case (2 rm m ms cs)
  show ?case
    using 2 by (auto simp: remdups_snoc rev_filter intro!: filter_cong)
qed simp

lemma mapModelCandidates_nonempty [simp]: "mapModelCandidates rm ms \<noteq> []"
  by (simp add: mapModelCandidates_def Let_def)

lemma mapModelCandidates_distinct: "distinct (mapModelCandidates rm ms)"
  by (simp add: mapModelCandidates_def candidate_loop_eq Let_def)

lemma set_mapModelCandidates:
  "set (mapModelCandidates rm ms) =
     (if \<exists>m \<in> set ms. matches rm m then mm_target ` {m \<in> set ms. matches rm m} else {rm})"
  by (auto simp: mapModelCandidates_def candidate_loop_eq Let_def filter_empty_conv)

lemma mapModel_find:
  "mapModel rm ms = (case find (matches rm) ms of Some m \<Rightarrow> mm_target m | None \<Rightarrow> rm)"
proof -
  have "find (matches rm) ms =
      (case filter (matches rm) ms of [] \<Rightarrow> None | m # _ \<Rightarrow> Some m)"
    by (induction ms) auto
  then show ?thesis
    by (cases "filter (matches rm) ms")
      (simp_all add: mapModel_def mapModelCandidates_def candidate_loop_eq remdups_snoc Let_def)
qed

lemma ListByQuery_sorted: "sorted (map mapping_order (ListByQuery t q rows))"
  by (simp add: ListByQuery_def listActive_def split: option.split)

lemma set_ListByQuery:
  "set (ListByQuery t (Some q) rows) =
     {r \<in> set rows. tenant_scope t r \<and> mm_deleted r = 0 \<and> query_match q r}"
  by (auto simp: ListByQuery_def)

end
