(* ===== verification/Response_Capture.thy ===== *)
theory Response_Capture
  imports Go_Text
begin

text \<open>
  The response writer that remembers what the client got, \<^verbatim>\<open>internal/executor/response_capture.go\<close>:
  status, whether anything was sent, and a bounded snapshot of the body.
\<close>

section \<open>UTF-8\<close>

text \<open>\<^verbatim>\<open>utf8.DecodeRune\<close> as far as its size goes: \<open>Some n\<close> is a valid encoding of \<open>n\<close> bytes at the
  start of the string, \<open>None\<close> the error rune of width one (or an empty string).\<close>

definition byte :: "char \<Rightarrow> nat" where "byte c = of_char c"

definition cont :: "char \<Rightarrow> bool" where "cont c = (0x80 \<le> byte c \<and> byte c \<le> 0xBF)"

definition second_ok :: "nat \<Rightarrow> nat \<Rightarrow> bool" where
  "second_ok a b =
     (if a = 0xE0 then 0xA0 \<le> b \<and> b \<le> 0xBF
      else if a = 0xED then 0x80 \<le> b \<and> b \<le> 0x9F
      else if a = 0xF0 then 0x90 \<le> b \<and> b \<le> 0xBF
      else if a = 0xF4 then 0x80 \<le> b \<and> b \<le> 0x8F
      else 0x80 \<le> b \<and> b \<le> 0xBF)"

fun rune_size :: "string \<Rightarrow> nat option" where
  "rune_size [] = None"
| "rune_size (a # s) =
     (let n = byte a
      in if n < 0x80 then Some 1
         else if 0xC2 \<le> n \<and> n \<le> 0xDF then
           (case s of b # _ \<Rightarrow> if cont b then Some 2 else None | [] \<Rightarrow> None)
         else if 0xE0 \<le> n \<and> n \<le> 0xEF then
           (case s of b # c # _ \<Rightarrow> if second_ok n (byte b) \<and> cont c then Some 3 else None
                    | _ \<Rightarrow> None)
         else if 0xF0 \<le> n \<and> n \<le> 0xF4 then
           (case s of b # c # d # _ \<Rightarrow>
                        if second_ok n (byte b) \<and> cont c \<and> cont d then Some 4 else None
                    | _ \<Rightarrow> None)
         else None)"

lemma rune_size_pos: "rune_size s = Some n \<Longrightarrow> 0 < n \<and> n \<le> length s"
  by (cases s) (auto simp: Let_def split: if_splits list.splits)

declare rune_size.simps [simp del]

definition RuneStart :: "char \<Rightarrow> bool" where "RuneStart c = (\<not> cont c)"

definition replacement :: string where "replacement = byte_string [0xEF, 0xBF, 0xBD]"

text \<open>\<^verbatim>\<open>strings.ToValidUTF8\<close>: every run of invalid bytes becomes one replacement character.\<close>

function to_valid_utf8 :: "bool \<Rightarrow> string \<Rightarrow> string" where
  "to_valid_utf8 bad [] = []"
| "to_valid_utf8 bad (c # cs) =
     (case rune_size (c # cs) of
        None \<Rightarrow> (if bad then [] else replacement) @ to_valid_utf8 True cs
      | Some n \<Rightarrow> take n (c # cs) @ to_valid_utf8 False (drop n (c # cs)))"
  by pat_completeness auto
termination
  by (relation "measure (length \<circ> snd)") (auto simp del: rune_size.simps dest: rune_size_pos)

definition ToValidUTF8 :: "string \<Rightarrow> string" where "ToValidUTF8 s = to_valid_utf8 False s"

text \<open>The loop of \<open>trimTrailingPartialRune\<close>: at most four bytes back from the end.\<close>

fun trim_partial :: "nat \<Rightarrow> string \<Rightarrow> nat \<Rightarrow> string" where
  "trim_partial 0 b i = b"
| "trim_partial (Suc fuel) b i =
     (if i < length b then
        (let start = length b - 1 - i
         in if \<not> RuneStart (b ! start) then trim_partial fuel b (Suc i)
            else (case rune_size (drop start b) of
                    Some k \<Rightarrow> if start + k = length b then b else take start b
                  | None \<Rightarrow> take start b))
      else b)"

definition trimTrailingPartialRune :: "string \<Rightarrow> string" where
  "trimTrailingPartialRune b = trim_partial 4 b 0"

lemma trim_partial_prefix: "\<exists>n. trim_partial fuel b i = take n b"
proof (induction fuel b i rule: trim_partial.induct)
  case (1 b i)
  have "b = take (length b) b" by simp
  then show ?case by (metis trim_partial.simps(1))
next
  case (2 fuel b i)
  have "b = take (length b) b" by simp
  then have "\<exists>n. b = take n b" ..
  with 2 show ?case
    by (simp add: Let_def split: option.split) blast
qed

section \<open>The capture\<close>

record capture =
  rc_status :: int
  rc_body :: string
  rc_wrote :: bool
  rc_max :: nat
  rc_total :: int
  rc_truncated :: bool

definition NewResponseCapture :: "nat \<Rightarrow> capture" where
  "NewResponseCapture responseSnapshotMaxBytes =
     \<lparr> rc_status = 200, rc_body = '''', rc_wrote = False, rc_max = responseSnapshotMaxBytes,
       rc_total = 0, rc_truncated = False \<rparr>"

definition capture_WriteHeader :: "int \<Rightarrow> capture \<Rightarrow> capture" where
  "capture_WriteHeader code rc = rc \<lparr> rc_status := code, rc_wrote := True \<rparr>"

definition captureBounded :: "string \<Rightarrow> capture \<Rightarrow> capture" where
  "captureBounded b rc0 =
     (let rc = rc0 \<lparr> rc_total := wrap_i64 (rc_total rc0 + int (length b)) \<rparr>
      in if rc_max rc = 0 then rc \<lparr> rc_body := rc_body rc @ b \<rparr>
         else if rc_max rc \<le> length (rc_body rc) then rc \<lparr> rc_truncated := True \<rparr>
         else (let remaining = rc_max rc - length (rc_body rc)
               in if remaining < length b
                  then rc \<lparr> rc_body := rc_body rc @ take remaining b, rc_truncated := True \<rparr>
                  else rc \<lparr> rc_body := rc_body rc @ b \<rparr>))"

text \<open>A write of which the underlying writer accepted \<open>n\<close> bytes, at most all.\<close>

definition capture_Write :: "string \<Rightarrow> nat \<Rightarrow> capture \<Rightarrow> capture" where
  "capture_Write b n rc =
     (if 0 < min n (length b) then captureBounded (take n b) (rc \<lparr> rc_wrote := True \<rparr>) else rc)"

definition WroteToClient :: "capture \<Rightarrow> bool" where "WroteToClient rc = rc_wrote rc"

definition ellipsis :: string where "ellipsis = byte_string [0xE2, 0x80, 0xA6]"

definition capture_Body :: "capture \<Rightarrow> string" where
  "capture_Body rc =
     (if \<not> rc_truncated rc then rc_body rc
      else ToValidUTF8 (trimTrailingPartialRune (rc_body rc)) @ ellipsis @
           ''<response body truncated, '' @ show_int (rc_total rc) @
           '' bytes total, snapshot cap '' @ show_nat (rc_max rc) @ ''>'')"

text \<open>\<open>Flush\<close> is passed on to the underlying writer and leaves the capture as it is, even when it is what
  sends the header.\<close>

definition capture_Flush :: "capture \<Rightarrow> capture" where
  "capture_Flush rc = rc"

text \<open>The calls an adapter makes on the writer.\<close>

datatype writer_call = CallWriteHeader int | CallWrite string nat | CallFlush

fun capture_call :: "writer_call \<Rightarrow> capture \<Rightarrow> capture" where
  "capture_call (CallWriteHeader code) rc = capture_WriteHeader code rc"
| "capture_call (CallWrite b n) rc = capture_Write b n rc"
| "capture_call CallFlush rc = capture_Flush rc"

definition capture_calls :: "writer_call list \<Rightarrow> capture \<Rightarrow> capture" where
  "capture_calls cs rc = fold capture_call cs rc"

text \<open>\<open>CapturedHeaders\<close>: the first value of every header that has one.\<close>

definition first_values :: "(string \<times> string list) list \<Rightarrow> (string \<times> string) list" where
  "first_values h = map (\<lambda>(k, vs). (k, hd vs)) (filter (\<lambda>(k, vs). vs \<noteq> []) h)"

section \<open>What the snapshot holds\<close>

fun sent_bytes :: "writer_call list \<Rightarrow> string" where
  "sent_bytes [] = []"
| "sent_bytes (CallWriteHeader code # cs) = sent_bytes cs"
| "sent_bytes (CallWrite b n # cs) = take n b @ sent_bytes cs"
| "sent_bytes (CallFlush # cs) = sent_bytes cs"

definition capture_ok :: "string \<Rightarrow> capture \<Rightarrow> bool" where
  "capture_ok sent rc \<longleftrightarrow>
     rc_body rc = (if rc_max rc = 0 then sent else take (rc_max rc) sent) \<and>
     rc_truncated rc = (rc_max rc \<noteq> 0 \<and> rc_max rc < length sent) \<and>
     rc_total rc = int (length sent)"

lemma captureBounded_ok:
  assumes "capture_ok sent rc" and "length (sent @ b) < 2 ^ 63" and "b \<noteq> []"
  shows "capture_ok (sent @ b) (captureBounded b rc)"
proof -
  have "wrap_i64 (int (length sent) + int (length b)) = int (length sent) + int (length b)"
    using assms(2) by (intro wrap_i64_id) auto
  then have tot: "rc_total (captureBounded b rc) = int (length (sent @ b))"
    using assms(1) by (simp add: captureBounded_def capture_ok_def Let_def)
  consider "rc_max rc = 0" | "rc_max rc \<noteq> 0" "rc_max rc \<le> length sent" |
    "rc_max rc \<noteq> 0" "length sent < rc_max rc" by linarith
  then show ?thesis
  proof cases
    case 1
    then show ?thesis using assms(1) tot by (simp add: captureBounded_def capture_ok_def Let_def)
  next
    case 2
    have "rc_max rc < length sent + length b" using 2 assms(3) by (cases b) auto
    with 2 show ?thesis
      using assms(1) tot by (simp add: captureBounded_def capture_ok_def Let_def)
  next
    case 3
    then show ?thesis
      using assms(1) tot by (auto simp: captureBounded_def capture_ok_def Let_def)
  qed
qed

lemma capture_Write_ok:
  assumes "capture_ok sent rc" and "length (sent @ take n b) < 2 ^ 63"
  shows "capture_ok (sent @ take n b) (capture_Write b n rc)"
proof (cases "take n b = []")
  case True
  then show ?thesis using assms(1) by (auto simp: capture_Write_def)
next
  case False
  have "capture_ok sent (rc \<lparr> rc_wrote := True \<rparr>)" using assms(1) by (simp add: capture_ok_def)
  from captureBounded_ok [OF this assms(2) False] False show ?thesis
    by (simp add: capture_Write_def)
qed

lemma capture_calls_ok:
  assumes "capture_ok sent rc" and "length (sent @ sent_bytes cs) < 2 ^ 63"
  shows "capture_ok (sent @ sent_bytes cs) (capture_calls cs rc)"
  using assms
proof (induction cs arbitrary: sent rc)
  case (Cons c cs)
  show ?case
  proof (cases c)
    case (CallWriteHeader code)
    then have "capture_ok sent (capture_call c rc)"
      using Cons.prems(1) by (simp add: capture_ok_def capture_WriteHeader_def)
    then show ?thesis using Cons CallWriteHeader by (simp add: capture_calls_def)
  next
    case (CallWrite b n)
    then have "capture_ok (sent @ take n b) (capture_call c rc)"
      using Cons.prems capture_Write_ok [of sent rc n b] by simp
    then show ?thesis
      using Cons.IH [of "sent @ take n b"] Cons.prems CallWrite by (simp add: capture_calls_def)
  next
    case CallFlush
    then show ?thesis using Cons by (simp add: capture_calls_def capture_Flush_def)
  qed
qed (simp add: capture_calls_def)

lemma captureBounded_wrote [simp]: "rc_wrote (captureBounded b rc) = rc_wrote rc"
  by (simp add: captureBounded_def Let_def)

lemma captureBounded_max [simp]: "rc_max (captureBounded b rc) = rc_max rc"
  by (simp add: captureBounded_def Let_def)

lemma capture_call_max [simp]: "rc_max (capture_call c rc) = rc_max rc"
  by (cases c) (simp_all add: capture_WriteHeader_def capture_Write_def capture_Flush_def)

lemma capture_calls_max [simp]: "rc_max (capture_calls cs rc) = rc_max rc"
  by (induction cs arbitrary: rc) (simp_all add: capture_calls_def)

fun commits :: "writer_call \<Rightarrow> bool" where
  "commits (CallWriteHeader code) = True"
| "commits (CallWrite b n) = (0 < min n (length b))"
| "commits CallFlush = False"

lemma wrote_iff: "rc_wrote (capture_calls cs rc) = (rc_wrote rc \<or> list_ex commits cs)"
proof (induction cs arbitrary: rc)
  case (Cons c cs)
  have "rc_wrote (capture_call c rc) = (rc_wrote rc \<or> commits c)"
    by (cases c) (simp_all add: capture_WriteHeader_def capture_Write_def capture_Flush_def)
  with Cons show ?case by (simp add: capture_calls_def disj_assoc)
qed (simp add: capture_calls_def)

text \<open>What sends the header to the client, as \<^verbatim>\<open>net/http\<close> documents its writer: a header, any write, also an
  empty one, and a flush.  The capture does not notice the last two.\<close>

fun sends_header :: "writer_call \<Rightarrow> bool" where
  "sends_header (CallWriteHeader code) = True"
| "sends_header (CallWrite b n) = True"
| "sends_header CallFlush = True"

lemma header_unnoticed:
  "list_all sends_header [CallFlush, CallWrite '''' 0] \<and>
   \<not> WroteToClient (capture_calls [CallFlush, CallWrite '''' 0] (NewResponseCapture cap))"
  by (simp add: WroteToClient_def wrote_iff NewResponseCapture_def)

end
