(* ===== verification/Dispatch.thy ===== *)
theory Dispatch
  imports Exec_Policy Exec_Records Model_Mapping Response_Capture Router
    "HOL-Library.While_Combinator"
begin

text \<open>
  The dispatch of a matched request, \<open>dispatch\<close> of \<^verbatim>\<open>internal/executor/middleware_dispatch.go\<close> with
  \<^verbatim>\<open>quota.go\<close>: the routes in order, on each route the attempts with their retries, and per attempt the
  conversion, the provider slot, the upstream call, its bill, and the decision what comes next.

  Everything the code asks its surroundings (the clock, the request context, the adapter, the
  database) is an environment indexed by a counter of such questions, so any sequence of answers is
  possible; what it changes is the state \<open>exec\<close>.  Broadcasts and log lines are left out; so is the
  parallel \<open>WarmToken\<close>, which changes nothing the code reads.
\<close>

section \<open>State and environment\<close>

text \<open>What an adapter is called with.\<close>

record adapter_call =
  ac_provider :: provider
  ac_client :: string
  ac_original :: string
  ac_mapped :: string
  ac_body :: string
  ac_uri :: string
  ac_attempt :: u64
  ac_timeouts :: "(go_duration \<times> go_duration) option"

text \<open>What it does: the events it sends, the calls it makes on its response writer, the headers it
  sets, its error; and, for a response converted at the end, how many bytes of it the client takes
  and the error of that write.\<close>

record adapter_outcome =
  ao_events :: "adapter_event option list"
  ao_calls :: "writer_call list"
  ao_headers :: "(string \<times> string list) list"
  ao_err :: "go_error option"
  ao_final_taken :: nat
  ao_final_err :: "go_error option"

text \<open>The attempt with the events in it, what the capture saw, and the error of the attempt.\<close>

record call_result =
  cr_attempt :: upstream_attempt
  cr_capture :: capture
  cr_headers :: "(string \<times> string) list"
  cr_err :: "go_error option"

text \<open>Calls to the repositories, and calls to adapters with their results.\<close>

datatype exec_event =
    RequestCreated proxy_request
  | RequestSaved proxy_request
  | AttemptCreated upstream_attempt
  | AttemptSaved upstream_attempt
  | Sent adapter_call call_result
  | FrameSent ws_call "go_error option"

text \<open>\<open>x_tokens\<close> are the quota balances of the API tokens by tenant and identifier; \<open>x_log\<close> has the
  newest event first.\<close>

record ('c, 'k) exec =
  x_req :: proxy_request
  x_current :: "upstream_attempt option"
  x_last :: "go_error option"
  x_err :: "go_error option"
  x_log :: "exec_event list"
  x_manager :: "'c manager"
  x_sticky :: "'k option"
  x_limiter :: limiter
  x_tokens :: "((u64 \<times> u64) \<times> u64) list"
  x_smart :: "(string \<times> string) list"
  x_waits :: "go_duration list"
  x_tick :: nat

record ('c, 'k) exec_env =
  ee_ctx :: "nat \<Rightarrow> go_error option"
  ee_clock :: "nat \<Rightarrow> go_time"
  ee_adapter :: "nat \<Rightarrow> adapter_call \<Rightarrow> adapter_outcome"
  ee_attempt_id :: "nat \<Rightarrow> u64 option"
  ee_timer_first :: "nat \<Rightarrow> bool"
  ee_token_repo :: bool
  ee_token_fails :: "nat \<Rightarrow> bool"
  ee_mappings :: "mapping_row list"
  ee_default_retry :: "u64 \<Rightarrow> retry_config option"
  ee_settings :: "settings option"
  ee_bridge :: bool
  ee_hostname :: "string \<Rightarrow> string option"
  ee_transform :: "string \<Rightarrow> string \<Rightarrow> string \<Rightarrow> string \<Rightarrow> bool \<Rightarrow> go_error + string"
  ee_convert_response :: "string \<Rightarrow> string \<Rightarrow> string \<Rightarrow> go_error + string option"
  ee_convert_chunk :: "string \<Rightarrow> string \<Rightarrow> string list \<Rightarrow> string \<Rightarrow> go_error + string"
  ee_convert_uri :: "string \<Rightarrow> string \<Rightarrow> string \<Rightarrow> string \<Rightarrow> bool \<Rightarrow> string"
  ee_inject_agent :: "string \<Rightarrow> string \<Rightarrow> string"
  ee_param_policy :: "string \<Rightarrow> string \<Rightarrow> string \<Rightarrow> provider \<Rightarrow> string"
  ee_effort :: "string \<Rightarrow> string"
  ee_scaled :: "go_duration \<Rightarrow> u64 \<Rightarrow> nat \<Rightarrow> go_duration"
  ee_snapshot_max :: nat
  ee_calc :: calculator
  ee_cooldown_ops :: "'c store_ops"
  ee_sticky_ops :: "'k sticky_ops"

text \<open>The fixed part of \<open>execState\<close>; \<open>ep_agent\<close> is the \<open>User-Agent\<close> header when there are headers.\<close>

record exec_params =
  ep_tenant :: u64
  ep_client :: string
  ep_project :: u64
  ep_session :: string
  ep_model :: string
  ep_stream :: bool
  ep_token :: u64
  ep_dev_mode :: bool
  ep_body :: string
  ep_original_body :: string
  ep_agent :: "string option"
  ep_uri :: string
  ep_sticky :: "sticky_write option"

datatype control = Return | NextRoute | Again int nat

section \<open>Small steps\<close>

definition ticked :: "('c, 'k) exec \<Rightarrow> ('c, 'k) exec" where
  "ticked x = x \<lparr> x_tick := Suc (x_tick x) \<rparr>"

definition emit :: "exec_event \<Rightarrow> ('c, 'k) exec \<Rightarrow> ('c, 'k) exec" where
  "emit e x = x \<lparr> x_log := e # x_log x \<rparr>"

definition upd_req :: "(proxy_request \<Rightarrow> proxy_request) \<Rightarrow> ('c, 'k) exec \<Rightarrow> ('c, 'k) exec" where
  "upd_req f x = x \<lparr> x_req := f (x_req x) \<rparr>"

definition save_request :: "('c, 'k) exec \<Rightarrow> ('c, 'k) exec" where
  "save_request x = emit (RequestSaved (x_req x)) x"

definition clearProxyRequestDetail :: "bool \<Rightarrow> proxy_request \<Rightarrow> proxy_request" where
  "clearProxyRequestDetail clearDetail q =
     (if clearDetail then q \<lparr> pr_request_info := None, pr_response_info := None \<rparr> else q)"

definition end_request :: "go_time \<Rightarrow> proxy_request \<Rightarrow> proxy_request" where
  "end_request now q = q \<lparr> pr_end := now, pr_duration := elapsed (pr_start q) now \<rparr>"

definition end_attempt :: "go_time \<Rightarrow> upstream_attempt \<Rightarrow> upstream_attempt" where
  "end_attempt now a = a \<lparr> ua_end := now, ua_duration := elapsed (ua_start a) now \<rparr>"

text \<open>Return from the dispatch with an error.\<close>

definition fail_with :: "go_error \<Rightarrow> ('c, 'k) exec \<Rightarrow> ('c, 'k) exec" where
  "fail_with e x = x \<lparr> x_last := Some e, x_err := Some e \<rparr>"

section \<open>Quota\<close>

definition providerQuotaEnabled :: "provider \<Rightarrow> bool" where
  "providerQuotaEnabled p = (case pv_config p of None \<Rightarrow> False | Some cfg \<Rightarrow> cfg_quota cfg)"

text \<open>The message is the UTF-8 text of the source.\<close>

definition quota_message :: string where
  "quota_message = byte_string
     [0xE5, 0xBD, 0x93, 0xE5, 0x89, 0x8D, 0xE4, 0xBB, 0xA4, 0xE7, 0x89, 0x8C,
      0xE9, 0xA2, 0x9D, 0xE5, 0xBA, 0xA6, 0xE4, 0xB8, 0x8D, 0xE8, 0xB6, 0xB3]"

definition newAPITokenQuotaError :: go_error where
  "newAPITokenQuotaError =
     ProxyError (blank_fields \<lparr> pf_message := quota_message, pf_scope := ScopeRequest,
                   pf_code := ''api_token_quota_exhausted'', pf_status := 403 \<rparr>)
       (Some ErrAPITokenQuotaExhausted)"

definition token_balance :: "((u64 \<times> u64) \<times> u64) list \<Rightarrow> u64 \<Rightarrow> u64 \<Rightarrow> u64" where
  "token_balance tokens tenantID tokenID = lookup_default 0 tokens (tenantID, tokenID)"

definition ensureAPITokenQuota ::
  "('c, 'k) exec_env \<Rightarrow> u64 \<Rightarrow> u64 \<Rightarrow> provider \<Rightarrow> ('c, 'k) exec \<Rightarrow>
     ('c, 'k) exec \<times> go_error option" where
  "ensureAPITokenQuota env tenantID tokenID p x =
     (if \<not> providerQuotaEnabled p then (x, None)
      else if \<not> ee_token_repo env \<or> tokenID = 0 then (x, Some newAPITokenQuotaError)
      else if ee_token_fails env (x_tick x) \<or> map_of (x_tokens x) (tenantID, tokenID) = None \<or>
              token_balance (x_tokens x) tenantID tokenID = 0
      then (ticked x, Some newAPITokenQuotaError)
      else (ticked x, None))"

text \<open>\<open>DeductQuotaBalanceToZero\<close> of \<^verbatim>\<open>internal/repository/sqlite/api_token.go\<close>: an update of the row, if
  there is one.\<close>

definition DeductQuotaBalanceToZero ::
  "u64 \<Rightarrow> u64 \<Rightarrow> u64 \<Rightarrow> ((u64 \<times> u64) \<times> u64) list \<Rightarrow> ((u64 \<times> u64) \<times> u64) list" where
  "DeductQuotaBalanceToZero tenantID i amount tokens =
     (if i = 0 \<or> amount = 0 then tokens
      else case map_of tokens (tenantID, i) of
             None \<Rightarrow> tokens
           | Some balance \<Rightarrow>
               AList.update (tenantID, i) (if amount < balance then balance - amount else 0) tokens)"

definition deductAPITokenQuota ::
  "('c, 'k) exec_env \<Rightarrow> u64 \<Rightarrow> u64 \<Rightarrow> u64 \<Rightarrow> ('c, 'k) exec \<Rightarrow> ('c, 'k) exec" where
  "deductAPITokenQuota env tenantID tokenID cost x =
     (if \<not> ee_token_repo env \<or> tokenID = 0 \<or> cost = 0 then x
      else if ee_token_fails env (x_tick x) then ticked x
      else (ticked x) \<lparr> x_tokens := DeductQuotaBalanceToZero tenantID tokenID cost (x_tokens x) \<rparr>)"

definition rejectProxyRequestForQuota :: "go_error \<Rightarrow> go_time \<Rightarrow> proxy_request \<Rightarrow> proxy_request" where
  "rejectProxyRequestForQuota err now q =
     end_request now (q \<lparr> pr_status := ''REJECTED'', pr_error := error_text err,
                          pr_status_code := 403 \<rparr>)"

section \<open>Before the upstream call\<close>

text \<open>The attempt's request: \<open>Some\<close> error returns from the dispatch.\<close>

definition prepare_attempt ::
  "('c, 'k) exec_env \<Rightarrow> exec_params \<Rightarrow> bool \<Rightarrow> retry_config matched_route \<Rightarrow> string \<Rightarrow>
     ('c, 'k) exec \<Rightarrow> ('c, 'k) exec \<times> bool" where
  "prepare_attempt env st clearDetail mr mappedModel x =
     (let x = upd_req (\<lambda>q. q \<lparr> pr_route := rt_id (mr_route mr), pr_provider := pv_id (mr_provider mr),
                                pr_mapped_model := mappedModel \<rparr>) x
      in case ensureAPITokenQuota env (ep_tenant st) (ep_token st) (mr_provider mr) x of
           (x, Some quotaErr) \<Rightarrow>
             (let now = ee_clock env (x_tick x);
                  x = upd_req (clearProxyRequestDetail clearDetail \<circ>
                               rejectProxyRequestForQuota quotaErr now) (ticked x)
              in (fail_with quotaErr (save_request x), False))
         | (x, None) \<Rightarrow> (save_request x, True))"

record conversion =
  cv_needed :: bool
  cv_client :: string
  cv_body :: string
  cv_uri :: string

definition unconverted :: "exec_params \<Rightarrow> conversion" where
  "unconverted st = \<lparr> cv_needed = False, cv_client = ep_client st, cv_body = ep_body st,
     cv_uri = ep_uri st \<rparr>"

definition converted_to ::
  "('c, 'k) exec_env \<Rightarrow> exec_params \<Rightarrow> string \<Rightarrow> string \<Rightarrow> string \<Rightarrow> conversion" where
  "converted_to env st target mappedModel body =
     \<lparr> cv_needed = True, cv_client = target, cv_body = body,
       cv_uri = ee_convert_uri env (ep_uri st) (ep_client st) target mappedModel (ep_stream st) \<rparr>"

text \<open>The request in the format the provider speaks; the error refuses the route.\<close>

definition convert_request ::
  "('c, 'k) exec_env \<Rightarrow> exec_params \<Rightarrow> retry_config matched_route \<Rightarrow> string \<Rightarrow>
     go_error + conversion" where
  "convert_request env st mr mappedModel =
     (let p = mr_provider mr; clientType = ep_client st;
          supportedTypes = ad_client_types (mr_adapter mr)
      in if bridgeCodexForOpenRouter (ee_hostname env) (ee_bridge env) p clientType supportedTypes
         then (case ee_transform env clientType ClientTypeOpenAI (ep_body st) mappedModel
                      (ep_stream st) of
                 Inl convErr \<Rightarrow> Inr (unconverted st)
               | Inr body \<Rightarrow> Inr (converted_to env st ClientTypeOpenAI mappedModel body))
         else if NeedConvert clientType supportedTypes then
           (let target = GetPreferredTargetType supportedTypes clientType (pv_type p)
            in if target = clientType then Inr (unconverted st)
               else
                 (let body = (case ep_agent st of
                                Some agent \<Rightarrow>
                                  if target = ClientTypeCodex
                                  then ee_inject_agent env (ep_body st) agent else ep_body st
                              | None \<Rightarrow> ep_body st)
                  in case ee_transform env clientType target body mappedModel (ep_stream st) of
                       Inl convErr \<Rightarrow>
                         Inl (ProxyError (blank_fields
                                \<lparr> pf_retryable := True, pf_scope := ScopeRequest,
                                  pf_message := ''request format conversion failed'' \<rparr>)
                              (Some convErr))
                     | Inr body \<Rightarrow> Inr (converted_to env st target mappedModel body)))
         else Inr (unconverted st))"

definition slot_error :: go_error where
  "slot_error =
     ProxyError (blank_fields \<lparr> pf_retryable := True, pf_scope := ScopeProvider,
                   pf_reason := ReasonConcurrentLimit, pf_status := 429,
                   pf_message := ''provider concurrency limit reached before upstream dispatch'' \<rparr>)
       (Some ErrNoAvailableProviders_error)"

definition blank_attempt :: "string \<Rightarrow> string \<Rightarrow> attempt" where
  "blank_attempt requestModel mappedModel =
     \<lparr> a_request_model = requestModel, a_mapped_model = mappedModel, a_response_model = '''',
       a_input = 0, a_output = 0, a_input_image = 0, a_output_image = 0, a_cache_read = 0,
       a_cache_write = 0, a_cache5m = 0, a_cache1h = 0, a_price_id = 0, a_multiplier = 0,
       a_cost = 0, a_upstream_cost = 0 \<rparr>"

definition new_attempt ::
  "u64 \<Rightarrow> u64 \<Rightarrow> u64 \<Rightarrow> bool \<Rightarrow> go_time \<Rightarrow> string \<Rightarrow> string \<Rightarrow> proxy_request \<Rightarrow> upstream_attempt" where
  "new_attempt tenantID routeID providerID isStream start requestModel mappedModel q =
     \<lparr> ua_id = 0, ua_tenant = (if pr_tenant q = 0 then tenantID else pr_tenant q),
       ua_request = pr_id q, ua_route = routeID, ua_provider = providerID, ua_stream = isStream,
       ua_status = ''IN_PROGRESS'', ua_error = '''', ua_start = start, ua_end = zero_time,
       ua_duration = 0, ua_ttft = 0, ua_request_info = pr_request_info q,
       ua_response_info = None, ua_cost = blank_attempt requestModel mappedModel \<rparr>"

text \<open>The attempt record is created, even when the database refuses it.\<close>

definition start_attempt ::
  "('c, 'k) exec_env \<Rightarrow> exec_params \<Rightarrow> retry_config matched_route \<Rightarrow> string \<Rightarrow> go_time \<Rightarrow>
     ('c, 'k) exec \<Rightarrow> ('c, 'k) exec \<times> upstream_attempt" where
  "start_attempt env st mr mappedModel start x =
     (let a = new_attempt (ep_tenant st) (rt_id (mr_route mr)) (pv_id (mr_provider mr))
                (ep_stream st) start (ep_model st) mappedModel (x_req x);
          a = (case ee_attempt_id env (x_tick x) of None \<Rightarrow> a | Some i \<Rightarrow> a \<lparr> ua_id := i \<rparr>);
          x = emit (AttemptCreated a) (ticked x);
          x = upd_req (\<lambda>q. q \<lparr> pr_attempts := pr_attempts q + 1 \<rparr>) (x \<lparr> x_current := Some a \<rparr>)
      in (x, a))"

definition note_effort :: "string \<Rightarrow> ('c, 'k) exec \<Rightarrow> ('c, 'k) exec" where
  "note_effort effort x =
     (if effort \<noteq> '''' \<and> effort \<noteq> pr_effort (x_req x)
      then save_request (upd_req (\<lambda>q. q \<lparr> pr_effort := effort \<rparr>) x) else x)"

section \<open>The upstream call\<close>

text \<open>What reaches the capture through a converting writer on a stream: headers at once, every chunk
  converted, nothing for an empty or failed conversion.\<close>

fun stream_calls ::
  "(string list \<Rightarrow> string \<Rightarrow> go_error + string) \<Rightarrow> string list \<Rightarrow> writer_call list \<Rightarrow>
     writer_call list" where
  "stream_calls conv earlier [] = []"
| "stream_calls conv earlier (CallWriteHeader code # cs) =
     CallWriteHeader code # stream_calls conv earlier cs"
| "stream_calls conv earlier (CallWrite b n # cs) =
     (case conv earlier b of
        Inl err \<Rightarrow> []
      | Inr out \<Rightarrow> if out = '''' then [] else [CallWrite out n]) @ stream_calls conv (earlier @ [b]) cs"
| "stream_calls conv earlier (CallFlush # cs) = CallFlush # stream_calls conv earlier cs"

text \<open>On a non-streaming response it keeps status and body back.\<close>

fun buffered_status :: "int \<Rightarrow> writer_call list \<Rightarrow> int" where
  "buffered_status s [] = s"
| "buffered_status s (CallWriteHeader code # cs) = buffered_status code cs"
| "buffered_status s (CallWrite b n # cs) = buffered_status s cs"
| "buffered_status s (CallFlush # cs) = buffered_status s cs"

fun buffered_body :: "writer_call list \<Rightarrow> string" where
  "buffered_body [] = []"
| "buffered_body (CallWriteHeader code # cs) = buffered_body cs"
| "buffered_body (CallWrite b n # cs) = b @ buffered_body cs"
| "buffered_body (CallFlush # cs) = buffered_body cs"

text \<open>But a flush goes through at once.\<close>

definition flushes :: "writer_call list \<Rightarrow> writer_call list" where
  "flushes cs = filter (\<lambda>c. c = CallFlush) cs"

definition conversion_error :: "go_error \<Rightarrow> go_error" where
  "conversion_error e = Wrap (''response format conversion failed: '' @ error_text e) e"

text \<open>\<open>Finalize\<close>: the calls it makes on the capture, and its error.\<close>

definition Finalize_conversion ::
  "(string \<Rightarrow> go_error + string option) \<Rightarrow> adapter_outcome \<Rightarrow> writer_call list \<times> go_error option" where
  "Finalize_conversion convert out =
     (let early = flushes (ao_calls out)
      in case convert (buffered_body (ao_calls out)) of
           Inl err \<Rightarrow> (early, Some (conversion_error err))
         | Inr None \<Rightarrow> (early, Some (conversion_error (Sentinel ''converted response is nil'')))
         | Inr (Some body) \<Rightarrow>
             (early @ [CallWriteHeader (buffered_status 200 (ao_calls out)),
                       CallWrite body (ao_final_taken out)], ao_final_err out))"

definition finalize_error :: "go_error \<Rightarrow> go_error" where
  "finalize_error e =
     ProxyError (blank_fields \<lparr> pf_retryable := True, pf_scope := ScopeProvider,
                   pf_reason := ReasonServerError,
                   pf_message := ''response format conversion failed'' \<rparr>) (Some e)"

text \<open>The calls on the capture and the error of the attempt.\<close>

definition attempt_outcome ::
  "('c, 'k) exec_env \<Rightarrow> exec_params \<Rightarrow> conversion \<Rightarrow> adapter_outcome \<Rightarrow>
     writer_call list \<times> go_error option" where
  "attempt_outcome env st cv out =
     (if cv_needed cv then
        (if ep_stream st
         then (stream_calls (ee_convert_chunk env (cv_client cv) (ep_client st)) [] (ao_calls out),
               ao_err out)
         else (case Finalize_conversion
                      (ee_convert_response env (cv_client cv) (ep_client st)) out of
                 (calls, Some finalizeErr) \<Rightarrow> (calls, Some (finalize_error finalizeErr))
               | (calls, None) \<Rightarrow> (calls, ao_err out)))
      else (ao_calls out, ao_err out))"

definition adapter_call_for ::
  "('c, 'k) exec_env \<Rightarrow> exec_params \<Rightarrow> retry_config matched_route \<Rightarrow> conversion \<Rightarrow> string \<Rightarrow> u64 \<Rightarrow>
     adapter_call" where
  "adapter_call_for env st mr cv mappedModel attemptID =
     \<lparr> ac_provider = mr_provider mr, ac_client = cv_client cv, ac_original = ep_client st,
       ac_mapped = mappedModel,
       ac_body = ee_param_policy env (cv_body cv) (cv_client cv) mappedModel (mr_provider mr),
       ac_uri = cv_uri cv, ac_attempt = attemptID,
       ac_timeouts =
         (if shouldApplyOpenAIChatStreamTimeouts (ee_settings env) (ep_client st) (cv_uri cv)
          then Some (streamFirstEventTimeout (ee_settings env), streamIdleTimeout (ee_settings env))
          else None) \<rparr>"

text \<open>Call, events and writes; the slot is given back when the adapter returns.\<close>

definition call_upstream ::
  "('c, 'k) exec_env \<Rightarrow> exec_params \<Rightarrow> bool \<Rightarrow> retry_config matched_route \<Rightarrow> conversion \<Rightarrow> string \<Rightarrow>
     nat \<Rightarrow> upstream_attempt \<Rightarrow> ('c, 'k) exec \<Rightarrow> ('c, 'k) exec \<times> call_result" where
  "call_upstream env st clearDetail mr cv mappedModel slot a x =
     (let call = adapter_call_for env st mr cv mappedModel (ua_id a);
          x = note_effort (ee_effort env (ac_body call)) x;
          out = ee_adapter env (x_tick x) call;
          x = (ticked x) \<lparr> x_limiter := release slot (x_limiter x) \<rparr>;
          (calls, err) = attempt_outcome env st cv out;
          a = processAdapterEventsRealtime clearDetail (ao_events out) a;
          r = \<lparr> cr_attempt = a,
                cr_capture = capture_calls calls (NewResponseCapture (ee_snapshot_max env)),
                cr_headers = first_values (ao_headers out), cr_err = err \<rparr>
      in ((emit (Sent call r) x) \<lparr> x_current := Some a \<rparr>, r))"

definition captured_response :: "call_result \<Rightarrow> response_info" where
  "captured_response r =
     \<lparr> rsp_status = rc_status (cr_capture r), rsp_headers = cr_headers r,
       rsp_body = capture_Body (cr_capture r) \<rparr>"

section \<open>After the upstream call\<close>

text \<open>The bill of the attempt, the deduction, and saving the attempt row.\<close>

definition settle_attempt ::
  "('c, 'k) exec_env \<Rightarrow> u64 \<Rightarrow> u64 \<Rightarrow> bool \<Rightarrow> u64 \<Rightarrow> upstream_attempt \<Rightarrow>
     ('c, 'k) exec \<Rightarrow> ('c, 'k) exec \<times> upstream_attempt" where
  "settle_attempt env tenantID tokenID clearDetail multiplier a x =
     (let a = a \<lparr> ua_cost :=
                    the (fst (FinalizeAttemptCost (ee_calc env) (Some (ua_cost a)) multiplier)) \<rparr>;
          x = deductAPITokenQuota env tenantID tokenID (a_cost (ua_cost a)) x;
          a = (if clearDetail then a \<lparr> ua_request_info := None, ua_response_info := None \<rparr> else a);
          x = emit (AttemptSaved a) x
      in (x \<lparr> x_current := None \<rparr>, a))"

definition mirror_attempt :: "upstream_attempt \<Rightarrow> proxy_request \<Rightarrow> proxy_request" where
  "mirror_attempt a q =
     q \<lparr> pr_cost := the (MirrorCostToRequest (Some (pr_cost q)) (Some (ua_cost a))),
         pr_ttft := ua_ttft a \<rparr>"

definition on_success ::
  "('c, 'k) exec_env \<Rightarrow> exec_params \<Rightarrow> bool \<Rightarrow> retry_config matched_route \<Rightarrow> conversion \<Rightarrow> string \<Rightarrow>
     string option \<Rightarrow> call_result \<Rightarrow> ('c, 'k) exec \<Rightarrow> ('c, 'k) exec" where
  "on_success env st clearDetail mr cv mappedModel smartKey r x =
     (let p = mr_provider mr;
          a = (end_attempt (ee_clock env (x_tick x)) (cr_attempt r))
                \<lparr> ua_status := ''COMPLETED'', ua_error := '''' \<rparr>;
          (x, a) = settle_attempt env (ep_tenant st) (ep_token st) clearDetail
                     (getProviderMultiplier p (ep_client st)) a (ticked x);
          x = (ticked x) \<lparr> x_manager := RecordSuccess (ee_cooldown_ops env) (pv_id p) (cv_client cv)
                            mappedModel (ee_clock env (x_tick x)) (x_manager x) \<rparr>;
          x = (case smartKey of
                 None \<Rightarrow> x
               | Some key \<Rightarrow> x \<lparr> x_smart := recordSmartMappingSuccess key mappedModel (x_smart x) \<rparr>);
          x = (case ep_sticky st of
                 None \<Rightarrow> x
               | Some sw \<Rightarrow>
                   (ticked x) \<lparr> x_sticky := fst (Manager_Set (ee_sticky_ops env) (sw_key sw) (pv_id p)
                                 (sw_ttl sw) (ee_clock env (x_tick x)) (x_sticky x)) \<rparr>);
          now = ee_clock env (x_tick x);
          x = upd_req (\<lambda>q. clearProxyRequestDetail clearDetail (mirror_attempt a
                 ((end_request now (q \<lparr> pr_status := ''COMPLETED'' \<rparr>))
                    \<lparr> pr_final_attempt := ua_id a, pr_response_model := mappedModel,
                      pr_response_info := (if clearDetail then pr_response_info q
                                           else Some (captured_response r)),
                      pr_status_code := rc_status (cr_capture r) \<rparr>))) (ticked x)
      in (save_request x) \<lparr> x_last := None \<rparr>)"

text \<open>End the request as failed, with a change of its own, and save it.\<close>

definition end_failed ::
  "('c, 'k) exec_env \<Rightarrow> bool \<Rightarrow> string \<Rightarrow> string \<Rightarrow> (proxy_request \<Rightarrow> proxy_request) \<Rightarrow>
     ('c, 'k) exec \<Rightarrow> ('c, 'k) exec" where
  "end_failed env clearDetail status text f x =
     save_request (upd_req (\<lambda>q. clearProxyRequestDetail clearDetail
        (f ((end_request (ee_clock env (x_tick x)) q) \<lparr> pr_status := status, pr_error := text \<rparr>)))
        (ticked x))"

text \<open>The first half of a failed attempt: the attempt is settled and shown in the request.\<close>

definition record_failure ::
  "('c, 'k) exec_env \<Rightarrow> exec_params \<Rightarrow> bool \<Rightarrow> retry_config matched_route \<Rightarrow> call_result \<Rightarrow> go_error \<Rightarrow>
     ('c, 'k) exec \<Rightarrow> ('c, 'k) exec" where
  "record_failure env st clearDetail mr r err x =
     (let a = end_attempt (ee_clock env (x_tick x)) (cr_attempt r);
          x = (ticked x) \<lparr> x_last := Some err \<rparr>;
          a = a \<lparr> ua_status := attemptFailureStatus (ee_ctx env (x_tick x)) (Some err),
                  ua_error := error_text err \<rparr>;
          (x, a) = settle_attempt env (ep_tenant st) (ep_token st) clearDetail
                     (getProviderMultiplier (mr_provider mr) (ep_client st)) a (ticked x);
          x = upd_req (\<lambda>q. clearProxyRequestDetail clearDetail (mirror_attempt a
                 (let q = q \<lparr> pr_final_attempt := ua_id a \<rparr>
                  in if capture_Body (cr_capture r) \<noteq> ''''
                     then q \<lparr> pr_status_code := rc_status (cr_capture r),
                              pr_response_info := (if clearDetail then pr_response_info q
                                                   else Some (captured_response r)) \<rparr>
                     else q))) x
      in save_request x)"

text \<open>The policies of the executor on a structured error, and the error carrying the result.\<close>

definition classify_error :: "provider \<Rightarrow> go_error \<Rightarrow> go_error" where
  "classify_error p err =
     (case asProxyError err of
        None \<Rightarrow> err
      | Some pe \<Rightarrow>
          with_proxy_fields (fst (applyCommittedStreamReadRetryPolicy
             (applyDisabledErrorCooldownRetryPolicy p (normalizeUpstreamConnectionError pe)))) err)"

definition force_retry ::
  "go_error \<Rightarrow> go_error option \<Rightarrow> bool \<Rightarrow> bool \<Rightarrow> go_error" where
  "force_retry err ctx committed enabled =
     (case asProxyError err of
        None \<Rightarrow> err
      | Some pe \<Rightarrow>
          with_proxy_fields (fst (forceRetryUpstreamErrorIfSafe pe ctx committed enabled)) err)"

definition error_retryable :: "go_error \<Rightarrow> bool" where
  "error_retryable err =
     (case asProxyError err of None \<Rightarrow> False | Some pe \<Rightarrow> pf_retryable (fst pe))"

definition http_error_status :: "proxy_fields \<Rightarrow> proxy_request \<Rightarrow> proxy_request" where
  "http_error_status f q =
     (if 400 \<le> pf_status f \<and> pf_status f < 600 then q \<lparr> pr_status_code := pf_status f \<rparr> else q)"

text \<open>What is frozen: nothing for a disconnected client, a provider that opted out, or a network error
  that will be retried.\<close>

definition cool_down ::
  "('c, 'k) exec_env \<Rightarrow> retry_config \<Rightarrow> provider \<Rightarrow> string \<Rightarrow> string \<Rightarrow> int \<Rightarrow> go_error \<Rightarrow>
     ('c, 'k) exec \<Rightarrow> ('c, 'k) exec" where
  "cool_down env rc p clientType mappedModel attempt err x =
     (case asProxyError err of
        None \<Rightarrow> x
      | Some (f, c) \<Rightarrow>
          (let ctx = ee_ctx env (x_tick x); x = ticked x
           in if ctx \<noteq> Some Canceled \<and> \<not> shouldSkipErrorCooldownUpdate p \<and>
                 \<not> shouldDeferNetworkErrorCooldown f attempt rc
              then (ticked x) \<lparr> x_manager := handleCooldown (ee_cooldown_ops env) (ee_settings env) f p
                                 clientType mappedModel (ee_clock env (x_tick x)) (x_manager x) \<rparr>
              else x))"

text \<open>The wait before a retry; a context that ends meanwhile wins unless the timer fires as well.\<close>

definition wait_retry ::
  "('c, 'k) exec_env \<Rightarrow> bool \<Rightarrow> go_duration \<Rightarrow> go_error \<Rightarrow> ('c, 'k) exec \<Rightarrow> ('c, 'k) exec \<times> bool" where
  "wait_retry env clearDetail wait err x =
     (let t = x_tick x; x = (ticked x) \<lparr> x_waits := wait # x_waits x \<rparr>
      in case ee_ctx env t of
           None \<Rightarrow> (x, True)
         | Some ce \<Rightarrow>
             if ee_timer_first env t then (x, True)
             else
               (let (status, text) = requestFailureStatusAndError (Some ce) (Some err);
                    text = (if status = ''CANCELLED'' then ''client disconnected during retry wait''
                            else if ce = DeadlineExceeded then ''request timeout during retry wait''
                            else text)
                in (fail_with ce (end_failed env clearDetail status text id x), False)))"

text \<open>The counters of the next attempt: smart mapping moves to the next model after its number of
  failures, in a circle, without waiting; otherwise the same model is tried again after a wait.\<close>

definition next_attempt ::
  "('c, 'k) exec_env \<Rightarrow> bool \<Rightarrow> retry_config \<Rightarrow> provider \<Rightarrow> bool \<Rightarrow> nat \<Rightarrow> int \<Rightarrow> nat \<Rightarrow> go_error \<Rightarrow>
     ('c, 'k) exec \<Rightarrow> ('c, 'k) exec \<times> control" where
  "next_attempt env clearDetail rc p smart ncand attempt idx err x =
     (if smart \<and> getSmartMappingRetryLimit p \<le> attempt + 1 then
        (let idx = Suc idx;
             idx = (if ncand \<le> idx \<and> shouldSkipErrorCooldown p then 0 else idx)
         in if idx < ncand then (x, Again 0 idx) else (x, NextRoute))
      else if attempt < rc_max_retries rc \<or> shouldSkipErrorCooldown p then
        (let retryAfter = (case asProxyError err of None \<Rightarrow> 0 | Some pe \<Rightarrow> pf_retry_after (fst pe));
             wait = (if 0 < retryAfter then retryAfter
                     else calculateBackoff (ee_scaled env) rc attempt);
             (x, go) = wait_retry env clearDetail wait err x
         in if go then (x, Again (attempt + 1) idx) else (x, Return))
      else (x, Again (attempt + 1) idx))"

text \<open>The second half of a failed attempt: return, next route, or another attempt.\<close>

definition decide ::
  "('c, 'k) exec_env \<Rightarrow> bool \<Rightarrow> retry_config \<Rightarrow> retry_config matched_route \<Rightarrow> conversion \<Rightarrow> string \<Rightarrow>
     bool \<Rightarrow> nat \<Rightarrow> int \<Rightarrow> nat \<Rightarrow> call_result \<Rightarrow> go_error \<Rightarrow> ('c, 'k) exec \<Rightarrow>
     ('c, 'k) exec \<times> control" where
  "decide env clearDetail rc mr cv mappedModel smart ncand attempt idx r err0 x =
     (let p = mr_provider mr;
          err = classify_error p err0;
          x = x \<lparr> x_last := Some err \<rparr>;
          ok = (asProxyError err \<noteq> None);
          committed = WroteToClient (cr_capture r)
      in if committed \<and> \<not> shouldRetryCommittedResponseError (asProxyError err) then
           (fail_with err (end_failed env clearDetail ''FAILED'' (error_text err)
              (\<lambda>q. q \<lparr> pr_status_code := rc_status (cr_capture r),
                       pr_response_info := (if clearDetail then pr_response_info q
                                            else Some (captured_response r)) \<rparr>) x), Return)
         else if ok \<and> ee_ctx env (x_tick x) \<noteq> None then
           (let ce = the (ee_ctx env (x_tick x));
                (status, text) = requestFailureStatusAndError (Some ce) (Some err)
            in (fail_with ce (end_failed env clearDetail status text id (ticked x)), Return))
         else
           (let x = ticked x;
                err = force_retry err (ee_ctx env (x_tick x)) committed (rc_force rc);
                x = (ticked x) \<lparr> x_last := Some err \<rparr>
            in case asProxyError err of
                 None \<Rightarrow> (x, NextRoute)
               | Some (f, c) \<Rightarrow>
                   if pf_scope f = ScopeRequest \<and> \<not> pf_retryable f then
                     (fail_with err (end_failed env clearDetail ''FAILED'' (error_text err)
                        (http_error_status f) x), Return)
                   else
                     (let x = cool_down env rc p (cv_client cv) mappedModel attempt err x
                      in if \<not> pf_retryable f then (x, NextRoute)
                         else next_attempt env clearDetail rc p smart ncand attempt idx err x)))"

section \<open>One attempt\<close>

record route_plan =
  rp_candidates :: "string list"
  rp_smart :: bool
  rp_key :: string
  rp_retry :: retry_config

text \<open>Up to the converted request: the retry limit, the context, the model, the quota, the format.  A
  control says that the attempt ends there.\<close>

definition ready_attempt ::
  "('c, 'k) exec_env \<Rightarrow> exec_params \<Rightarrow> bool \<Rightarrow> route_plan \<Rightarrow> retry_config matched_route \<Rightarrow>
     int \<Rightarrow> nat \<Rightarrow> ('c, 'k) exec \<Rightarrow> ('c, 'k) exec \<times> (control + string \<times> conversion)" where
  "ready_attempt env st clearDetail plan mr attempt idx x =
     (if rc_max_retries (rp_retry plan) < attempt \<and> \<not> shouldSkipErrorCooldown (mr_provider mr)
      then (x, Inl NextRoute)
      else case ee_ctx env (x_tick x) of
             Some ce \<Rightarrow> (fail_with ce (ticked x), Inl Return)
           | None \<Rightarrow>
               (let x = ticked x
                in if length (rp_candidates plan) \<le> idx then (x, Inl NextRoute)
                   else
                     (let mappedModel = rp_candidates plan ! idx;
                          (x, go) = prepare_attempt env st clearDetail mr mappedModel x
                      in if \<not> go then (x, Inl Return)
                         else case convert_request env st mr mappedModel of
                                Inl convErr \<Rightarrow> (x \<lparr> x_last := Some convErr \<rparr>, Inl NextRoute)
                              | Inr cv \<Rightarrow> (x, Inr (mappedModel, cv)))))"

text \<open>The provider slot, the attempt record and the call; \<open>None\<close> when the provider is full.\<close>

definition try_call ::
  "('c, 'k) exec_env \<Rightarrow> exec_params \<Rightarrow> bool \<Rightarrow> retry_config matched_route \<Rightarrow> conversion \<Rightarrow>
     string \<Rightarrow> ('c, 'k) exec \<Rightarrow> ('c, 'k) exec \<times> call_result option" where
  "try_call env st clearDetail mr cv mappedModel x =
     (let p = mr_provider mr;
          start = ee_clock env (x_tick x);
          (l, slot) = TryAcquire (pv_id p) (pv_max_concurrency p) (x_limiter x)
      in case slot of
           None \<Rightarrow> ((ticked x) \<lparr> x_last := Some slot_error \<rparr>, None)
         | Some h \<Rightarrow>
             (let (x, a) = start_attempt env st mr mappedModel start
                             ((ticked x) \<lparr> x_limiter := l \<rparr>);
                  (x, r) = call_upstream env st clearDetail mr cv mappedModel h a x
              in (x, Some r)))"

definition attempt_step ::
  "('c, 'k) exec_env \<Rightarrow> exec_params \<Rightarrow> bool \<Rightarrow> route_plan \<Rightarrow> retry_config matched_route \<Rightarrow>
     int \<Rightarrow> nat \<Rightarrow> ('c, 'k) exec \<Rightarrow> ('c, 'k) exec \<times> control" where
  "attempt_step env st clearDetail plan mr attempt idx x =
     (case ready_attempt env st clearDetail plan mr attempt idx x of
        (x, Inl c) \<Rightarrow> (x, c)
      | (x, Inr (mappedModel, cv)) \<Rightarrow>
          (case try_call env st clearDetail mr cv mappedModel x of
             (x, None) \<Rightarrow> (x, NextRoute)
           | (x, Some r) \<Rightarrow>
               (case cr_err r of
                  None \<Rightarrow>
                    (on_success env st clearDetail mr cv mappedModel
                       (if rp_smart plan then Some (rp_key plan) else None) r x, Return)
                | Some err \<Rightarrow>
                    decide env clearDetail (rp_retry plan) mr cv mappedModel (rp_smart plan)
                      (length (rp_candidates plan)) attempt idx r err
                      (record_failure env st clearDetail mr r err x))))"

section \<open>All attempts, all routes\<close>

text \<open>The attempts on one route; \<open>None\<close> is a loop that never ends.  The flag says whether the dispatch
  goes on with the next route.\<close>

definition going_on :: "control \<times> ('c, 'k) exec \<Rightarrow> bool" where
  "going_on s = (case fst s of Again attempt idx \<Rightarrow> True | _ \<Rightarrow> False)"

definition loop_step ::
  "('c, 'k) exec_env \<Rightarrow> exec_params \<Rightarrow> bool \<Rightarrow> route_plan \<Rightarrow> retry_config matched_route \<Rightarrow>
     control \<times> ('c, 'k) exec \<Rightarrow> control \<times> ('c, 'k) exec" where
  "loop_step env st clearDetail plan mr s =
     (case s of
        (Again attempt idx, x) \<Rightarrow>
          (let (x, c) = attempt_step env st clearDetail plan mr attempt idx x in (c, x))
      | _ \<Rightarrow> s)"

definition attempt_loop ::
  "('c, 'k) exec_env \<Rightarrow> exec_params \<Rightarrow> bool \<Rightarrow> route_plan \<Rightarrow> retry_config matched_route \<Rightarrow>
     int \<Rightarrow> nat \<Rightarrow> ('c, 'k) exec \<Rightarrow> (('c, 'k) exec \<times> bool) option" where
  "attempt_loop env st clearDetail plan mr attempt idx x =
     map_option (\<lambda>(c, x). (x, c = NextRoute))
       (while_option going_on (loop_step env st clearDetail plan mr) (Again attempt idx, x))"

lemma attempt_loop_unfold:
  "attempt_loop env st clearDetail plan mr attempt idx x =
     (case attempt_step env st clearDetail plan mr attempt idx x of
        (x', Return) \<Rightarrow> Some (x', False)
      | (x', NextRoute) \<Rightarrow> Some (x', True)
      | (x', Again attempt' idx') \<Rightarrow>
          attempt_loop env st clearDetail plan mr attempt' idx' x')"
proof -
  have "loop_step env st clearDetail plan mr (Again attempt idx, x) =
      (snd (attempt_step env st clearDetail plan mr attempt idx x),
       fst (attempt_step env st clearDetail plan mr attempt idx x))"
    by (simp add: loop_step_def split_def Let_def)
  then show ?thesis
    unfolding attempt_loop_def
    by (subst while_option_unfold)
      (auto simp: going_on_def split_def while_option_unfold [of going_on _ "(Return, _)"]
        while_option_unfold [of going_on _ "(NextRoute, _)"] split: control.split)
qed

definition plan_route ::
  "('c, 'k) exec_env \<Rightarrow> exec_params \<Rightarrow> retry_config matched_route \<Rightarrow> ('c, 'k) exec \<Rightarrow>
     route_plan \<times> nat" where
  "plan_route env st mr x =
     (let p = mr_provider mr;
          listed = ListByQuery (ep_tenant st)
                     (Some (mapping_query_for (ep_client st) p (ep_project st) (mr_route mr)
                        (ep_token st))) (ee_mappings env);
          candidates = mapModelCandidates (ep_model st) listed;
          smart = shouldUseSmartMappingRetry p (length candidates);
          key = (if smart then smartMappingCacheKey (ep_tenant st) (ep_model st) (mr_route mr) p
                                 (ep_client st) (ep_project st) (ep_token st) candidates
                 else '''')
      in (\<lparr> rp_candidates = candidates, rp_smart = smart, rp_key = key,
            rp_retry = getRetryConfig (mr_retry mr) (ee_default_retry env (ep_tenant st)) \<rparr>,
          if smart then smartMappingStartIndex (x_smart x) key candidates else 0))"

text \<open>All routes failed.\<close>

definition exhausted ::
  "('c, 'k) exec_env \<Rightarrow> bool \<Rightarrow> ('c, 'k) exec \<Rightarrow> ('c, 'k) exec" where
  "exhausted env clearDetail x =
     (let now = ee_clock env (x_tick x);
          x = upd_req (\<lambda>q. clearProxyRequestDetail clearDetail
                (let q = end_request now (q \<lparr> pr_status := ''FAILED'' \<rparr>)
                 in case x_last x of
                      None \<Rightarrow> q
                    | Some e \<Rightarrow>
                        (let q = q \<lparr> pr_error := error_text e \<rparr>
                         in case asProxyError e of
                              None \<Rightarrow> q
                            | Some (f, c) \<Rightarrow> http_error_status f q))) (ticked x);
          x = save_request x
      in case x_last x of
           Some e \<Rightarrow> x \<lparr> x_err := Some e \<rparr>
         | None \<Rightarrow>
             fail_with (ProxyError (blank_fields \<lparr> pf_message := ''all routes exhausted'',
                          pf_scope := ScopeRequest \<rparr>) (Some ErrAllRoutesFailed)) x)"

fun route_loop ::
  "('c, 'k) exec_env \<Rightarrow> exec_params \<Rightarrow> bool \<Rightarrow> retry_config matched_route list \<Rightarrow>
     ('c, 'k) exec \<Rightarrow> ('c, 'k) exec option" where
  "route_loop env st clearDetail [] x = Some (exhausted env clearDetail x)"
| "route_loop env st clearDetail (mr # mrs) x =
     (case ee_ctx env (x_tick x) of
        Some ce \<Rightarrow> Some (fail_with ce (ticked x))
      | None \<Rightarrow>
          (let (plan, idx) = plan_route env st mr (ticked x)
           in case attempt_loop env st clearDetail plan mr 0 idx (ticked x) of
                None \<Rightarrow> None
              | Some (x, False) \<Rightarrow> Some x
              | Some (x, True) \<Rightarrow> route_loop env st clearDetail mrs x))"

definition dispatch ::
  "('c, 'k) exec_env \<Rightarrow> exec_params \<Rightarrow> retry_config matched_route list \<Rightarrow> ('c, 'k) exec \<Rightarrow>
     ('c, 'k) exec option" where
  "dispatch env st routes x =
     route_loop env st (shouldClearRequestDetailFor (ee_settings env) (ep_dev_mode st)) routes x"

end
