(* ===== verification/Dispatch_Lemmas.thy ===== *)
theory Dispatch_Lemmas
  imports Dispatch
begin

text \<open>
  What each step of the dispatch leaves alone and what it writes, as rewrite rules, and the rule by
  which an invariant of one attempt becomes a property of the whole dispatch.
\<close>

named_theorems exec_simps \<open>what the steps of a dispatch keep\<close>

section \<open>Elementary steps\<close>

lemma ticked_sel [simp]:
  "x_req (ticked x) = x_req x" "x_current (ticked x) = x_current x" "x_last (ticked x) = x_last x"
  "x_err (ticked x) = x_err x" "x_log (ticked x) = x_log x" "x_manager (ticked x) = x_manager x"
  "x_sticky (ticked x) = x_sticky x" "x_limiter (ticked x) = x_limiter x"
  "x_tokens (ticked x) = x_tokens x" "x_smart (ticked x) = x_smart x"
  "x_waits (ticked x) = x_waits x" "x_tick (ticked x) = Suc (x_tick x)"
  by (simp_all add: ticked_def)

lemma emit_sel [simp]:
  "x_req (emit e x) = x_req x" "x_current (emit e x) = x_current x" "x_last (emit e x) = x_last x"
  "x_err (emit e x) = x_err x" "x_log (emit e x) = e # x_log x" "x_manager (emit e x) = x_manager x"
  "x_sticky (emit e x) = x_sticky x" "x_limiter (emit e x) = x_limiter x"
  "x_tokens (emit e x) = x_tokens x" "x_smart (emit e x) = x_smart x"
  "x_waits (emit e x) = x_waits x" "x_tick (emit e x) = x_tick x"
  by (simp_all add: emit_def)

lemma upd_req_sel [simp]:
  "x_req (upd_req f x) = f (x_req x)" "x_current (upd_req f x) = x_current x"
  "x_last (upd_req f x) = x_last x" "x_err (upd_req f x) = x_err x"
  "x_log (upd_req f x) = x_log x" "x_manager (upd_req f x) = x_manager x"
  "x_sticky (upd_req f x) = x_sticky x" "x_limiter (upd_req f x) = x_limiter x"
  "x_tokens (upd_req f x) = x_tokens x" "x_smart (upd_req f x) = x_smart x"
  "x_waits (upd_req f x) = x_waits x" "x_tick (upd_req f x) = x_tick x"
  by (simp_all add: upd_req_def)

lemma save_request_sel [simp]:
  "x_req (save_request x) = x_req x" "x_current (save_request x) = x_current x"
  "x_last (save_request x) = x_last x" "x_err (save_request x) = x_err x"
  "x_log (save_request x) = RequestSaved (x_req x) # x_log x"
  "x_manager (save_request x) = x_manager x"
  "x_sticky (save_request x) = x_sticky x" "x_limiter (save_request x) = x_limiter x"
  "x_tokens (save_request x) = x_tokens x" "x_smart (save_request x) = x_smart x"
  "x_waits (save_request x) = x_waits x" "x_tick (save_request x) = x_tick x"
  by (simp_all add: save_request_def)

lemma fail_with_sel [simp]:
  "x_req (fail_with e x) = x_req x" "x_current (fail_with e x) = x_current x"
  "x_last (fail_with e x) = Some e" "x_err (fail_with e x) = Some e"
  "x_log (fail_with e x) = x_log x" "x_manager (fail_with e x) = x_manager x"
  "x_sticky (fail_with e x) = x_sticky x" "x_limiter (fail_with e x) = x_limiter x"
  "x_tokens (fail_with e x) = x_tokens x" "x_smart (fail_with e x) = x_smart x"
  "x_waits (fail_with e x) = x_waits x" "x_tick (fail_with e x) = x_tick x"
  by (simp_all add: fail_with_def)

section \<open>Projections of the log\<close>

fun sent_of :: "exec_event list \<Rightarrow> (adapter_call \<times> call_result) list" where
  "sent_of [] = []"
| "sent_of (Sent c r # es) = (c, r) # sent_of es"
| "sent_of (RequestSaved q # es) = sent_of es"
| "sent_of (RequestCreated q # es) = sent_of es"
| "sent_of (FrameSent w e # es) = sent_of es"
| "sent_of (AttemptCreated a # es) = sent_of es"
| "sent_of (AttemptSaved a # es) = sent_of es"

fun created_of :: "exec_event list \<Rightarrow> upstream_attempt list" where
  "created_of [] = []"
| "created_of (Sent c r # es) = created_of es"
| "created_of (RequestSaved q # es) = created_of es"
| "created_of (RequestCreated q # es) = created_of es"
| "created_of (FrameSent w e # es) = created_of es"
| "created_of (AttemptCreated a # es) = a # created_of es"
| "created_of (AttemptSaved a # es) = created_of es"

fun saved_of :: "exec_event list \<Rightarrow> upstream_attempt list" where
  "saved_of [] = []"
| "saved_of (Sent c r # es) = saved_of es"
| "saved_of (RequestSaved q # es) = saved_of es"
| "saved_of (RequestCreated q # es) = saved_of es"
| "saved_of (FrameSent w e # es) = saved_of es"
| "saved_of (AttemptCreated a # es) = saved_of es"
| "saved_of (AttemptSaved a # es) = a # saved_of es"

abbreviation sent :: "('c, 'k) exec \<Rightarrow> (adapter_call \<times> call_result) list" where
  "sent x \<equiv> sent_of (x_log x)"
abbreviation created :: "('c, 'k) exec \<Rightarrow> upstream_attempt list" where
  "created x \<equiv> created_of (x_log x)"
abbreviation saved :: "('c, 'k) exec \<Rightarrow> upstream_attempt list" where
  "saved x \<equiv> saved_of (x_log x)"

section \<open>What the pieces keep\<close>

lemma quota_keeps [exec_simps]:
  "x_req (fst (ensureAPITokenQuota env t i p x)) = x_req x"
  "x_current (fst (ensureAPITokenQuota env t i p x)) = x_current x"
  "x_last (fst (ensureAPITokenQuota env t i p x)) = x_last x"
  "x_err (fst (ensureAPITokenQuota env t i p x)) = x_err x"
  "x_log (fst (ensureAPITokenQuota env t i p x)) = x_log x"
  "x_limiter (fst (ensureAPITokenQuota env t i p x)) = x_limiter x"
  "x_tokens (fst (ensureAPITokenQuota env t i p x)) = x_tokens x"
  "x_waits (fst (ensureAPITokenQuota env t i p x)) = x_waits x"
  "x_manager (fst (ensureAPITokenQuota env t i p x)) = x_manager x"
  "x_sticky (fst (ensureAPITokenQuota env t i p x)) = x_sticky x"
  by (simp_all add: ensureAPITokenQuota_def)

lemma quota_tick: "x_tick x \<le> x_tick (fst (ensureAPITokenQuota env t i p x))"
  by (simp add: ensureAPITokenQuota_def)

lemma deduct_keeps [exec_simps]:
  "x_req (deductAPITokenQuota env t i c x) = x_req x"
  "x_current (deductAPITokenQuota env t i c x) = x_current x"
  "x_last (deductAPITokenQuota env t i c x) = x_last x"
  "x_err (deductAPITokenQuota env t i c x) = x_err x"
  "x_log (deductAPITokenQuota env t i c x) = x_log x"
  "x_limiter (deductAPITokenQuota env t i c x) = x_limiter x"
  "x_waits (deductAPITokenQuota env t i c x) = x_waits x"
  "x_manager (deductAPITokenQuota env t i c x) = x_manager x"
  "x_sticky (deductAPITokenQuota env t i c x) = x_sticky x"
  by (simp_all add: deductAPITokenQuota_def)

lemma deduct_tick: "x_tick x \<le> x_tick (deductAPITokenQuota env t i c x)"
  by (simp add: deductAPITokenQuota_def)

lemma prepare_keeps [exec_simps]:
  "x_current (fst (prepare_attempt env st cd mr m x)) = x_current x"
  "sent (fst (prepare_attempt env st cd mr m x)) = sent x"
  "created (fst (prepare_attempt env st cd mr m x)) = created x"
  "saved (fst (prepare_attempt env st cd mr m x)) = saved x"
  "x_limiter (fst (prepare_attempt env st cd mr m x)) = x_limiter x"
  "x_tokens (fst (prepare_attempt env st cd mr m x)) = x_tokens x"
  "x_waits (fst (prepare_attempt env st cd mr m x)) = x_waits x"
  "x_manager (fst (prepare_attempt env st cd mr m x)) = x_manager x"
  "x_sticky (fst (prepare_attempt env st cd mr m x)) = x_sticky x"
  by (simp_all add: prepare_attempt_def Let_def split_def exec_simps split: option.split)

lemma prepare_req:
  "snd (prepare_attempt env st cd mr m x) \<Longrightarrow>
   x_req (fst (prepare_attempt env st cd mr m x)) =
     (x_req x) \<lparr> pr_route := rt_id (mr_route mr), pr_provider := pv_id (mr_provider mr),
                 pr_mapped_model := m \<rparr> \<and>
   x_last (fst (prepare_attempt env st cd mr m x)) = x_last x \<and>
   x_err (fst (prepare_attempt env st cd mr m x)) = x_err x"
  by (simp add: prepare_attempt_def Let_def split_def exec_simps split: option.splits)

lemma prepare_tick: "x_tick x \<le> x_tick (fst (prepare_attempt env st cd mr m x))"
  using quota_tick [of "upd_req (\<lambda>q. q \<lparr> pr_route := rt_id (mr_route mr),
      pr_provider := pv_id (mr_provider mr), pr_mapped_model := m \<rparr>) x" env "ep_tenant st"
      "ep_token st" "mr_provider mr"]
  by (simp add: prepare_attempt_def Let_def split_def split: option.split)

lemma start_keeps [exec_simps]:
  "x_last (fst (start_attempt env st mr m t x)) = x_last x"
  "x_err (fst (start_attempt env st mr m t x)) = x_err x"
  "sent (fst (start_attempt env st mr m t x)) = sent x"
  "created (fst (start_attempt env st mr m t x)) = snd (start_attempt env st mr m t x) # created x"
  "saved (fst (start_attempt env st mr m t x)) = saved x"
  "x_limiter (fst (start_attempt env st mr m t x)) = x_limiter x"
  "x_tokens (fst (start_attempt env st mr m t x)) = x_tokens x"
  "x_waits (fst (start_attempt env st mr m t x)) = x_waits x"
  "x_manager (fst (start_attempt env st mr m t x)) = x_manager x"
  "x_sticky (fst (start_attempt env st mr m t x)) = x_sticky x"
  "x_tick (fst (start_attempt env st mr m t x)) = Suc (x_tick x)"
  "x_req (fst (start_attempt env st mr m t x)) = (x_req x) \<lparr> pr_attempts := pr_attempts (x_req x) + 1 \<rparr>"
  by (simp_all add: start_attempt_def Let_def)

lemma note_effort_keeps [exec_simps]:
  "x_current (note_effort ef x) = x_current x" "x_last (note_effort ef x) = x_last x"
  "x_err (note_effort ef x) = x_err x" "sent (note_effort ef x) = sent x"
  "created (note_effort ef x) = created x" "saved (note_effort ef x) = saved x"
  "x_limiter (note_effort ef x) = x_limiter x" "x_tokens (note_effort ef x) = x_tokens x"
  "x_waits (note_effort ef x) = x_waits x" "x_manager (note_effort ef x) = x_manager x"
  "x_sticky (note_effort ef x) = x_sticky x" "x_tick (note_effort ef x) = x_tick x"
  "pr_attempts (x_req (note_effort ef x)) = pr_attempts (x_req x)"
  "pr_status (x_req (note_effort ef x)) = pr_status (x_req x)"
  by (simp_all add: note_effort_def)

lemma call_keeps [exec_simps]:
  "x_last (fst (call_upstream env st cd mr cv m h a x)) = x_last x"
  "x_err (fst (call_upstream env st cd mr cv m h a x)) = x_err x"
  "sent (fst (call_upstream env st cd mr cv m h a x)) =
     (adapter_call_for env st mr cv m (ua_id a), snd (call_upstream env st cd mr cv m h a x)) # sent x"
  "created (fst (call_upstream env st cd mr cv m h a x)) = created x"
  "saved (fst (call_upstream env st cd mr cv m h a x)) = saved x"
  "x_limiter (fst (call_upstream env st cd mr cv m h a x)) = release h (x_limiter x)"
  "x_tokens (fst (call_upstream env st cd mr cv m h a x)) = x_tokens x"
  "x_waits (fst (call_upstream env st cd mr cv m h a x)) = x_waits x"
  "x_manager (fst (call_upstream env st cd mr cv m h a x)) = x_manager x"
  "x_sticky (fst (call_upstream env st cd mr cv m h a x)) = x_sticky x"
  "x_tick (fst (call_upstream env st cd mr cv m h a x)) = Suc (x_tick x)"
  "pr_attempts (x_req (fst (call_upstream env st cd mr cv m h a x))) = pr_attempts (x_req x)"
  "pr_status (x_req (fst (call_upstream env st cd mr cv m h a x))) = pr_status (x_req x)"
  by (simp_all add: call_upstream_def Let_def split_def exec_simps)

lemma settle_keeps [exec_simps]:
  "x_req (fst (settle_attempt env t i cd mul a x)) = x_req x"
  "x_current (fst (settle_attempt env t i cd mul a x)) = None"
  "x_last (fst (settle_attempt env t i cd mul a x)) = x_last x"
  "x_err (fst (settle_attempt env t i cd mul a x)) = x_err x"
  "sent (fst (settle_attempt env t i cd mul a x)) = sent x"
  "created (fst (settle_attempt env t i cd mul a x)) = created x"
  "saved (fst (settle_attempt env t i cd mul a x)) = snd (settle_attempt env t i cd mul a x) # saved x"
  "x_limiter (fst (settle_attempt env t i cd mul a x)) = x_limiter x"
  "x_waits (fst (settle_attempt env t i cd mul a x)) = x_waits x"
  "x_manager (fst (settle_attempt env t i cd mul a x)) = x_manager x"
  "x_sticky (fst (settle_attempt env t i cd mul a x)) = x_sticky x"
  "ua_status (snd (settle_attempt env t i cd mul a x)) = ua_status a"
  "ua_id (snd (settle_attempt env t i cd mul a x)) = ua_id a"
  by (simp_all add: settle_attempt_def Let_def exec_simps)

lemma settle_tick: "x_tick x \<le> x_tick (fst (settle_attempt env t i cd mul a x))"
  using deduct_tick by (simp add: settle_attempt_def Let_def)

lemma end_failed_keeps [exec_simps]:
  "x_current (end_failed env cd s t f x) = x_current x"
  "x_last (end_failed env cd s t f x) = x_last x"
  "x_err (end_failed env cd s t f x) = x_err x"
  "sent (end_failed env cd s t f x) = sent x"
  "created (end_failed env cd s t f x) = created x"
  "saved (end_failed env cd s t f x) = saved x"
  "x_limiter (end_failed env cd s t f x) = x_limiter x"
  "x_tokens (end_failed env cd s t f x) = x_tokens x"
  "x_waits (end_failed env cd s t f x) = x_waits x"
  "x_manager (end_failed env cd s t f x) = x_manager x"
  "x_sticky (end_failed env cd s t f x) = x_sticky x"
  "x_tick (end_failed env cd s t f x) = Suc (x_tick x)"
  by (simp_all add: end_failed_def)

lemma cool_down_keeps [exec_simps]:
  "x_req (cool_down env rc p ct m n e x) = x_req x"
  "x_current (cool_down env rc p ct m n e x) = x_current x"
  "x_last (cool_down env rc p ct m n e x) = x_last x"
  "x_err (cool_down env rc p ct m n e x) = x_err x"
  "x_log (cool_down env rc p ct m n e x) = x_log x"
  "x_limiter (cool_down env rc p ct m n e x) = x_limiter x"
  "x_tokens (cool_down env rc p ct m n e x) = x_tokens x"
  "x_waits (cool_down env rc p ct m n e x) = x_waits x"
  "x_sticky (cool_down env rc p ct m n e x) = x_sticky x"
  by (simp_all add: cool_down_def Let_def split: option.split)

lemma cool_down_tick: "x_tick x \<le> x_tick (cool_down env rc p ct m n e x)"
  by (simp add: cool_down_def Let_def split: option.split)

lemma wait_keeps [exec_simps]:
  "x_current (fst (wait_retry env cd w e x)) = x_current x"
  "sent (fst (wait_retry env cd w e x)) = sent x"
  "created (fst (wait_retry env cd w e x)) = created x"
  "saved (fst (wait_retry env cd w e x)) = saved x"
  "x_limiter (fst (wait_retry env cd w e x)) = x_limiter x"
  "x_tokens (fst (wait_retry env cd w e x)) = x_tokens x"
  "x_waits (fst (wait_retry env cd w e x)) = w # x_waits x"
  "x_manager (fst (wait_retry env cd w e x)) = x_manager x"
  "x_sticky (fst (wait_retry env cd w e x)) = x_sticky x"
  by (simp_all add: wait_retry_def Let_def split_def exec_simps split: option.split)

lemma wait_go:
  "snd (wait_retry env cd w e x) \<Longrightarrow>
   x_req (fst (wait_retry env cd w e x)) = x_req x \<and>
   x_last (fst (wait_retry env cd w e x)) = x_last x \<and> x_err (fst (wait_retry env cd w e x)) = x_err x"
  by (simp add: wait_retry_def Let_def split_def split: option.splits if_splits)

lemma wait_tick: "x_tick x < x_tick (fst (wait_retry env cd w e x))"
  by (simp add: wait_retry_def Let_def split_def exec_simps split: option.split)

lemma next_keeps [exec_simps]:
  "x_current (fst (next_attempt env cd rc p sm nc n i e x)) = x_current x"
  "sent (fst (next_attempt env cd rc p sm nc n i e x)) = sent x"
  "created (fst (next_attempt env cd rc p sm nc n i e x)) = created x"
  "saved (fst (next_attempt env cd rc p sm nc n i e x)) = saved x"
  "x_limiter (fst (next_attempt env cd rc p sm nc n i e x)) = x_limiter x"
  "x_tokens (fst (next_attempt env cd rc p sm nc n i e x)) = x_tokens x"
  "x_manager (fst (next_attempt env cd rc p sm nc n i e x)) = x_manager x"
  "x_sticky (fst (next_attempt env cd rc p sm nc n i e x)) = x_sticky x"
  by (simp_all add: next_attempt_def Let_def split_def exec_simps)

lemma next_tick: "x_tick x \<le> x_tick (fst (next_attempt env cd rc p sm nc n i e x))"
  by (simp add: next_attempt_def Let_def split_def less_imp_le [OF wait_tick])

lemma decide_keeps [exec_simps]:
  "x_current (fst (decide env cd rc mr cv m sm nc n i r e x)) = x_current x"
  "sent (fst (decide env cd rc mr cv m sm nc n i r e x)) = sent x"
  "created (fst (decide env cd rc mr cv m sm nc n i r e x)) = created x"
  "saved (fst (decide env cd rc mr cv m sm nc n i r e x)) = saved x"
  "x_limiter (fst (decide env cd rc mr cv m sm nc n i r e x)) = x_limiter x"
  "x_tokens (fst (decide env cd rc mr cv m sm nc n i r e x)) = x_tokens x"
  "x_sticky (fst (decide env cd rc mr cv m sm nc n i r e x)) = x_sticky x"
  by (simp_all add: decide_def Let_def split_def exec_simps split: option.split)

lemma record_failure_keeps [exec_simps]:
  "x_current (record_failure env st cd mr r e x) = None"
  "x_last (record_failure env st cd mr r e x) = Some e"
  "x_err (record_failure env st cd mr r e x) = x_err x"
  "sent (record_failure env st cd mr r e x) = sent x"
  "created (record_failure env st cd mr r e x) = created x"
  "x_limiter (record_failure env st cd mr r e x) = x_limiter x"
  "x_waits (record_failure env st cd mr r e x) = x_waits x"
  "x_manager (record_failure env st cd mr r e x) = x_manager x"
  "x_sticky (record_failure env st cd mr r e x) = x_sticky x"
  by (simp_all add: record_failure_def Let_def split_def exec_simps)

lemma on_success_keeps [exec_simps]:
  "x_current (on_success env st cd mr cv m sk r x) = None"
  "x_last (on_success env st cd mr cv m sk r x) = None"
  "x_err (on_success env st cd mr cv m sk r x) = x_err x"
  "sent (on_success env st cd mr cv m sk r x) = sent x"
  "created (on_success env st cd mr cv m sk r x) = created x"
  "x_limiter (on_success env st cd mr cv m sk r x) = x_limiter x"
  "x_waits (on_success env st cd mr cv m sk r x) = x_waits x"
  by (simp_all add: on_success_def Let_def split_def exec_simps split: option.split)

lemma exhausted_keeps [exec_simps]:
  "x_current (exhausted env cd x) = x_current x"
  "sent (exhausted env cd x) = sent x"
  "created (exhausted env cd x) = created x"
  "saved (exhausted env cd x) = saved x"
  "x_limiter (exhausted env cd x) = x_limiter x"
  "x_tokens (exhausted env cd x) = x_tokens x"
  "x_waits (exhausted env cd x) = x_waits x"
  "x_manager (exhausted env cd x) = x_manager x"
  "x_sticky (exhausted env cd x) = x_sticky x"
  by (simp_all add: exhausted_def Let_def split: option.split)

section \<open>One attempt\<close>

lemma ready_keeps [exec_simps]:
  "x_current (fst (ready_attempt env st cd plan mr n i x)) = x_current x"
  "sent (fst (ready_attempt env st cd plan mr n i x)) = sent x"
  "created (fst (ready_attempt env st cd plan mr n i x)) = created x"
  "saved (fst (ready_attempt env st cd plan mr n i x)) = saved x"
  "x_limiter (fst (ready_attempt env st cd plan mr n i x)) = x_limiter x"
  "x_tokens (fst (ready_attempt env st cd plan mr n i x)) = x_tokens x"
  "x_waits (fst (ready_attempt env st cd plan mr n i x)) = x_waits x"
  "x_manager (fst (ready_attempt env st cd plan mr n i x)) = x_manager x"
  "x_sticky (fst (ready_attempt env st cd plan mr n i x)) = x_sticky x"
  by (simp_all add: ready_attempt_def Let_def split_def exec_simps split: option.split sum.split)

lemma ready_control:
  "snd (ready_attempt env st cd plan mr n i x) = Inl c \<Longrightarrow> c \<in> {Return, NextRoute}"
  by (auto simp: ready_attempt_def Let_def split_def split: option.splits sum.splits if_splits)

lemma ready_model:
  "snd (ready_attempt env st cd plan mr n i x) = Inr (m, cv) \<Longrightarrow>
   i < length (rp_candidates plan) \<and> m = rp_candidates plan ! i \<and>
   convert_request env st mr m = Inr cv \<and> ee_ctx env (x_tick x) = None \<and>
   (n \<le> rc_max_retries (rp_retry plan) \<or> shouldSkipErrorCooldown (mr_provider mr)) \<and>
   fst (ready_attempt env st cd plan mr n i x) = fst (prepare_attempt env st cd mr m (ticked x)) \<and>
   snd (prepare_attempt env st cd mr m (ticked x))"
  by (auto simp: ready_attempt_def Let_def split_def split: option.splits sum.splits if_splits)

lemma ready_tick: "x_tick x \<le> x_tick (fst (ready_attempt env st cd plan mr n i x))"
proof -
  have "Suc (x_tick x) \<le> x_tick (fst (prepare_attempt env st cd mr m (ticked x)))" for m
    using prepare_tick [of "ticked x"] by simp
  then have "x_tick x \<le> x_tick (fst (prepare_attempt env st cd mr m (ticked x)))" for m
    using Suc_leD by blast
  then show ?thesis
    by (simp add: ready_attempt_def Let_def split_def split: option.split sum.split)
qed

lemma ready_tick_less:
  "snd (ready_attempt env st cd plan mr n i x) = Inr mcv \<Longrightarrow>
   x_tick x < x_tick (fst (ready_attempt env st cd plan mr n i x))"
  using prepare_tick [of "ticked x" env st cd mr "fst mcv"] ready_model [of env st cd plan mr n i x "fst mcv" "snd mcv"]
  by (simp add: Suc_le_eq)

text \<open>A slot taken is given back when the call returns.\<close>

lemma try_call_none:
  "snd (try_call env st cd mr cv m x) = None \<Longrightarrow>
   fst (try_call env st cd mr cv m x) = (ticked x) \<lparr> x_last := Some slot_error \<rparr>"
  by (auto simp: try_call_def Let_def split_def split: option.splits)

lemma try_call_some:
  assumes "try_call env st cd mr cv m x = (x', Some r)"
  obtains l h x1 a where
    "TryAcquire (pv_id (mr_provider mr)) (pv_max_concurrency (mr_provider mr)) (x_limiter x) =
       (l, Some h)"
    "start_attempt env st mr m (ee_clock env (x_tick x)) ((ticked x) \<lparr> x_limiter := l \<rparr>) = (x1, a)"
    "call_upstream env st cd mr cv m h a x1 = (x', r)"
proof -
  obtain l so where acq: "TryAcquire (pv_id (mr_provider mr)) (pv_max_concurrency (mr_provider mr))
      (x_limiter x) = (l, so)" by fastforce
  obtain h where h: "so = Some h"
    using assms acq by (cases so) (simp_all add: try_call_def)
  obtain x1 a where sa: "start_attempt env st mr m (ee_clock env (x_tick x))
      ((ticked x) \<lparr> x_limiter := l \<rparr>) = (x1, a)" by fastforce
  have "call_upstream env st cd mr cv m h a x1 = (x', r)"
    using assms acq h sa by (simp add: try_call_def split_def prod_eq_iff Let_def)
  with acq h sa that show thesis by blast
qed

lemma try_keeps [exec_simps]:
  "x_err (fst (try_call env st cd mr cv m x)) = x_err x"
  "x_tokens (fst (try_call env st cd mr cv m x)) = x_tokens x"
  "x_waits (fst (try_call env st cd mr cv m x)) = x_waits x"
  "x_manager (fst (try_call env st cd mr cv m x)) = x_manager x"
  "x_sticky (fst (try_call env st cd mr cv m x)) = x_sticky x"
  "saved (fst (try_call env st cd mr cv m x)) = saved x"
  by (simp_all add: try_call_def Let_def split_def exec_simps split: option.split)

lemma try_tick: "x_tick x < x_tick (fst (try_call env st cd mr cv m x))"
  by (simp add: try_call_def Let_def split_def exec_simps split: option.split)

lemma attempt_step_cases:
  assumes "attempt_step env st cd plan mr n i x = (x', c)"
  obtains
    (stopped) "snd (ready_attempt env st cd plan mr n i x) = Inl c"
      "x' = fst (ready_attempt env st cd plan mr n i x)"
  | (full) m cv x1 where "ready_attempt env st cd plan mr n i x = (x1, Inr (m, cv))"
      "snd (try_call env st cd mr cv m x1) = None" "c = NextRoute"
      "x' = (ticked x1) \<lparr> x_last := Some slot_error \<rparr>"
  | (succeeded) m cv x1 x2 r where "ready_attempt env st cd plan mr n i x = (x1, Inr (m, cv))"
      "try_call env st cd mr cv m x1 = (x2, Some r)" "cr_err r = None" "c = Return"
      "x' = on_success env st cd mr cv m (if rp_smart plan then Some (rp_key plan) else None) r x2"
  | (failed) m cv x1 x2 r err where "ready_attempt env st cd plan mr n i x = (x1, Inr (m, cv))"
      "try_call env st cd mr cv m x1 = (x2, Some r)" "cr_err r = Some err"
      "decide env cd (rp_retry plan) mr cv m (rp_smart plan) (length (rp_candidates plan)) n i r err
         (record_failure env st cd mr r err x2) = (x', c)"
proof -
  obtain x1 d where ready: "ready_attempt env st cd plan mr n i x = (x1, d)" by fastforce
  show thesis
  proof (cases d)
    case (Inl c')
    have "x' = x1" "c = c'" using assms unfolding attempt_step_def ready Inl by simp_all
    with ready Inl show thesis by (intro stopped) simp_all
  next
    case (Inr mcv)
    obtain m cv where mcv: "mcv = (m, cv)" by fastforce
    obtain x2 ro where tried: "try_call env st cd mr cv m x1 = (x2, ro)" by fastforce
    note eqs = assms [unfolded attempt_step_def ready Inr mcv prod.case sum.case tried]
    show thesis
    proof (cases ro)
      case None
      have "x2 = (ticked x1) \<lparr> x_last := Some slot_error \<rparr>"
        using try_call_none [of env st cd mr cv m x1] tried None by simp
      moreover have "snd (try_call env st cd mr cv m x1) = None" using tried None by simp
      moreover have "x' = x2" "c = NextRoute" using eqs None by simp_all
      ultimately show thesis by (intro full [OF ready [unfolded Inr mcv]]) simp_all
    next
      case (Some r)
      note eqs = eqs [unfolded Some option.case]
      show thesis
      proof (cases "cr_err r")
        case None
        with eqs have "c = Return" "x' = on_success env st cd mr cv m
            (if rp_smart plan then Some (rp_key plan) else None) r x2" by simp_all
        then show thesis
          by (rule succeeded [OF ready [unfolded Inr mcv] tried [unfolded Some] None])
      next
        case (Some err)
        with eqs have "decide env cd (rp_retry plan) mr cv m (rp_smart plan)
            (length (rp_candidates plan)) n i r err
            (record_failure env st cd mr r err x2) = (x', c)" by simp
        then show thesis
          by (rule failed [OF ready [unfolded Inr mcv] tried [unfolded \<open>ro = Some r\<close>] Some])
      qed
    qed
  qed
qed

section \<open>From one attempt to the dispatch\<close>

text \<open>\<open>I\<close> holds between attempts, \<open>R\<close> when the dispatch returns.\<close>

lemma attempt_loop_rule:
  assumes loop: "attempt_loop env st cd plan mr n i x = Some (x', b)" and init: "I n i x"
    and step: "\<And>n i x x' c. I n i x \<Longrightarrow> attempt_step env st cd plan mr n i x = (x', c) \<Longrightarrow>
      (case c of Return \<Rightarrow> R x' | NextRoute \<Rightarrow> J x' | Again n' i' \<Rightarrow> I n' i' x')"
  shows "if b then J x' else R x'"
proof -
  let ?Q = "\<lambda>s. case fst s of Return \<Rightarrow> R (snd s) | NextRoute \<Rightarrow> J (snd s)
    | Again n i \<Rightarrow> I n i (snd s)"
  obtain c where w: "while_option going_on (loop_step env st cd plan mr) (Again n i, x) =
      Some (c, x')" and b: "b = (c = NextRoute)"
    using loop by (auto simp: attempt_loop_def)
  have "?Q (c, x')"
  proof (rule while_option_rule [where P = ?Q, OF _ w])
    fix s :: "control \<times> ('a, 'b) exec"
    assume q: "?Q s" and g: "going_on s"
    obtain n i y where s: "s = (Again n i, y)"
      using g by (cases s) (auto simp: going_on_def split: control.splits)
    show "?Q (loop_step env st cd plan mr s)"
      using step [of n i y] q s by (auto simp: loop_step_def Let_def split_def)
  qed (simp add: init)
  moreover have "\<not> going_on (c, x')" by (rule while_option_stop [OF w])
  ultimately show ?thesis using b by (auto simp: going_on_def split: control.splits)
qed

text \<open>A measure that shrinks with every further attempt makes the loop end.\<close>

lemma attempt_loop_returns:
  assumes init: "I n i x"
    and step: "\<And>n i x x' n' i'. I n i x \<Longrightarrow>
      attempt_step env st cd plan mr n i x = (x', Again n' i') \<Longrightarrow>
      I n' i' x' \<and> f n' i' x' < (f n i x :: nat)"
  shows "\<exists>y. attempt_loop env st cd plan mr n i x = Some y"
proof -
  let ?P = "\<lambda>s. case fst s of Again n i \<Rightarrow> I n i (snd s) | _ \<Rightarrow> True"
  let ?f = "\<lambda>s. case fst s of Again n i \<Rightarrow> Suc (f n i (snd s)) | _ \<Rightarrow> 0"
  have "\<exists>s. while_option going_on (loop_step env st cd plan mr) (Again n i, x) = Some s"
  proof (rule measure_while_option_Some [where P = ?P and f = ?f])
    fix s :: "control \<times> ('a, 'b) exec"
    assume q: "?P s" and g: "going_on s"
    obtain n i y where s: "s = (Again n i, y)"
      using g by (cases s) (auto simp: going_on_def split: control.splits)
    obtain y' c where st: "attempt_step env st cd plan mr n i y = (y', c)" by fastforce
    then show "?P (loop_step env st cd plan mr s) \<and> ?f (loop_step env st cd plan mr s) < ?f s"
      using step [of n i y y'] q s by (auto simp: loop_step_def split: control.split)
  qed (simp add: init)
  then show ?thesis by (auto simp: attempt_loop_def)
qed

lemma route_loop_rule:
  assumes "route_loop env st cd routes x = Some x'" and "I x"
    and aborted: "\<And>x ce. I x \<Longrightarrow> ee_ctx env (x_tick x) = Some ce \<Longrightarrow> R (fail_with ce (ticked x))"
    and entered: "\<And>x mr plan i. I x \<Longrightarrow> mr \<in> set routes \<Longrightarrow> ee_ctx env (x_tick x) = None \<Longrightarrow>
      plan_route env st mr (ticked x) = (plan, i) \<Longrightarrow> A plan mr 0 i (ticked x)"
    and step: "\<And>plan mr n i x x' c. A plan mr n i x \<Longrightarrow>
      attempt_step env st cd plan mr n i x = (x', c) \<Longrightarrow>
      (case c of Return \<Rightarrow> R x' | NextRoute \<Rightarrow> I x' | Again n' i' \<Rightarrow> A plan mr n' i' x')"
    and ended: "\<And>x. I x \<Longrightarrow> R (exhausted env cd x)"
  shows "R x'"
  using assms(1,2) entered
proof (induction routes arbitrary: x)
  case Nil
  have "x' = exhausted env cd x" using Nil(1) by simp
  with ended [OF Nil(2)] show ?case by simp
next
  case (Cons mr routes)
  show ?case
  proof (cases "ee_ctx env (x_tick x)")
    case (Some ce)
    then show ?thesis using Cons.prems(1,2) aborted by auto
  next
    case None
    obtain plan i where plan: "plan_route env st mr (ticked x) = (plan, i)" by fastforce
    obtain y b where loop: "attempt_loop env st cd plan mr 0 i (ticked x) = Some (y, b)"
      using Cons.prems(1) None plan by (auto split: option.splits)
    have "A plan mr 0 i (ticked x)" using Cons.prems(3) [OF Cons.prems(2) _ None plan] by simp
    from attempt_loop_rule [where I = "A plan mr" and R = R and J = I, OF loop this step]
    have y: "if b then I y else R y" .
    show ?thesis
    proof (cases b)
      case True
      then have "route_loop env st cd routes y = Some x'"
        using Cons.prems(1) None plan loop by simp
      moreover have "I y" using y True by simp
      ultimately show ?thesis using Cons.IH Cons.prems(3) by simp
    next
      case False
      then show ?thesis using Cons.prems(1) None plan loop y by simp
    qed
  qed
qed

text \<open>An invariant of single attempts is one of the dispatch.\<close>

lemma dispatch_invariant:
  assumes "dispatch env st routes x = Some x'" and "I x"
    and "\<And>x. I x \<Longrightarrow> I (ticked x)" and "\<And>x ce. I x \<Longrightarrow> I (fail_with ce x)"
    and "\<And>cd plan mr n i x x' c. mr \<in> set routes \<Longrightarrow> I x \<Longrightarrow>
      attempt_step env st cd plan mr n i x = (x', c) \<Longrightarrow> I x'"
    and "\<And>cd x. I x \<Longrightarrow> I (exhausted env cd x)"
  shows "I x'"
  using assms(1,2) unfolding dispatch_def
  by (rule route_loop_rule [where A = "\<lambda>plan mr n i x. mr \<in> set routes \<and> I x" and I = I])
    (auto simp: assms split: control.split)

end
