(* ===== verification/Dispatch_Properties.thy ===== *)
theory Dispatch_Properties
  imports Dispatch_Lemmas
begin

text \<open>
  The properties of the dispatch: it ends, it calls a bounded number of upstreams, it gives every
  slot back, it never splices two responses, and its request and attempt rows tell what happened.
\<close>

section \<open>Ending\<close>

lemma next_again:
  "next_attempt env cd rc p sm nc n i e x = (x', Again n' i') \<Longrightarrow>
   (\<not> sm \<longrightarrow> n' = n + 1 \<and> i' = i) \<and> (i < nc \<longrightarrow> i' < nc)"
  by (auto simp: next_attempt_def Let_def split_def split: if_splits)

text \<open>The state between the early returns and the cooldown, and the error with the verdict on it.\<close>

definition verdict_error ::
  "('c, 'k) exec_env \<Rightarrow> retry_config \<Rightarrow> provider \<Rightarrow> call_result \<Rightarrow> go_error \<Rightarrow> ('c, 'k) exec \<Rightarrow> go_error" where
  "verdict_error env rc p r e x =
     force_retry (classify_error p e) (ee_ctx env (Suc (x_tick x))) (WroteToClient (cr_capture r))
       (rc_force rc)"

definition judged ::
  "('c, 'k) exec_env \<Rightarrow> retry_config \<Rightarrow> provider \<Rightarrow> call_result \<Rightarrow> go_error \<Rightarrow> ('c, 'k) exec \<Rightarrow>
     ('c, 'k) exec" where
  "judged env rc p r e x =
     (ticked (ticked (x \<lparr> x_last := Some (classify_error p e) \<rparr>)))
       \<lparr> x_last := Some (verdict_error env rc p r e x) \<rparr>"

lemma judged_sel [simp]:
  "x_req (judged env rc p r e x) = x_req x" "x_current (judged env rc p r e x) = x_current x"
  "x_last (judged env rc p r e x) = Some (verdict_error env rc p r e x)"
  "x_err (judged env rc p r e x) = x_err x" "x_log (judged env rc p r e x) = x_log x"
  "x_manager (judged env rc p r e x) = x_manager x"
  "x_sticky (judged env rc p r e x) = x_sticky x" "x_limiter (judged env rc p r e x) = x_limiter x"
  "x_tokens (judged env rc p r e x) = x_tokens x" "x_smart (judged env rc p r e x) = x_smart x"
  "x_waits (judged env rc p r e x) = x_waits x"
  "x_tick (judged env rc p r e x) = Suc (Suc (x_tick x))"
  by (simp_all add: judged_def ticked_def)

lemma asProxyError_with_None: "asProxyError e = None \<Longrightarrow> asProxyError (with_proxy_fields g e) = None"
proof (induction e)
  case (WsAttemptError cap c)
  then show ?case by (cases c) auto
qed auto

lemma classify_None [simp]:
  "asProxyError (classify_error p e) = None \<longleftrightarrow> asProxyError e = None"
  by (cases "asProxyError e") (auto simp: classify_error_def)

lemma verdict_None: "asProxyError (verdict_error env rc p r e x) = None \<longleftrightarrow> asProxyError e = None"
proof -
  have "asProxyError (force_retry err ctx b c) = None \<longleftrightarrow> asProxyError err = None" for err ctx b c
    by (cases "asProxyError err") (auto simp: force_retry_def)
  then show ?thesis by (simp only: verdict_error_def classify_None)
qed

lemma decide_eq:
  "decide env cd rc mr cv m sm nc n i r e x =
     (let p = mr_provider mr; err = classify_error p e; x0 = x \<lparr> x_last := Some err \<rparr>
      in if rc_wrote (cr_capture r) \<and> \<not> shouldRetryCommittedResponseError (asProxyError err) then
           (fail_with err (end_failed env cd ''FAILED'' (error_text err)
              (\<lambda>q. q \<lparr> pr_status_code := rc_status (cr_capture r),
                       pr_response_info := (if cd then pr_response_info q
                                            else Some (captured_response r)) \<rparr>) x0), Return)
         else if asProxyError e \<noteq> None \<and> ee_ctx env (x_tick x) \<noteq> None then
           (let ce = the (ee_ctx env (x_tick x));
                st = requestFailureStatusAndError (Some ce) (Some err)
            in (fail_with ce (end_failed env cd (fst st) (snd st) id (ticked x0)), Return))
         else
           (let err = verdict_error env rc p r e x; x = judged env rc p r e x
            in case asProxyError err of
                 None \<Rightarrow> (x, NextRoute)
               | Some (f, c) \<Rightarrow>
                   if pf_scope f = ScopeRequest \<and> \<not> pf_retryable f then
                     (fail_with err (end_failed env cd ''FAILED'' (error_text err)
                        (http_error_status f) x), Return)
                   else
                     (let x = cool_down env rc p (cv_client cv) m n err x
                      in if \<not> pf_retryable f then (x, NextRoute)
                         else next_attempt env cd rc p sm nc n i err x)))"
proof -
  have t: "x_tick (ticked (y \<lparr> x_last := v \<rparr>)) = Suc (x_tick y)"
    and t': "x_tick (y \<lparr> x_last := v \<rparr>) = x_tick y" for y v by simp_all
  show ?thesis
    unfolding decide_def Let_def verdict_error_def judged_def t t' WroteToClient_def classify_None
      split_def by (rule refl)
qed

lemma decide_cases:
  assumes "decide env cd rc mr cv m sm nc n i r e x = (x', c)"
  obtains
    (committed) "c = Return" "rc_wrote (cr_capture r)"
      "\<not> shouldRetryCommittedResponseError (asProxyError (classify_error (mr_provider mr) e))"
      "x' = fail_with (classify_error (mr_provider mr) e)
         (end_failed env cd ''FAILED'' (error_text (classify_error (mr_provider mr) e))
            (\<lambda>q. q \<lparr> pr_status_code := rc_status (cr_capture r),
                     pr_response_info := (if cd then pr_response_info q
                                          else Some (captured_response r)) \<rparr>)
            (x \<lparr> x_last := Some (classify_error (mr_provider mr) e) \<rparr>))"
  | (context_done) ce where "c = Return" "asProxyError e \<noteq> None" "ee_ctx env (x_tick x) = Some ce"
      "x' = fail_with ce (end_failed env cd
         (fst (requestFailureStatusAndError (Some ce) (Some (classify_error (mr_provider mr) e))))
         (snd (requestFailureStatusAndError (Some ce) (Some (classify_error (mr_provider mr) e)))) id
         (ticked (x \<lparr> x_last := Some (classify_error (mr_provider mr) e) \<rparr>)))"
  | (plain) "c = NextRoute" "asProxyError e = None" "x' = judged env rc (mr_provider mr) r e x"
  | (request) f fc where "c = Return"
      "asProxyError (verdict_error env rc (mr_provider mr) r e x) = Some (f, fc)"
      "pf_scope f = ScopeRequest" "\<not> pf_retryable f"
      "x' = fail_with (verdict_error env rc (mr_provider mr) r e x)
         (end_failed env cd ''FAILED'' (error_text (verdict_error env rc (mr_provider mr) r e x))
            (http_error_status f) (judged env rc (mr_provider mr) r e x))"
  | (final) f fc where "c = NextRoute"
      "asProxyError (verdict_error env rc (mr_provider mr) r e x) = Some (f, fc)"
      "pf_scope f \<noteq> ScopeRequest" "\<not> pf_retryable f"
      "x' = cool_down env rc (mr_provider mr) (cv_client cv) m n
         (verdict_error env rc (mr_provider mr) r e x) (judged env rc (mr_provider mr) r e x)"
  | (retry) f fc where
      "asProxyError (verdict_error env rc (mr_provider mr) r e x) = Some (f, fc)"
      "pf_retryable f"
      "rc_wrote (cr_capture r) \<Longrightarrow>
         shouldRetryCommittedResponseError (asProxyError (classify_error (mr_provider mr) e))"
      "next_attempt env cd rc (mr_provider mr) sm nc n i
         (verdict_error env rc (mr_provider mr) r e x)
         (cool_down env rc (mr_provider mr) (cv_client cv) m n
           (verdict_error env rc (mr_provider mr) r e x)
           (judged env rc (mr_provider mr) r e x)) = (x', c)"
proof -
  let ?v = "verdict_error env rc (mr_provider mr) r e x"
  note eq = assms [unfolded decide_eq Let_def]
  show thesis
  proof (cases "rc_wrote (cr_capture r) \<and>
      \<not> shouldRetryCommittedResponseError (asProxyError (classify_error (mr_provider mr) e))")
    case True
    then have "c = Return" "x' = fail_with (classify_error (mr_provider mr) e)
         (end_failed env cd ''FAILED'' (error_text (classify_error (mr_provider mr) e))
            (\<lambda>q. q \<lparr> pr_status_code := rc_status (cr_capture r),
                     pr_response_info := (if cd then pr_response_info q
                                          else Some (captured_response r)) \<rparr>)
            (x \<lparr> x_last := Some (classify_error (mr_provider mr) e) \<rparr>))"
      using eq by simp_all
    with True show thesis using committed by blast
  next
    case False
    note eq = eq [unfolded if_not_P [OF False]]
    show thesis
    proof (cases "asProxyError e \<noteq> None \<and> ee_ctx env (x_tick x) \<noteq> None")
      case True
      then obtain ce where ce: "ee_ctx env (x_tick x) = Some ce" by blast
      show thesis
        using eq True by (intro context_done [of ce]) (simp_all add: ce)
    next
      case no: False
      note eq = eq [unfolded if_not_P [OF no]]
      show thesis
      proof (cases "asProxyError ?v")
        case None
        then show thesis
          using eq verdict_None [of env rc "mr_provider mr" r e x] by (intro plain) simp_all
      next
        case (Some fc)
        obtain f c' where fc: "fc = (f, c')" by fastforce
        note v = Some [unfolded fc]
        note eq = eq [unfolded v option.case prod.case]
        consider "pf_scope f = ScopeRequest \<and> \<not> pf_retryable f" |
          "pf_scope f \<noteq> ScopeRequest" "\<not> pf_retryable f" | "pf_retryable f" by blast
        then show thesis
        proof cases
          case 1
          then show thesis using eq by (intro request [OF _ v]) simp_all
        next
          case 2
          then show thesis using eq by (intro final [OF _ v]) simp_all
        next
          case 3
          then show thesis using eq False by (intro retry [OF v]) auto
        qed
      qed
    qed
  qed
qed

lemma decide_again:
  assumes "decide env cd rc mr cv m sm nc n i r e x = (x', Again n' i')"
  obtains err y where
    "next_attempt env cd rc (mr_provider mr) sm nc n i err y = (x', Again n' i')"
  using assms by (cases rule: decide_cases) auto

lemma decide_tick: "x_tick x \<le> x_tick (fst (decide env cd rc mr cv m sm nc n i r e x))"
proof -
  obtain x' c where d: "decide env cd rc mr cv m sm nc n i r e x = (x', c)" by fastforce
  then have "x_tick x \<le> x_tick x'"
  proof (cases rule: decide_cases)
    case (final f fc)
    then show ?thesis
      using cool_down_tick [of "judged env rc (mr_provider mr) r e x"]
      by simp (meson Suc_leD)
  next
    case (retry f fc)
    let ?v = "verdict_error env rc (mr_provider mr) r e x"
    let ?y = "cool_down env rc (mr_provider mr) (cv_client cv) m n ?v
      (judged env rc (mr_provider mr) r e x)"
    have "x_tick (judged env rc (mr_provider mr) r e x) \<le> x_tick ?y" by (rule cool_down_tick)
    moreover have "x_tick ?y \<le> x_tick x'"
      using next_tick [of ?y env cd rc "mr_provider mr" sm nc n i ?v] retry(4) by simp
    ultimately show ?thesis by simp
  qed (simp_all add: exec_simps)
  then show ?thesis using d by simp
qed

lemma record_failure_tick: "x_tick x < x_tick (record_failure env st cd mr r e x)"
  using settle_tick [of "ticked ((ticked x) \<lparr> x_last := Some e \<rparr>)"]
  by (simp add: record_failure_def Let_def split_def Suc_le_eq) (meson Suc_lessD le_less_trans lessI)

text \<open>Another attempt costs time, and follows a counted failure.\<close>

lemma attempt_again:
  assumes "attempt_step env st cd plan mr n i x = (x', Again n' i')"
  shows "x_tick x < x_tick x'" and "ee_ctx env (x_tick x) = None"
    and "i < length (rp_candidates plan)" and "i' < length (rp_candidates plan)"
    and "n \<le> rc_max_retries (rp_retry plan) \<or> shouldSkipErrorCooldown (mr_provider mr)"
    and "\<not> rp_smart plan \<Longrightarrow> n' = n + 1 \<and> i' = i"
proof -
  have all: "x_tick x < x_tick x' \<and> ee_ctx env (x_tick x) = None \<and>
      i < length (rp_candidates plan) \<and> i' < length (rp_candidates plan) \<and>
      (n \<le> rc_max_retries (rp_retry plan) \<or> shouldSkipErrorCooldown (mr_provider mr)) \<and>
      (\<not> rp_smart plan \<longrightarrow> n' = n + 1 \<and> i' = i)"
    using assms
  proof (cases rule: attempt_step_cases)
    case stopped
    then show ?thesis by (auto dest: ready_control)
  next
    case (failed m cv x1 x2 r err)
    have "snd (ready_attempt env st cd plan mr n i x) = Inr (m, cv)" using failed(1) by simp
    note ready = ready_model [OF this] and later = ready_tick_less [OF this]
    have "x_tick x1 < x_tick x2" using try_tick [of x1 env st cd mr cv m] failed(2) by simp
    moreover have "x_tick x2 < x_tick (record_failure env st cd mr r err x2)"
      by (rule record_failure_tick)
    moreover have "x_tick (record_failure env st cd mr r err x2) \<le> x_tick x'"
      using decide_tick [of "record_failure env st cd mr r err x2" env cd "rp_retry plan" mr cv m
          "rp_smart plan" "length (rp_candidates plan)" n i r err] failed(4) by simp
    ultimately have "x_tick x < x_tick x'" using later failed(1) by simp
    moreover obtain err' y where "next_attempt env cd (rp_retry plan) (mr_provider mr)
        (rp_smart plan) (length (rp_candidates plan)) n i err' y = (x', Again n' i')"
      using failed(4) by (rule decide_again)
    ultimately show ?thesis using ready next_again by blast
  qed simp_all
  then show "x_tick x < x_tick x'" and "ee_ctx env (x_tick x) = None"
    and "i < length (rp_candidates plan)" and "i' < length (rp_candidates plan)"
    and "n \<le> rc_max_retries (rp_retry plan) \<or> shouldSkipErrorCooldown (mr_provider mr)"
    and "\<not> rp_smart plan \<Longrightarrow> n' = n + 1 \<and> i' = i" by blast+
qed

lemma plan_route_sel:
  assumes "plan_route env st mr x = (plan, i)"
  shows "rp_retry plan = getRetryConfig (mr_retry mr) (ee_default_retry env (ep_tenant st))"
    and "rp_smart plan = shouldUseSmartMappingRetry (mr_provider mr) (length (rp_candidates plan))"
    and "rp_candidates plan \<noteq> []" and "i < length (rp_candidates plan)"
  using assms by (auto simp: plan_route_def Let_def smartMappingStartIndex_less split: if_splits)

lemma smart_opts_out: "shouldUseSmartMappingRetry p k \<Longrightarrow> shouldSkipErrorCooldown p"
  by (auto simp: shouldUseSmartMappingRetry_def shouldSkipErrorCooldown_def split: option.splits)

lemma route_loop_returns:
  assumes "\<And>mr x plan i. mr \<in> set routes \<Longrightarrow> plan_route env st mr x = (plan, i) \<Longrightarrow>
    \<exists>y. attempt_loop env st cd plan mr 0 i x = Some y"
  shows "\<exists>x'. route_loop env st cd routes x = Some x'"
  using assms
proof (induction routes arbitrary: x)
  case (Cons mr routes)
  obtain plan i where plan: "plan_route env st mr (ticked x) = (plan, i)" by fastforce
  obtain y b where loop: "attempt_loop env st cd plan mr 0 i (ticked x) = Some (y, b)"
    using Cons.prems [OF _ plan] by auto
  have "\<exists>x'. route_loop env st cd routes y = Some x'" using Cons by simp
  then show ?case
    using plan loop by (cases "ee_ctx env (x_tick x)"; cases b) simp_all
qed simp

text \<open>On a route whose provider is frozen for its errors, the retry limit ends the loop; on one that
  opted out, the end of the request's context does.\<close>

definition eventually_done :: "('c, 'k) exec_env \<Rightarrow> bool" where
  "eventually_done env \<longleftrightarrow> (\<exists>N. \<forall>t \<ge> N. ee_ctx env t \<noteq> None)"

lemma attempt_loop_bounded:
  assumes "\<not> rp_smart plan" and "\<not> shouldSkipErrorCooldown (mr_provider mr)"
  shows "\<exists>y. attempt_loop env st cd plan mr n i x = Some y"
proof (rule attempt_loop_returns [where I = "\<lambda>_ _ _. True" and
      f = "\<lambda>n i x. nat (rc_max_retries (rp_retry plan) + 1 - n)"])
  fix n i x x' n' i'
  assume step: "attempt_step env st cd plan mr n i x = (x', Again n' i')"
  show "True \<and> nat (rc_max_retries (rp_retry plan) + 1 - n') <
      nat (rc_max_retries (rp_retry plan) + 1 - n)"
    using attempt_again(5,6) [OF step] assms by auto
qed simp

lemma attempt_loop_context:
  assumes "eventually_done env"
  shows "\<exists>y. attempt_loop env st cd plan mr n i x = Some y"
proof -
  obtain N where N: "\<forall>t \<ge> N. ee_ctx env t \<noteq> None" using assms by (auto simp: eventually_done_def)
  show ?thesis
  proof (rule attempt_loop_returns [where I = "\<lambda>_ _ _. True" and f = "\<lambda>n i x. N - x_tick x"])
    fix n i x x' n' i'
    assume step: "attempt_step env st cd plan mr n i x = (x', Again n' i')"
    have "x_tick x < N" using attempt_again(2) [OF step] N not_le by blast
    then show "True \<and> N - x_tick x' < N - x_tick x" using attempt_again(1) [OF step] by auto
  qed simp
qed

lemma dispatch_returns:
  assumes "\<forall>mr \<in> set routes. shouldSkipErrorCooldown (mr_provider mr) \<longrightarrow> eventually_done env"
  shows "\<exists>x'. dispatch env st routes x = Some x'"
  unfolding dispatch_def
proof (rule route_loop_returns)
  fix mr plan i and x :: "('a, 'b) exec"
  assume mr: "mr \<in> set routes" and plan: "plan_route env st mr x = (plan, i)"
  show "\<exists>y. attempt_loop env st (shouldClearRequestDetailFor (ee_settings env) (ep_dev_mode st))
      plan mr 0 i x = Some y"
  proof (cases "shouldSkipErrorCooldown (mr_provider mr)")
    case True
    then show ?thesis using assms mr attempt_loop_context by blast
  next
    case False
    then have "\<not> rp_smart plan" using plan_route_sel(2) [OF plan] smart_opts_out by blast
    then show ?thesis using False attempt_loop_bounded by blast
  qed
qed

section \<open>What one attempt adds\<close>

lemma try_call_rows:
  assumes "try_call env st cd mr cv m x = (x', Some r)"
  obtains a call where "sent x' = (call, r) # sent x" "created x' = a # created x" "saved x' = saved x"
    "ac_provider call = mr_provider mr" "ac_mapped call = m" "ua_id (cr_attempt r) = ua_id a"
    "pr_attempts (x_req x') = pr_attempts (x_req x) + 1"
    "ua_status (cr_attempt r) = ''IN_PROGRESS''"
    "pr_status (x_req x') = pr_status (x_req x)"
proof -
  from assms obtain l h x1 a where
    c: "start_attempt env st mr m (ee_clock env (x_tick x)) ((ticked x) \<lparr> x_limiter := l \<rparr>) = (x1, a)"
    "call_upstream env st cd mr cv m h a x1 = (x', r)" by (rule try_call_some)
  have start: "x1 = fst (start_attempt env st mr m (ee_clock env (x_tick x)) ((ticked x) \<lparr> x_limiter := l \<rparr>))"
    "a = snd (start_attempt env st mr m (ee_clock env (x_tick x)) ((ticked x) \<lparr> x_limiter := l \<rparr>))"
    using c(1) by simp_all
  have call: "x' = fst (call_upstream env st cd mr cv m h a x1)"
    "r = snd (call_upstream env st cd mr cv m h a x1)" using c(2) by simp_all
  have "ua_status a = ''IN_PROGRESS''"
    unfolding start(2) by (simp add: start_attempt_def new_attempt_def Let_def split: option.split)
  moreover have "ua_id (cr_attempt r) = ua_id a" "ua_status (cr_attempt r) = ua_status a"
    unfolding call(2) by (simp_all add: call_upstream_def Let_def split_def)
  moreover have "sent x' = (adapter_call_for env st mr cv m (ua_id a), r) # sent x1"
    "created x' = created x1" "saved x' = saved x1" "pr_attempts (x_req x') = pr_attempts (x_req x1)"
    "pr_status (x_req x') = pr_status (x_req x1)"
    unfolding call by (simp_all add: exec_simps)
  moreover have "sent x1 = sent x" "created x1 = a # created x" "saved x1 = saved x"
    "pr_attempts (x_req x1) = pr_attempts (x_req x) + 1" "pr_status (x_req x1) = pr_status (x_req x)"
    unfolding start by (simp_all add: exec_simps)
  ultimately show thesis
    using that [of "adapter_call_for env st mr cv m (ua_id a)" a]
    by (simp add: adapter_call_for_def)
qed

lemma decide_req:
  assumes "decide env cd rc mr cv m sm nc n i r e x = (x', c)"
  shows "pr_attempts (x_req x') = pr_attempts (x_req x)"
    and "c \<noteq> Return \<Longrightarrow> x_req x' = x_req x \<and> x_err x' = x_err x"
proof -
  have "pr_attempts (x_req x') = pr_attempts (x_req x) \<and>
      (c \<noteq> Return \<longrightarrow> x_req x' = x_req x \<and> x_err x' = x_err x)"
    using assms
  proof (cases rule: decide_cases)
    case (retry f fc)
    have w: "pr_attempts (x_req (fst (wait_retry env cd w e y))) = pr_attempts (x_req y)"
      for w e and y :: "('a, 'b) exec"
      by (simp add: wait_retry_def Let_def split_def end_failed_def end_request_def
          clearProxyRequestDetail_def split: option.split)
    note nx = retry(4) [unfolded next_attempt_def Let_def split_def]
    show ?thesis
      using nx wait_go [of env cd] by (auto simp: w exec_simps split: if_splits)
  qed (simp_all add: exec_simps end_failed_def end_request_def clearProxyRequestDetail_def
      http_error_status_def)
  then show "pr_attempts (x_req x') = pr_attempts (x_req x)"
    and "c \<noteq> Return \<Longrightarrow> x_req x' = x_req x \<and> x_err x' = x_err x" by blast+
qed

text \<open>An attempt either makes no call and touches none of the rows, or makes one call with one row,
  created before and finished after it.\<close>

definition quiet :: "('c, 'k) exec \<Rightarrow> ('c, 'k) exec \<Rightarrow> bool" where
  "quiet x x' \<longleftrightarrow> sent x' = sent x \<and> created x' = created x \<and> saved x' = saved x \<and>
     x_tokens x' = x_tokens x \<and> x_limiter x' = x_limiter x \<and> x_manager x' = x_manager x \<and>
     x_sticky x' = x_sticky x \<and> x_waits x' = x_waits x \<and> x_current x' = x_current x \<and>
     pr_attempts (x_req x') = pr_attempts (x_req x)"

lemma ready_quiet: "quiet x (fst (ready_attempt env st cd plan mr n i x))"
  by (simp add: quiet_def exec_simps)
    (simp add: ready_attempt_def prepare_attempt_def rejectProxyRequestForQuota_def end_request_def
      clearProxyRequestDetail_def Let_def split_def exec_simps split: option.split sum.split)

text \<open>What a bill does to the tokens when the database works.\<close>

definition charge ::
  "('c, 'k) exec_env \<Rightarrow> u64 \<Rightarrow> u64 \<Rightarrow> u64 \<Rightarrow> ((u64 \<times> u64) \<times> u64) list \<Rightarrow>
     ((u64 \<times> u64) \<times> u64) list" where
  "charge env tenantID tokenID cost tokens =
     (if ee_token_repo env then DeductQuotaBalanceToZero tenantID tokenID cost tokens else tokens)"

lemma settle_tokens:
  "\<forall>k. \<not> ee_token_fails env k \<Longrightarrow>
   x_tokens (fst (settle_attempt env t i cd mul a x)) =
     charge env t i (a_cost (ua_cost (snd (settle_attempt env t i cd mul a x)))) (x_tokens x)"
  by (simp add: settle_attempt_def deductAPITokenQuota_def charge_def DeductQuotaBalanceToZero_def
      Let_def split: option.split)

lemma attempt_step_rows:
  assumes "attempt_step env st cd plan mr n i x = (x', c)"
  obtains (quiet) "quiet x x'" "c \<in> {Return, NextRoute}"
  | (called) call r a b x1 cv m x2 where "sent x' = (call, r) # sent x" "created x' = a # created x"
      "saved x' = b # saved x" "ua_id b = ua_id a" "ac_provider call = mr_provider mr"
      "pr_attempts (x_req x') = pr_attempts (x_req x) + 1"
      "ua_status b = (case cr_err r of None \<Rightarrow> ''COMPLETED''
         | Some e \<Rightarrow> attemptFailureStatus (ee_ctx env (Suc (x_tick x2))) (Some e))"
      "x_current x' = None"
      "ready_attempt env st cd plan mr n i x = (x1, Inr (m, cv))"
      "try_call env st cd mr cv m x1 = (x2, Some r)"
      "(\<forall>k. \<not> ee_token_fails env k) \<longrightarrow>
         x_tokens x' = charge env (ep_tenant st) (ep_token st) (a_cost (ua_cost b)) (x_tokens x)"
  using assms
proof (cases rule: attempt_step_cases)
  case stopped
  then show thesis using quiet ready_quiet ready_control by fast
next
  case (full m cv x1)
  have "quiet x x1" using ready_quiet [of x env st cd plan mr n i] full(1) by simp
  then show thesis using full by (intro quiet) (simp_all add: quiet_def)
next
  case (succeeded m cv x1 x2 r)
  have q: "quiet x x1" using ready_quiet [of x env st cd plan mr n i] succeeded(1) by simp
  obtain a call where rows: "sent x2 = (call, r) # sent x1" "created x2 = a # created x1"
    "saved x2 = saved x1" "ac_provider call = mr_provider mr" "ua_id (cr_attempt r) = ua_id a"
    "pr_attempts (x_req x2) = pr_attempts (x_req x1) + 1"
    using succeeded(2) by (rule try_call_rows)
  define fin where "fin = settle_attempt env (ep_tenant st) (ep_token st) cd
    (getProviderMultiplier (mr_provider mr) (ep_client st))
    ((end_attempt (ee_clock env (x_tick x2)) (cr_attempt r)) \<lparr> ua_status := ''COMPLETED'', ua_error := '''' \<rparr>)
    (ticked x2)"
  have "saved x' = snd fin # saved x2"
    unfolding succeeded(5) on_success_def Let_def split_def fin_def
    by (simp add: exec_simps split: option.split)
  moreover have "pr_attempts (x_req x') = pr_attempts (x_req x2)"
    unfolding succeeded(5) on_success_def Let_def split_def
    by (simp add: exec_simps mirror_attempt_def end_request_def clearProxyRequestDetail_def
        split: option.split)
  moreover have "ua_id (snd fin) = ua_id (cr_attempt r)" "ua_status (snd fin) = ''COMPLETED''"
    unfolding fin_def by (simp_all add: exec_simps end_attempt_def)
  moreover have "x_tokens x' = x_tokens (fst fin)"
    unfolding succeeded(5) on_success_def Let_def split_def fin_def
    by (simp add: exec_simps split: option.split)
  moreover have "(\<forall>k. \<not> ee_token_fails env k) \<longrightarrow> x_tokens (fst fin) =
      charge env (ep_tenant st) (ep_token st) (a_cost (ua_cost (snd fin))) (x_tokens x2)"
    unfolding fin_def by (simp add: settle_tokens)
  moreover have "x_tokens x2 = x_tokens x1"
    using succeeded(2) try_keeps(2) [of env st cd mr cv m x1] by simp
  ultimately show thesis
    using q rows succeeded
    by (intro called [of call r a "snd fin" x2 x1 m cv])
      (simp_all add: quiet_def exec_simps)
next
  case (failed m cv x1 x2 r err)
  have q: "quiet x x1" using ready_quiet [of x env st cd plan mr n i] failed(1) by simp
  obtain a call where rows: "sent x2 = (call, r) # sent x1" "created x2 = a # created x1"
    "saved x2 = saved x1" "ac_provider call = mr_provider mr" "ua_id (cr_attempt r) = ua_id a"
    "pr_attempts (x_req x2) = pr_attempts (x_req x1) + 1"
    using failed(2) by (rule try_call_rows)
  define fin where "fin = settle_attempt env (ep_tenant st) (ep_token st) cd
    (getProviderMultiplier (mr_provider mr) (ep_client st))
    ((end_attempt (ee_clock env (x_tick x2)) (cr_attempt r))
       \<lparr> ua_status := attemptFailureStatus (ee_ctx env (Suc (x_tick x2))) (Some err),
         ua_error := error_text err \<rparr>)
    (ticked ((ticked x2) \<lparr> x_last := Some err \<rparr>))"
  let ?y = "record_failure env st cd mr r err x2"
  have "saved ?y = snd fin # saved x2" "pr_attempts (x_req ?y) = pr_attempts (x_req x2)"
    unfolding record_failure_def Let_def split_def fin_def
    by (simp_all add: exec_simps mirror_attempt_def clearProxyRequestDetail_def)
  moreover have "ua_id (snd fin) = ua_id (cr_attempt r)"
    "ua_status (snd fin) = attemptFailureStatus (ee_ctx env (Suc (x_tick x2))) (Some err)"
    unfolding fin_def by (simp_all add: exec_simps end_attempt_def)
  moreover have "x_tokens ?y = x_tokens (fst fin)"
    unfolding record_failure_def Let_def split_def fin_def by simp
  moreover have "(\<forall>k. \<not> ee_token_fails env k) \<longrightarrow> x_tokens (fst fin) =
      charge env (ep_tenant st) (ep_token st) (a_cost (ua_cost (snd fin))) (x_tokens x2)"
    unfolding fin_def by (simp add: settle_tokens)
  moreover have "x_tokens x2 = x_tokens x1"
    using failed(2) try_keeps(2) [of env st cd mr cv m x1] by simp
  moreover have "pr_attempts (x_req x') = pr_attempts (x_req ?y)"
    using decide_req(1) failed(4) .
  moreover have "sent x' = sent ?y" "created x' = created ?y" "saved x' = saved ?y"
    "x_current x' = x_current ?y" "x_tokens x' = x_tokens ?y"
    using failed(4) decide_keeps [of env cd "rp_retry plan" mr cv m "rp_smart plan"
        "length (rp_candidates plan)" n i r err ?y] by simp_all
  ultimately show thesis
    using q rows failed
    by (intro called [of call r a "snd fin" x2 x1 m cv]) (simp_all add: quiet_def exec_simps)
qed

section \<open>Bounded attempts\<close>

definition route_budget ::
  "('c, 'k) exec_env \<Rightarrow> exec_params \<Rightarrow> retry_config matched_route \<Rightarrow> nat" where
  "route_budget env st mr =
     nat (rc_max_retries (getRetryConfig (mr_retry mr) (ee_default_retry env (ep_tenant st))) + 1)"

lemma attempt_step_sent:
  "attempt_step env st cd plan mr n i x = (x', c) \<Longrightarrow> length (sent x') \<le> Suc (length (sent x))"
  by (cases rule: attempt_step_rows) (auto simp: quiet_def)

lemma attempt_step_over:
  assumes "rc_max_retries (rp_retry plan) < n" and "\<not> shouldSkipErrorCooldown (mr_provider mr)"
  shows "attempt_step env st cd plan mr n i x = (x, NextRoute)"
  using assms by (simp add: attempt_step_def ready_attempt_def)

lemma attempt_loop_budget:
  assumes loop: "attempt_loop env st cd plan mr 0 i x = Some (x', b)"
    and "\<not> rp_smart plan" and "\<not> shouldSkipErrorCooldown (mr_provider mr)"
  shows "length (sent x') \<le> length (sent x) + nat (rc_max_retries (rp_retry plan) + 1)"
proof -
  let ?M = "rc_max_retries (rp_retry plan)"
  let ?B = "length (sent x) + nat (?M + 1)"
  let ?I = "\<lambda>n i y. length (sent y) + nat (?M + 1 - n) \<le> ?B"
  let ?R = "\<lambda>y. length (sent y) \<le> ?B"
  have "if b then ?R x' else ?R x'"
  proof (rule attempt_loop_rule [where I = ?I and R = ?R and J = ?R, OF loop])
    fix n i y y' c
    assume inv: "?I n i y" and step: "attempt_step env st cd plan mr n i y = (y', c)"
    show "case c of Return \<Rightarrow> ?R y' | NextRoute \<Rightarrow> ?R y' | Again n' i' \<Rightarrow> ?I n' i' y'"
    proof (cases "?M < n")
      case True
      have "y' = y" "c = NextRoute"
        using step attempt_step_over [OF True assms(3), of env st cd i y] by simp_all
      then show ?thesis using inv by simp
    next
      case False
      then show ?thesis
        using inv attempt_step_sent [OF step] attempt_again(6) [of env st cd plan mr n i y y'] step assms(2)
        by (auto split: control.split)
    qed
  qed simp
  then show ?thesis by simp
qed

lemma route_loop_budget:
  assumes "route_loop env st cd routes x = Some x'"
    and "\<forall>mr \<in> set routes. \<not> shouldSkipErrorCooldown (mr_provider mr)"
  shows "length (sent x') \<le> length (sent x) + sum_list (map (route_budget env st) routes)"
  using assms
proof (induction routes arbitrary: x)
  case Nil
  then have "x' = exhausted env cd x" by simp
  then show ?case by (simp add: exec_simps)
next
  case (Cons mr routes)
  obtain plan i where plan: "plan_route env st mr (ticked x) = (plan, i)" by fastforce
  show ?case
  proof (cases "ee_ctx env (x_tick x)")
    case (Some ce)
    then have "x' = fail_with ce (ticked x)" using Cons.prems(1) by simp
    then show ?thesis by simp
  next
    case None
    obtain y b where loop: "attempt_loop env st cd plan mr 0 i (ticked x) = Some (y, b)"
      using Cons.prems(1) None plan by (auto split: option.splits)
    have skip: "\<not> shouldSkipErrorCooldown (mr_provider mr)" using Cons.prems(2) by simp
    then have "\<not> rp_smart plan" using plan_route_sel(2) [OF plan] smart_opts_out by blast
    from attempt_loop_budget [OF loop this skip]
    have y: "length (sent y) \<le> length (sent x) + route_budget env st mr"
      using plan_route_sel(1) [OF plan] by (simp add: route_budget_def)
    show ?thesis
    proof (cases b)
      case True
      then have "route_loop env st cd routes y = Some x'" using Cons.prems(1) None plan loop by simp
      then show ?thesis using Cons.IH Cons.prems(2) y by fastforce
    next
      case False
      then have "x' = y" using Cons.prems(1) None plan loop by simp
      then show ?thesis using y by simp
    qed
  qed
qed

section \<open>Rows\<close>

definition finished_status :: "string \<Rightarrow> bool" where
  "finished_status s \<longleftrightarrow> s \<in> {''COMPLETED'', ''FAILED'', ''CANCELLED''}"

lemma attemptFailureStatus_finished: "finished_status (attemptFailureStatus ctx e)"
  using failure_status_cases [of ctx e] by (auto simp: attemptFailureStatus_def finished_status_def)

definition rows_match :: "('c, 'k) exec \<Rightarrow> ('c, 'k) exec \<Rightarrow> bool" where
  "rows_match x y \<longleftrightarrow>
     (\<exists>ss cs bs. sent y = ss @ sent x \<and> created y = cs @ created x \<and> saved y = bs @ saved x \<and>
        map ua_id bs = map ua_id cs \<and> length ss = length cs \<and>
        pr_attempts (x_req y) = pr_attempts (x_req x) + word_of_nat (length cs) \<and>
        list_all (\<lambda>b. finished_status (ua_status b)) bs)"

lemma rows_match_refl: "rows_match x x"
  by (simp add: rows_match_def)

lemma rows_match_quiet: "rows_match x y \<Longrightarrow> quiet y z \<Longrightarrow> rows_match x z"
  by (simp add: rows_match_def quiet_def)

lemma rows_match_step:
  assumes "rows_match x y" and "attempt_step env st cd plan mr n i y = (z, c)"
  shows "rows_match x z"
  using assms(2)
proof (cases rule: attempt_step_rows)
  case quiet
  then show ?thesis using assms(1) rows_match_quiet by blast
next
  case (called call r a b x1 cv m x2)
  obtain ss cs bs where rows: "sent y = ss @ sent x" "created y = cs @ created x"
    "saved y = bs @ saved x" "map ua_id bs = map ua_id cs" "length ss = length cs"
    "pr_attempts (x_req y) = pr_attempts (x_req x) + word_of_nat (length cs)"
    "list_all (\<lambda>b. finished_status (ua_status b)) bs"
    using assms(1) by (auto simp: rows_match_def)
  have "finished_status (ua_status b)"
    unfolding called(7) by (simp add: attemptFailureStatus_finished split: option.split)
      (simp add: finished_status_def)
  then show ?thesis
    unfolding rows_match_def
    using rows called
    by (intro exI [of _ "(call, r) # ss"] exI [of _ "a # cs"] exI [of _ "b # bs"]) simp
qed

lemma exhausted_attempts: "pr_attempts (x_req (exhausted env cd x)) = pr_attempts (x_req x)"
  by (simp add: exhausted_def end_request_def clearProxyRequestDetail_def http_error_status_def Let_def
      split: option.split)

lemma dispatch_rows:
  assumes "dispatch env st routes x = Some x'"
  shows "rows_match x x'"
  using assms
proof (rule dispatch_invariant [where I = "rows_match x"])
  show "rows_match x x" by (rule rows_match_refl)
  show "rows_match x y'" if "rows_match x y" "attempt_step env st cd plan mr n i y = (y', c)"
    for cd plan mr n i y y' c
    using rows_match_step that .
qed (simp_all add: exec_simps exhausted_attempts rows_match_def)

lemma dispatch_current:
  assumes "dispatch env st routes x = Some x'" and "x_current x = None"
  shows "x_current x' = None"
  using assms
proof (rule dispatch_invariant [where I = "\<lambda>y. x_current y = None"])
  fix cd plan mr n i y y' c
  assume cur: "x_current y = None" and step: "attempt_step env st cd plan mr n i y = (y', c)"
  show "x_current y' = None"
    using step by (cases rule: attempt_step_rows) (simp_all add: quiet_def cur)
qed (simp_all add: exec_simps)

section \<open>One response for the client\<close>

text \<open>A call may be followed by another only if it failed and either nothing reached the client or the
  provider's stream broke.\<close>

definition failover_allowed :: "adapter_call \<times> call_result \<Rightarrow> bool" where
  "failover_allowed s \<longleftrightarrow>
     (\<exists>err. cr_err (snd s) = Some err \<and>
        (rc_wrote (cr_capture (snd s)) \<longrightarrow>
           shouldRetryCommittedResponseError
             (asProxyError (classify_error (ac_provider (fst s)) err))))"

lemma decide_continues:
  assumes "decide env cd rc mr cv m sm nc n i r e x = (x', c)" and "c \<noteq> Return"
    and "rc_wrote (cr_capture r)"
  shows "shouldRetryCommittedResponseError (asProxyError (classify_error (mr_provider mr) e))"
  using assms by (auto simp: decide_eq Let_def split: if_splits)

lemma attempt_step_failover:
  assumes "attempt_step env st cd plan mr n i x = (x', c)"
  shows "\<exists>new. sent x' = new @ sent x \<and> list_all failover_allowed (tl new) \<and>
    (c \<noteq> Return \<longrightarrow> list_all failover_allowed new)"
  using assms
proof (cases rule: attempt_step_cases)
  case stopped
  then have "sent x' = [] @ sent x" by (simp add: exec_simps)
  then show ?thesis by (intro exI [of _ "[]"]) simp
next
  case (full m cv x1)
  have "sent x1 = sent x" using full(1) ready_keeps(2) [of env st cd plan mr n i x] by simp
  then show ?thesis using full(4) by (intro exI [of _ "[]"]) simp
next
  case (succeeded m cv x1 x2 r)
  obtain call where "sent x2 = (call, r) # sent x1"
    using succeeded(2) by (rule try_call_rows)
  moreover have "sent x1 = sent x" using succeeded(1) ready_keeps(2) [of env st cd plan mr n i x] by simp
  ultimately show ?thesis
    using succeeded by (intro exI [of _ "[(call, r)]"]) (simp add: exec_simps)
next
  case (failed m cv x1 x2 r err)
  obtain call where "sent x2 = (call, r) # sent x1" and p: "ac_provider call = mr_provider mr"
    using failed(2) by (rule try_call_rows)
  moreover have "sent x1 = sent x" using failed(1) ready_keeps(2) [of env st cd plan mr n i x] by simp
  moreover have "sent x' = sent (record_failure env st cd mr r err x2)"
    using failed(4) decide_keeps(2) [of env cd "rp_retry plan" mr cv m "rp_smart plan"
        "length (rp_candidates plan)" n i r err "record_failure env st cd mr r err x2"] by simp
  moreover have "failover_allowed (call, r)" if "c \<noteq> Return"
    using decide_continues [OF failed(4) that] failed(3) p by (simp add: failover_allowed_def)
  ultimately show ?thesis by (intro exI [of _ "[(call, r)]"]) (simp add: exec_simps)
qed

lemma dispatch_failover:
  assumes "dispatch env st routes x = Some x'"
  shows "\<exists>new. sent x' = new @ sent x \<and> list_all failover_allowed (tl new)"
proof -
  let ?I = "\<lambda>y. \<exists>new. sent y = new @ sent x \<and> list_all failover_allowed new"
  let ?R = "\<lambda>y. \<exists>new. sent y = new @ sent x \<and> list_all failover_allowed (tl new)"
  have tl: "list_all failover_allowed old \<Longrightarrow> list_all failover_allowed (tl old)" for old
    by (cases old) simp_all
  then have weak: "?I y \<Longrightarrow> ?R y" for y :: "('a, 'b) exec" by blast
  show ?thesis
    using assms unfolding dispatch_def
  proof (rule route_loop_rule [where I = ?I and R = ?R and A = "\<lambda>plan mr n i y. ?I y"])
    fix cd plan mr n i y y' c
    assume inv: "?I y" and step: "attempt_step env st cd plan mr n i y = (y', c)"
    obtain old where old: "sent y = old @ sent x" "list_all failover_allowed old" using inv by blast
    obtain new where new: "sent y' = new @ sent y" "list_all failover_allowed (tl new)"
      "c \<noteq> Return \<longrightarrow> list_all failover_allowed new"
      using attempt_step_failover [OF step] by blast
    have R: "?R y'"
      using old new tl by (intro exI [of _ "new @ old"]) (cases new; simp)
    moreover have "?I y'" if "c \<noteq> Return"
      using old new that by (intro exI [of _ "new @ old"]) simp
    ultimately show "case c of Return \<Rightarrow> ?R y' | NextRoute \<Rightarrow> ?I y' | Again n' i' \<Rightarrow> ?I y'"
      by (cases c) auto
  qed (auto simp: exec_simps weak)
qed

section \<open>Provider slots\<close>

definition slots_sane :: "limiter \<Rightarrow> bool" where
  "slots_sane l \<longleftrightarrow> (\<forall>p. 0 \<le> inflight_of (lm_inflight l) p \<and> inflight_of (lm_inflight l) p < 2 ^ 62)"

lemma acquire_release:
  assumes "TryAcquire p limit l = (l', Some h)" and "slots_sane l"
  shows "inflight_of (lm_inflight (release h l')) = inflight_of (lm_inflight l)"
proof
  fix q
  let ?c = "inflight_of (lm_inflight l) p"
  have c: "0 \<le> ?c" "?c < 2 ^ 62" using assms(2) by (simp_all add: slots_sane_def)
  then have "wrap_i64 (?c + 1) = ?c + 1" "wrap_i64 ?c = ?c" by (simp_all add: wrap_i64_id)
  then show "inflight_of (lm_inflight (release h l')) q = inflight_of (lm_inflight l) q"
    using assms(1) c
    by (auto simp: TryAcquire_def acquire_count_def release_def release_count_def
        split: if_splits option.splits)
qed

lemma try_call_slots:
  assumes "slots_sane (x_limiter x)"
  shows "inflight_of (lm_inflight (x_limiter (fst (try_call env st cd mr cv m x)))) =
    inflight_of (lm_inflight (x_limiter x))"
proof (cases "snd (try_call env st cd mr cv m x)")
  case None
  then show ?thesis by (simp add: try_call_none)
next
  case (Some r)
  then have t: "try_call env st cd mr cv m x = (fst (try_call env st cd mr cv m x), Some r)"
    by (simp add: prod_eq_iff)
  then obtain l h x1 a where
    acq: "TryAcquire (pv_id (mr_provider mr)) (pv_max_concurrency (mr_provider mr)) (x_limiter x) =
       (l, Some h)" and
    "start_attempt env st mr m (ee_clock env (x_tick x)) ((ticked x) \<lparr> x_limiter := l \<rparr>) = (x1, a)"
    "call_upstream env st cd mr cv m h a x1 = (fst (try_call env st cd mr cv m x), r)"
    by (rule try_call_some)
  then have "x_limiter (fst (try_call env st cd mr cv m x)) = release h l"
    using call_keeps(6) [of env st cd mr cv m h a x1]
      start_keeps(6) [of env st mr m "ee_clock env (x_tick x)" "(ticked x) \<lparr> x_limiter := l \<rparr>"]
    by simp
  then show ?thesis using acquire_release [OF acq assms] by simp
qed

lemma attempt_step_slots:
  assumes "attempt_step env st cd plan mr n i x = (x', c)" and "slots_sane (x_limiter x)"
  shows "inflight_of (lm_inflight (x_limiter x')) = inflight_of (lm_inflight (x_limiter x))"
  using assms(1)
proof (cases rule: attempt_step_cases)
  case stopped
  then show ?thesis by (simp add: exec_simps)
next
  case (full m cv x1)
  then show ?thesis using ready_keeps(5) [of env st cd plan mr n i x] by simp
next
  case (succeeded m cv x1 x2 r)
  have "x_limiter x1 = x_limiter x" using ready_keeps(5) [of env st cd plan mr n i x] succeeded(1) by simp
  then show ?thesis
    using try_call_slots [of x1 env st cd mr cv m] assms(2) succeeded by (simp add: exec_simps)
next
  case (failed m cv x1 x2 r err)
  have "x_limiter x1 = x_limiter x" using ready_keeps(5) [of env st cd plan mr n i x] failed(1) by simp
  moreover have "x_limiter x' = x_limiter x2"
    using decide_keeps(5) [of env cd "rp_retry plan" mr cv m "rp_smart plan"
        "length (rp_candidates plan)" n i r err "record_failure env st cd mr r err x2"] failed(4)
    by (simp add: exec_simps)
  ultimately show ?thesis
    using try_call_slots [of x1 env st cd mr cv m] assms(2) failed(2) by simp
qed

lemma dispatch_slots:
  assumes "dispatch env st routes x = Some x'" and sane: "slots_sane (x_limiter x)"
  shows "inflight_of (lm_inflight (x_limiter x')) = inflight_of (lm_inflight (x_limiter x))"
  using assms(1)
proof (rule dispatch_invariant [where I =
      "\<lambda>y. inflight_of (lm_inflight (x_limiter y)) = inflight_of (lm_inflight (x_limiter x))"])
  fix cd plan mr n i y y' c
  assume inv: "inflight_of (lm_inflight (x_limiter y)) = inflight_of (lm_inflight (x_limiter x))"
    and step: "attempt_step env st cd plan mr n i y = (y', c)"
  have "slots_sane (x_limiter y)" using sane inv by (simp add: slots_sane_def)
  then show "inflight_of (lm_inflight (x_limiter y')) = inflight_of (lm_inflight (x_limiter x))"
    using attempt_step_slots [OF step] inv by simp
qed (simp_all add: exec_simps)

section \<open>Bills and quota\<close>

lemma charge_balance:
  assumes "ee_token_repo env" and "i \<noteq> 0" and "map_of tokens (t, i) = Some b"
  shows "\<exists>b'. map_of (charge env t i cost tokens) (t, i) = Some b' \<and> unat b' = unat b - unat cost"
  using assms
  by (auto simp: charge_def DeductQuotaBalanceToZero_def go_map unat_sub word_less_nat_alt
      word_le_nat_alt simp del: map_of_eq_Some_iff)

lemma dispatch_bills:
  assumes run: "dispatch env st routes x = Some x'"
    and repo: "ee_token_repo env" "\<forall>k. \<not> ee_token_fails env k" "ep_token st \<noteq> 0"
    and start: "map_of (x_tokens x) (ep_tenant st, ep_token st) = Some b0"
  shows "\<exists>bs b. saved x' = bs @ saved x \<and>
    map_of (x_tokens x') (ep_tenant st, ep_token st) = Some b \<and>
    unat b = unat b0 - sum_list (map (\<lambda>a. unat (a_cost (ua_cost a))) bs)"
  using run
proof (rule dispatch_invariant [where I = "\<lambda>y. \<exists>bs b. saved y = bs @ saved x \<and>
    map_of (x_tokens y) (ep_tenant st, ep_token st) = Some b \<and>
    unat b = unat b0 - sum_list (map (\<lambda>a. unat (a_cost (ua_cost a))) bs)"])
  fix cd plan mr n i c and y y' :: "('a, 'b) exec"
  assume "\<exists>bs b. saved y = bs @ saved x \<and>
    map_of (x_tokens y) (ep_tenant st, ep_token st) = Some b \<and>
    unat b = unat b0 - sum_list (map (\<lambda>a. unat (a_cost (ua_cost a))) bs)"
  then obtain bs b where inv: "saved y = bs @ saved x"
    "map_of (x_tokens y) (ep_tenant st, ep_token st) = Some b"
    "unat b = unat b0 - sum_list (map (\<lambda>a. unat (a_cost (ua_cost a))) bs)" by blast
  assume "attempt_step env st cd plan mr n i y = (y', c)"
  then show "\<exists>bs b. saved y' = bs @ saved x \<and>
    map_of (x_tokens y') (ep_tenant st, ep_token st) = Some b \<and>
    unat b = unat b0 - sum_list (map (\<lambda>a. unat (a_cost (ua_cost a))) bs)"
  proof (cases rule: attempt_step_rows)
    case quiet
    then show ?thesis using inv by (auto simp: quiet_def)
  next
    case (called call r a d x1 cv m x2)
    obtain b' where "map_of (charge env (ep_tenant st) (ep_token st) (a_cost (ua_cost d)) (x_tokens y))
        (ep_tenant st, ep_token st) = Some b'" "unat b' = unat b - unat (a_cost (ua_cost d))"
      using charge_balance [OF repo(1,3) inv(2)] by blast
    then show ?thesis
      using called inv repo(2) by (intro exI [of _ "d # bs"] exI [of _ b']) simp
  qed
qed (use start in \<open>simp_all add: exec_simps\<close>)

definition no_quota :: "('c, 'k) exec_env \<Rightarrow> exec_params \<Rightarrow> ('c, 'k) exec \<Rightarrow> bool" where
  "no_quota env st x \<longleftrightarrow>
     \<not> ee_token_repo env \<or> ep_token st = 0 \<or>
     token_balance (x_tokens x) (ep_tenant st) (ep_token st) = 0"

lemma ensure_rejects:
  assumes "providerQuotaEnabled p" and "no_quota env st x"
  shows "snd (ensureAPITokenQuota env (ep_tenant st) (ep_token st) p x) = Some newAPITokenQuotaError"
  using assms by (auto simp: ensureAPITokenQuota_def no_quota_def)

section \<open>How a dispatch ends\<close>

definition saved_last :: "('c, 'k) exec \<Rightarrow> bool" where
  "saved_last x \<longleftrightarrow> (\<exists>rest. x_log x = RequestSaved (x_req x) # rest)"

text \<open>A completed request: its row is saved and shows the successful attempt with its bill, and the
  session is bound to the provider that served it.\<close>

definition completed ::
  "('c, 'k) exec_env \<Rightarrow> exec_params \<Rightarrow> 'k option \<Rightarrow> ('c, 'k) exec \<Rightarrow> bool" where
  "completed env st sticky x \<longleftrightarrow>
     saved_last x \<and> pr_status (x_req x) = ''COMPLETED'' \<and>
     (\<exists>call r calls a as.
        sent x = (call, r) # calls \<and> saved x = a # as \<and> cr_err r = None \<and>
        ua_status a = ''COMPLETED'' \<and> ua_error a = '''' \<and> ua_id a = ua_id (cr_attempt r) \<and>
        ua_cost a = the (fst (FinalizeAttemptCost (ee_calc env) (Some (ua_cost (cr_attempt r)))
                      (getProviderMultiplier (ac_provider call) (ep_client st)))) \<and>
        pr_final_attempt (x_req x) = ua_id a \<and> pr_response_model (x_req x) = ac_mapped call \<and>
        pr_status_code (x_req x) = rc_status (cr_capture r) \<and> pr_ttft (x_req x) = ua_ttft a \<and>
        q_cost (pr_cost (x_req x)) = a_cost (ua_cost a) \<and>
        q_price_id (pr_cost (x_req x)) = a_price_id (ua_cost a) \<and>
        q_multiplier (pr_cost (x_req x)) = a_multiplier (ua_cost a) \<and>
        q_input (pr_cost (x_req x)) = a_input (ua_cost a) \<and>
        q_output (pr_cost (x_req x)) = a_output (ua_cost a) \<and>
        (\<forall>sw. ep_sticky st = Some sw \<longrightarrow>
           (\<exists>t. x_sticky x = fst (Manager_Set (ee_sticky_ops env) (sw_key sw)
              (pv_id (ac_provider call)) (sw_ttl sw) (ee_clock env t) sticky))))"

text \<open>The states a dispatch passes through between its attempts, where it looks at the request's context
  before it takes up a route or an attempt.\<close>

inductive between_attempts ::
  "('c, 'k) exec_env \<Rightarrow> exec_params \<Rightarrow> retry_config matched_route list \<Rightarrow> ('c, 'k) exec \<Rightarrow>
     ('c, 'k) exec \<Rightarrow> bool" for env st routes x where
  starts: "between_attempts env st routes x x"
| looks: "between_attempts env st routes x y \<Longrightarrow> ee_ctx env (x_tick y) = None \<Longrightarrow>
     between_attempts env st routes x (ticked y)"
| attempts: "between_attempts env st routes x y \<Longrightarrow> mr \<in> set routes \<Longrightarrow>
     attempt_step env st cd plan mr n i y = (z, c) \<Longrightarrow> c \<noteq> Return \<Longrightarrow>
     between_attempts env st routes x z"

text \<open>A failed one: the error is reported and the row is saved as failed; or the dispatch stopped before
  an attempt, in a state \<open>y\<close> of \<open>B\<close>, because the context had ended: then it only reports the context's
  error and leaves the row as it was to the egress.\<close>

definition failed_with ::
  "('c, 'k) exec_env \<Rightarrow> (('c, 'k) exec \<Rightarrow> bool) \<Rightarrow> ('c, 'k) exec \<Rightarrow> bool" where
  "failed_with env B x \<longleftrightarrow>
     (\<exists>e. x_last x = Some e \<and> x_err x = Some e \<and>
        (saved_last x \<and> pr_status (x_req x) \<in> {''FAILED'', ''CANCELLED'', ''REJECTED''} \<or>
         (\<exists>y. B y \<and> ee_ctx env (x_tick y) = Some e \<and> x = fail_with e (ticked y))))"

lemma failed_with_reported: "failed_with env B x \<Longrightarrow> x_last x \<noteq> None \<and> x_err x = x_last x"
  by (auto simp: failed_with_def)

lemma failed_with_stopped:
  "B y \<Longrightarrow> ee_ctx env (x_tick y) = Some e \<Longrightarrow> failed_with env B (fail_with e (ticked y))"
  by (auto simp: failed_with_def)

lemma failed_with_mono: "failed_with env B x \<Longrightarrow> (\<And>y. B y \<Longrightarrow> B' y) \<Longrightarrow> failed_with env B' x"
  by (auto simp: failed_with_def)

lemma settle_bill:
  "ua_cost (snd (settle_attempt env t i cd mul a x)) =
     the (fst (FinalizeAttemptCost (ee_calc env) (Some (ua_cost a)) mul))"
  "ua_ttft (snd (settle_attempt env t i cd mul a x)) = ua_ttft a"
  "ua_error (snd (settle_attempt env t i cd mul a x)) = ua_error a"
  by (simp_all add: settle_attempt_def Let_def)

lemma on_success_completed:
  assumes "sent x = (call, r) # calls" and "cr_err r = None" and "ac_provider call = mr_provider mr"
    and "ac_mapped call = m" and "x_sticky x = sticky"
  shows "completed env st sticky (on_success env st cd mr cv m sk r x)"
proof -
  define fin where "fin = settle_attempt env (ep_tenant st) (ep_token st) cd
    (getProviderMultiplier (mr_provider mr) (ep_client st))
    ((end_attempt (ee_clock env (x_tick x)) (cr_attempt r)) \<lparr> ua_status := ''COMPLETED'', ua_error := '''' \<rparr>)
    (ticked x)"
  let ?y = "on_success env st cd mr cv m sk r x"
  have req: "pr_status (x_req ?y) = ''COMPLETED''" "pr_final_attempt (x_req ?y) = ua_id (snd fin)"
    "pr_response_model (x_req ?y) = m" "pr_status_code (x_req ?y) = rc_status (cr_capture r)"
    "pr_ttft (x_req ?y) = ua_ttft (snd fin)"
    "q_cost (pr_cost (x_req ?y)) = a_cost (ua_cost (snd fin))"
    "q_price_id (pr_cost (x_req ?y)) = a_price_id (ua_cost (snd fin))"
    "q_multiplier (pr_cost (x_req ?y)) = a_multiplier (ua_cost (snd fin))"
    "q_input (pr_cost (x_req ?y)) = a_input (ua_cost (snd fin))"
    "q_output (pr_cost (x_req ?y)) = a_output (ua_cost (snd fin))"
    unfolding on_success_def Let_def split_def fin_def
    by (simp_all add: exec_simps mirror_attempt_def end_request_def clearProxyRequestDetail_def
        MirrorCostToRequest_def split: option.split)
  have saved: "saved ?y = snd fin # saved x"
    unfolding on_success_def Let_def split_def fin_def by (simp add: exec_simps split: option.split)
  have last: "saved_last ?y"
    unfolding on_success_def Let_def split_def saved_last_def by simp
  have stick: "\<exists>t. x_sticky ?y = fst (Manager_Set (ee_sticky_ops env) (sw_key sw)
      (pv_id (mr_provider mr)) (sw_ttl sw) (ee_clock env t) sticky)" if "ep_sticky st = Some sw" for sw
    unfolding on_success_def Let_def split_def using that assms(5)
    by (simp add: exec_simps split: option.split) blast
  have fin: "ua_status (snd fin) = ''COMPLETED''" "ua_error (snd fin) = ''''"
    "ua_id (snd fin) = ua_id (cr_attempt r)"
    "ua_cost (snd fin) = the (fst (FinalizeAttemptCost (ee_calc env) (Some (ua_cost (cr_attempt r)))
       (getProviderMultiplier (mr_provider mr) (ep_client st))))"
    unfolding fin_def by (simp_all add: exec_simps settle_bill end_attempt_def)
  show ?thesis
    unfolding completed_def
    using last req(1)
    by (intro conjI exI [of _ call] exI [of _ r] exI [of _ calls] exI [of _ "snd fin"]
        exI [of _ "saved x"])
      (simp_all add: exec_simps assms saved req fin stick)
qed

lemma end_failed_saved:
  assumes "\<And>q. pr_status (f q) = pr_status q"
  shows "saved_last (end_failed env cd s t f x)" and "pr_status (x_req (end_failed env cd s t f x)) = s"
  by (simp_all add: end_failed_def saved_last_def clearProxyRequestDetail_def assms)

lemma saved_last_fail_with [simp]: "saved_last (fail_with e x) = saved_last x"
  by (simp add: saved_last_def)

lemma failed_with_ended:
  assumes "\<And>q. pr_status (f q) = pr_status q" and "t \<in> {''FAILED'', ''CANCELLED''}"
  shows "failed_with env B (fail_with e (end_failed env cd t m f x))"
  using assms by (auto simp: failed_with_def end_failed_saved)

lemma ready_returned:
  assumes "ready_attempt env st cd plan mr n i x = (x', Inl Return)" and "B x"
  shows "failed_with env B x'"
proof -
  consider (ctx) e where "ee_ctx env (x_tick x) = Some e" "x' = fail_with e (ticked x)" |
    (quota) m where "x' = fst (prepare_attempt env st cd mr m (ticked x))"
      "\<not> snd (prepare_attempt env st cd mr m (ticked x))"
    using assms(1)
    by (auto simp: ready_attempt_def Let_def split_def split: if_splits option.splits sum.splits)
  then show ?thesis
  proof cases
    case ctx
    then show ?thesis using assms(2) failed_with_stopped by blast
  next
    case quota
    then show ?thesis
      by (auto simp: failed_with_def prepare_attempt_def Let_def split_def saved_last_def
          rejectProxyRequestForQuota_def end_request_def clearProxyRequestDetail_def
          split: option.splits if_splits)
  qed
qed

lemma wait_returned:
  assumes "\<not> snd (wait_retry env cd w e x)"
  shows "failed_with env B (fst (wait_retry env cd w e x))"
  using assms failure_status_cases
  by (auto simp: wait_retry_def Let_def split_def failed_with_ended split: option.splits if_splits)

lemma decide_returned:
  assumes "decide env cd rc mr cv m sm nc n i r e x = (x', Return)"
  shows "failed_with env B x'"
  using assms
proof (cases rule: decide_cases)
  case committed
  then show ?thesis by (simp add: failed_with_ended)
next
  case (context_done ce)
  then show ?thesis using failure_status_cases by (simp add: failed_with_ended)
next
  case (request f fc)
  have st: "pr_status (http_error_status f q) = pr_status q" for q by (simp add: http_error_status_def)
  show ?thesis by (simp add: request failed_with_ended st)
next
  case (retry f fc)
  then show ?thesis
    using wait_returned [of env cd] by (auto simp: next_attempt_def Let_def split_def split: if_splits)
qed simp_all

lemma exhausted_failed: "failed_with env B (exhausted env cd x)"
proof -
  have st: "pr_status (http_error_status f q) = pr_status q" for f q by (simp add: http_error_status_def)
  have "saved_last (exhausted env cd x) \<and> pr_status (x_req (exhausted env cd x)) = ''FAILED''"
    by (auto simp: exhausted_def Let_def end_request_def clearProxyRequestDetail_def st
        saved_last_def split: option.splits)
  moreover have "\<exists>e. x_last (exhausted env cd x) = Some e \<and> x_err (exhausted env cd x) = Some e"
    by (simp add: exhausted_def Let_def split: option.split)
  ultimately show ?thesis by (auto simp: failed_with_def)
qed

lemma attempt_step_sticky:
  assumes "attempt_step env st cd plan mr n i x = (x', c)" and "c \<noteq> Return"
  shows "x_sticky x' = x_sticky x"
  using assms(1)
proof (cases rule: attempt_step_cases)
  case stopped
  then show ?thesis by (simp add: exec_simps)
next
  case (full m cv x1)
  then show ?thesis using ready_keeps(9) [of env st cd plan mr n i x] by simp
next
  case (failed m cv x1 x2 r err)
  then show ?thesis
    using ready_keeps(9) [of env st cd plan mr n i x] try_keeps(5) [of env st cd mr cv m x1]
      decide_keeps(7) [of env cd "rp_retry plan" mr cv m "rp_smart plan"
        "length (rp_candidates plan)" n i r err "record_failure env st cd mr r err x2"]
    by (simp add: exec_simps)
qed (use assms(2) in simp)

lemma attempt_step_returned:
  assumes "attempt_step env st cd plan mr n i x = (x', Return)" and "B x"
  shows "x_last x' = None \<and> completed env st (x_sticky x) x' \<or> failed_with env B x'"
  using assms(1)
proof (cases rule: attempt_step_cases)
  case stopped
  then show ?thesis
    using ready_returned [of env st cd plan mr n i x x' B] assms(2) by (simp add: prod_eq_iff)
next
  case (succeeded m cv x1 x2 r)
  obtain call where "sent x2 = (call, r) # sent x1" "ac_provider call = mr_provider mr"
    "ac_mapped call = m"
    using succeeded(2) by (rule try_call_rows)
  moreover have "x_sticky x2 = x_sticky x"
    using ready_keeps(9) [of env st cd plan mr n i x] try_keeps(5) [of env st cd mr cv m x1]
      succeeded(1,2) by simp
  ultimately show ?thesis
    using succeeded on_success_completed by (simp add: exec_simps) blast
next
  case (failed m cv x1 x2 r err)
  then show ?thesis using decide_returned by blast
qed simp_all

lemma dispatch_outcome:
  assumes "dispatch env st routes x = Some x'"
  shows "x_last x' = None \<and> completed env st (x_sticky x) x' \<or>
    failed_with env (between_attempts env st routes x) x'"
    (is "?R x'")
  using assms unfolding dispatch_def
proof (rule route_loop_rule [where
      I = "\<lambda>y. between_attempts env st routes x y \<and> x_sticky y = x_sticky x" and
      A = "\<lambda>plan mr n i y. mr \<in> set routes \<and> between_attempts env st routes x y \<and>
        x_sticky y = x_sticky x"])
  fix y :: "('a, 'b) exec" and ce
  assume "between_attempts env st routes x y \<and> x_sticky y = x_sticky x" "ee_ctx env (x_tick y) = Some ce"
  then show "?R (fail_with ce (ticked y))" using failed_with_stopped by blast
next
  fix cd plan mr n i c and y y' :: "('a, 'b) exec"
  assume inv: "mr \<in> set routes \<and> between_attempts env st routes x y \<and> x_sticky y = x_sticky x"
    and step: "attempt_step env st cd plan mr n i y = (y', c)"
  have "between_attempts env st routes x y' \<and> x_sticky y' = x_sticky x" if "c \<noteq> Return"
    using inv step that attempts attempt_step_sticky [OF step that] by metis
  then show "case c of Return \<Rightarrow> ?R y'
      | NextRoute \<Rightarrow> between_attempts env st routes x y' \<and> x_sticky y' = x_sticky x
      | Again n' i' \<Rightarrow> mr \<in> set routes \<and> between_attempts env st routes x y' \<and> x_sticky y' = x_sticky x"
    using attempt_step_returned [of env st cd plan mr n i y y'] inv step by (cases c) auto
qed (simp_all add: exhausted_failed starts looks)

section \<open>Nothing without quota\<close>

lemma no_quota_ready:
  assumes "providerQuotaEnabled (mr_provider mr)" and "no_quota env st x"
  shows "snd (ready_attempt env st cd plan mr n i x) \<noteq> Inr (m, cv)"
proof
  assume "snd (ready_attempt env st cd plan mr n i x) = Inr (m, cv)"
  from ready_model [OF this] have "snd (prepare_attempt env st cd mr m (ticked x))" by blast
  moreover have "\<not> snd (prepare_attempt env st cd mr m y)" if "no_quota env st y" for y
    using ensure_rejects [OF assms(1), of env st "upd_req (\<lambda>q. q \<lparr> pr_route := rt_id (mr_route mr),
        pr_provider := pv_id (mr_provider mr), pr_mapped_model := m \<rparr>) y"] that
    by (simp add: prepare_attempt_def Let_def split_def no_quota_def)
  moreover have "no_quota env st (ticked x)" using assms(2) by (simp add: no_quota_def)
  ultimately show False by blast
qed

lemma no_quota_step:
  assumes "providerQuotaEnabled (mr_provider mr)" and "no_quota env st x"
    and step: "attempt_step env st cd plan mr n i x = (x', c)"
  shows "quiet x x' \<and> c \<in> {Return, NextRoute} \<and> (c = Return \<longrightarrow> failed_with env (\<lambda>y. True) x')"
proof -
  have stop: "snd (ready_attempt env st cd plan mr n i x) = Inl c"
      "x' = fst (ready_attempt env st cd plan mr n i x)"
    using step no_quota_ready [OF assms(1,2), of cd plan n i]
    by (cases rule: attempt_step_cases; metis snd_conv)+
  moreover have "c \<in> {Return, NextRoute}"
    using step
  proof (cases rule: attempt_step_rows)
    case (called call r a b x1 cv m x2)
    then show ?thesis using no_quota_ready [OF assms(1,2), of cd plan n i m cv] by simp
  qed simp
  moreover have "c = Return \<longrightarrow> failed_with env (\<lambda>y. True) x'"
    using ready_returned [of env st cd plan mr n i x x' "\<lambda>y. True"] stop by (auto simp: prod_eq_iff)
  ultimately show ?thesis using ready_quiet [of x env st cd plan mr n i] by simp
qed

lemma no_quota_dispatch:
  assumes "\<forall>mr \<in> set routes. providerQuotaEnabled (mr_provider mr)" and "no_quota env st x"
  shows "\<exists>x'. dispatch env st routes x = Some x' \<and> quiet x x' \<and> failed_with env (\<lambda>y. True) x'"
proof -
  define cd where "cd = shouldClearRequestDetailFor (ee_settings env) (ep_dev_mode st)"
  have "\<exists>x'. route_loop env st cd routes x = Some x' \<and> quiet x x' \<and> failed_with env (\<lambda>y. True) x'"
    using assms
  proof (induction routes arbitrary: x)
    case Nil
    then show ?case
      by (auto simp: quiet_def exec_simps exhausted_attempts exhausted_failed)
  next
    case (Cons mr routes)
    show ?case
    proof (cases "ee_ctx env (x_tick x)")
      case (Some ce)
      then show ?thesis by (auto simp: quiet_def failed_with_def)
    next
      case None
      obtain plan i where plan: "plan_route env st mr (ticked x) = (plan, i)" by fastforce
      obtain y c where step: "attempt_step env st cd plan mr 0 i (ticked x) = (y, c)" by fastforce
      have q: "quiet (ticked x) y" "c \<in> {Return, NextRoute}" "c = Return \<longrightarrow> failed_with env (\<lambda>y. True) y"
        using no_quota_step [OF _ _ step] Cons.prems by (simp_all add: no_quota_def)
      then have qx: "quiet x y" by (simp add: quiet_def)
      show ?thesis
      proof (cases "c = Return")
        case True
        then show ?thesis using None plan step qx q(3) by (simp add: attempt_loop_unfold)
      next
        case False
        then have next': "c = NextRoute" using q(2) by simp
        have "no_quota env st y" using Cons.prems(2) qx by (simp add: no_quota_def quiet_def)
        then obtain x' where "route_loop env st cd routes y = Some x'" "quiet y x'"
            "failed_with env (\<lambda>y. True) x'"
          using Cons.IH Cons.prems(1) by fastforce
        then show ?thesis using None plan step next' qx by (simp add: attempt_loop_unfold quiet_def)
      qed
    qed
  qed
  then show ?thesis by (simp add: dispatch_def cd_def)
qed

text \<open>A balance of zero stays zero, whatever an attempt costs and whether or not the database answers, so
  a whole dispatch reaches only providers that are not under quota.\<close>

lemma token_balance_deduct:
  "token_balance tokens t i = 0 \<Longrightarrow> token_balance (DeductQuotaBalanceToZero t i cost tokens) t i = 0"
  by (auto simp: token_balance_def DeductQuotaBalanceToZero_def lookup_default_def update_conv
      split: option.splits)

lemma no_quota_settle:
  assumes "no_quota env st x"
  shows "no_quota env st (fst (settle_attempt env (ep_tenant st) (ep_token st) cd mul a x))"
  using assms
  by (auto simp: no_quota_def settle_attempt_def deductAPITokenQuota_def token_balance_deduct Let_def)

lemma no_quota_tokens: "no_quota env st x \<Longrightarrow> x_tokens y = x_tokens x \<Longrightarrow> no_quota env st y"
  by (simp add: no_quota_def)

lemma no_quota_success:
  assumes "no_quota env st x"
  shows "no_quota env st (on_success env st cd mr cv m sk r x)"
proof -
  have "\<exists>a. x_tokens (on_success env st cd mr cv m sk r x) =
      x_tokens (fst (settle_attempt env (ep_tenant st) (ep_token st) cd
        (getProviderMultiplier (mr_provider mr) (ep_client st)) a (ticked x)))"
    unfolding on_success_def Let_def split_def by (simp add: exec_simps split: option.split) blast
  moreover have "no_quota env st (ticked x)" using assms by (rule no_quota_tokens) simp
  ultimately show ?thesis using no_quota_settle no_quota_tokens by blast
qed

lemma no_quota_failure:
  assumes "no_quota env st x"
  shows "no_quota env st (record_failure env st cd mr r e x)"
proof -
  define y where "y = ticked ((ticked x) \<lparr> x_last := Some e \<rparr>)"
  have "\<exists>a. x_tokens (record_failure env st cd mr r e x) =
      x_tokens (fst (settle_attempt env (ep_tenant st) (ep_token st) cd
        (getProviderMultiplier (mr_provider mr) (ep_client st)) a y))"
    unfolding record_failure_def Let_def split_def y_def by (simp add: exec_simps) blast
  moreover have "no_quota env st y" using assms by (rule no_quota_tokens) (simp add: y_def)
  ultimately show ?thesis using no_quota_settle no_quota_tokens by blast
qed

lemma no_quota_next:
  assumes "no_quota env st x" and step: "attempt_step env st cd plan mr n i x = (x', c)"
  shows "no_quota env st x'"
  using step
proof (cases rule: attempt_step_cases)
  case stopped
  then show ?thesis using no_quota_tokens [OF assms(1), of x'] by (simp add: exec_simps)
next
  case (full m cv x1)
  then show ?thesis
    using no_quota_tokens [OF assms(1), of x'] ready_keeps(6) [of env st cd plan mr n i x] by simp
next
  case (succeeded m cv x1 x2 r)
  then have "x_tokens x2 = x_tokens x"
    using ready_keeps(6) [of env st cd plan mr n i x] try_keeps(2) [of env st cd mr cv m x1] by simp
  then show ?thesis using assms(1) succeeded(5) no_quota_success no_quota_tokens by blast
next
  case (failed m cv x1 x2 r err)
  then have "x_tokens x2 = x_tokens x"
    using ready_keeps(6) [of env st cd plan mr n i x] try_keeps(2) [of env st cd mr cv m x1] by simp
  then have "no_quota env st (record_failure env st cd mr r err x2)"
    using assms(1) no_quota_failure no_quota_tokens by blast
  moreover have "x_tokens x' = x_tokens (record_failure env st cd mr r err x2)"
    using failed(4) decide_keeps(6) [of env cd "rp_retry plan" mr cv m "rp_smart plan"
        "length (rp_candidates plan)" n i r err "record_failure env st cd mr r err x2"] by simp
  ultimately show ?thesis using no_quota_tokens by blast
qed

lemma no_quota_calls:
  assumes "dispatch env st routes x = Some x'" and "no_quota env st x"
  shows "no_quota env st x' \<and> (\<exists>calls. sent x' = calls @ sent x \<and>
    list_all (\<lambda>c. \<not> providerQuotaEnabled (ac_provider (fst c))) calls)"
  using assms(1)
proof (rule dispatch_invariant)
  fix cd plan mr n i c and y y' :: "('a, 'b) exec"
  assume inv: "no_quota env st y \<and> (\<exists>calls. sent y = calls @ sent x \<and>
      list_all (\<lambda>c. \<not> providerQuotaEnabled (ac_provider (fst c))) calls)"
    and step: "attempt_step env st cd plan mr n i y = (y', c)"
  then obtain calls where calls: "sent y = calls @ sent x"
    "list_all (\<lambda>c. \<not> providerQuotaEnabled (ac_provider (fst c))) calls" by blast
  have "\<exists>calls. sent y' = calls @ sent x \<and>
      list_all (\<lambda>c. \<not> providerQuotaEnabled (ac_provider (fst c))) calls"
    using step
  proof (cases rule: attempt_step_rows)
    case quiet
    then show ?thesis using calls by (auto simp: quiet_def)
  next
    case (called call r a b x1 cv m x2)
    then have "\<not> providerQuotaEnabled (mr_provider mr)"
      using inv no_quota_ready [of mr env st y cd plan n i m cv] by auto
    then show ?thesis using called calls by (intro exI [of _ "(call, r) # calls"]) simp
  qed
  then show "no_quota env st y' \<and> (\<exists>calls. sent y' = calls @ sent x \<and>
      list_all (\<lambda>c. \<not> providerQuotaEnabled (ac_provider (fst c))) calls)"
    using inv no_quota_next [OF _ step] by blast
qed (use assms(2) in \<open>simp_all add: no_quota_tokens exec_simps exhausted_attempts no_quota_def\<close>)

end
