(* ===== verification/Executor_Properties.thy ===== *)
theory Executor_Properties
  imports Dispatch_Properties Pricing_Properties
begin

text \<open>
  What a client, a provider and the bookkeeping may rely on after a dispatch, and a concrete
  dispatch: two providers, of which the first is overloaded and the second answers.
\<close>

section \<open>A concrete dispatch\<close>

definition demo_provider :: "u64 \<Rightarrow> bool \<Rightarrow> provider" where
  "demo_provider i quota =
     \<lparr> pv_id = i, pv_type = ''claude'', pv_name = ''p'',
       pv_config = Some \<lparr> cfg_quota = quota, cfg_disable_cooldown = False, cfg_smart_retry = False,
         cfg_smart_limit = 0, cfg_custom = None, cfg_codex = None, cfg_reasoning = None \<rparr>,
       pv_client_types = [], pv_support_models = [], pv_max_concurrency = 1 \<rparr>"

definition demo_route :: "u64 \<Rightarrow> u64 \<Rightarrow> bool \<Rightarrow> retry_config matched_route" where
  "demo_route i p quota =
     \<lparr> mr_route = \<lparr> rt_id = i, rt_tenant = 1, rt_enabled = True, rt_project = 0,
         rt_client = ClientTypeClaude, rt_provider = p, rt_position = 0, rt_weight = 1, rt_retry = 0 \<rparr>,
       mr_provider = demo_provider p quota,
       mr_adapter = \<lparr> ad_client_types = [ClientTypeClaude], ad_websocket = False \<rparr>,
       mr_retry = None \<rparr>"

definition demo_metrics :: adapter_metrics where
  "demo_metrics =
     \<lparr> am_input = 300000, am_output = 1000, am_cache_read = 500, am_cache_creation = 0,
       am_cache5m = 0, am_cache1h = 20, am_input_image = 0, am_output_image = 0,
       am_upstream_cost = 0 \<rparr>"

definition demo_adapter :: "nat \<Rightarrow> adapter_call \<Rightarrow> adapter_outcome" where
  "demo_adapter t call =
     (if pv_id (ac_provider call) = 10 then
        \<lparr> ao_events = [], ao_calls = [], ao_headers = [],
          ao_err = Some (ProxyError (blank_fields \<lparr> pf_retryable := True, pf_scope := ScopeProvider,
            pf_reason := ReasonServerError, pf_status := 500, pf_message := ''overloaded'' \<rparr>) None),
          ao_final_taken = 0, ao_final_err = None \<rparr>
      else
        \<lparr> ao_events = [Some (EventMetrics (Some demo_metrics))],
          ao_calls = [CallWriteHeader 200, CallWrite ''hello'' 5], ao_headers = [],
          ao_err = None, ao_final_taken = 0, ao_final_err = None \<rparr>)"

definition demo_env :: "(memory_store, sticky_memory) exec_env" where
  "demo_env =
     \<lparr> ee_ctx = (\<lambda>t. None), ee_clock = (\<lambda>t. int t), ee_adapter = demo_adapter,
       ee_attempt_id = (\<lambda>t. Some (of_nat t)), ee_timer_first = (\<lambda>t. True), ee_token_repo = True,
       ee_token_fails = (\<lambda>t. False), ee_mappings = [],
       ee_default_retry = (\<lambda>t. Some (no_retry \<lparr> rc_max_retries := 1 \<rparr>)), ee_settings = None,
       ee_bridge = False, ee_hostname = (\<lambda>u. None),
       ee_transform = (\<lambda>a b body m s. Inr body), ee_convert_response = (\<lambda>a b c. Inr (Some c)),
       ee_convert_chunk = (\<lambda>a b c d. Inr d), ee_convert_uri = (\<lambda>u a b m s. u),
       ee_inject_agent = (\<lambda>b a. b), ee_param_policy = (\<lambda>b c m p. b), ee_effort = (\<lambda>b. ''''),
       ee_scaled = (\<lambda>d r n. d), ee_snapshot_max = 4, ee_calc = sample_calculator,
       ee_cooldown_ops = memory_ops, ee_sticky_ops = sticky_memory_ops \<rparr>"

definition demo_params :: exec_params where
  "demo_params =
     \<lparr> ep_tenant = 1, ep_client = ClientTypeClaude, ep_project = 0, ep_session = ''s'',
       ep_model = ''m'', ep_stream = False, ep_token = 5, ep_dev_mode = False, ep_body = ''{}'',
       ep_original_body = ''{}'', ep_agent = None, ep_uri = ''/v1/messages'', ep_sticky = None \<rparr>"

definition demo_request :: proxy_request where
  "demo_request =
     \<lparr> pr_id = 1, pr_tenant = 1, pr_session = ''s'', pr_client = ClientTypeClaude,
       pr_request_model = ''m'', pr_mapped_model = '''', pr_response_model = '''', pr_effort = '''',
       pr_start = 0, pr_end = 0, pr_duration = 0, pr_ttft = 0, pr_stream = False,
       pr_protocol = ''http'', pr_status = ''IN_PROGRESS'', pr_status_code = 0,
       pr_request_info = None, pr_response_info = None, pr_error = '''', pr_attempts = 0,
       pr_final_attempt = 0, pr_route = 0, pr_provider = 0, pr_project = 0, pr_token = 5,
       pr_dev_mode = False,
       pr_cost = \<lparr> q_cost = 0, q_price_id = 0, q_multiplier = 0, q_input = 0, q_output = 0,
         q_cache_read = 0, q_cache_write = 0, q_cache5m = 0, q_cache1h = 0 \<rparr> \<rparr>"

definition demo_state :: "u64 \<Rightarrow> (memory_store, sticky_memory) exec" where
  "demo_state balance =
     \<lparr> x_req = demo_request, x_current = None, x_last = None, x_err = None, x_log = [],
       x_manager = NewManager, x_sticky = None, x_limiter = NewProviderLimiter,
       x_tokens = [((1, 5), balance)], x_smart = [], x_waits = [], x_tick = 0 \<rparr>"

definition demo_routes :: "retry_config matched_route list" where
  "demo_routes = [demo_route 1 10 True, demo_route 2 20 True]"

text \<open>Every route ends its attempts: by the retry limit, or because the request's context ends.\<close>

definition ends :: "('c, 'k) exec_env \<Rightarrow> retry_config matched_route list \<Rightarrow> bool" where
  "ends env routes \<longleftrightarrow>
     (\<forall>mr \<in> set routes. shouldSkipErrorCooldown (mr_provider mr) \<longrightarrow> eventually_done env)"

lemma ends_returns: "ends env routes \<Longrightarrow> \<exists>x'. dispatch env st routes x = Some x'"
  by (rule dispatch_returns) (simp add: ends_def)

lemma demo_frozen: "mr \<in> set demo_routes \<Longrightarrow> \<not> shouldSkipErrorCooldown (mr_provider mr)"
  by (auto simp: demo_routes_def demo_route_def demo_provider_def shouldSkipErrorCooldown_def)

lemma demo_ends: "ends demo_env demo_routes"
  using demo_frozen by (auto simp: ends_def)

lemma demo_env_sel [simp]:
  "ee_ctx demo_env = (\<lambda>t. None)" "ee_token_repo demo_env" "ee_token_fails demo_env = (\<lambda>t. False)"
  "ee_default_retry demo_env = (\<lambda>t. Some (no_retry \<lparr> rc_max_retries := 1 \<rparr>))"
  by (simp_all add: demo_env_def)

lemma demo_params_sel [simp]:
  "ep_tenant demo_params = 1" "ep_token demo_params = 5" "ep_sticky demo_params = None"
  by (simp_all add: demo_params_def)

lemma demo_state_sel [simp]:
  "x_tokens (demo_state b) = [((1, 5), b)]" "x_limiter (demo_state b) = NewProviderLimiter"
  "x_current (demo_state b) = None" "x_log (demo_state b) = []"
  by (simp_all add: demo_state_def)

section \<open>It ends\<close>

text \<open>C4: When every provider is frozen for its errors, a dispatch returns, and it has called upstreams at
  most once per route and retry allowed there.\<close>

theorem dispatch_bounded:
  assumes "\<forall>mr \<in> set routes. \<not> shouldSkipErrorCooldown (mr_provider mr)"
  shows "\<exists>x'. dispatch env st routes x = Some x' \<and>
    length (sent x') \<le> length (sent x) + sum_list (map (route_budget env st) routes)"
proof -
  obtain x' where "dispatch env st routes x = Some x'"
    using ends_returns [of env routes st x] assms by (auto simp: ends_def)
  then show ?thesis using route_loop_budget [OF _ assms] by (auto simp: dispatch_def)
qed

lemma demo_budget: "sum_list (map (route_budget demo_env demo_params) demo_routes) = 4"
  by (simp add: route_budget_def demo_routes_def demo_route_def getRetryConfig_def no_retry_def)

theorem dispatch_bounded_witness:
  "\<exists>x'. dispatch demo_env demo_params demo_routes (demo_state 9) = Some x' \<and> length (sent x') \<le> 4"
  using dispatch_bounded [of demo_routes demo_env demo_params "demo_state 9"] demo_frozen
  by (auto simp: demo_budget)

section \<open>What it reports\<close>

text \<open>C2: A dispatch returns without an error exactly with a completed request: its row is saved with
  status \<open>COMPLETED\<close> and shows the attempt that succeeded, its model, status code, time to first
  token and bill, and the session is bound to the provider that served it.  Otherwise the error is
  reported and the row is saved as FAILED, CANCELLED or REJECTED, with one exception: when the
  dispatch finds the context ended between two attempts, before it takes up the next one, it only
  reports the context's error and leaves the row as it was to the egress.  A context that ends
  during an upstream call or a retry wait is not such a case: its row is saved.\<close>

theorem dispatch_reports:
  assumes "ends env routes"
  shows "\<exists>x'. dispatch env st routes x = Some x' \<and>
    (x_last x' = None \<and> completed env st (x_sticky x) x' \<or>
     failed_with env (between_attempts env st routes x) x')"
proof -
  obtain x' where "dispatch env st routes x = Some x'" using ends_returns assms by blast
  then show ?thesis using dispatch_outcome by blast
qed

theorem dispatch_reports_witness:
  "\<exists>x'. dispatch demo_env demo_params demo_routes (demo_state 9) = Some x' \<and>
     (x_last x' = None \<and> completed demo_env demo_params (x_sticky (demo_state 9)) x' \<or>
      (\<exists>e. x_last x' = Some e \<and> x_err x' = Some e \<and> saved_last x' \<and>
         pr_status (x_req x') \<in> {''FAILED'', ''CANCELLED'', ''REJECTED''}))"
  using dispatch_reports [OF demo_ends, of demo_params "demo_state 9"]
  by (auto simp: failed_with_def)



section \<open>What it leaves behind\<close>

text \<open>C8: Every provider slot a dispatch takes it gives back: afterwards the number of requests in flight
  is what it was before, for every provider.\<close>

theorem dispatch_restores_slots:
  assumes "ends env routes" and "slots_sane (x_limiter x)"
  shows "\<exists>x'. dispatch env st routes x = Some x' \<and>
    (\<forall>p. inflight_of (lm_inflight (x_limiter x')) p = inflight_of (lm_inflight (x_limiter x)) p)"
proof -
  obtain x' where "dispatch env st routes x = Some x'" using ends_returns assms(1) by blast
  then show ?thesis using dispatch_slots [OF _ assms(2)] by auto
qed

theorem dispatch_restores_slots_witness:
  "\<exists>x'. dispatch demo_env demo_params demo_routes (demo_state 9) = Some x' \<and>
     inflight_of (lm_inflight (x_limiter x')) 10 = 0"
proof -
  have "slots_sane (x_limiter (demo_state 9))"
    by (simp add: slots_sane_def NewProviderLimiter_def inflight_of_def lookup_default_def)
  from dispatch_restores_slots [OF demo_ends this, of demo_params] show ?thesis
    by (auto simp: NewProviderLimiter_def inflight_of_def lookup_default_def)
qed

text \<open>C7: The books of attempts balance: a dispatch writes exactly one new attempt row per upstream call,
  finishes each with status \<open>COMPLETED\<close>, \<open>FAILED\<close> or \<open>CANCELLED\<close> under the identifier it was created
  with, counts them in the request, and leaves no attempt in progress.\<close>

theorem dispatch_attempt_rows:
  assumes "ends env routes" and "x_current x = None"
  shows "\<exists>x' calls rows finals. dispatch env st routes x = Some x' \<and> x_current x' = None \<and>
    sent x' = calls @ sent x \<and> created x' = rows @ created x \<and> saved x' = finals @ saved x \<and>
    length calls = length rows \<and> map ua_id finals = map ua_id rows \<and>
    list_all (\<lambda>b. ua_status b \<in> {''COMPLETED'', ''FAILED'', ''CANCELLED''}) finals \<and>
    pr_attempts (x_req x') = pr_attempts (x_req x) + word_of_nat (length rows)"
proof -
  obtain x' where run: "dispatch env st routes x = Some x'" using ends_returns assms(1) by blast
  then show ?thesis
    using dispatch_rows [OF run] dispatch_current [OF run assms(2)]
    unfolding rows_match_def finished_status_def by (intro exI [of _ x']) blast
qed

theorem dispatch_attempt_rows_witness:
  "\<exists>x'. dispatch demo_env demo_params demo_routes (demo_state 9) = Some x' \<and> x_current x' = None \<and>
     length (sent x') = length (created x') \<and> map ua_id (saved x') = map ua_id (created x')"
  using dispatch_attempt_rows [OF demo_ends, of "demo_state 9" demo_params] by auto

section \<open>Who pays\<close>

text \<open>C5: In a dispatch over HTTP, of a request whose token has a row in the token repository and while
  none of the repository's deductions fails, the token pays exactly the bills of the attempts made
  for it, failed ones included, down to a balance of zero and never below.  (A failed deduction is
  only logged; a turn over the WebSocket charges nothing.)\<close>

theorem dispatch_charges_token:
  assumes "ends env routes" and "ee_token_repo env" and "\<forall>k. \<not> ee_token_fails env k"
    and "ep_token st \<noteq> 0" and "map_of (x_tokens x) (ep_tenant st, ep_token st) = Some b0"
  shows "\<exists>x' finals b. dispatch env st routes x = Some x' \<and> saved x' = finals @ saved x \<and>
    map_of (x_tokens x') (ep_tenant st, ep_token st) = Some b \<and>
    unat b = unat b0 - sum_list (map (\<lambda>a. unat (a_cost (ua_cost a))) finals)"
proof -
  obtain x' where "dispatch env st routes x = Some x'" using ends_returns assms(1) by blast
  then show ?thesis using dispatch_bills [OF _ assms(2-5)] by blast
qed

theorem dispatch_charges_token_witness:
  "\<exists>x' b. dispatch demo_env demo_params demo_routes (demo_state 9) = Some x' \<and>
     map_of (x_tokens x') (1, 5) = Some b \<and>
     unat b = 9 - sum_list (map (\<lambda>a. unat (a_cost (ua_cost a))) (saved x'))"
  using dispatch_charges_token [OF demo_ends, of demo_params "demo_state 9" 9]
  by (auto simp del: map_of_eq_Some_iff)

text \<open>C6: When the provider of every matched route is under quota, the dispatch over HTTP of a request
  whose token has no balance returns with an error, and no upstream is called, no attempt row is
  written, and no balance, slot, cooldown or session changes.\<close>

theorem dispatch_without_quota:
  assumes "\<forall>mr \<in> set routes. providerQuotaEnabled (mr_provider mr)"
    and "\<not> ee_token_repo env \<or> ep_token st = 0 \<or>
         token_balance (x_tokens x) (ep_tenant st) (ep_token st) = 0"
  shows "\<exists>x'. dispatch env st routes x = Some x' \<and> x_last x' \<noteq> None \<and> sent x' = sent x \<and>
    created x' = created x \<and> saved x' = saved x \<and> x_tokens x' = x_tokens x \<and>
    x_limiter x' = x_limiter x \<and> x_manager x' = x_manager x \<and> x_sticky x' = x_sticky x"
proof -
  obtain x' where "dispatch env st routes x = Some x'" "quiet x x'" "failed_with env (\<lambda>y. True) x'"
    using no_quota_dispatch [OF assms(1), of env st x] assms(2) by (auto simp: no_quota_def)
  then show ?thesis
    using failed_with_reported by (intro exI [of _ x']) (simp add: quiet_def, blast)
qed

theorem dispatch_without_quota_witness:
  "\<exists>x'. dispatch demo_env demo_params demo_routes (demo_state 0) = Some x' \<and> x_last x' \<noteq> None \<and>
     sent x' = []"
proof -
  have "\<forall>mr \<in> set demo_routes. providerQuotaEnabled (mr_provider mr)"
    by (simp add: demo_routes_def demo_route_def demo_provider_def providerQuotaEnabled_def)
  moreover have "token_balance (x_tokens (demo_state 0)) (ep_tenant demo_params) (ep_token demo_params) = 0"
    by (simp add: token_balance_def lookup_default_def)
  ultimately show ?thesis
    using dispatch_without_quota [of demo_routes demo_env demo_params "demo_state 0"] by auto
qed

text \<open>C24: Whatever the matched routes, a dispatch over HTTP of a request whose token has no balance calls
  upstreams only of providers that are not under quota, and the token's balance stays zero.\<close>

theorem quota_guards_calls:
  assumes "ends env routes"
    and "\<not> ee_token_repo env \<or> ep_token st = 0 \<or>
         token_balance (x_tokens x) (ep_tenant st) (ep_token st) = 0"
  shows "\<exists>x' calls. dispatch env st routes x = Some x' \<and> sent x' = calls @ sent x \<and>
    list_all (\<lambda>(call, r). \<not> providerQuotaEnabled (ac_provider call)) calls \<and>
    (\<not> ee_token_repo env \<or> ep_token st = 0 \<or>
     token_balance (x_tokens x') (ep_tenant st) (ep_token st) = 0)"
proof -
  obtain x' where run: "dispatch env st routes x = Some x'" using ends_returns assms(1) by blast
  have "no_quota env st x" using assms(2) by (simp add: no_quota_def)
  from no_quota_calls [OF run this] run show ?thesis
    by (auto simp: no_quota_def split_def list_all_iff)
qed

text \<open>A free provider that is overloaded, and one under quota the dispatch must not go on to.\<close>

definition mixed_routes :: "retry_config matched_route list" where
  "mixed_routes = [demo_route 1 10 False, demo_route 2 20 True]"

theorem quota_guards_calls_witness:
  "\<exists>x'. dispatch demo_env demo_params mixed_routes (demo_state 0) = Some x' \<and>
     list_all (\<lambda>(call, r). \<not> providerQuotaEnabled (ac_provider call)) (sent x')"
proof -
  have "ends demo_env mixed_routes"
    by (simp add: ends_def mixed_routes_def demo_route_def demo_provider_def shouldSkipErrorCooldown_def)
  moreover have "token_balance (x_tokens (demo_state 0)) (ep_tenant demo_params) (ep_token demo_params) = 0"
    by (simp add: token_balance_def lookup_default_def)
  ultimately show ?thesis
    using quota_guards_calls [of demo_env mixed_routes demo_params "demo_state 0"] by auto
qed

section \<open>Which model is asked for\<close>

text \<open>The rules in force for a request: live, in the tenant's scope, matching the query and the model.\<close>

definition rules_in_force :: "u64 \<Rightarrow> mapping_query \<Rightarrow> string \<Rightarrow> mapping_row list \<Rightarrow> mapping_row set" where
  "rules_in_force t q model rows =
     {r \<in> set rows. tenant_scope t r \<and> mm_deleted r = 0 \<and> query_match q r \<and>
        MatchWildcard (mm_pattern r) model = Some True}"

text \<open>C25: The model a provider is asked for first is the target of the first rule in force, routes' rules
  before providers' before global ones, then by priority, then by age; without a rule it is the
  model the client asked for.\<close>

theorem mapped_model_precedence:
  "if rules_in_force t q model rows = {}
   then mapModel model (ListByQuery t (Some q) rows) = model
   else \<exists>r \<in> rules_in_force t q model rows.
          (\<forall>r' \<in> rules_in_force t q model rows. mapping_order r \<le> mapping_order r') \<and>
          mapModel model (ListByQuery t (Some q) rows) = mm_target r"
proof -
  define ms where "ms = ListByQuery t (Some q) rows"
  have inforce: "rules_in_force t q model rows = {r \<in> set ms. matches model r}"
    unfolding rules_in_force_def ms_def set_ListByQuery by blast
  have sorted: "sorted (map mapping_order ms)" unfolding ms_def by (rule ListByQuery_sorted)
  show ?thesis
  proof (cases "find (matches model) ms")
    case None
    then have "{r \<in> set ms. matches model r} = {}" by (auto simp: find_None_iff)
    with None show ?thesis unfolding inforce
      by (simp add: mapModel_find flip: ms_def)
  next
    case (Some r)
    then obtain i where i: "i < length ms" "matches model (ms ! i)" "r = ms ! i"
      "\<forall>j < i. \<not> matches model (ms ! j)" by (auto simp: find_Some_iff)
    have first: "mapping_order r \<le> mapping_order r'" if r': "r' \<in> set ms" "matches model r'" for r'
    proof -
      obtain j where "j < length ms" "r' = ms ! j" using r'(1) unfolding in_set_conv_nth by blast
      moreover from this r'(2) i(4) have "i \<le> j" by (metis not_le)
      ultimately show ?thesis
        using sorted i(3) sorted_nth_mono [OF sorted, of i j] by simp
    qed
    have r: "r \<in> {r \<in> set ms. matches model r}" using i by simp
    moreover have "\<forall>r' \<in> {r \<in> set ms. matches model r}. mapping_order r \<le> mapping_order r'"
      using first by blast
    moreover have "mapModel model ms = mm_target r" using Some by (simp add: mapModel_find)
    ultimately show ?thesis unfolding inforce ms_def [symmetric] by (metis (no_types, lifting) empty_iff)
  qed
qed

definition demo_rule :: "u64 \<Rightarrow> string \<Rightarrow> int \<Rightarrow> string \<Rightarrow> string \<Rightarrow> mapping_row" where
  "demo_rule i scope prio pattern target =
     \<lparr> mm_id = i, mm_tenant = 1, mm_deleted = 0, mm_scope = scope, mm_client = '''',
       mm_provider_type = '''', mm_provider = 0, mm_project = 0, mm_route = 0, mm_token = 0,
       mm_pattern = pattern, mm_target = target, mm_priority = prio \<rparr>"

definition demo_query :: mapping_query where
  "demo_query = mapping_query_for ClientTypeClaude (demo_provider 10 True) 0
     (mr_route (demo_route 1 10 True)) 5"

lemma demo_wild: "MatchWildcard ''*'' ''m'' = Some True"
  by (simp add: MatchWildcard_def TrimSpace_visible visible_def star_def)

theorem mapped_model_precedence_witness:
  "\<exists>r \<in> rules_in_force 1 demo_query ''m'' [demo_rule 7 ''global'' 0 ''*'' ''a'', demo_rule 8 ''route'' 9 ''*'' ''b''].
     mapping_order r \<le> mapping_order (demo_rule 8 ''route'' 9 ''*'' ''b'') \<and>
     mapModel ''m'' (ListByQuery 1 (Some demo_query)
       [demo_rule 7 ''global'' 0 ''*'' ''a'', demo_rule 8 ''route'' 9 ''*'' ''b'']) = mm_target r"
proof -
  have "demo_rule 8 ''route'' 9 ''*'' ''b'' \<in> rules_in_force 1 demo_query ''m''
      [demo_rule 7 ''global'' 0 ''*'' ''a'', demo_rule 8 ''route'' 9 ''*'' ''b'']"
    by (simp add: rules_in_force_def demo_rule_def tenant_scope_def query_match_def demo_wild)
  then show ?thesis
    using mapped_model_precedence [of 1 demo_query "''m''"
      "[demo_rule 7 ''global'' 0 ''*'' ''a'', demo_rule 8 ''route'' 9 ''*'' ''b'']"]
    by (auto split: if_splits)
qed

end
