(* ===== verification/Capture_Properties.thy ===== *)
theory Capture_Properties
  imports Response_Capture
begin

text \<open>
  The snapshot of a response: for a body in UTF-8 it is the body, or its longest prefix of whole
  characters below the cap, followed by a notice that names the size.
\<close>

section \<open>Characters\<close>

lemma rune_take:
  "rune_size s = Some k \<Longrightarrow> rune_size (take m s) = (if k \<le> m then Some k else None)"
  by (cases s; cases m; cases "tl s"; cases "tl (tl s)"; cases "tl (tl (tl s))")
    (auto simp: rune_size.simps Let_def take_Cons' split: if_splits)

lemma second_cont: "second_ok a (byte b) \<Longrightarrow> cont b"
  by (auto simp: second_ok_def cont_def split: if_splits)

lemma cont_range: "cont c \<Longrightarrow> 128 \<le> byte c \<and> byte c \<le> 191"
  by (simp add: cont_def)

lemma rune_bytes:
  "rune_size s = Some k \<Longrightarrow>
   RuneStart (hd s) \<and> k \<le> 4 \<and> list_all cont (tl (take k s)) \<and> 0 < k \<and> k \<le> length s"
  using second_cont
  by (cases s; cases "tl s"; cases "tl (tl s)"; cases "tl (tl (tl s))")
    (auto simp: rune_size.simps Let_def RuneStart_def split: if_splits dest: cont_range)

lemma rune_shape:
  assumes "rune_size s = Some k"
  shows "RuneStart (s ! 0)" and "k \<le> 4" and "0 < i \<Longrightarrow> i < k \<Longrightarrow> \<not> RuneStart (s ! i)"
proof -
  note b = rune_bytes [OF assms]
  then show "RuneStart (s ! 0)" "k \<le> 4" by (cases s; simp)+
  assume i: "0 < i" "i < k"
  then have "tl (take k s) ! (i - 1) = s ! i" "i - 1 < length (tl (take k s))"
    using b by (simp_all add: nth_tl)
  then show "\<not> RuneStart (s ! i)"
    using b by (metis RuneStart_def list_all_length)
qed

function utf8 :: "string \<Rightarrow> bool" where
  "utf8 s = (s = [] \<or> (case rune_size s of None \<Rightarrow> False | Some k \<Rightarrow> utf8 (drop k s)))"
  by pat_completeness auto
termination
  by (relation "measure length") (auto dest: rune_size_pos)

declare utf8.simps [simp del]

lemma utf8_Nil [simp]: "utf8 []"
  by (simp add: utf8.simps)

lemma utf8_rune: "rune_size s = Some k \<Longrightarrow> utf8 (drop k s) \<Longrightarrow> utf8 s"
  by (subst utf8.simps) simp

lemma utf8_cases:
  assumes "utf8 s"
  obtains "s = []" | k where "s \<noteq> []" "rune_size s = Some k" "utf8 (drop k s)"
  using assms by (subst (asm) utf8.simps) (auto split: option.splits)

lemma to_valid_utf8_id: "utf8 s \<Longrightarrow> to_valid_utf8 b s = s"
proof (induction b s rule: to_valid_utf8.induct)
  case (2 b c cs)
  from "2.prems" show ?case
    by (cases rule: utf8_cases) (auto simp: 2 simp del: to_valid_utf8.simps simp: to_valid_utf8.simps(2))
qed simp

section \<open>Cutting at a character\<close>

definition cuts_at :: "string \<Rightarrow> nat \<Rightarrow> nat \<Rightarrow> bool" where
  "cuts_at s n m \<longleftrightarrow> m \<le> n \<and> utf8 (take m s) \<and>
     (n = 0 \<or> (\<exists>st j. rune_size (drop st s) = Some j \<and> st < n \<and> n \<le> st + j \<and>
                  m = (if n = st + j then n else st)))"

lemma cut_point: "utf8 s \<Longrightarrow> n \<le> length s \<Longrightarrow> \<exists>m. cuts_at s n m"
proof (induction s arbitrary: n rule: utf8.induct)
  case (1 s)
  show ?case
  proof (cases "n = 0")
    case True
    then show ?thesis by (auto simp: cuts_at_def)
  next
    case False
    with "1.prems" obtain k where k: "rune_size s = Some k" "utf8 (drop k s)" "s \<noteq> []"
      by (auto elim: utf8_cases)
    note pos = rune_size_pos [OF k(1)]
    show ?thesis
    proof (cases "n \<le> k")
      case True
      have "utf8 (take k s)"
        by (rule utf8_rune [of _ k]) (simp_all add: rune_take [OF k(1)])
      with True False k(1) show ?thesis unfolding cuts_at_def
        by (intro exI [of _ "if n = k then k else 0"] conjI disjI2 exI [of _ 0] exI [of _ k]) auto
    next
      case more: False
      obtain m where m: "cuts_at (drop k s) (n - k) m"
        using "1.IH" [OF k(1,2), of "n - k"] diff_le_mono [OF "1.prems"(2), of k]
        unfolding length_drop by blast
      then obtain st j where j: "rune_size (drop st (drop k s)) = Some j" "st < n - k"
        "n - k \<le> st + j" "m = (if n - k = st + j then n - k else st)"
        using more unfolding cuts_at_def by auto
      have st: "rune_size (drop (k + st) s) = Some j" "k + st < n"
        "n \<le> k + st + j" "k + m = (if n = k + st + j then n else k + st)"
        using j more by (auto simp: add.commute)
      have whole: "utf8 (take (k + m) s)"
        by (rule utf8_rune [of _ k])
          (use m in \<open>simp_all add: cuts_at_def rune_take [OF k(1)] take_drop add.commute\<close>)
      have "m \<le> n - k" using m unfolding cuts_at_def by blast
      with more have "k + m \<le> n" by simp
      with whole st show ?thesis unfolding cuts_at_def by blast
    qed
  qed
qed

text \<open>No character ends inside another one.\<close>

lemma utf8_suffix: "utf8 x \<Longrightarrow> utf8 (x @ y) \<Longrightarrow> utf8 y"
proof (induction x rule: utf8.induct)
  case (1 x)
  from "1.prems"(1) show ?case
  proof (cases rule: utf8_cases)
    case 1
    then show ?thesis using "1.prems"(2) by simp
  next
    case (2 k)
    note pos = rune_size_pos [OF 2(2)]
    have size: "rune_size (x @ y) = Some k"
    proof (cases "rune_size (x @ y)")
      case None
      then show ?thesis using "1.prems"(2) 2(1) by (auto elim: utf8_cases)
    next
      case (Some k')
      then show ?thesis using rune_take [OF Some, of "length x"] 2(2) by (auto split: if_splits)
    qed
    from "1.prems"(2) have "utf8 (drop k x @ y)"
    proof (cases rule: utf8_cases)
      case 1
      with 2(1) show ?thesis by simp
    next
      case 2
      with size pos show ?thesis by simp
    qed
    then show ?thesis by (rule "1.IH" [OF 2(2,3)])
  qed
qed

lemma cut_is_longest:
  assumes "utf8 (take st s)" and "rune_size (drop st s) = Some j" and "st < k" and "k < st + j"
  shows "\<not> utf8 (take k s)"
proof
  assume "utf8 (take k s)"
  moreover have "take k s = take st s @ take (k - st) (drop st s)"
    using assms(3) take_add [of st "k - st" s] by simp
  ultimately have u: "utf8 (take (k - st) (drop st s))" using utf8_suffix [OF assms(1)] by simp
  have "rune_size (take (k - st) (drop st s)) = None" using rune_take [OF assms(2)] assms(3,4) by simp
  moreover have "take (k - st) (drop st s) \<noteq> []"
    using rune_size_pos [OF assms(2)] assms(3) by auto
  ultimately show False using u by (auto elim: utf8_cases)
qed

lemma trim_at:
  assumes "start < length b" and "RuneStart (b ! start)"
    and "\<And>i. start < i \<Longrightarrow> i < length b \<Longrightarrow> \<not> RuneStart (b ! i)"
    and "i + start < length b" and "length b \<le> start + i + fuel"
  shows "trim_partial fuel b i =
    (case rune_size (drop start b) of
       Some k \<Rightarrow> if start + k = length b then b else take start b
     | None \<Rightarrow> take start b)"
  using assms(4,5)
proof (induction fuel arbitrary: i)
  case (Suc fuel)
  show ?case
  proof (cases "length b - 1 - i = start")
    case True
    then show ?thesis using assms(2) Suc.prems by (simp add: Let_def)
  next
    case False
    then have "\<not> RuneStart (b ! (length b - 1 - i))" using assms(3) Suc.prems by simp
    then show ?thesis using Suc False by (simp add: Let_def)
  qed
qed simp

lemma trim_utf8:
  assumes "utf8 s" and "n \<le> length s"
  obtains k where "trimTrailingPartialRune (take n s) = take k s" "k \<le> n" "utf8 (take k s)"
    "\<And>k'. k < k' \<Longrightarrow> k' \<le> n \<Longrightarrow> \<not> utf8 (take k' s)"
proof -
  obtain m where m: "m \<le> n" "utf8 (take m s)"
    "n = 0 \<or> (\<exists>st j. rune_size (drop st s) = Some j \<and> st < n \<and> n \<le> st + j \<and>
       m = (if n = st + j then n else st))"
    using cut_point [OF assms] unfolding cuts_at_def by blast
  show thesis
  proof (cases "n = 0")
    case True
    then show ?thesis using that [of 0] by (simp add: trimTrailingPartialRune_def numeral_eq_Suc)
  next
    case False
    then obtain st j where st: "rune_size (drop st s) = Some j" "st < n" "n \<le> st + j"
      "m = (if n = st + j then n else st)" using m(3) by blast
    note shape = rune_shape [OF st(1)]
    have len: "length (take n s) = n" using assms(2) by simp
    have start: "RuneStart (take n s ! st)" using shape(1) st(2) assms(2) by simp
    have inner: "\<not> RuneStart (take n s ! i)" if "st < i" "i < n" for i
      using shape(3) [of "i - st"] that st(3) assms(2) by simp
    have "rune_size (drop st (take n s)) = (if j \<le> n - st then Some j else None)"
      using rune_take [OF st(1), of "n - st"] by (simp add: drop_take)
    then have "trimTrailingPartialRune (take n s) = take m s"
      unfolding trimTrailingPartialRune_def
      using trim_at [of st "take n s" 0 4] start inner st shape(2) len by auto
    moreover have "\<not> utf8 (take k' s)" if "m < k'" "k' \<le> n" for k'
    proof (cases "n = st + j")
      case True
      then show ?thesis using st(4) that by simp
    next
      case False
      then show ?thesis using cut_is_longest [of st s j k'] m(2) st that by simp
    qed
    ultimately show ?thesis using that m(1,2) by blast
  qed
qed

section \<open>The snapshot\<close>

definition truncation_notice :: "nat \<Rightarrow> nat \<Rightarrow> string" where
  "truncation_notice len cap =
     ellipsis @ ''<response body truncated, '' @ show_int (int len) @
     '' bytes total, snapshot cap '' @ show_nat cap @ ''>''"

text \<open>C26: The snapshot of a response in UTF-8 never garbles it and never exceeds the cap: it is the body
  itself while that fits (or there is no cap), and otherwise the longest prefix of whole characters
  within the cap, followed by a notice of the true size.  The capture says that the client has seen
  something exactly when \<open>WriteHeader\<close> was called or a write of which the client took a byte (so not
  for a flush or an empty write alone).\<close>

theorem snapshot_faithful:
  assumes "utf8 (sent_bytes calls)" and "length (sent_bytes calls) < 2 ^ 63"
  shows "let body = sent_bytes calls; rc = capture_calls calls (NewResponseCapture cap)
    in WroteToClient rc = list_ex commits calls \<and>
       (if cap = 0 \<or> length body \<le> cap then capture_Body rc = body
        else \<exists>k. k \<le> cap \<and> utf8 (take k body) \<and>
               (\<forall>k'. k < k' \<and> k' \<le> cap \<longrightarrow> \<not> utf8 (take k' body)) \<and>
               capture_Body rc = take k body @ truncation_notice (length body) cap)"
proof -
  define rc where "rc = capture_calls calls (NewResponseCapture cap)"
  have ok: "capture_ok (sent_bytes calls) rc"
    using capture_calls_ok [of "[]" "NewResponseCapture cap" calls] assms(2)
    by (simp add: rc_def capture_ok_def NewResponseCapture_def)
  have cap: "rc_max rc = cap" by (simp add: rc_def NewResponseCapture_def)
  have wrote: "WroteToClient rc = list_ex commits calls"
    by (simp add: rc_def WroteToClient_def wrote_iff NewResponseCapture_def)
  show ?thesis
  proof (cases "cap = 0 \<or> length (sent_bytes calls) \<le> cap")
    case True
    then have "capture_Body rc = sent_bytes calls"
      using ok cap by (auto simp: capture_ok_def capture_Body_def)
    with True wrote show ?thesis by (auto simp: Let_def simp flip: rc_def)
  next
    case False
    obtain k where "trimTrailingPartialRune (take cap (sent_bytes calls)) = take k (sent_bytes calls)"
      "k \<le> cap" "utf8 (take k (sent_bytes calls))"
      "\<And>k'. k < k' \<Longrightarrow> k' \<le> cap \<Longrightarrow> \<not> utf8 (take k' (sent_bytes calls))"
      using trim_utf8 [of "sent_bytes calls" cap] assms(1) False by auto
    then have "\<exists>k. k \<le> cap \<and> utf8 (take k (sent_bytes calls)) \<and>
        (\<forall>k'. k < k' \<and> k' \<le> cap \<longrightarrow> \<not> utf8 (take k' (sent_bytes calls))) \<and>
        capture_Body rc =
          take k (sent_bytes calls) @ truncation_notice (length (sent_bytes calls)) cap"
      using ok cap False
      by (intro exI [of _ k])
        (auto simp: capture_ok_def capture_Body_def truncation_notice_def ToValidUTF8_def
          to_valid_utf8_id)
    with False wrote show ?thesis by (simp add: Let_def flip: rc_def)
  qed
qed

text \<open>A euro sign cut by the cap is dropped; a replacement character the body itself contains is not.\<close>

definition euro_calls :: "writer_call list" where
  "euro_calls =
     [CallWriteHeader 200, CallWrite (''a'' @ replacement @ byte_string [0xE2, 0x82]) 6, CallFlush,
      CallWrite (byte_string [0xAC]) 1]"

theorem snapshot_faithful_witness:
  "capture_Body (capture_calls euro_calls (NewResponseCapture 6)) =
     ''a'' @ replacement @ truncation_notice 7 6"
proof -
  have body: "sent_bytes euro_calls = ''a'' @ replacement @ byte_string [0xE2, 0x82, 0xAC]"
    by (simp add: euro_calls_def byte_string_def replacement_def)
  have "utf8 (sent_bytes euro_calls)" unfolding body by code_simp
  moreover have len: "length (sent_bytes euro_calls) = 7"
    unfolding body by (simp add: byte_string_def replacement_def)
  ultimately obtain k where k: "k \<le> 6" "utf8 (take k (sent_bytes euro_calls))"
    "\<forall>k'. k < k' \<and> k' \<le> 6 \<longrightarrow> \<not> utf8 (take k' (sent_bytes euro_calls))"
    "capture_Body (capture_calls euro_calls (NewResponseCapture 6)) =
       take k (sent_bytes euro_calls) @ truncation_notice 7 6"
    using snapshot_faithful [of euro_calls 6] by (auto simp: Let_def)
  have "utf8 (take 4 (sent_bytes euro_calls))" "\<not> utf8 (take 5 (sent_bytes euro_calls))"
    "\<not> utf8 (take 6 (sent_bytes euro_calls))"
    unfolding body by code_simp+
  moreover from this have "k \<noteq> 5" "k \<noteq> 6" using k(2) by metis+
  moreover have "\<not> k < 4"
  proof
    assume "k < 4"
    then have "\<not> utf8 (take 4 (sent_bytes euro_calls))" using k(3) by simp
    with calculation show False by blast
  qed
  ultimately have "k = 4" using k(1) by linarith
  then show ?thesis using k(4) by (simp add: body replacement_def byte_string_def)
qed

end
