(* ===== verification/Flow_Engine.thy ===== *)
theory Flow_Engine
  imports Prelude
begin

text \<open>
  The middleware engine, \<^verbatim>\<open>internal/flow/engine.go\<close>.  A handler is code that changes the state behind
  the context, looks at it, aborts, and calls \<open>Next\<close>; index and flag of the context are not visible
  to it.
\<close>

section \<open>Handlers and the engine\<close>

datatype 's handler =
    Done
  | Act "'s \<Rightarrow> 's" "'s handler"
  | Branch "'s \<Rightarrow> 's handler"
  | Abort "'s handler"
  | CallNext "'s handler"

record 's flow_ctx =
  fc_state :: 's
  fc_index :: int
  fc_aborted :: bool

text \<open>The body of a handler; \<open>nx\<close> is what a call of \<open>Next\<close> does.\<close>

primrec run_handler ::
  "'s handler \<Rightarrow> ('s flow_ctx \<Rightarrow> 's flow_ctx) \<Rightarrow> 's flow_ctx \<Rightarrow> 's flow_ctx" where
  "run_handler Done nx c = c"
| "run_handler (Act f p) nx c = run_handler p nx (c \<lparr> fc_state := f (fc_state c) \<rparr>)"
| "run_handler (Branch g) nx c = run_handler (g (fc_state c)) nx c"
| "run_handler (Abort p) nx c = run_handler p nx (c \<lparr> fc_aborted := True \<rparr>)"
| "run_handler (CallNext p) nx c = run_handler p nx (nx c)"

text \<open>The loop of \<open>Next\<close> from the current index on.  Every round and every nested \<open>Next\<close> moves the index
  forward, so as much fuel as there are handlers left is enough.\<close>

fun next_loop :: "nat \<Rightarrow> 's handler list \<Rightarrow> 's flow_ctx \<Rightarrow> 's flow_ctx" where
  "next_loop 0 hs c = c"
| "next_loop (Suc fuel) hs c =
     (if fc_index c < int (length hs) then
        (let resume = (\<lambda>c. if fc_aborted c then c
                           else next_loop fuel hs (c \<lparr> fc_index := fc_index c + 1 \<rparr>))
         in resume (run_handler (hs ! nat (fc_index c)) resume c))
      else c)"

definition Next :: "'s handler list \<Rightarrow> 's flow_ctx \<Rightarrow> 's flow_ctx" where
  "Next hs c =
     (if fc_aborted c then c
      else next_loop (Suc (length hs)) hs (c \<lparr> fc_index := fc_index c + 1 \<rparr>))"

definition HandleWith :: "'s handler list \<Rightarrow> 's handler list \<Rightarrow> 's flow_ctx \<Rightarrow> 's flow_ctx" where
  "HandleWith engine handlers c = Next (engine @ handlers) (c \<lparr> fc_index := - 1 \<rparr>)"

definition new_ctx :: "'s \<Rightarrow> 's flow_ctx" where
  "new_ctx s = \<lparr> fc_state = s, fc_index = - 1, fc_aborted = False \<rparr>"

section \<open>Fuel\<close>

text \<open>What \<open>Next\<close> does to an index in range: it leaves it in range, never lowers it, and leaves it at the
  end unless somebody aborted.\<close>

definition forward :: "'s flow_ctx \<Rightarrow> 's flow_ctx \<Rightarrow> bool" where
  "forward c c' \<longleftrightarrow> fc_index c \<le> fc_index c' \<and> (fc_aborted c \<longrightarrow> fc_aborted c')"

lemma forward_refl [simp]: "forward c c"
  by (simp add: forward_def)

lemma forward_trans: "forward a b \<Longrightarrow> forward b c \<Longrightarrow> forward a c"
  by (auto simp: forward_def)

lemma run_handler_forward:
  assumes "\<And>c. forward c (nx c)"
  shows "forward c (run_handler p nx c)"
proof (induction p arbitrary: c)
  case (CallNext p)
  show ?case using forward_trans [OF assms CallNext] by simp
next
  case (Abort p)
  show ?case using forward_trans [OF _ Abort, of c "c \<lparr> fc_aborted := True \<rparr>"]
    by (simp add: forward_def)
next
  case (Act f p)
  show ?case using forward_trans [OF _ Act, of c "c \<lparr> fc_state := f (fc_state c) \<rparr>"]
    by (simp add: forward_def)
qed (simp_all)

definition resume :: "nat \<Rightarrow> 's handler list \<Rightarrow> 's flow_ctx \<Rightarrow> 's flow_ctx" where
  "resume n hs c =
     (if fc_aborted c then c else next_loop n hs (c \<lparr> fc_index := fc_index c + 1 \<rparr>))"

lemma next_loop_Suc [simp]:
  "next_loop (Suc n) hs c =
     (if fc_index c < int (length hs)
      then resume n hs (run_handler (hs ! nat (fc_index c)) (resume n hs) c) else c)"
  by (simp add: resume_def [abs_def] Let_def)

declare next_loop.simps(2) [simp del]

lemma Next_resume: "Next hs c = resume (Suc (length hs)) hs c"
  by (simp add: Next_def resume_def)

lemma resume_forward_if:
  assumes "\<And>e. forward e (next_loop n hs e)"
  shows "forward c (resume n hs c)"
proof -
  have "forward c (c \<lparr> fc_index := fc_index c + 1 \<rparr>)" by (simp add: forward_def)
  from forward_trans [OF this assms] show ?thesis by (simp add: resume_def)
qed

lemma next_loop_forward: "forward c (next_loop n hs c)"
proof (induction n arbitrary: c)
  case (Suc n)
  note r = resume_forward_if [OF Suc]
  show ?case using forward_trans [OF run_handler_forward [OF r] r] by simp
qed simp

lemma resume_forward [simp]: "forward c (resume n hs c)"
  by (rule resume_forward_if) (rule next_loop_forward)

lemma Next_forward [simp]: "forward c (Next hs c)"
  by (simp add: Next_resume)

lemma run_handler_cong:
  assumes "\<And>d. fc_index c \<le> fc_index d \<Longrightarrow> nx d = nx' d" and "\<And>d. forward d (nx' d)"
  shows "run_handler p nx c = run_handler p nx' c"
  using assms(1)
proof (induction p arbitrary: c)
  case (CallNext p)
  have "run_handler p nx (nx' c) = run_handler p nx' (nx' c)"
    using assms(2) [of c] CallNext.prems by (intro CallNext.IH) (simp add: forward_def)
  then show ?case using CallNext.prems by simp
next
  case (Act f p)
  show ?case using Act.IH [of "c \<lparr> fc_state := f (fc_state c) \<rparr>"] Act.prems by simp
next
  case (Abort p)
  show ?case using Abort.IH [of "c \<lparr> fc_aborted := True \<rparr>"] Abort.prems by simp
qed simp_all

lemma next_loop_enough:
  "int (length hs) - fc_index c < int n \<Longrightarrow> int (length hs) - fc_index c < int n' \<Longrightarrow>
   next_loop n hs c = next_loop n' hs c"
proof (induction n arbitrary: c n')
  case 0
  then show ?case by (cases n') simp_all
next
  case (Suc n)
  show ?case
  proof (cases n')
    case 0
    then show ?thesis using Suc.prems by simp
  next
    case k: (Suc k)
    have same: "resume n hs d = resume k hs d" if "fc_index c \<le> fc_index d" for d
      using Suc.IH [of "d \<lparr> fc_index := fc_index d + 1 \<rparr>" k] Suc.prems that k
      by (simp add: resume_def)
    have run: "run_handler p (resume n hs) c = run_handler p (resume k hs) c" for p
      by (rule run_handler_cong [OF same resume_forward])
    have "fc_index c \<le> fc_index (run_handler p (resume k hs) c)" for p
      using run_handler_forward [of "resume k hs", OF resume_forward] by (simp add: forward_def)
    from same [OF this] show ?thesis by (simp add: run k)
  qed
qed

lemma next_loop_complete:
  "int (length hs) - fc_index c < int n \<Longrightarrow>
   fc_aborted (next_loop n hs c) \<or> int (length hs) \<le> fc_index (next_loop n hs c)"
proof (induction n arbitrary: c)
  case (Suc n)
  let ?d = "run_handler (hs ! nat (fc_index c)) (resume n hs) c"
  have "fc_index c \<le> fc_index ?d"
    using run_handler_forward [of "resume n hs", OF resume_forward] by (simp add: forward_def)
  then show ?case
    using Suc.IH [of "?d \<lparr> fc_index := fc_index ?d + 1 \<rparr>"] Suc.prems by (simp add: resume_def)
qed simp

text \<open>So \<open>Next\<close> satisfies the equation of the code, without fuel.\<close>

lemma Next_unfold:
  assumes "- 1 \<le> fc_index c"
  shows "Next hs c =
    (if fc_aborted c then c
     else (let c = c \<lparr> fc_index := fc_index c + 1 \<rparr>
           in if fc_index c < int (length hs)
              then Next hs (run_handler (hs ! nat (fc_index c)) (Next hs) c) else c))"
proof -
  define d where "d = c \<lparr> fc_index := fc_index c + 1 \<rparr>"
  have same: "resume (length hs) hs e = Next hs e" if "fc_index d \<le> fc_index e" for e
    using that assms
      next_loop_enough [of hs "e \<lparr> fc_index := fc_index e + 1 \<rparr>" "length hs" "Suc (length hs)"]
    by (simp add: resume_def Next_def d_def)
  have run: "run_handler p (resume (length hs) hs) d = run_handler p (Next hs) d" for p
    by (rule run_handler_cong [OF same]) simp_all
  have "fc_index d \<le> fc_index (run_handler p (Next hs) d)" for p
    using run_handler_forward [of "Next hs", OF Next_forward] by (simp add: forward_def)
  from same [OF this] show ?thesis
    by (simp add: Next_def [of hs c] run Let_def flip: d_def)
qed

section \<open>Every handler once, in order\<close>

text \<open>Handlers that first leave their number in a trace beside the state.\<close>

primrec traced_body :: "'s handler \<Rightarrow> ('s \<times> nat list) handler" where
  "traced_body Done = Done"
| "traced_body (Act f p) = Act (\<lambda>(s, tr). (f s, tr)) (traced_body p)"
| "traced_body (Branch g) = Branch (\<lambda>(s, tr). traced_body (g s))"
| "traced_body (Abort p) = Abort (traced_body p)"
| "traced_body (CallNext p) = CallNext (traced_body p)"

definition traced :: "nat \<Rightarrow> 's handler \<Rightarrow> ('s \<times> nat list) handler" where
  "traced i p = Act (\<lambda>(s, tr). (s, tr @ [i])) (traced_body p)"

definition traced_chain :: "'s handler list \<Rightarrow> ('s \<times> nat list) handler list" where
  "traced_chain hs = map2 traced [0 ..< length hs] hs"

text \<open>The trace of a context whose last started handler is its index.\<close>

definition trace_ok :: "nat \<Rightarrow> ('s \<times> nat list) flow_ctx \<Rightarrow> bool" where
  "trace_ok len c \<longleftrightarrow>
     (\<exists>k \<le> len. snd (fc_state c) = [0 ..< k] \<and>
        (\<not> fc_aborted c \<longrightarrow> int k = min (fc_index c + 1) (int len)) \<and> int k \<le> fc_index c + 1)"

lemma run_traced:
  assumes "\<And>d. trace_ok len d \<Longrightarrow> trace_ok len (nx d)" and "trace_ok len c"
  shows "trace_ok len (run_handler (traced_body p) nx c)"
  using assms(2)
proof (induction p arbitrary: c)
  case (Act f p)
  have "trace_ok len (c \<lparr> fc_state := (f (fst (fc_state c)), snd (fc_state c)) \<rparr>)"
    using Act.prems by (simp add: trace_ok_def)
  from Act.IH [OF this] show ?case by (simp add: split_def)
next
  case (Abort p)
  have "trace_ok len (c \<lparr> fc_aborted := True \<rparr>)" using Abort.prems by (auto simp: trace_ok_def)
  from Abort.IH [OF this] show ?case by simp
qed (simp_all add: assms(1) split_def)

lemma next_loop_traced:
  assumes "0 \<le> fc_index c" and "int (length hs) - fc_index c < int n"
    and "snd (fc_state c) = [0 ..< k]" and "int k = min (fc_index c) (int (length hs))"
    and "\<not> fc_aborted c"
  shows "trace_ok (length hs) (next_loop n (traced_chain hs) c)"
  using assms
proof (induction n arbitrary: c k)
  case (Suc n)
  have r: "trace_ok (length hs) (resume n (traced_chain hs) d)"
    if "trace_ok (length hs) d" "fc_index c \<le> fc_index d" for d
    using Suc.IH [of "d \<lparr> fc_index := fc_index d + 1 \<rparr>"] Suc.prems(1,2) that
    by (auto simp: resume_def trace_ok_def)
  show ?case
  proof (cases "fc_index c < int (length hs)")
    case True
    define i where "i = nat (fc_index c)"
    have i: "fc_index c = int i" "i < length hs" using True Suc.prems(1) by (simp_all add: i_def)
    then have k: "k = i" using Suc.prems(4) by simp
    have chain: "traced_chain hs ! i = traced i (hs ! i)" "length (traced_chain hs) = length hs"
      using i by (simp_all add: traced_chain_def)
    define d where "d = c \<lparr> fc_state := (fst (fc_state c), [0 ..< Suc i]) \<rparr>"
    have d: "trace_ok (length hs) d"
      using i Suc.prems(5) by (auto simp: d_def trace_ok_def intro!: exI [of _ "Suc i"])
    define nx where "nx e = (if fc_index c \<le> fc_index e then resume n (traced_chain hs) e else e)" for e
    have cong: "run_handler p (resume n (traced_chain hs)) d = run_handler p nx d" for p
    proof (rule run_handler_cong)
      show "resume n (traced_chain hs) e = nx e" if "fc_index d \<le> fc_index e" for e
        using that by (simp add: nx_def d_def)
      show "forward e (nx e)" for e by (simp add: nx_def)
    qed
    have "trace_ok (length hs) (run_handler (traced_body (hs ! i)) nx d)"
      by (rule run_traced [OF _ d]) (simp add: nx_def r)
    moreover have "forward e (nx e)" for e by (simp add: nx_def)
    then have "forward d (run_handler (traced_body (hs ! i)) nx d)" by (rule run_handler_forward)
    then have "fc_index c \<le> fc_index (run_handler (traced_body (hs ! i)) nx d)"
      by (simp add: forward_def d_def)
    ultimately have "trace_ok (length hs)
        (resume n (traced_chain hs) (run_handler (traced_body (hs ! i)) nx d))"
      by (rule r)
    moreover have "run_handler (traced i (hs ! i)) (resume n (traced_chain hs)) c =
        run_handler (traced_body (hs ! i)) nx d"
      using Suc.prems(3) k cong by (simp add: traced_def d_def split_def)
    ultimately show ?thesis using i chain by simp
  next
    case False
    then show ?thesis
      using Suc.prems by (auto simp: trace_ok_def traced_chain_def intro!: exI [of _ k])
  qed
qed (auto simp: trace_ok_def)

text \<open>The trace does not change what the handlers do.\<close>

definition erases :: "('s \<times> nat list) flow_ctx \<Rightarrow> 's flow_ctx \<Rightarrow> bool" where
  "erases c d \<longleftrightarrow> fst (fc_state c) = fc_state d \<and> fc_index c = fc_index d \<and>
     fc_aborted c = fc_aborted d \<and> 0 \<le> fc_index d"

lemma run_erases:
  assumes "\<And>c d. erases c d \<Longrightarrow> erases (nx c) (nx' d)" and "erases c d"
  shows "erases (run_handler (traced_body p) nx c) (run_handler p nx' d)"
  using assms(2)
proof (induction p arbitrary: c d)
  case (CallNext p)
  then show ?case using assms(1) by simp
next
  case (Branch g)
  have "fst (fc_state c) = fc_state d" using Branch.prems by (simp add: erases_def)
  then show ?case using Branch.IH [OF _ Branch.prems, of "g (fc_state d)"] by (simp add: split_def)
next
  case (Act f p)
  have "erases (c \<lparr> fc_state := (f (fst (fc_state c)), snd (fc_state c)) \<rparr>)
      (d \<lparr> fc_state := f (fc_state d) \<rparr>)"
    using Act.prems by (simp add: erases_def)
  from Act.IH [OF this] show ?case by (simp add: split_def)
next
  case (Abort p)
  have "erases (c \<lparr> fc_aborted := True \<rparr>) (d \<lparr> fc_aborted := True \<rparr>)"
    using Abort.prems by (simp add: erases_def)
  from Abort.IH [OF this] show ?case by simp
qed simp

lemma next_loop_erases:
  "erases c d \<Longrightarrow> erases (next_loop n (traced_chain hs) c) (next_loop n hs d)"
proof (induction n arbitrary: c d)
  case (Suc n)
  have r: "erases (resume n (traced_chain hs) c) (resume n hs d)" if "erases c d" for c d
  proof -
    have "erases (c \<lparr> fc_index := fc_index c + 1 \<rparr>) (d \<lparr> fc_index := fc_index d + 1 \<rparr>)"
      using that by (simp add: erases_def)
    from Suc.IH [OF this] that show ?thesis by (simp add: resume_def erases_def)
  qed
  show ?case
  proof (cases "fc_index d < int (length hs)")
    case True
    define i where "i = nat (fc_index d)"
    have i: "i < length hs" "nat (fc_index c) = i" "fc_index c < int (length hs)"
      using True Suc.prems by (auto simp: i_def erases_def)
    have chain: "traced_chain hs ! i = traced i (hs ! i)" "length (traced_chain hs) = length hs"
      using i by (simp_all add: traced_chain_def)
    have "erases (c \<lparr> fc_state := (fst (fc_state c), snd (fc_state c) @ [i]) \<rparr>) d"
      using Suc.prems by (simp add: erases_def)
    from r [OF run_erases [OF r this]] show ?thesis
      using True i chain by (simp add: traced_def split_def flip: i_def)
  next
    case False
    then show ?thesis using Suc.prems by (simp add: erases_def traced_chain_def)
  qed
qed simp

text \<open>C13: The engine starts every handler at most once and in the order of registration, whatever the
  handlers do with \<open>Next\<close> and \<open>Abort\<close>; it returns, and unless somebody aborted every handler was
  started.\<close>

theorem handlers_once_in_order:
  "\<exists>k \<le> length hs. \<exists>c.
     HandleWith [] (traced_chain hs) (new_ctx (s, [])) = c \<and> snd (fc_state c) = [0 ..< k] \<and>
     (fc_aborted c \<or> k = length hs) \<and>
     fst (fc_state c) = fc_state (HandleWith [] hs (new_ctx s))"
proof -
  have len: "length (traced_chain hs) = length hs" by (simp add: traced_chain_def)
  let ?c = "(new_ctx (s, [])) \<lparr> fc_index := 0 \<rparr>" and ?d = "(new_ctx s) \<lparr> fc_index := 0 \<rparr>"
  have run: "HandleWith [] (traced_chain hs) (new_ctx (s, [])) =
      next_loop (Suc (length hs)) (traced_chain hs) ?c"
    "HandleWith [] hs (new_ctx s) = next_loop (Suc (length hs)) hs ?d"
    by (simp_all add: HandleWith_def Next_def new_ctx_def len del: next_loop_Suc)
  have "trace_ok (length hs) (next_loop (Suc (length hs)) (traced_chain hs) ?c)"
    by (rule next_loop_traced [of _ _ _ 0]) (simp_all add: new_ctx_def)
  moreover have "erases (next_loop (Suc (length hs)) (traced_chain hs) ?c)
      (next_loop (Suc (length hs)) hs ?d)"
    by (rule next_loop_erases) (simp add: erases_def new_ctx_def)
  moreover have "fc_aborted (next_loop (Suc (length hs)) (traced_chain hs) ?c) \<or>
      int (length hs) \<le> fc_index (next_loop (Suc (length hs)) (traced_chain hs) ?c)"
    using next_loop_complete [of "traced_chain hs" ?c "Suc (length hs)"] by (simp add: len new_ctx_def)
  ultimately show ?thesis unfolding run
    by (auto simp: trace_ok_def erases_def simp del: next_loop_Suc)
qed

end
