(* ===== verification/Request_Snapshot.thy ===== *)
theory Request_Snapshot
  imports Response_Capture
begin

text \<open>
  The snapshot of a request body that is stored with the request,
  \<^verbatim>\<open>internal/domain/request_snapshot.go\<close>; its cap is the argument \<open>cap\<close>, 0 for none.
\<close>

section \<open>Content types\<close>

definition isBinaryUploadContentType :: "string \<Rightarrow> bool" where
  "isBinaryUploadContentType contentType =
     (let ct = to_lower (TrimSpace contentType)
      in has_prefix ct ''multipart/'' \<or> has_prefix ct ''application/octet-stream'' \<or>
         has_prefix ct ''image/'' \<or> has_prefix ct ''audio/'' \<or> has_prefix ct ''video/'')"

definition contentTypeToken :: "string \<Rightarrow> string" where
  "contentTypeToken contentType =
     (let ct = TrimSpace contentType;
          ct = (if CHR '';'' \<in> set ct then TrimSpace (takeWhile (\<lambda>c. c \<noteq> CHR '';'') ct) else ct)
      in if ct = '''' then ''binary'' else ct)"

section \<open>The snapshot\<close>

definition snapshotPreviewBytes :: nat where "snapshotPreviewBytes = 256"

definition RequestBodySnapshot :: "nat \<Rightarrow> string \<Rightarrow> string \<Rightarrow> bool \<Rightarrow> string" where
  "RequestBodySnapshot cap body contentType devMode =
     (if devMode then body
      else if isBinaryUploadContentType contentType then
        ''<'' @ contentTypeToken contentType @ '', '' @ show_nat (length body) @
        '' bytes, body omitted>''
      else if 0 < cap \<and> cap < length body then
        (let label = contentTypeToken contentType;
             label = (if label = ''binary'' then ''text'' else label);
             previewLen = (if cap < snapshotPreviewBytes then cap else snapshotPreviewBytes);
             preview = (if previewLen < length body then take previewLen body else body)
         in ToValidUTF8 preview @ ellipsis @ ''<'' @ label @ '', '' @ show_nat (length body) @
            '' bytes total, body truncated (over snapshot cap '' @ show_nat cap @ '')>'')
      else body)"

text \<open>Without developer mode at most 256 bytes of an upload or an oversized body are kept.\<close>

lemma snapshot_cases:
  obtains "RequestBodySnapshot cap body ct dev = body"
      "dev \<or> (\<not> isBinaryUploadContentType ct \<and> (cap = 0 \<or> length body \<le> cap))"
  | "\<not> dev" "isBinaryUploadContentType ct"
      "RequestBodySnapshot cap body ct dev =
         ''<'' @ contentTypeToken ct @ '', '' @ show_nat (length body) @ '' bytes, body omitted>''"
  | label where "\<not> dev" "\<not> isBinaryUploadContentType ct" "0 < cap" "cap < length body"
      "RequestBodySnapshot cap body ct dev =
         ToValidUTF8 (take (min cap snapshotPreviewBytes) body) @ ellipsis @ ''<'' @ label @ '', '' @
         show_nat (length body) @ '' bytes total, body truncated (over snapshot cap '' @
         show_nat cap @ '')>''"
proof -
  consider "dev" | "\<not> dev" "isBinaryUploadContentType ct" |
    "\<not> dev" "\<not> isBinaryUploadContentType ct" "0 < cap \<and> cap < length body" |
    "\<not> dev" "\<not> isBinaryUploadContentType ct" "\<not> (0 < cap \<and> cap < length body)" by blast
  then show thesis
  proof cases
    case 3
    then have "min cap snapshotPreviewBytes < length body" by linarith
    with 3 show thesis
      by (intro that(3) [of "if contentTypeToken ct = ''binary'' then ''text'' else contentTypeToken ct"])
        (simp_all add: RequestBodySnapshot_def Let_def min_def)
  qed (use that in \<open>auto simp: RequestBodySnapshot_def\<close>)
qed

end
