(* ===== verification/Executor_Flow.thy ===== *)
theory Executor_Flow
  imports Dispatch_Lemmas Flow_Engine Request_Snapshot
begin

text \<open>
  The life of a request in the executor: \<open>ExecuteWith\<close> of \<^verbatim>\<open>internal/executor/executor.go\<close> with its
  middleware \<^verbatim>\<open>middleware_egress.go\<close>, \<^verbatim>\<open>middleware_ingress.go\<close>, \<^verbatim>\<open>middleware_route_match.go\<close>, the
  dispatch, and the dispatch of a WebSocket turn, \<^verbatim>\<open>middleware_dispatch_websocket.go\<close>.
\<close>

section \<open>State and environment\<close>

text \<open>The typed values the handlers put into the context, the tenant of its Go context, and method and
  host of the HTTP request when there is one.\<close>

record flow_input =
  fi_tenant :: u64
  fi_client :: string
  fi_project :: u64
  fi_session :: string
  fi_model :: string
  fi_stream :: bool
  fi_token :: u64
  fi_dev_mode :: bool
  fi_body :: string
  fi_original_body :: string
  fi_headers :: "(string \<times> string list) list option"
  fi_uri :: string
  fi_exchange :: "ws_exchange option"
  fi_http :: "(string \<times> string) option"

text \<open>The answer of an adapter to a WebSocket turn; \<open>wo_session\<close> says whether the upstream session it used
  still lives: not after a failed dial, nor when the turn closed it.\<close>

record ws_outcome =
  wo_events :: "adapter_event option list"
  wo_model :: "string option"
  wo_err :: "go_error option"
  wo_session :: bool

text \<open>Beside the environment of the dispatch: the router's, the project waiter (\<open>None\<close> when there is
  none), which returns an error or the project of the session, the stored project of a session, the
  identifier of a created request, \<^verbatim>\<open>strconv.Quote\<close>, the cap of request snapshots, the adapters'
  WebSocket turns (whether one needs a new session, and its outcome given the slot), and \<^verbatim>\<open>sjson\<close>
  setting the model of a frame.\<close>

record ('c, 'k, 'g) flow_env =
  fe_exec :: "('c, 'k) exec_env"
  fe_router :: "('c, 'k, 'g, retry_config) router_env"
  fe_waiter :: "(nat \<Rightarrow> u64 \<Rightarrow> string \<Rightarrow> u64 \<Rightarrow> go_error + u64) option"
  fe_session :: "nat \<Rightarrow> u64 \<Rightarrow> string \<Rightarrow> u64 option"
  fe_request_id :: "nat \<Rightarrow> u64 option"
  fe_quote :: "string \<Rightarrow> string"
  fe_request_cap :: nat
  fe_dials :: "nat \<Rightarrow> ws_call \<Rightarrow> bool"
  fe_turn :: "nat \<Rightarrow> ws_call \<Rightarrow> bool option \<Rightarrow> ws_outcome"
  fe_set_model :: "string \<Rightarrow> string \<Rightarrow> go_error + string"

text \<open>\<open>execState\<close> and the context's error; \<open>pi_has_request\<close> says whether there is a request yet.\<close>

record ('c, 'k) pipeline =
  pi_exec :: "('c, 'k) exec"
  pi_has_request :: bool
  pi_params :: exec_params
  pi_exchange :: "ws_exchange option"
  pi_routes :: "retry_config matched_route list"
  pi_ws :: ws_cooldowns

datatype onward = GoNext | GoAbort | GoReturn

definition pi_fail :: "go_error \<Rightarrow> ('c, 'k) pipeline \<Rightarrow> ('c, 'k) pipeline" where
  "pi_fail e p = p \<lparr> pi_exec := fail_with e (pi_exec p) \<rparr>"

text \<open>A request-scoped error with a message.\<close>

definition request_error :: "go_error \<Rightarrow> string \<Rightarrow> string \<Rightarrow> int \<Rightarrow> go_error" where
  "request_error cause message code status =
     ProxyError (blank_fields \<lparr> pf_message := message, pf_scope := ScopeRequest, pf_code := code,
                   pf_status := status \<rparr>) (Some cause)"

definition header_get :: "(string \<times> string list) list option \<Rightarrow> string \<Rightarrow> string" where
  "header_get ho key =
     (case ho of
        None \<Rightarrow> ''''
      | Some h \<Rightarrow> (case map_of h key of Some (v # vs) \<Rightarrow> v | _ \<Rightarrow> ''''))"

section \<open>The request row\<close>

definition newProxyRequest ::
  "('c, 'k, 'g) flow_env \<Rightarrow> flow_input \<Rightarrow> exec_params \<Rightarrow> bool \<Rightarrow> string \<Rightarrow> go_time \<Rightarrow> proxy_request" where
  "newProxyRequest env inp st isWebSocket status now =
     (let reasoningBody = (if ep_original_body st = '''' then ep_body st else ep_original_body st);
          info = (if shouldClearRequestDetailFor (ee_settings (fe_exec env)) (ep_dev_mode st) then None
                  else case fi_http inp of
                    None \<Rightarrow> None
                  | Some (meth, host) \<Rightarrow>
                      (let headers = (case fi_headers inp of None \<Rightarrow> [] | Some h \<Rightarrow> first_values h);
                           headers = (if host \<noteq> '''' then AList.update ''Host'' host headers
                                      else headers)
                       in Some \<lparr> ri_method = meth, ri_url = ep_uri st, ri_headers = headers,
                                 ri_body = RequestBodySnapshot (fe_request_cap env) (ep_body st)
                                   (header_get (fi_headers inp) ''Content-Type'') (ep_dev_mode st) \<rparr>))
      in \<lparr> pr_id = 0, pr_tenant = ep_tenant st, pr_session = ep_session st,
           pr_client = ep_client st, pr_request_model = ep_model st, pr_mapped_model = '''',
           pr_response_model = '''', pr_effort = ee_effort (fe_exec env) reasoningBody,
           pr_start = now, pr_end = zero_time, pr_duration = 0, pr_ttft = 0,
           pr_stream = ep_stream st,
           pr_protocol = ResolveProxyRequestProtocol (ep_stream st) isWebSocket,
           pr_status = status, pr_status_code = 0, pr_request_info = info,
           pr_response_info = None, pr_error = '''', pr_attempts = 0, pr_final_attempt = 0,
           pr_route = 0, pr_provider = 0, pr_project = ep_project st, pr_token = ep_token st,
           pr_dev_mode = ep_dev_mode st,
           pr_cost = \<lparr> q_cost = 0, q_price_id = 0, q_multiplier = 0, q_input = 0, q_output = 0,
                       q_cache_read = 0, q_cache_write = 0, q_cache5m = 0, q_cache1h = 0 \<rparr> \<rparr>)"

text \<open>Creating a row gives it its identifier; a failure is logged and leaves it without.\<close>

definition createProxyRequest ::
  "('c, 'k, 'g) flow_env \<Rightarrow> proxy_request \<Rightarrow> ('c, 'k) exec \<Rightarrow> ('c, 'k) exec \<times> proxy_request" where
  "createProxyRequest env q x =
     (let q = (case fe_request_id env (x_tick x) of None \<Rightarrow> q | Some i \<Rightarrow> q \<lparr> pr_id := i \<rparr>)
      in (emit (RequestCreated q) (ticked x), q))"

text \<open>A request that ends before it is dispatched; the clock is read twice.\<close>

definition reject_request ::
  "('c, 'k, 'g) flow_env \<Rightarrow> flow_input \<Rightarrow> exec_params \<Rightarrow> bool \<Rightarrow> string \<Rightarrow> int \<Rightarrow> string \<Rightarrow>
     ('c, 'k) exec \<Rightarrow> ('c, 'k) exec \<times> proxy_request" where
  "reject_request env inp st isWebSocket status code message x =
     (let clock = ee_clock (fe_exec env);
          q = newProxyRequest env inp st isWebSocket status (clock (x_tick x));
          q = end_request (clock (Suc (x_tick x))) (q \<lparr> pr_status_code := code, pr_error := message \<rparr>)
      in createProxyRequest env q (ticked (ticked x)))"

section \<open>Ingress\<close>

definition ingress_params :: "flow_input \<Rightarrow> exec_params" where
  "ingress_params inp =
     \<lparr> ep_tenant = (if fi_tenant inp = 0 then 1 else fi_tenant inp), ep_client = fi_client inp,
       ep_project = fi_project inp, ep_session = fi_session inp, ep_model = fi_model inp,
       ep_stream = fi_stream inp, ep_token = fi_token inp, ep_dev_mode = fi_dev_mode inp,
       ep_body = fi_body inp, ep_original_body = fi_original_body inp,
       ep_agent = map_option (\<lambda>h. header_get (Some h) ''User-Agent'') (fi_headers inp),
       ep_uri = fi_uri inp, ep_sticky = None \<rparr>"

text \<open>The wait for a project, when the request has none.\<close>

definition await_project ::
  "('c, 'k, 'g) flow_env \<Rightarrow> flow_input \<Rightarrow> ('c, 'k) pipeline \<Rightarrow> ('c, 'k) pipeline \<times> onward" where
  "await_project env inp p =
     (let st = pi_params p
      in case fe_waiter env of
           None \<Rightarrow> (p, GoNext)
         | Some waitForProject \<Rightarrow>
             if ep_project st \<noteq> 0 then (p, GoNext)
             else
               (let x = pi_exec p;
                    stored = fe_session env (x_tick x) (ep_tenant st) (ep_session st);
                    project = (case stored of None \<Rightarrow> 0 | Some i \<Rightarrow> i);
                    x = ticked x
                in case waitForProject (x_tick x) (ep_tenant st) (ep_session st) project of
                     Inr i \<Rightarrow>
                       (p \<lparr> pi_exec := ticked x, pi_params := st \<lparr> ep_project := i \<rparr> \<rparr>, GoNext)
                   | Inl err \<Rightarrow>
                       (let cancelled = error_is err Canceled;
                            status = (if cancelled then ''CANCELLED'' else ''REJECTED'');
                            message = (if cancelled then ''client cancelled: '' @ error_text err
                                       else ''project binding timeout: '' @ error_text err);
                            x = fst (reject_request env inp st (pi_exchange p \<noteq> None) status 0 message
                                       (ticked x))
                        in (pi_fail (ProxyError (blank_fields
                                       \<lparr> pf_message := ''project binding required: '' @ error_text err,
                                         pf_scope := ScopeRequest \<rparr>) (Some err))
                              (p \<lparr> pi_exec := x \<rparr>), GoAbort))))"

definition ingress ::
  "('c, 'k, 'g) flow_env \<Rightarrow> flow_input \<Rightarrow> ('c, 'k) pipeline \<Rightarrow> ('c, 'k) pipeline \<times> onward" where
  "ingress env inp p =
     (let st = ingress_params inp;
          p = p \<lparr> pi_params := st, pi_exchange := fi_exchange inp \<rparr>
      in if fi_exchange inp = None then await_project env inp p
         else if ep_client st \<noteq> ClientTypeCodex then
           (pi_fail (request_error ErrResponsesWebSocketProtocol
                       ''responses websocket request was not detected as Codex''
                       ''websocket_protocol_error'' 400) p, GoAbort)
         else await_project env inp (p \<lparr> pi_params := st \<lparr> ep_stream := True \<rparr> \<rparr>))"

section \<open>Route matching\<close>

definition match_error_value :: "match_error \<Rightarrow> go_error" where
  "match_error_value e =
     (case e of
        ErrNoRoutes \<Rightarrow> ErrNoRoutes_error
      | ErrNoAvailableProviders \<Rightarrow> ErrNoAvailableProviders_error
      | ErrModelNotSupported \<Rightarrow> ErrModelNotSupported_error
      | ErrNoResponsesWebSocketProviders \<Rightarrow> ErrNoResponsesWebSocketProviders_error
      | ErrResponsesWebSocketSessionUnavailable \<Rightarrow> ErrResponsesWebSocketSessionUnavailable_error)"

text \<open>Message and status of the stored row, and the error, of a failed match.\<close>

definition match_failure ::
  "(string \<Rightarrow> string) \<Rightarrow> string \<Rightarrow> match_error \<Rightarrow> string \<times> int \<times> go_error" where
  "match_failure quote requestModel e =
     (let err = match_error_value e;
          message = ''route match failed: '' @ error_text err
      in case e of
           ErrNoResponsesWebSocketProviders \<Rightarrow>
             (let m = ''no provider supports Codex Responses WebSocket; fall back to HTTP/SSE''
              in (m, 503, ProxyError (blank_fields \<lparr> pf_message := m, pf_retryable := True,
                   pf_code := ''websocket_not_supported'', pf_scope := ScopeRequest,
                   pf_status := 503 \<rparr>) (Some err)))
         | ErrResponsesWebSocketSessionUnavailable \<Rightarrow>
             (let m = ''the pinned Codex WebSocket provider/session is unavailable''
              in (m, 502, request_error err m ''websocket_session_unavailable'' 502))
         | ErrModelNotSupported \<Rightarrow>
             (let m = ''model '' @ quote requestModel @ '' is not supported by any configured provider''
              in (m, 400, ProxyError (blank_fields \<lparr> pf_message := m, pf_scope := ScopeRequest,
                   pf_code := ''model_not_supported'', pf_status := 400,
                   pf_model := requestModel \<rparr>) (Some err)))
         | ErrNoAvailableProviders \<Rightarrow>
             (message, 503, request_error err ''no available provider for matched route''
                ''no_available_provider'' 503)
         | ErrNoRoutes \<Rightarrow>
             (message, 503, request_error err message ''no_routes_available'' 503))"

definition match_context_of :: "exec_params \<Rightarrow> ws_exchange option \<Rightarrow> match_context" where
  "match_context_of st exchange =
     \<lparr> mc_tenant = ep_tenant st, mc_client = ep_client st, mc_project = ep_project st,
       mc_model = ep_model st, mc_token = ep_token st, mc_session = ep_session st,
       mc_websocket = (exchange \<noteq> None),
       mc_provider = (case exchange of None \<Rightarrow> 0 | Some wx \<Rightarrow> wx_pinned wx), mc_strict = False \<rparr>"

text \<open>The router works on the cooldown manager, the session bindings and the limiter of the executor.
  \<open>None\<close> is a panic of the match.\<close>

definition routeMatch ::
  "('c, 'k, 'g) flow_env \<Rightarrow> flow_input \<Rightarrow> ('c, 'k) pipeline \<Rightarrow> (('c, 'k) pipeline \<times> onward) option" where
  "routeMatch env inp p =
     (let st = pi_params p; x = pi_exec p; ws = (pi_exchange p \<noteq> None);
          renv = (fe_router env) \<lparr> re_inflight := lm_inflight (x_limiter x) \<rparr>;
          now = ee_clock (fe_exec env) (x_tick x)
      in case Match renv (match_context_of st (pi_exchange p)) now
                \<lparr> st_manager = x_manager x, st_ws = pi_ws p, st_sticky = x_sticky x \<rparr> of
           None \<Rightarrow> None
         | Some (rst, outcome) \<Rightarrow>
             (let x = (ticked x) \<lparr> x_manager := st_manager rst, x_sticky := st_sticky rst \<rparr>;
                  p = p \<lparr> pi_ws := st_ws rst \<rparr>
              in Some (case outcome of
                   Inl e \<Rightarrow>
                     (let (message, status, err) = match_failure (fe_quote env) (ep_model st) e;
                          (x, q) = reject_request env inp st ws ''REJECTED'' status message x
                      in (pi_fail err (p \<lparr> pi_exec := x \<lparr> x_req := q \<rparr>, pi_has_request := True \<rparr>),
                          GoAbort))
                 | Inr result \<Rightarrow>
                     if ms_routes result = [] then
                       (pi_fail (request_error ErrNoAvailableProviders_error
                                   ''no available provider for matched route''
                                   ''no_available_provider'' 503) (p \<lparr> pi_exec := x \<rparr>), GoAbort)
                     else
                       (let q = newProxyRequest env inp st ws ''IN_PROGRESS''
                                  (ee_clock (fe_exec env) (x_tick x));
                            (x, q) = createProxyRequest env q (ticked x)
                        in (p \<lparr> pi_exec := x \<lparr> x_req := q \<rparr>, pi_has_request := True,
                                pi_routes := ms_routes result,
                                pi_params := st \<lparr> ep_sticky := ms_sticky result \<rparr> \<rparr>, GoNext)))))"

section \<open>Dispatch of a WebSocket turn\<close>

definition no_ws_adapter_error :: go_error where
  "no_ws_adapter_error =
     ProxyError (blank_fields
       \<lparr> pf_message := ''no eligible native Codex Responses WebSocket adapter is available'',
         pf_retryable := True, pf_scope := ScopeRequest, pf_code := ''websocket_transport_unavailable'',
         pf_status := 503 \<rparr>) (Some ErrNoResponsesWebSocketProviders_error)"

text \<open>A finished turn: the attempt is billed and saved; unlike the HTTP dispatch, no token pays for it.\<close>

definition settle_turn ::
  "('c, 'k, 'g) flow_env \<Rightarrow> bool \<Rightarrow> provider \<Rightarrow> upstream_attempt \<Rightarrow> ('c, 'k) exec \<Rightarrow>
     ('c, 'k) exec \<times> upstream_attempt" where
  "settle_turn env clearDetail prov a x =
     (let a = a \<lparr> ua_cost := the (fst (FinalizeAttemptCost (ee_calc (fe_exec env)) (Some (ua_cost a))
                    (getProviderMultiplier prov ClientTypeCodex))) \<rparr>;
          a = (if clearDetail then a \<lparr> ua_request_info := None, ua_response_info := None \<rparr> else a)
      in ((emit (AttemptSaved a) x) \<lparr> x_current := None \<rparr>, a))"

text \<open>A turn that succeeded.  The connection is pinned to the provider from now on.\<close>

definition turn_completed ::
  "('c, 'k, 'g) flow_env \<Rightarrow> exec_params \<Rightarrow> bool \<Rightarrow> provider \<Rightarrow> string \<Rightarrow> string option \<Rightarrow>
     upstream_attempt \<Rightarrow> ('c, 'k) exec \<Rightarrow> ('c, 'k) exec" where
  "turn_completed env st clearDetail prov mappedModel model a x =
     (let e = fe_exec env;
          a = a \<lparr> ua_status := ''COMPLETED'', ua_error := '''' \<rparr>;
          a = (case model of
                 None \<Rightarrow> a
               | Some m \<Rightarrow> if m \<noteq> '''' then a \<lparr> ua_cost := (ua_cost a) \<lparr> a_response_model := m \<rparr> \<rparr>
                           else a);
          (x, a) = settle_turn env clearDetail prov a x;
          x = (ticked x) \<lparr> x_manager := RecordSuccess (ee_cooldown_ops e) (pv_id prov) ClientTypeCodex
                             mappedModel (ee_clock e (x_tick x)) (x_manager x) \<rparr>;
          x = (case ep_sticky st of
                 None \<Rightarrow> x
               | Some sw \<Rightarrow>
                   (ticked x) \<lparr> x_sticky := fst (Manager_Set (ee_sticky_ops e) (sw_key sw) (pv_id prov)
                                 (sw_ttl sw) (ee_clock e (x_tick x)) (x_sticky x)) \<rparr>);
          now = ee_clock e (x_tick x);
          responseModel = a_response_model (ua_cost a);
          x = upd_req (\<lambda>q. clearProxyRequestDetail clearDetail (mirror_attempt a
                ((end_request now (q \<lparr> pr_status := ''COMPLETED'', pr_status_code := 101 \<rparr>))
                   \<lparr> pr_final_attempt := ua_id a,
                     pr_response_model := (if responseModel = '''' then mappedModel
                                           else responseModel),
                     pr_response_info := (if clearDetail then pr_response_info q
                                          else ua_response_info a) \<rparr>))) (ticked x)
      in (save_request x) \<lparr> x_last := None \<rparr>)"

text \<open>A turn that failed, up to the question whether another route may be tried.\<close>

definition turn_failed ::
  "('c, 'k, 'g) flow_env \<Rightarrow> bool \<Rightarrow> provider \<Rightarrow> upstream_attempt \<Rightarrow> go_error \<Rightarrow> ('c, 'k) exec \<Rightarrow>
     ('c, 'k) exec" where
  "turn_failed env clearDetail prov a err x =
     (let e = fe_exec env;
          a = a \<lparr> ua_status := attemptFailureStatus (ee_ctx e (x_tick x)) (Some err),
                  ua_error := error_text err \<rparr>;
          (x, a) = settle_turn env clearDetail prov a (ticked x)
      in save_request (upd_req (\<lambda>q. mirror_attempt a (q \<lparr> pr_final_attempt := ua_id a \<rparr>)) x))"

text \<open>The cooldown of a failed turn: not for a missing capability, nor once the context has ended.\<close>

definition turn_cooldown ::
  "('c, 'k, 'g) flow_env \<Rightarrow> provider \<Rightarrow> string \<Rightarrow> go_error \<Rightarrow> ('c, 'k) exec \<Rightarrow> ('c, 'k) exec" where
  "turn_cooldown env prov mappedModel err x =
     (let e = fe_exec env
      in case asProxyError err of
           None \<Rightarrow> x
         | Some (f, c) \<Rightarrow>
             if as_ws_error err = Some True then x
             else (let ctx = ee_ctx e (x_tick x); x = ticked x
                   in if ctx = None \<and> \<not> shouldSkipErrorCooldown prov
                      then (ticked x) \<lparr> x_manager := handleCooldown (ee_cooldown_ops e) (ee_settings e) f
                             prov ClientTypeCodex mappedModel (ee_clock e (x_tick x)) (x_manager x) \<rparr>
                      else x))"

text \<open>The turn itself: a new session takes a slot, on which the answer depends.  A session that outlives
  the turn owns its slot (when it is closed later is the adapter's business); a dial that fails and
  a session closed in the turn give the slot back.\<close>

definition run_turn ::
  "('c, 'k, 'g) flow_env \<Rightarrow> provider \<Rightarrow> ws_call \<Rightarrow> ('c, 'k) exec \<Rightarrow> ('c, 'k) exec \<times> ws_outcome" where
  "run_turn env prov call x =
     (let t = x_tick x;
          (x, slot, held) =
            (if fe_dials env t call then
               (case TryAcquire (pv_id prov) (pv_max_concurrency prov) (x_limiter x) of
                  (l, None) \<Rightarrow> (x, Some False, None)
                | (l, Some h) \<Rightarrow> (x \<lparr> x_limiter := l \<rparr>, Some True, Some h))
             else (x, None, None));
          out = fe_turn env t call slot;
          x = (case held of
                 Some h \<Rightarrow> if wo_session out then x else x \<lparr> x_limiter := release h (x_limiter x) \<rparr>
               | None \<Rightarrow> x)
      in (emit (FrameSent call (wo_err out)) (ticked x), out))"

text \<open>The model of the turn, its frame, and the row of the request; the error ends the dispatch.\<close>

definition turn_frame ::
  "('c, 'k, 'g) flow_env \<Rightarrow> exec_params \<Rightarrow> retry_config matched_route \<Rightarrow> string \<Rightarrow>
     go_error + string \<times> string" where
  "turn_frame env st mr frame =
     (let e = fe_exec env; p = mr_provider mr;
          mappedModel = mapModel (ep_model st)
            (ListByQuery (ep_tenant st) (Some (mapping_query_for ClientTypeCodex p (ep_project st)
               (mr_route mr) (ep_token st))) (ee_mappings e))
      in case fe_set_model env frame mappedModel of
           Inl err \<Rightarrow> Inl (request_error ErrResponsesWebSocketProtocol
                             ''failed to map websocket request model'' ''websocket_protocol_error'' 400)
         | Inr out \<Rightarrow> Inr (mappedModel, ee_param_policy e out ClientTypeCodex mappedModel p))"

fun dispatchResponsesWebSocket ::
  "('c, 'k, 'g) flow_env \<Rightarrow> bool \<Rightarrow> ws_exchange \<Rightarrow> retry_config matched_route list \<Rightarrow>
     ('c, 'k) pipeline \<Rightarrow> ('c, 'k) pipeline" where
  "dispatchResponsesWebSocket env clearDetail wx [] p =
     pi_fail no_ws_adapter_error (p \<lparr> pi_routes := [] \<rparr>)"
| "dispatchResponsesWebSocket env clearDetail wx (mr # rest) p0 =
     (let e = fe_exec env; st = pi_params p0; p = p0 \<lparr> pi_routes := mr # rest \<rparr>; x = pi_exec p;
          prov = mr_provider mr
      in if \<not> ad_websocket (mr_adapter mr) then pi_fail no_ws_adapter_error p
         else case ee_ctx e (x_tick x) of
           Some ce \<Rightarrow> pi_fail ce (p \<lparr> pi_exec := ticked x \<rparr>)
         | None \<Rightarrow>
             (case turn_frame env st mr (wx_frame wx) of
                Inl err \<Rightarrow> pi_fail err (p \<lparr> pi_exec := ticked x \<rparr>)
              | Inr (mappedModel, frame) \<Rightarrow>
                  (let x = save_request (upd_req (\<lambda>q. q \<lparr> pr_route := rt_id (mr_route mr),
                             pr_provider := pv_id prov, pr_mapped_model := mappedModel \<rparr>) (ticked x));
                       a = new_attempt (ep_tenant st) (rt_id (mr_route mr)) (pv_id prov) True
                             (ee_clock e (x_tick x)) (ep_model st) mappedModel (x_req x);
                       x = ticked x
                   in case ee_attempt_id e (x_tick x) of
                        None \<Rightarrow>
                          pi_fail (ProxyError (blank_fields
                            \<lparr> pf_message := ''failed to create websocket upstream attempt'',
                              pf_scope := ScopeRequest \<rparr>) (Some (Opaque ''database'')))
                            (p \<lparr> pi_exec := ticked x \<rparr>)
                      | Some i \<Rightarrow>
                          (let a = a \<lparr> ua_id := i \<rparr>;
                               x = emit (AttemptCreated a) (ticked x);
                               x = upd_req (\<lambda>q. q \<lparr> pr_attempts := pr_attempts q + 1 \<rparr>)
                                     (x \<lparr> x_current := Some a \<rparr>);
                               call = \<lparr> wc_provider = pv_id prov, wc_mapped = mappedModel,
                                        wc_frame = frame, wc_pinned = wx_pinned wx, wc_attempt = i \<rparr>;
                               (x, out) = run_turn env prov call x;
                               a = processAdapterEventsRealtime clearDetail (wo_events out) a;
                               a = end_attempt (ee_clock e (x_tick x)) a;
                               x = ticked x
                           in case wo_err out of
                                None \<Rightarrow>
                                  p \<lparr> pi_exec := turn_completed env st clearDetail prov mappedModel
                                                   (wo_model out) a x,
                                      pi_exchange := Some (wx \<lparr> wx_pinned := pv_id prov \<rparr>) \<rparr>
                              | Some err \<Rightarrow>
                                  (let x = turn_failed env clearDetail prov a err x
                                   in if error_is err ErrNoAvailableProviders_error \<and> wx_pinned wx = 0 \<and>
                                         rest \<noteq> []
                                      then dispatchResponsesWebSocket env clearDetail wx rest
                                             (p \<lparr> pi_exec := x \<rparr>)
                                      else pi_fail err
                                        (p \<lparr> pi_exec := turn_cooldown env prov mappedModel err x \<rparr>))))))"

section \<open>Egress and the chain\<close>

text \<open>After everything else: a request or attempt still in progress is ended.\<close>

definition egress_request :: "('c, 'k) exec_env \<Rightarrow> ('c, 'k) exec \<Rightarrow> ('c, 'k) exec" where
  "egress_request e x =
     (if pr_status (x_req x) = ''IN_PROGRESS'' then
        (let now = ee_clock e (x_tick x);
             (status, text) = requestFailureStatusAndError (ee_ctx e (Suc (x_tick x))) (x_last x)
         in save_request (upd_req (\<lambda>q. (end_request now q) \<lparr> pr_status := status, pr_error := text \<rparr>)
              (ticked (ticked x))))
      else x)"

definition egress_attempt :: "('c, 'k) exec_env \<Rightarrow> ('c, 'k) exec \<Rightarrow> ('c, 'k) exec" where
  "egress_attempt e x =
     (case x_current x of
        None \<Rightarrow> x
      | Some a \<Rightarrow>
          if ua_status a = ''IN_PROGRESS'' then
            (let a = (end_attempt (ee_clock e (x_tick x)) a)
                       \<lparr> ua_status := attemptFailureStatus (ee_ctx e (Suc (x_tick x))) (x_last x) \<rparr>
             in (emit (AttemptSaved a) (ticked (ticked x))) \<lparr> x_current := Some a \<rparr>)
          else x)"

definition egress_finish :: "('c, 'k) exec_env \<Rightarrow> ('c, 'k) pipeline \<Rightarrow> ('c, 'k) pipeline" where
  "egress_finish e p =
     (let x = pi_exec p;
          x = (if pi_has_request p then egress_request e x else x)
      in p \<lparr> pi_exec := egress_attempt e x \<rparr>)"

definition dispatch_step ::
  "('c, 'k, 'g) flow_env \<Rightarrow> ('c, 'k) pipeline \<Rightarrow> ('c, 'k) pipeline option" where
  "dispatch_step env p =
     (let e = fe_exec env; st = pi_params p
      in case pi_exchange p of
           Some wx \<Rightarrow>
             Some (dispatchResponsesWebSocket env
               (shouldClearRequestDetailFor (ee_settings e) (ep_dev_mode st)) wx (pi_routes p) p)
         | None \<Rightarrow>
             map_option (\<lambda>x. p \<lparr> pi_exec := x \<rparr>) (dispatch e st (pi_routes p) (pi_exec p)))"

text \<open>The state behind the chain is \<open>None\<close> after a panic or while a dispatch never returns.\<close>

definition step_handler ::
  "('s \<Rightarrow> ('s \<times> onward) option) \<Rightarrow> 's option handler" where
  "step_handler f =
     Branch (\<lambda>o1. case Option.bind o1 f of
       None \<Rightarrow> Act (\<lambda>o2. None) (Abort Done)
     | Some (s, c) \<Rightarrow> Act (\<lambda>o2. Some s)
         (case c of GoNext \<Rightarrow> CallNext Done | GoAbort \<Rightarrow> Abort Done | GoReturn \<Rightarrow> Done))"

definition egress_handler :: "('c, 'k, 'g) flow_env \<Rightarrow> ('c, 'k) pipeline option handler" where
  "egress_handler env = CallNext (Act (map_option (egress_finish (fe_exec env))) Done)"

definition execute_chain ::
  "('c, 'k, 'g) flow_env \<Rightarrow> flow_input \<Rightarrow> ('c, 'k) pipeline option handler list \<Rightarrow>
     ('c, 'k) pipeline option handler list" where
  "execute_chain env inp middlewares =
     [egress_handler env, step_handler (Some \<circ> ingress env inp)] @ middlewares @
     [step_handler (routeMatch env inp),
      step_handler (\<lambda>p. map_option (\<lambda>p. (p, GoReturn)) (dispatch_step env p))]"

definition ExecuteWith ::
  "('c, 'k, 'g) flow_env \<Rightarrow> flow_input \<Rightarrow> ('c, 'k) pipeline option handler list \<Rightarrow> ('c, 'k) exec \<Rightarrow>
     ws_cooldowns \<Rightarrow> ('c, 'k) pipeline option" where
  "ExecuteWith env inp middlewares x ws =
     fc_state (HandleWith [] (execute_chain env inp middlewares)
       (new_ctx (Some \<lparr> pi_exec = x \<lparr> x_current := None, x_last := None \<rparr>,
                        pi_has_request = False, pi_params = ingress_params inp,
                        pi_exchange = None, pi_routes = [], pi_ws = ws \<rparr>)))"

end
