(* ===== verification/Flow_Lemmas.thy ===== *)
theory Flow_Lemmas
  imports Executor_Flow Dispatch_Properties
begin

text \<open>
  What the steps of a request's life keep: the rows it opens, the status of its row between attempts,
  and closed forms of the chain.
\<close>

section \<open>Rows of requests\<close>

text \<open>The rows opened so far, and the row as last written.\<close>

fun opened_of :: "exec_event list \<Rightarrow> proxy_request list" where
  "opened_of [] = []"
| "opened_of (RequestCreated q # es) = q # opened_of es"
| "opened_of (Sent c r # es) = opened_of es"
| "opened_of (RequestSaved q # es) = opened_of es"
| "opened_of (FrameSent w e # es) = opened_of es"
| "opened_of (AttemptCreated a # es) = opened_of es"
| "opened_of (AttemptSaved a # es) = opened_of es"

fun row_of :: "exec_event list \<Rightarrow> proxy_request option" where
  "row_of [] = None"
| "row_of (RequestCreated q # es) = Some q"
| "row_of (RequestSaved q # es) = Some q"
| "row_of (Sent c r # es) = row_of es"
| "row_of (FrameSent w e # es) = row_of es"
| "row_of (AttemptCreated a # es) = row_of es"
| "row_of (AttemptSaved a # es) = row_of es"

fun frames_of :: "exec_event list \<Rightarrow> (ws_call \<times> go_error option) list" where
  "frames_of [] = []"
| "frames_of (RequestCreated q # es) = frames_of es"
| "frames_of (RequestSaved q # es) = frames_of es"
| "frames_of (Sent c r # es) = frames_of es"
| "frames_of (FrameSent w e # es) = (w, e) # frames_of es"
| "frames_of (AttemptCreated a # es) = frames_of es"
| "frames_of (AttemptSaved a # es) = frames_of es"

abbreviation opened :: "('c, 'k) exec \<Rightarrow> proxy_request list" where
  "opened x \<equiv> opened_of (x_log x)"
abbreviation row :: "('c, 'k) exec \<Rightarrow> proxy_request option" where
  "row x \<equiv> row_of (x_log x)"
abbreviation frames :: "('c, 'k) exec \<Rightarrow> (ws_call \<times> go_error option) list" where
  "frames x \<equiv> frames_of (x_log x)"

definition failure_statuses :: "string set" where
  "failure_statuses = {''FAILED'', ''CANCELLED'', ''REJECTED''}"

text \<open>The row in the store is the request at hand, and it has ended: in failure, or in success with no
  error left.\<close>

definition closed :: "('c, 'k) exec \<Rightarrow> bool" where
  "closed x \<longleftrightarrow> row x = Some (x_req x) \<and> pr_status (x_req x) \<in> failure_statuses"

definition settled :: "('c, 'k) exec \<Rightarrow> bool" where
  "settled x \<longleftrightarrow> closed x \<or>
     row x = Some (x_req x) \<and> pr_status (x_req x) = ''COMPLETED'' \<and> x_last x = None"

lemma closed_settled: "closed x \<Longrightarrow> settled x"
  by (simp add: settled_def)

lemma saved_last_closed:
  "saved_last x \<Longrightarrow> pr_status (x_req x) \<in> failure_statuses \<Longrightarrow> closed x"
  by (auto simp: saved_last_def closed_def)

lemma closed_fail_with [simp]: "closed (fail_with e x) = closed x"
  by (simp add: closed_def)

section \<open>A dispatch opens no row\<close>

lemma prepare_opened [simp]: "opened (fst (prepare_attempt env st cd mr m x)) = opened x"
  by (simp add: prepare_attempt_def Let_def split_def exec_simps split: option.split)

lemma note_effort_opened [simp]: "opened (note_effort ef x) = opened x"
  by (simp add: note_effort_def)

lemma settle_opened [simp]: "opened (fst (settle_attempt env t i cd mul a x)) = opened x"
  by (simp add: settle_attempt_def Let_def exec_simps)

lemma end_failed_opened [simp]: "opened (end_failed env cd s t f x) = opened x"
  by (simp add: end_failed_def)

lemma ready_opened [simp]: "opened (fst (ready_attempt env st cd plan mr n i x)) = opened x"
  by (simp add: ready_attempt_def Let_def split_def split: option.split sum.split)

lemma try_opened [simp]: "opened (fst (try_call env st cd mr cv m x)) = opened x"
  by (simp add: try_call_def start_attempt_def call_upstream_def Let_def split_def split: option.split)

lemma record_failure_opened [simp]: "opened (record_failure env st cd mr r e x) = opened x"
  by (simp add: record_failure_def Let_def split_def)

lemma on_success_opened [simp]: "opened (on_success env st cd mr cv m sk r x) = opened x"
  by (simp add: on_success_def Let_def split_def split: option.split)

lemma decide_opened [simp]: "opened (fst (decide env cd rc mr cv m sm nc n i r e x)) = opened x"
  by (simp add: decide_def next_attempt_def wait_retry_def Let_def split_def exec_simps
      split: option.split)

lemma exhausted_opened [simp]: "opened (exhausted env cd x) = opened x"
  by (simp add: exhausted_def Let_def split: option.split)

lemma attempt_step_opened [simp]:
  "opened (fst (attempt_step env st cd plan mr n i x)) = opened x"
proof -
  obtain x1 d where ready: "ready_attempt env st cd plan mr n i x = (x1, d)" by fastforce
  have one: "opened x1 = opened x" using ready_opened [of env st cd plan mr n i x] ready by simp
  show ?thesis
  proof (cases d)
    case (Inr mcv)
    obtain m cv where mcv: "mcv = (m, cv)" by fastforce
    obtain x2 ro where tried: "try_call env st cd mr cv m x1 = (x2, ro)" by fastforce
    have "opened x2 = opened x1" using try_opened [of env st cd mr cv m x1] tried by simp
    then show ?thesis
      by (simp add: attempt_step_def ready Inr mcv tried one split: option.split)
  qed (simp add: attempt_step_def ready one)
qed

section \<open>The status of the row during a dispatch\<close>

lemma prepare_status:
  "snd (prepare_attempt env st cd mr m x) \<Longrightarrow>
   pr_status (x_req (fst (prepare_attempt env st cd mr m x))) = pr_status (x_req x)"
  using prepare_req [of env st cd mr m x] by simp

lemma prepare_closed:
  "\<not> snd (prepare_attempt env st cd mr m x) \<Longrightarrow> closed (fst (prepare_attempt env st cd mr m x))"
  by (auto simp: prepare_attempt_def Let_def split_def closed_def failure_statuses_def
      rejectProxyRequestForQuota_def end_request_def clearProxyRequestDetail_def split: option.splits)

lemma end_failed_closed:
  "s \<in> failure_statuses \<Longrightarrow> (\<And>q. pr_status (f q) = pr_status q) \<Longrightarrow> closed (end_failed env cd s t f x)"
  using end_failed_saved [of f env cd s t x] by (auto intro: saved_last_closed)

lemma failure_status_final: "fst (requestFailureStatusAndError ctx err) \<in> failure_statuses"
  using failure_status_cases [of ctx err] by (auto simp: failure_statuses_def)

lemma http_error_status_keeps [simp]: "pr_status (http_error_status f q) = pr_status q"
  by (simp add: http_error_status_def)

lemma record_failure_status [simp]:
  "pr_status (x_req (record_failure env st cd mr r e x)) = pr_status (x_req x)"
  by (simp add: record_failure_def Let_def split_def exec_simps mirror_attempt_def
      clearProxyRequestDetail_def)

lemma wait_status:
  "if snd (wait_retry env cd w e x) then x_req (fst (wait_retry env cd w e x)) = x_req x
   else closed (fst (wait_retry env cd w e x))"
  by (auto simp: wait_retry_def Let_def split_def failure_status_final end_failed_closed
      split: option.split)

lemma next_status:
  assumes "next_attempt env cd rc p sm nc n i e x = (x', c)"
  shows "if c = Return then closed x' else x_req x' = x_req x"
  using assms wait_status [of env cd _ e x]
  by (auto simp: next_attempt_def Let_def split_def split: if_splits)

lemma decide_status:
  assumes "decide env cd rc mr cv m sm nc n i r e x = (x', c)"
  shows "if c = Return then closed x' else pr_status (x_req x') = pr_status (x_req x)"
  using assms
proof (cases rule: decide_cases)
  case committed
  then show ?thesis by (simp add: end_failed_closed failure_statuses_def)
next
  case (context_done ce)
  then show ?thesis by (simp add: end_failed_closed failure_status_final)
next
  case (request f fc)
  then show ?thesis by (simp add: end_failed_closed failure_statuses_def)
next
  case (final f fc)
  then show ?thesis by (simp add: exec_simps)
next
  case (retry f fc)
  then show ?thesis using next_status [OF retry(4)] by (auto simp: exec_simps)
qed simp

lemma on_success_settled: "settled (on_success env st cd mr cv m sk r x)"
  unfolding on_success_def Let_def split_def
  by (simp add: settled_def exec_simps mirror_attempt_def end_request_def
      clearProxyRequestDetail_def split: option.split)

lemma ready_status:
  assumes "ready_attempt env st cd plan mr n i x = (x', Inr (m, cv))"
  shows "pr_status (x_req x') = pr_status (x_req x)"
proof -
  have "snd (ready_attempt env st cd plan mr n i x) = Inr (m, cv)" using assms by simp
  from ready_model [OF this] prepare_status [of env st cd mr m "ticked x"] assms show ?thesis by auto
qed

lemma try_status: "pr_status (x_req (fst (try_call env st cd mr cv m x))) = pr_status (x_req x)"
  by (simp add: try_call_def Let_def split_def exec_simps split: option.split)

lemma attempt_step_status:
  assumes "attempt_step env st cd plan mr n i x = (x', c)"
  shows "(c = Return \<and> settled x') \<or> pr_status (x_req x') = pr_status (x_req x)"
  using assms
proof (cases rule: attempt_step_cases)
  case stopped
  then show ?thesis
    using prepare_closed [of env st cd mr "rp_candidates plan ! i" "ticked x"]
      prepare_status [of env st cd mr "rp_candidates plan ! i" "ticked x"]
    by (auto simp: closed_settled ready_attempt_def Let_def split_def split: if_splits option.splits sum.splits)
next
  case (full m cv x1)
  then show ?thesis using ready_status [OF full(1)] by simp
next
  case (succeeded m cv x1 x2 r)
  then show ?thesis by (simp add: on_success_settled)
next
  case (failed m cv x1 x2 r err)
  note ready_status [OF failed(1)]
  moreover have "pr_status (x_req x2) = pr_status (x_req x1)"
    using try_status [of env st cd mr cv m x1] failed(2) by simp
  ultimately show ?thesis using decide_status [OF failed(4)] by (auto simp: closed_settled split: if_splits)
qed

lemma exhausted_closed: "closed (exhausted env cd x)"
  by (auto simp: exhausted_def Let_def closed_def failure_statuses_def end_request_def
      clearProxyRequestDetail_def split: option.splits)

lemma dispatch_request_row:
  assumes "dispatch env st routes x = Some x'"
  shows "opened x' = opened x" and "settled x' \<or> pr_status (x_req x') = pr_status (x_req x)"
proof -
  show "opened x' = opened x"
    using dispatch_invariant [where I = "\<lambda>y. opened y = opened x", OF assms]
      attempt_step_opened by (metis (no_types, lifting) exhausted_opened fail_with_sel(5) fst_conv ticked_sel(5))
  let ?s = "pr_status (x_req x)"
  show "settled x' \<or> pr_status (x_req x') = ?s"
    using assms unfolding dispatch_def
  proof (rule route_loop_rule [where I = "\<lambda>y. pr_status (x_req y) = ?s" and
        A = "\<lambda>plan mr n i y. pr_status (x_req y) = ?s"])
    fix cd plan mr n i c and y y' :: "('a, 'b) exec"
    assume s: "pr_status (x_req y) = ?s" and step: "attempt_step env st cd plan mr n i y = (y', c)"
    then show "case c of Return \<Rightarrow> settled y' \<or> pr_status (x_req y') = ?s
        | NextRoute \<Rightarrow> pr_status (x_req y') = ?s | Again n' i' \<Rightarrow> pr_status (x_req y') = ?s"
      using attempt_step_status [OF step] by (cases c) auto
  qed (simp_all add: closed_settled [OF exhausted_closed])
qed

section \<open>The chain in one line\<close>

lemma Next_done:
  assumes "- 1 \<le> fc_index c"
  shows "fc_aborted (Next hs c) \<or> int (length hs) \<le> fc_index (Next hs c)"
  using next_loop_complete [of hs "c \<lparr> fc_index := fc_index c + 1 \<rparr>" "Suc (length hs)"] assms
  by (simp add: Next_def del: next_loop_Suc)

lemma Next_aborted: "fc_aborted c \<Longrightarrow> Next hs c = c"
  by (simp add: Next_def)

lemma Next_idle:
  assumes "fc_aborted c \<or> int (length hs) \<le> fc_index c"
  shows "fc_state (Next hs c) = fc_state c"
  using assms by (auto simp: Next_def)

lemma Next_handler:
  assumes "fc_index c = int i - 1" and "i < length hs" and "\<not> fc_aborted c"
  shows "Next hs c = Next hs (run_handler (hs ! i) (Next hs) (c \<lparr> fc_index := int i \<rparr>))"
  using assms by (subst Next_unfold) simp_all

text \<open>Steps in sequence, until one aborts.\<close>

fun run_steps :: "('s \<Rightarrow> ('s \<times> onward) option) list \<Rightarrow> 's \<Rightarrow> 's option" where
  "run_steps [] s = Some s"
| "run_steps (f # fs) s =
     (case f s of
        None \<Rightarrow> None
      | Some (s, c) \<Rightarrow> (if c = GoAbort then Some s else run_steps fs s))"

lemma Next_steps:
  assumes "fc_index c = int (length pre) - 1" and "\<not> fc_aborted c" and "fc_state c = Some s"
  shows "fc_state (Next (pre @ map step_handler fs) c) = run_steps fs s"
  using assms
proof (induction fs arbitrary: pre c s)
  case Nil
  then show ?case by (simp add: Next_def)
next
  case (Cons f fs)
  let ?hs = "pre @ map step_handler (f # fs)"
  have hs: "?hs = (pre @ [step_handler f]) @ map step_handler fs" by simp
  have at: "?hs ! length pre = step_handler f" "length pre < length ?hs" by simp_all
  define d where "d = c \<lparr> fc_index := int (length pre) \<rparr>"
  have IH: "fc_state (Next ?hs (d \<lparr> fc_state := Some s' \<rparr>)) = run_steps fs s'" for s'
    unfolding hs by (rule Cons.IH) (use Cons.prems in \<open>simp_all add: d_def\<close>)
  have next_same: "fc_state (Next ?hs (Next ?hs e)) = fc_state (Next ?hs e)" if "- 1 \<le> fc_index e" for e
    using Next_done [OF that] by (rule Next_idle)
  have run: "Next ?hs c = Next ?hs (run_handler (step_handler f) (Next ?hs) d)"
    unfolding d_def by (subst Next_handler [OF Cons.prems(1) at(2) Cons.prems(2)]) (simp only: at(1))
  show ?case
  proof (cases "f s")
    case None
    have "run_handler (step_handler f) (Next ?hs) d = d \<lparr> fc_state := None, fc_aborted := True \<rparr>"
      using None Cons.prems(3) by (simp add: step_handler_def d_def)
    then show ?thesis using None by (simp add: run Next_aborted del: list.map)
  next
    case (Some r)
    obtain s' c' where r: "r = (s', c')" by fastforce
    show ?thesis
    proof (cases c')
      case GoNext
      have "run_handler (step_handler f) (Next ?hs) d = Next ?hs (d \<lparr> fc_state := Some s' \<rparr>)"
        using Some r GoNext Cons.prems(3) by (simp add: step_handler_def d_def del: list.map)
      then show ?thesis
        using next_same [of "d \<lparr> fc_state := Some s' \<rparr>"] IH [of s'] Some r GoNext
        by (simp add: run d_def del: list.map)
    next
      case GoAbort
      have "run_handler (step_handler f) (Next ?hs) d =
          d \<lparr> fc_state := Some s', fc_aborted := True \<rparr>"
        using Some r GoAbort Cons.prems(3) by (simp add: step_handler_def d_def del: list.map)
      then show ?thesis using Some r GoAbort by (simp add: run Next_aborted del: list.map)
    next
      case GoReturn
      have "run_handler (step_handler f) (Next ?hs) d = d \<lparr> fc_state := Some s' \<rparr>"
        using Some r GoReturn Cons.prems(3) by (simp add: step_handler_def d_def del: list.map)
      then show ?thesis using IH [of s'] Some r GoReturn by (simp add: run del: list.map)
    qed
  qed
qed

text \<open>Without further middleware the request passes ingress, route match and dispatch, and the egress has
  the last word.\<close>

abbreviation start_pipeline ::
  "flow_input \<Rightarrow> ('c, 'k) exec \<Rightarrow> ws_cooldowns \<Rightarrow> ('c, 'k) pipeline" where
  "start_pipeline inp x ws \<equiv>
     \<lparr> pi_exec = x \<lparr> x_current := None, x_last := None \<rparr>, pi_has_request = False,
       pi_params = ingress_params inp, pi_exchange = None, pi_routes = [], pi_ws = ws \<rparr>"

abbreviation request_steps ::
  "('c, 'k, 'g) flow_env \<Rightarrow> flow_input \<Rightarrow>
     (('c, 'k) pipeline \<Rightarrow> (('c, 'k) pipeline \<times> onward) option) list" where
  "request_steps env inp \<equiv>
     [Some \<circ> ingress env inp, routeMatch env inp,
      \<lambda>p. map_option (\<lambda>p. (p, GoReturn)) (dispatch_step env p)]"

lemma ExecuteWith_run:
  "ExecuteWith env inp [] x ws =
     map_option (egress_finish (fe_exec env)) (run_steps (request_steps env inp) (start_pipeline inp x ws))"
proof -
  define hs where "hs = execute_chain env inp []"
  have hs: "hs = [egress_handler env] @ map step_handler (request_steps env inp)"
    by (simp add: hs_def execute_chain_def)
  let ?c = "new_ctx (Some (start_pipeline inp x ws))"
  let ?d = "Next hs (?c \<lparr> fc_index := 0 \<rparr>)"
  have "fc_state ?d = run_steps (request_steps env inp) (start_pipeline inp x ws)"
    unfolding hs by (rule Next_steps) (simp_all add: new_ctx_def)
  moreover have "Next hs ?c =
      Next hs (?d \<lparr> fc_state := map_option (egress_finish (fe_exec env)) (fc_state ?d) \<rparr>)"
    by (subst Next_handler [where i = 0]) (simp_all add: hs new_ctx_def egress_handler_def)
  moreover have "fc_aborted ?d \<or> int (length hs) \<le> fc_index ?d" by (rule Next_done) simp
  ultimately show ?thesis
    by (simp add: ExecuteWith_def HandleWith_def Next_idle new_ctx_def flip: hs_def)
qed

section \<open>A WebSocket turn\<close>

lemma settle_turn_keeps [simp]:
  "x_req (fst (settle_turn env cd prov a x)) = x_req x"
  "x_current (fst (settle_turn env cd prov a x)) = None"
  "x_last (fst (settle_turn env cd prov a x)) = x_last x"
  "x_tokens (fst (settle_turn env cd prov a x)) = x_tokens x"
  "opened (fst (settle_turn env cd prov a x)) = opened x"
  "frames (fst (settle_turn env cd prov a x)) = frames x"
  "sent (fst (settle_turn env cd prov a x)) = sent x"
  by (simp_all add: settle_turn_def Let_def)

lemma turn_completed_keeps [simp]:
  "x_current (turn_completed env st cd prov m rm a x) = None"
  "x_last (turn_completed env st cd prov m rm a x) = None"
  "x_tokens (turn_completed env st cd prov m rm a x) = x_tokens x"
  "opened (turn_completed env st cd prov m rm a x) = opened x"
  "frames (turn_completed env st cd prov m rm a x) = frames x"
  "sent (turn_completed env st cd prov m rm a x) = sent x"
  "settled (turn_completed env st cd prov m rm a x)"
  "pr_status (x_req (turn_completed env st cd prov m rm a x)) = ''COMPLETED''"
  unfolding turn_completed_def Let_def split_def
  by (simp_all add: settled_def mirror_attempt_def end_request_def
      clearProxyRequestDetail_def split: option.split)

lemma turn_failed_keeps [simp]:
  "x_current (turn_failed env cd prov a e x) = None"
  "x_last (turn_failed env cd prov a e x) = x_last x"
  "x_tokens (turn_failed env cd prov a e x) = x_tokens x"
  "opened (turn_failed env cd prov a e x) = opened x"
  "frames (turn_failed env cd prov a e x) = frames x"
  "sent (turn_failed env cd prov a e x) = sent x"
  "pr_status (x_req (turn_failed env cd prov a e x)) = pr_status (x_req x)"
  unfolding turn_failed_def Let_def split_def
  by (simp_all add: mirror_attempt_def)

lemma turn_cooldown_keeps [simp]:
  "x_req (turn_cooldown env prov m e x) = x_req x"
  "x_current (turn_cooldown env prov m e x) = x_current x"
  "x_tokens (turn_cooldown env prov m e x) = x_tokens x"
  "x_log (turn_cooldown env prov m e x) = x_log x"
  by (simp_all add: turn_cooldown_def Let_def split: option.split)

lemma run_turn_keeps [simp]:
  "x_req (fst (run_turn env prov call x)) = x_req x"
  "x_tokens (fst (run_turn env prov call x)) = x_tokens x"
  "x_log (fst (run_turn env prov call x)) =
     FrameSent call (wo_err (snd (run_turn env prov call x))) # x_log x"
  by (auto simp: run_turn_def Let_def split_def split: prod.split option.split)

text \<open>A turn without a surviving session leaves every counter of the limiter as it was.\<close>

lemma run_turn_gives_back:
  assumes "slots_sane (x_limiter x)" and "\<not> wo_session (snd (run_turn env prov call x))"
  shows "inflight_of (lm_inflight (x_limiter (fst (run_turn env prov call x)))) =
    inflight_of (lm_inflight (x_limiter x))"
proof -
  obtain l s where acq: "TryAcquire (pv_id prov) (pv_max_concurrency prov) (x_limiter x) = (l, s)"
    by fastforce
  show ?thesis
  proof (cases s)
    case None
    then show ?thesis using acq by (simp add: run_turn_def Let_def)
  next
    case (Some h)
    note same = acquire_release [OF acq [unfolded Some] assms(1)]
    from assms(2) show ?thesis
      by (auto simp: run_turn_def Let_def acq Some same)
  qed
qed

text \<open>What a WebSocket dispatch does to the row: it ends as completed, or an error is left and the row
  keeps its status, for the egress to end.\<close>

definition turn_result :: "('c, 'k) pipeline \<Rightarrow> ('c, 'k) pipeline \<Rightarrow> bool" where
  "turn_result p p' \<longleftrightarrow>
     pi_has_request p' = pi_has_request p \<and> pi_params p' = pi_params p \<and>
     opened (pi_exec p') = opened (pi_exec p) \<and> sent (pi_exec p') = sent (pi_exec p) \<and>
     x_tokens (pi_exec p') = x_tokens (pi_exec p) \<and>
     (x_current (pi_exec p) = None \<longrightarrow> x_current (pi_exec p') = None) \<and>
     (if x_last (pi_exec p') = None
      then settled (pi_exec p') \<and> pr_status (x_req (pi_exec p')) = ''COMPLETED''
      else pr_status (x_req (pi_exec p')) = pr_status (x_req (pi_exec p)))"

lemma turn_result_fail:
  assumes "pi_has_request p' = pi_has_request p" "pi_params p' = pi_params p"
    "opened (pi_exec p') = opened (pi_exec p)" "sent (pi_exec p') = sent (pi_exec p)"
    "x_tokens (pi_exec p') = x_tokens (pi_exec p)"
    "x_current (pi_exec p') = None \<or> x_current (pi_exec p') = x_current (pi_exec p)"
    "pr_status (x_req (pi_exec p')) = pr_status (x_req (pi_exec p))"
  shows "turn_result p (pi_fail e p')"
  using assms by (auto simp: turn_result_def pi_fail_def)

lemma ws_dispatch_result: "turn_result p (dispatchResponsesWebSocket env cd wx routes p)"
proof (induction routes arbitrary: p)
  case Nil
  show ?case by (simp add: turn_result_fail)
next
  case (Cons mr rest)
  let ?x = "pi_exec p"
  show ?case
  proof (cases "ad_websocket (mr_adapter mr)")
    case False
    then show ?thesis by (simp add: turn_result_fail)
  next
    case ws: True
    show ?thesis
    proof (cases "ee_ctx (fe_exec env) (x_tick ?x)")
      case (Some ce)
      with ws show ?thesis by (simp add: turn_result_fail)
    next
      case ctx: None
      show ?thesis
      proof (cases "turn_frame env (pi_params p) mr (wx_frame wx)")
        case (Inl err)
        with ws ctx show ?thesis by (simp add: turn_result_fail)
      next
        case (Inr mf)
        obtain m fr where mf: "mf = (m, fr)" by fastforce
        show ?thesis
        proof (cases "ee_attempt_id (fe_exec env) (Suc (Suc (x_tick ?x)))")
          case None
          with ws ctx Inr mf show ?thesis by (simp add: turn_result_fail)
        next
          case (Some i)
          have step: "turn_result p (dispatchResponsesWebSocket env cd wx rest q)"
            if "pi_has_request q = pi_has_request p" "pi_params q = pi_params p"
              "opened (pi_exec q) = opened ?x" "sent (pi_exec q) = sent ?x"
              "x_tokens (pi_exec q) = x_tokens ?x" "x_current (pi_exec q) = None"
              "pr_status (x_req (pi_exec q)) = pr_status (x_req ?x)" for q
            using Cons [of q] that by (auto simp: turn_result_def)
          show ?thesis
            using ws ctx Inr mf Some
            by (auto simp: Let_def split_def intro!: step turn_result_fail split: option.split)
               (simp add: turn_result_def)
        qed
      qed
    qed
  qed
qed

end
