(* ===== verification/Flow_Properties.thy ===== *)
theory Flow_Properties
  imports Flow_Lemmas Executor_Properties Router_Properties
begin

text \<open>
  What a client and the request log may rely on for one run of \<open>ExecuteWith\<close>, and two concrete runs:
  one over HTTP, one WebSocket turn.
\<close>

section \<open>The stages\<close>

text \<open>A stage that rejects leaves one row, already ended, or none; one that goes on leaves none or one that
  is in progress.\<close>

definition stage_ok :: "('c, 'k) exec \<Rightarrow> ('c, 'k) pipeline \<Rightarrow> onward \<Rightarrow> bool" where
  "stage_ok x p c \<longleftrightarrow>
     x_current (pi_exec p) = None \<and>
     (\<exists>qs. opened (pi_exec p) = qs @ opened x \<and> length qs \<le> 1 \<and>
        (pi_has_request p \<longrightarrow> length qs = 1) \<and>
        (qs \<noteq> [] \<longrightarrow> (\<exists>q. row (pi_exec p) = Some q \<and>
           (if c = GoAbort then pr_status q \<in> failure_statuses
            else pi_has_request p \<and> pr_status (x_req (pi_exec p)) = ''IN_PROGRESS'') \<and>
           (pi_has_request p \<longrightarrow> q = x_req (pi_exec p))))) \<and>
     (x_last (pi_exec p) = None \<longleftrightarrow> c \<noteq> GoAbort)"

lemma newProxyRequest_status [simp]:
  "pr_status (newProxyRequest env inp st ws s t) = s"
  by (simp add: newProxyRequest_def Let_def)

lemma createProxyRequest_keeps [simp]:
  "x_current (fst (createProxyRequest env q x)) = x_current x"
  "x_last (fst (createProxyRequest env q x)) = x_last x"
  "x_tokens (fst (createProxyRequest env q x)) = x_tokens x"
  "x_limiter (fst (createProxyRequest env q x)) = x_limiter x"
  "x_manager (fst (createProxyRequest env q x)) = x_manager x"
  "x_log (fst (createProxyRequest env q x)) =
     RequestCreated (snd (createProxyRequest env q x)) # x_log x"
  "pr_status (snd (createProxyRequest env q x)) = pr_status q"
  "pr_status_code (snd (createProxyRequest env q x)) = pr_status_code q"
  "pr_error (snd (createProxyRequest env q x)) = pr_error q"
  by (simp_all add: createProxyRequest_def Let_def split: option.split)

lemma reject_request_keeps [simp]:
  "x_current (fst (reject_request env inp st ws s c m x)) = x_current x"
  "x_last (fst (reject_request env inp st ws s c m x)) = x_last x"
  "x_tokens (fst (reject_request env inp st ws s c m x)) = x_tokens x"
  "x_limiter (fst (reject_request env inp st ws s c m x)) = x_limiter x"
  "x_manager (fst (reject_request env inp st ws s c m x)) = x_manager x"
  "x_log (fst (reject_request env inp st ws s c m x)) =
     RequestCreated (snd (reject_request env inp st ws s c m x)) # x_log x"
  "pr_status (snd (reject_request env inp st ws s c m x)) = s"
  "pr_status_code (snd (reject_request env inp st ws s c m x)) = c"
  "pr_error (snd (reject_request env inp st ws s c m x)) = m"
  by (simp_all add: reject_request_def Let_def end_request_def)

lemma pi_fail_sel [simp]:
  "pi_exec (pi_fail e p) = fail_with e (pi_exec p)" "pi_has_request (pi_fail e p) = pi_has_request p"
  by (simp_all add: pi_fail_def)

lemma await_project_stage:
  assumes "await_project env inp p = (p', c)" and "pi_has_request p = False"
    and "x_current (pi_exec p) = None" and "x_last (pi_exec p) = None"
  shows "stage_ok (pi_exec p) p' c \<and> (c \<noteq> GoAbort \<longrightarrow> c = GoNext \<and> \<not> pi_has_request p' \<and>
    x_log (pi_exec p') = x_log (pi_exec p))"
  using assms
  by (auto simp: await_project_def Let_def stage_ok_def failure_statuses_def
      split: option.splits if_splits sum.splits)

lemma ingress_stage:
  assumes "ingress env inp p = (p', c)" and "pi_has_request p = False"
    and "x_current (pi_exec p) = None" and "x_last (pi_exec p) = None"
  shows "stage_ok (pi_exec p) p' c \<and> (c \<noteq> GoAbort \<longrightarrow> c = GoNext \<and> \<not> pi_has_request p' \<and>
    x_log (pi_exec p') = x_log (pi_exec p))"
proof (cases "fi_exchange inp = None \<or> fi_client inp = ClientTypeCodex")
  case True
  have cl: "ep_client (ingress_params inp) = fi_client inp" by (simp add: ingress_params_def)
  obtain q where "await_project env inp q = (p', c)" "pi_has_request q = False" "pi_exec q = pi_exec p"
    using assms(1,2) True unfolding ingress_def Let_def cl
    by (auto split: if_splits simp: cl)
  from await_project_stage [OF this(1,2)] this(3) assms show ?thesis by simp
next
  case False
  then show ?thesis
    using assms by (auto simp: ingress_def Let_def ingress_params_def stage_ok_def)
qed

lemma routeMatch_stage:
  assumes "routeMatch env inp p = Some (p', c)" and "pi_has_request p = False"
    and "x_current (pi_exec p) = None" and "x_last (pi_exec p) = None"
  shows "stage_ok (pi_exec p) p' c \<and> (c \<noteq> GoAbort \<longrightarrow> c = GoNext \<and> pi_has_request p')"
  using assms
  by (auto simp: routeMatch_def Let_def split_def stage_ok_def failure_statuses_def
      split: option.splits if_splits sum.splits)


lemma dispatch_step_stage:
  assumes "dispatch_step env p = Some p'" and "x_current (pi_exec p) = None"
    and "pr_status (x_req (pi_exec p)) = ''IN_PROGRESS''"
  shows "pi_has_request p' = pi_has_request p \<and> x_current (pi_exec p') = None \<and>
    opened (pi_exec p') = opened (pi_exec p) \<and>
    (if x_last (pi_exec p') = None
     then settled (pi_exec p') \<and> pr_status (x_req (pi_exec p')) = ''COMPLETED''
     else closed (pi_exec p') \<or> pr_status (x_req (pi_exec p')) = ''IN_PROGRESS'')"
proof (cases "pi_exchange p")
  case None
  define st where "st = pi_params p"
  obtain x' where run: "dispatch (fe_exec env) st (pi_routes p) (pi_exec p) = Some x'"
    and p': "p' = p \<lparr> pi_exec := x' \<rparr>"
    using assms(1) None by (auto simp: dispatch_step_def Let_def st_def)
  have row: "opened x' = opened (pi_exec p)" "settled x' \<or> pr_status (x_req x') = ''IN_PROGRESS''"
    using dispatch_request_row [OF run] assms(3) by simp_all
  have cur: "x_current x' = None" using dispatch_current [OF run assms(2)] .
  show ?thesis
  proof (cases "x_last x' = None")
    case True
    then have "completed (fe_exec env) st (x_sticky (pi_exec p)) x'"
      using dispatch_outcome [OF run] failed_with_reported by blast
    then have "pr_status (x_req x') = ''COMPLETED''" by (simp add: completed_def)
    then show ?thesis using row cur p' True by simp
  next
    case False
    then show ?thesis using row cur p' by (auto simp: settled_def)
  qed
next
  case (Some wx)
  then have "p' = dispatchResponsesWebSocket env
      (shouldClearRequestDetailFor (ee_settings (fe_exec env)) (ep_dev_mode (pi_params p))) wx (pi_routes p) p"
    using assms(1) by (simp add: dispatch_step_def Let_def)
  then show ?thesis
    using ws_dispatch_result [of p env _ wx "pi_routes p"] assms(2,3) by (simp add: turn_result_def)
qed

text \<open>The egress ends what is left in progress.\<close>

lemma egress_attempt_none [simp]: "x_current x = None \<Longrightarrow> egress_attempt e x = x"
  by (simp add: egress_attempt_def)

lemma egress_request_keeps [simp]:
  "x_current (egress_request e x) = x_current x" "x_last (egress_request e x) = x_last x"
  "opened (egress_request e x) = opened x"
  by (simp_all add: egress_request_def Let_def split_def)

lemma egress_request_closed:
  "closed (egress_request e x) \<longleftrightarrow> closed x \<or> pr_status (x_req x) = ''IN_PROGRESS''"
  using failure_status_final
  by (auto simp: egress_request_def Let_def split_def closed_def end_request_def)

lemma egress_request_idle [simp]: "pr_status (x_req x) \<noteq> ''IN_PROGRESS'' \<Longrightarrow> egress_request e x = x"
  by (simp add: egress_request_def)

section \<open>A request always ends\<close>

text \<open>How a run leaves the request log.\<close>

definition request_ended :: "('c, 'k) exec \<Rightarrow> ('c, 'k) pipeline \<Rightarrow> bool" where
  "request_ended x p \<longleftrightarrow>
     x_current (pi_exec p) = None \<and>
     (\<exists>qs. opened (pi_exec p) = qs @ opened x \<and> length qs \<le> 1 \<and>
        (qs \<noteq> [] \<longrightarrow> (\<exists>q. row (pi_exec p) = Some q \<and>
           pr_status q \<in> {''COMPLETED'', ''FAILED'', ''CANCELLED'', ''REJECTED''} \<and>
           (pr_status q = ''COMPLETED'' \<longleftrightarrow> x_last (pi_exec p) = None))) \<and>
        (qs = [] \<longrightarrow> x_last (pi_exec p) \<noteq> None))"

lemma stage_aborted:
  assumes "stage_ok x p GoAbort"
  shows "request_ended x (egress_finish e p)"
proof -
  obtain qs where qs: "opened (pi_exec p) = qs @ opened x" "length qs \<le> 1"
    "pi_has_request p \<Longrightarrow> length qs = 1"
    "qs \<noteq> [] \<Longrightarrow> \<exists>q. row (pi_exec p) = Some q \<and> pr_status q \<in> failure_statuses \<and>
       (pi_has_request p \<longrightarrow> q = x_req (pi_exec p))"
    and x: "x_current (pi_exec p) = None" "x_last (pi_exec p) \<noteq> None"
    using assms by (auto simp: stage_ok_def)
  have idle: "egress_finish e p = p"
  proof (cases "pi_has_request p")
    case True
    then have "qs \<noteq> []" using qs(3) by auto
    with qs(4) True have "pr_status (x_req (pi_exec p)) \<in> failure_statuses" by auto
    then have "pr_status (x_req (pi_exec p)) \<noteq> ''IN_PROGRESS''" by (auto simp: failure_statuses_def)
    then show ?thesis using x(1) by (simp add: egress_finish_def Let_def)
  qed (use x(1) in \<open>simp add: egress_finish_def Let_def\<close>)
  show ?thesis
    unfolding request_ended_def idle
    using qs(1,2,4) x by (intro conjI exI [of _ qs]) (auto simp: failure_statuses_def)
qed

lemma flow_ended:
  assumes "ExecuteWith env inp [] x ws = Some p"
  shows "request_ended x p"
proof -
  let ?e = "fe_exec env"
  define p0 where "p0 = start_pipeline inp x ws"
  obtain pe where run: "run_steps (request_steps env inp) p0 = Some pe"
    and p: "p = egress_finish ?e pe"
    using assms by (auto simp: ExecuteWith_run p0_def)
  have p0: "pi_has_request p0 = False" "x_current (pi_exec p0) = None" "x_last (pi_exec p0) = None"
    "x_log (pi_exec p0) = x_log x" by (simp_all add: p0_def)
  obtain p1 c1 where one: "ingress env inp p0 = (p1, c1)" by fastforce
  note s1 = ingress_stage [OF one p0(1-3)]
  show ?thesis
  proof (cases "c1 = GoAbort")
    case True
    then have "pe = p1" using run one by simp
    moreover have "stage_ok x p1 GoAbort" using s1 True p0(4) by (simp add: stage_ok_def)
    ultimately show ?thesis unfolding p by (simp add: stage_aborted)
  next
    case False
    then have c1: "pi_has_request p1 = False" "x_log (pi_exec p1) = x_log x"
      "x_current (pi_exec p1) = None" "x_last (pi_exec p1) = None"
      using s1 p0(4) by (auto simp: stage_ok_def)
    obtain p2 c2 where two: "routeMatch env inp p1 = Some (p2, c2)"
      using run one False by (auto split: option.splits)
    note s2 = routeMatch_stage [OF two c1(1,3,4)]
    then have ok2: "stage_ok x p2 c2" using c1(2) by (simp add: stage_ok_def)
    show ?thesis
    proof (cases "c2 = GoAbort")
      case True
      then have "pe = p2" using run one two False by simp
      with ok2 True show ?thesis unfolding p by (simp add: stage_aborted)
    next
      case c2: False
      have has: "pi_has_request p2" using s2 c2 by simp
      then obtain q2 where q2: "opened (pi_exec p2) = [q2] @ opened x"
        "x_current (pi_exec p2) = None" "pr_status (x_req (pi_exec p2)) = ''IN_PROGRESS''"
        using ok2 c2 by (auto simp: stage_ok_def length_Suc_conv)
      have three: "dispatch_step env p2 = Some pe"
        using run one two False c2 by (auto split: option.splits)
      have pe: "pi_has_request pe" "x_current (pi_exec pe) = None"
        "opened (pi_exec pe) = [q2] @ opened x"
        "if x_last (pi_exec pe) = None
         then settled (pi_exec pe) \<and> pr_status (x_req (pi_exec pe)) = ''COMPLETED''
         else closed (pi_exec pe) \<or> pr_status (x_req (pi_exec pe)) = ''IN_PROGRESS''"
        using dispatch_step_stage [OF three q2(2,3)] has q2(1) by simp_all
      have fin: "pi_exec p = egress_request ?e (pi_exec pe)"
        unfolding p using pe(1,2) by (simp add: egress_finish_def Let_def)
      show ?thesis
      proof (cases "x_last (pi_exec pe) = None")
        case True
        then have "pr_status (x_req (pi_exec pe)) = ''COMPLETED''"
          "row (pi_exec pe) = Some (x_req (pi_exec pe))"
          using pe(4) by (auto simp: settled_def closed_def failure_statuses_def)
        then show ?thesis unfolding request_ended_def fin using pe(2,3) True
          by (intro conjI exI [of _ "[q2]"]) simp_all
      next
        case False
        then have "closed (pi_exec p)" using pe(4) by (simp add: fin egress_request_closed)
        then show ?thesis unfolding request_ended_def using pe(2,3) False
          by (intro conjI exI [of _ "[q2]"]) (auto simp: fin closed_def failure_statuses_def)
      qed
    qed
  qed
qed


section \<open>Frames of a WebSocket turn\<close>

definition slot_lost :: "ws_call \<times> go_error option \<Rightarrow> bool" where
  "slot_lost f \<longleftrightarrow> (\<exists>err. snd f = Some err \<and> error_is err ErrNoAvailableProviders_error)"

definition turn_frames ::
  "ws_exchange \<Rightarrow> retry_config matched_route list \<Rightarrow> ('c, 'k) pipeline \<Rightarrow> ('c, 'k) pipeline \<Rightarrow>
     (ws_call \<times> go_error option) list \<Rightarrow> bool" where
  "turn_frames wx routes p p' fs \<longleftrightarrow>
     frames (pi_exec p') = fs @ frames (pi_exec p) \<and> length fs \<le> length routes \<and>
     map (wc_provider \<circ> fst) (rev fs) = map (pv_id \<circ> mr_provider) (take (length fs) routes) \<and>
     list_all slot_lost (tl fs) \<and> (wx_pinned wx \<noteq> 0 \<longrightarrow> length fs \<le> 1) \<and>
     (x_last (pi_exec p') = None \<longrightarrow>
        fs \<noteq> [] \<and> snd (hd fs) = None \<and>
        pi_exchange p' = Some (wx \<lparr> wx_pinned := wc_provider (fst (hd fs)) \<rparr>))"

lemma turn_frames_fail:
  assumes "frames (pi_exec p') = frames (pi_exec p)"
  shows "\<exists>fs. turn_frames wx routes p (pi_fail e p') fs"
  using assms by (intro exI [of _ "[]"]) (simp add: turn_frames_def)

lemma turn_frames_last:
  assumes "frames (pi_exec p') \<noteq> []" and "tl (frames (pi_exec p')) = frames (pi_exec p)"
    and "wc_provider (fst (hd (frames (pi_exec p')))) = pv_id (mr_provider mr)"
    and "x_last (pi_exec p') = None \<Longrightarrow> snd (hd (frames (pi_exec p'))) = None \<and>
      pi_exchange p' = Some (wx \<lparr> wx_pinned := pv_id (mr_provider mr) \<rparr>)"
  shows "\<exists>fs. turn_frames wx (mr # rest) p p' fs"
  using assms
  by (cases "frames (pi_exec p')") (auto simp: turn_frames_def intro!: exI [of _ "[hd (frames (pi_exec p'))]"])

lemma turn_frames_next:
  assumes "turn_frames wx rest q p' fs" and "frames (pi_exec q) = (call, Some err) # frames (pi_exec p)"
    and "wc_provider call = pv_id (mr_provider mr)" and "error_is err ErrNoAvailableProviders_error"
    and "wx_pinned wx = 0"
  shows "\<exists>fs. turn_frames wx (mr # rest) p p' fs"
proof -
  have "list_all slot_lost (tl (fs @ [(call, Some err)]))"
    using assms(1,4) by (cases fs) (auto simp: turn_frames_def slot_lost_def)
  then show ?thesis
    using assms by (intro exI [of _ "fs @ [(call, Some err)]"]) (auto simp: turn_frames_def)
qed

lemma frames_misc [simp]: "frames (turn_cooldown env prov m e x) = frames x"
  by simp

lemma ws_dispatch_frames:
  "\<exists>fs. turn_frames wx routes p (dispatchResponsesWebSocket env cd wx routes p) fs"
proof (induction routes arbitrary: p)
  case Nil
  show ?case by (simp add: turn_frames_fail)
next
  case (Cons mr rest)
  let ?x = "pi_exec p"
  show ?case
  proof (cases "ad_websocket (mr_adapter mr)")
    case False
    then show ?thesis by (simp add: turn_frames_fail)
  next
    case ws: True
    show ?thesis
    proof (cases "ee_ctx (fe_exec env) (x_tick ?x)")
      case (Some ce)
      with ws show ?thesis by (simp add: turn_frames_fail)
    next
      case ctx: None
      show ?thesis
      proof (cases "turn_frame env (pi_params p) mr (wx_frame wx)")
        case (Inl err)
        with ws ctx show ?thesis by (simp add: turn_frames_fail)
      next
        case (Inr mf)
        obtain m fr where mf: "mf = (m, fr)" by fastforce
        show ?thesis
        proof (cases "ee_attempt_id (fe_exec env) (Suc (Suc (x_tick ?x)))")
          case None
          with ws ctx Inr mf show ?thesis by (simp add: turn_frames_fail)
        next
          case (Some i)
          have onward: "\<exists>fs. turn_frames wx (mr # rest) p (dispatchResponsesWebSocket env cd wx rest q) fs"
            if "frames (pi_exec q) \<noteq> []" "tl (frames (pi_exec q)) = frames ?x"
              "wc_provider (fst (hd (frames (pi_exec q)))) = pv_id (mr_provider mr)"
              "slot_lost (hd (frames (pi_exec q)))" "wx_pinned wx = 0" for q
            using Cons [of q] that(5) turn_frames_next [of wx rest q _ _ "fst (hd (frames (pi_exec q)))" _ p mr]
              that(1-4) by (cases "frames (pi_exec q)") (auto simp: slot_lost_def)
          let ?p' = "dispatchResponsesWebSocket env cd wx (mr # rest) p"
          have "(\<exists>q. ?p' = dispatchResponsesWebSocket env cd wx rest q \<and> frames (pi_exec q) \<noteq> [] \<and>
              tl (frames (pi_exec q)) = frames ?x \<and>
              wc_provider (fst (hd (frames (pi_exec q)))) = pv_id (mr_provider mr) \<and>
              slot_lost (hd (frames (pi_exec q))) \<and> wx_pinned wx = 0) \<or>
            frames (pi_exec ?p') \<noteq> [] \<and> tl (frames (pi_exec ?p')) = frames ?x \<and>
            wc_provider (fst (hd (frames (pi_exec ?p')))) = pv_id (mr_provider mr) \<and>
            (x_last (pi_exec ?p') = None \<longrightarrow> snd (hd (frames (pi_exec ?p'))) = None \<and>
              pi_exchange ?p' = Some (wx \<lparr> wx_pinned := pv_id (mr_provider mr) \<rparr>))"
            using ws ctx Inr mf Some
            by (simp add: Let_def split_def slot_lost_def split: option.split)
              (fastforce simp: slot_lost_def)?
          then show ?thesis using onward turn_frames_last [of ?p' p mr wx rest] by metis
        qed
      qed
    qed
  qed
qed


section \<open>Two concrete environments\<close>

definition demo_router :: "route list \<Rightarrow> (memory_store, sticky_memory, unit, retry_config) router_env" where
  "demo_router rs =
     \<lparr> re_routes = rs, re_projects = (\<lambda>_ _. None), re_strategy = (\<lambda>_ _. None),
       re_default_retry = (\<lambda>_. None), re_retry = (\<lambda>_ _. None),
       re_providers = re_providers sample_env, re_adapters = re_adapters sample_env,
       re_inflight = [], re_strict = False, re_cooldown_ops = memory_ops,
       re_sticky_ops = sticky_memory_ops, re_sort = sort_key rt_position,
       re_sort_ids = sort_key (\<lambda>i. i), re_rng = (\<lambda>_. ()), re_intn = (\<lambda>_ g. (g, 0)),
       re_sha = (\<lambda>s. s), re_hmac = (\<lambda>s. s) \<rparr>"

definition closing_env :: "(memory_store, sticky_memory) exec_env" where
  "closing_env = demo_env \<lparr> ee_ctx := (\<lambda>t. if t < 100 then None else Some Canceled) \<rparr>"

definition demo_flow :: "route list \<Rightarrow> (memory_store, sticky_memory, unit) flow_env" where
  "demo_flow rs =
     \<lparr> fe_exec = closing_env, fe_router = demo_router rs,
       fe_waiter = None, fe_session = (\<lambda>t i s. None), fe_request_id = (\<lambda>t. Some 7),
       fe_quote = (\<lambda>s. s), fe_request_cap = 0, fe_dials = (\<lambda>t w. True),
       fe_turn = (\<lambda>t w slot. \<lparr> wo_events = [], wo_model = None,
          wo_err = (if wc_provider w = 10 then Some ErrNoAvailableProviders_error else None),
          wo_session = (wc_provider w \<noteq> 10) \<rparr>),
       fe_set_model = (\<lambda>f m. Inr f) \<rparr>"

definition demo_input :: flow_input where
  "demo_input =
     \<lparr> fi_tenant = 0, fi_client = ClientTypeClaude, fi_project = 0, fi_session = ''s'', fi_model = ''m'',
       fi_stream = False, fi_token = 5, fi_dev_mode = False, fi_body = ''{}'', fi_original_body = ''{}'',
       fi_headers = None, fi_uri = ''/v1/messages'', fi_exchange = None, fi_http = None \<rparr>"

definition demo_exchange :: ws_exchange where
  "demo_exchange = \<lparr> wx_frame = ''f'', wx_pinned = 0 \<rparr>"

lemma demo_flow_ok: "env_ok (fe_router (demo_flow [mk_route 1 10 2 3, mk_route 2 20 1 5]))"
  by (simp add: env_ok_def demo_flow_def demo_router_def sorts_by_sort_key intn_ok_def memory_lists_own
      norm_weight_def mk_route_def)

lemma demo_flow_done: "eventually_done (fe_exec (demo_flow rs))"
  by (auto simp: eventually_done_def closing_env_def demo_flow_def intro!: exI [of _ 100])

section \<open>Properties\<close>

lemma routeMatch_total:
  assumes "env_ok (fe_router env)"
  shows "\<exists>p' c. routeMatch env inp p = Some (p', c)"
proof -
  let ?renv = "(fe_router env) \<lparr> re_inflight := lm_inflight (x_limiter (pi_exec p)) \<rparr>"
  have "env_ok ?renv" using assms by (simp add: env_ok_def)
  from match_outcome [OF this] obtain rst res where m: "Match ?renv
      (match_context_of (pi_params p) (pi_exchange p)) (ee_clock (fe_exec env) (x_tick (pi_exec p)))
      \<lparr> st_manager = x_manager (pi_exec p), st_ws = pi_ws p, st_sticky = x_sticky (pi_exec p) \<rparr> =
      Some (rst, res)" by blast
  have "routeMatch env inp p \<noteq> None" unfolding routeMatch_def Let_def m by simp
  then show ?thesis by (metis not_None_eq surj_pair)
qed

text \<open>C1: Every request ends, whatever stage it fails in: once its context ends the execution returns, it
  has opened at most one row in the request log, the row as last stored is \<open>COMPLETED\<close> exactly when no
  error is returned and otherwise \<open>FAILED\<close>, \<open>CANCELLED\<close> or \<open>REJECTED\<close>, and no attempt is left in
  progress.\<close>

theorem request_always_ends:
  assumes "env_ok (fe_router env)" and "eventually_done (fe_exec env)"
  shows "\<exists>p. ExecuteWith env inp [] x ws = Some p \<and> request_ended x p"
proof -
  have dispatches: "\<exists>p'. dispatch_step env p = Some p'" for p
    using dispatch_returns [of "pi_routes p" "fe_exec env" "pi_params p" "pi_exec p"] assms(2)
    by (auto simp: dispatch_step_def Let_def split: option.split)
  have matches: "\<exists>p' c. routeMatch env inp p = Some (p', c)" for p
    using routeMatch_total [OF assms(1)] .
  obtain p1 c1 where one: "ingress env inp (start_pipeline inp x ws) = (p1, c1)" by fastforce
  obtain p2 c2 where two: "routeMatch env inp p1 = Some (p2, c2)" using matches by blast
  obtain p3 where three: "dispatch_step env p2 = Some p3" using dispatches by blast
  have "\<exists>p. ExecuteWith env inp [] x ws = Some p"
    by (simp add: ExecuteWith_run one two three)
  then show ?thesis using flow_ended by blast
qed

theorem request_always_ends_witness:
  "\<exists>p. ExecuteWith (demo_flow [mk_route 1 10 2 3, mk_route 2 20 1 5]) demo_input [] (demo_state 9) [] =
     Some p \<and> request_ended (demo_state 9) p"
  by (rule request_always_ends [OF demo_flow_ok demo_flow_done])

text \<open>C9: When no route matches, the client gets a request-scoped error with the status that the reason
  asks for (400 for a model nobody offers, 502 for a lost WebSocket session, 503 otherwise), retryable
  only to tell a Codex client to fall back from WebSocket; the request log gets exactly one row,
  \<open>REJECTED\<close> with that status, and nothing else is written: no attempt, no token, no slot.\<close>

theorem failed_match_rejects:
  assumes "ingress env inp (start_pipeline inp x ws) = (p1, GoNext)"
    and "Match ((fe_router env) \<lparr> re_inflight := lm_inflight (x_limiter (pi_exec p1)) \<rparr>)
      (match_context_of (pi_params p1) (pi_exchange p1)) (ee_clock (fe_exec env) (x_tick (pi_exec p1)))
      \<lparr> st_manager = x_manager (pi_exec p1), st_ws = pi_ws p1, st_sticky = x_sticky (pi_exec p1) \<rparr> =
      Some (rst, Inl e)"
  shows "\<exists>p q f. ExecuteWith env inp [] x ws = Some p \<and>
    x_last (pi_exec p) = Some (ProxyError f (Some (match_error_value e))) \<and>
    pf_scope f = ScopeRequest \<and> (pf_retryable f \<longleftrightarrow> e = ErrNoResponsesWebSocketProviders) \<and>
    pf_status f = (case e of ErrModelNotSupported \<Rightarrow> 400 | ErrResponsesWebSocketSessionUnavailable \<Rightarrow> 502
                   | _ \<Rightarrow> 503) \<and>
    x_log (pi_exec p) = RequestCreated q # x_log x \<and> pr_status q = ''REJECTED'' \<and>
    pr_status_code q = pf_status f \<and>
    x_tokens (pi_exec p) = x_tokens x \<and> x_limiter (pi_exec p) = x_limiter x"
proof -
  have p1: "pi_has_request p1 = False" "x_log (pi_exec p1) = x_log x" "x_current (pi_exec p1) = None"
    using ingress_stage [OF assms(1)] by (auto simp: stage_ok_def)
  have keeps: "x_tokens (pi_exec p1) = x_tokens x" "x_limiter (pi_exec p1) = x_limiter x"
    using assms(1) by (auto simp: ingress_def await_project_def Let_def
        split: if_splits option.splits sum.splits)
  obtain p2 where two: "routeMatch env inp p1 = Some (p2, GoAbort)"
    and p2: "pi_has_request p2" "x_current (pi_exec p2) = None"
      "x_tokens (pi_exec p2) = x_tokens x" "x_limiter (pi_exec p2) = x_limiter x"
      "x_log (pi_exec p2) = RequestCreated (x_req (pi_exec p2)) # x_log x"
      "pr_status (x_req (pi_exec p2)) = ''REJECTED''"
      "pr_status_code (x_req (pi_exec p2)) = fst (snd (match_failure (fe_quote env) (ep_model (pi_params p1)) e))"
      "x_last (pi_exec p2) = Some (snd (snd (match_failure (fe_quote env) (ep_model (pi_params p1)) e)))"
    using assms(2) p1 keeps by (simp add: routeMatch_def Let_def split_def)
  have "ExecuteWith env inp [] x ws = Some (egress_finish (fe_exec env) p2)"
    by (simp add: ExecuteWith_run assms(1) two)
  moreover have "egress_finish (fe_exec env) p2 = p2"
    using p2 by (simp add: egress_finish_def Let_def)
  ultimately show ?thesis
    using p2 by (cases e) (auto simp: match_failure_def request_error_def blank_fields_def Let_def)
qed

lemma demo_ingress:
  "ingress (demo_flow []) demo_input (start_pipeline demo_input (demo_state 9) []) =
     (start_pipeline demo_input (demo_state 9) [], GoNext)"
  by (simp add: ingress_def await_project_def Let_def demo_flow_def demo_input_def)

lemma demo_match:
  "\<exists>rst. Match ((fe_router (demo_flow [])) \<lparr> re_inflight := l \<rparr>) ctx t r = Some (rst, Inl ErrNoRoutes)"
  if "\<not> mc_websocket ctx"
  by (rule exI)
    (simp add: Match_def Let_def filterRoutes_def useProjectRoutes_def demo_flow_def demo_router_def that)

theorem failed_match_rejects_witness:
  "\<exists>p f. ExecuteWith (demo_flow []) demo_input [] (demo_state 9) [] = Some p \<and>
     x_last (pi_exec p) = Some (ProxyError f (Some ErrNoRoutes_error)) \<and> pf_status f = 503"
proof -
  let ?p = "start_pipeline demo_input (demo_state 9) []"
  have "\<not> mc_websocket (match_context_of (pi_params ?p) (pi_exchange ?p))"
    by (simp add: match_context_of_def)
  from demo_match [OF this] obtain rst where m: "Match
      ((fe_router (demo_flow [])) \<lparr> re_inflight := lm_inflight (x_limiter (pi_exec ?p)) \<rparr>)
      (match_context_of (pi_params ?p) (pi_exchange ?p))
      (ee_clock (fe_exec (demo_flow [])) (x_tick (pi_exec ?p)))
      \<lparr> st_manager = x_manager (pi_exec ?p), st_ws = pi_ws ?p, st_sticky = x_sticky (pi_exec ?p) \<rparr> =
      Some (rst, Inl ErrNoRoutes)" by blast
  obtain p f where "ExecuteWith (demo_flow []) demo_input [] (demo_state 9) [] = Some p"
    "x_last (pi_exec p) = Some (ProxyError f (Some (match_error_value ErrNoRoutes)))"
    "pf_status f = (case ErrNoRoutes of ErrModelNotSupported \<Rightarrow> 400
       | ErrResponsesWebSocketSessionUnavailable \<Rightarrow> 502 | _ \<Rightarrow> 503)"
    using failed_match_rejects [OF demo_ingress m] by (elim exE conjE)
  then show ?thesis by (intro exI [of _ p] exI [of _ f]) (simp add: match_error_value_def)
qed

text \<open>C10: A frame is answered by one provider at most: a WebSocket turn goes to the providers of the
  matched routes in order, to a further one only when the slot of the one before was lost to another
  session (\<open>ErrNoAvailableProviders\<close>) on a connection not yet pinned, and to one provider alone on a
  pinned connection; a turn that succeeds pins the connection to the provider that answered.\<close>

theorem ws_turn_one_provider:
  "\<exists>fs. frames (pi_exec (dispatchResponsesWebSocket env cd wx routes p)) = fs @ frames (pi_exec p) \<and>
     length fs \<le> (if wx_pinned wx = 0 then length routes else 1) \<and>
     map (wc_provider \<circ> fst) (rev fs) = map (pv_id \<circ> mr_provider) (take (length fs) routes) \<and>
     list_all slot_lost (tl fs) \<and>
     (case x_last (pi_exec (dispatchResponsesWebSocket env cd wx routes p)) of
        Some err \<Rightarrow> True
      | None \<Rightarrow> fs \<noteq> [] \<and> snd (hd fs) = None \<and>
          pi_exchange (dispatchResponsesWebSocket env cd wx routes p) =
            Some (wx \<lparr> wx_pinned := wc_provider (fst (hd fs)) \<rparr>))"
proof -
  obtain fs where "turn_frames wx routes p (dispatchResponsesWebSocket env cd wx routes p) fs"
    using ws_dispatch_frames by blast
  then show ?thesis by (intro exI [of _ fs]) (simp add: turn_frames_def split: option.split)
qed

end
