(* ===== verification/Executor_Direct.thy ===== *)
theory Executor_Direct
  imports Flow_Properties
begin

text \<open>
  The entry points that bypass route selection: one recorded attempt, \<^verbatim>\<open>executor/single_attempt.go\<close>; a
  request bound to a provider, \<^verbatim>\<open>executor/provider_proxy.go\<close>; and the row of a request refused
  before any of it, \<open>RecordRejectedProxyRequest\<close> of \<^verbatim>\<open>executor/executor.go\<close>.
\<close>

section \<open>One attempt\<close>


section \<open>A request bound to a provider\<close>

definition MapModelForProviderProxy ::
  "u64 \<Rightarrow> string \<Rightarrow> (route \<times> provider) option \<Rightarrow> string \<Rightarrow> u64 \<Rightarrow> u64 \<Rightarrow> mapping_row list option \<Rightarrow> string" where
  "MapModelForProviderProxy tenantID requestModel rp clientType projectID apiTokenID repo =
     (case (rp, repo) of
        (Some (rt, prov), Some rows) \<Rightarrow>
          mapModel requestModel (ListByQuery tenantID
            (Some (mapping_query_for clientType prov projectID rt apiTokenID)) rows)
      | _ \<Rightarrow> requestModel)"

definition proxy_input_error :: "string \<Rightarrow> go_error" where
  "proxy_input_error message =
     ProxyError (blank_fields \<lparr> pf_message := message, pf_scope := ScopeRequest, pf_status := 500 \<rparr>)
       (Some ErrInvalidInput)"

text \<open>The outer \<open>None\<close> is a panic of the match.\<close>

definition MatchProviderProxyRoute ::
  "('c, 'k, 'g, 'r) router_env \<Rightarrow> u64 \<Rightarrow> u64 \<Rightarrow> string \<Rightarrow> u64 \<Rightarrow> string \<Rightarrow> u64 \<Rightarrow> string \<Rightarrow> go_time \<Rightarrow>
     ('c, 'k) router_state \<Rightarrow> (('c, 'k) router_state \<times> (go_error + 'r matched_route)) option" where
  "MatchProviderProxyRoute renv tenantID providerID clientType projectID requestModel apiTokenID
       sessionID now st =
     (if providerID = 0 \<or> clientType = '''' then
        Some (st, Inl (proxy_input_error ''provider proxy route match input missing''))
      else
        map_option (\<lambda>(st, outcome).
          (st, case outcome of
             Inl e \<Rightarrow> Inl (match_error_value e)
           | Inr result \<Rightarrow>
               (case find (\<lambda>m. pv_id (mr_provider m) = providerID) (ms_routes result) of
                  Some m \<Rightarrow> Inr m
                | None \<Rightarrow> Inl ErrNoAvailableProviders_error)))
          (Match renv
             \<lparr> mc_tenant = tenantID, mc_client = clientType, mc_project = projectID,
               mc_model = requestModel, mc_token = apiTokenID, mc_session = sessionID,
               mc_websocket = False, mc_provider = 0, mc_strict = False \<rparr> now st))"

text \<open>The dispatch on one route.  The bodies and the address come from the context (\<open>inp\<close>), the rest from
  the row.\<close>

definition proxy_params :: "flow_input \<Rightarrow> proxy_request \<Rightarrow> exec_params" where
  "proxy_params inp q =
     \<lparr> ep_tenant = pr_tenant q, ep_client = pr_client q, ep_project = pr_project q,
       ep_session = pr_session q, ep_model = pr_request_model q, ep_stream = pr_stream q,
       ep_token = pr_token q, ep_dev_mode = pr_dev_mode q, ep_body = fi_body inp,
       ep_original_body = (if fi_original_body inp = '''' then fi_body inp else fi_original_body inp),
       ep_agent = Some (header_get (fi_headers inp) ''User-Agent''),
       ep_uri = fi_uri inp, ep_sticky = None \<rparr>"

definition ExecuteProviderProxyMatched ::
  "('c, 'k) exec_env \<Rightarrow> flow_input \<Rightarrow> retry_config matched_route \<Rightarrow> ('c, 'k) exec \<Rightarrow>
     (('c, 'k) exec \<times> go_error option) option" where
  "ExecuteProviderProxyMatched env inp matched x =
     (let q = x_req x;
          matched = (case mr_retry matched of
                       Some rc \<Rightarrow> matched
                     | None \<Rightarrow> matched \<lparr> mr_retry :=
                         Some (getRetryConfig None (ee_default_retry env (pr_tenant q))) \<rparr>);
          ended = ee_ctx env (x_tick x);
          x = ticked x
      in case ended of
           Some ce \<Rightarrow>
             if error_is ce Canceled \<or> error_is ce DeadlineExceeded then Some (x, Some ce)
             else map_option (\<lambda>x. (x, x_last x))
                    (dispatch env (proxy_params inp q) [matched]
                       (x \<lparr> x_current := None, x_last := None \<rparr>))
         | None \<Rightarrow>
             map_option (\<lambda>x. (x, x_last x))
               (dispatch env (proxy_params inp q) [matched]
                  (x \<lparr> x_current := None, x_last := None \<rparr>)))"

text \<open>\<open>retryByID\<close> is the repository of retry configurations, when there is one.\<close>

definition ExecuteProviderProxy ::
  "('c, 'k) exec_env \<Rightarrow> (u64 \<Rightarrow> u64 \<Rightarrow> retry_config option) option \<Rightarrow> flow_input \<Rightarrow> route \<Rightarrow> provider \<Rightarrow>
     adapter \<Rightarrow> ('c, 'k) exec \<Rightarrow> (('c, 'k) exec \<times> go_error option) option" where
  "ExecuteProviderProxy env retryByID inp rt prov ad x =
     (let tenant = pr_tenant (x_req x);
          retryConfig = (case retryByID of
                           Some byID \<Rightarrow> if rt_retry rt \<noteq> 0 then byID tenant (rt_retry rt) else None
                         | None \<Rightarrow> None);
          retryConfig = (case retryConfig of
                           Some rc \<Rightarrow> rc
                         | None \<Rightarrow> getRetryConfig None (ee_default_retry env tenant))
      in ExecuteProviderProxyMatched env inp
           \<lparr> mr_route = rt, mr_provider = prov, mr_adapter = ad, mr_retry = Some retryConfig \<rparr> x)"

section \<open>A request refused at the door\<close>

record api_token =
  at_id :: u64
  at_tenant :: u64
  at_project :: u64
  at_dev_mode :: bool

definition rejected_request ::
  "('c, 'k, 'g) flow_env \<Rightarrow> flow_input \<Rightarrow> api_token option \<Rightarrow> int \<Rightarrow> string \<Rightarrow> go_time \<Rightarrow> proxy_request" where
  "rejected_request env inp tok statusCode errMsg now =
     (let tenant = (case tok of Some k \<Rightarrow> if 0 < at_tenant k then at_tenant k else 1 | None \<Rightarrow> 1);
          tokenID = (case tok of Some k \<Rightarrow> at_id k | None \<Rightarrow> 0);
          devMode = (case tok of Some k \<Rightarrow> at_dev_mode k | None \<Rightarrow> False);
          project = (case tok of
                       Some k \<Rightarrow> if fi_project inp = 0 then at_project k else fi_project inp
                     | None \<Rightarrow> fi_project inp);
          reasoningBody = (if fi_original_body inp = '''' then fi_body inp else fi_original_body inp);
          keep = (\<not> shouldClearFailedRequestDetailFor (ee_settings (fe_exec env)) devMode);
          info = (case fi_http inp of
                    None \<Rightarrow> None
                  | Some (meth, host) \<Rightarrow>
                      (let headers = (case fi_headers inp of None \<Rightarrow> [] | Some h \<Rightarrow> first_values h);
                           headers = (if host \<noteq> '''' then AList.update ''Host'' host headers
                                      else headers)
                       in Some \<lparr> ri_method = meth, ri_url = fi_uri inp, ri_headers = headers,
                                 ri_body = RequestBodySnapshot (fe_request_cap env) (fi_body inp)
                                   (header_get (fi_headers inp) ''Content-Type'') devMode \<rparr>))
      in \<lparr> pr_id = 0, pr_tenant = tenant, pr_session = fi_session inp, pr_client = fi_client inp,
           pr_request_model = fi_model inp, pr_mapped_model = '''', pr_response_model = '''',
           pr_effort = ee_effort (fe_exec env) reasoningBody, pr_start = now, pr_end = now,
           pr_duration = 0, pr_ttft = 0, pr_stream = fi_stream inp,
           pr_protocol = ResolveProxyRequestProtocol (fi_stream inp) (fi_exchange inp \<noteq> None),
           pr_status = ''REJECTED'', pr_status_code = statusCode,
           pr_request_info = (if keep then info else None),
           pr_response_info = (if keep then Some \<lparr> rsp_status = statusCode, rsp_headers = [],
                                                   rsp_body = '''' \<rparr> else None),
           pr_error = errMsg, pr_attempts = 0, pr_final_attempt = 0, pr_route = 0, pr_provider = 0,
           pr_project = project, pr_token = tokenID, pr_dev_mode = devMode,
           pr_cost = \<lparr> q_cost = 0, q_price_id = 0, q_multiplier = 0, q_input = 0, q_output = 0,
                       q_cache_read = 0, q_cache_write = 0, q_cache5m = 0, q_cache1h = 0 \<rparr> \<rparr>)"

definition RecordRejectedProxyRequest ::
  "('c, 'k, 'g) flow_env \<Rightarrow> flow_input \<Rightarrow> api_token option \<Rightarrow> int \<Rightarrow> string \<Rightarrow> ('c, 'k) exec \<Rightarrow> ('c, 'k) exec" where
  "RecordRejectedProxyRequest env inp tok statusCode errMsg x =
     (let q = rejected_request env inp tok statusCode errMsg (ee_clock (fe_exec env) (x_tick x));
          x = ticked x
      in case fe_request_id env (x_tick x) of
           None \<Rightarrow> ticked x
         | Some i \<Rightarrow> emit (RequestCreated (q \<lparr> pr_id := i \<rparr>)) (ticked x))"

section \<open>A single attempt balances its books\<close>





section \<open>A bound request stays with its provider\<close>

lemma attempt_step_provider:
  assumes "attempt_step env st cd plan mr n i x = (x', c)"
  shows "\<exists>new. sent x' = new @ sent x \<and> list_all (\<lambda>s. ac_provider (fst s) = mr_provider mr) new"
  using assms
proof (cases rule: attempt_step_cases)
  case stopped
  then show ?thesis by (intro exI [of _ "[]"]) (simp add: exec_simps)
next
  case (full m cv x1)
  then show ?thesis using ready_keeps(2) [of env st cd plan mr n i x] by (intro exI [of _ "[]"]) simp
next
  case (succeeded m cv x1 x2 r)
  obtain call where "sent x2 = (call, r) # sent x1" "ac_provider call = mr_provider mr"
    using succeeded(2) by (rule try_call_rows)
  then show ?thesis
    using succeeded ready_keeps(2) [of env st cd plan mr n i x]
    by (intro exI [of _ "[(call, r)]"]) (simp add: exec_simps)
next
  case (failed m cv x1 x2 r err)
  obtain call where "sent x2 = (call, r) # sent x1" "ac_provider call = mr_provider mr"
    using failed(2) by (rule try_call_rows)
  then show ?thesis
    using failed(1) ready_keeps(2) [of env st cd plan mr n i x]
      decide_keeps(2) [of env cd "rp_retry plan" mr cv m "rp_smart plan"
        "length (rp_candidates plan)" n i r err "record_failure env st cd mr r err x2"] failed(4)
    by (intro exI [of _ "[(call, r)]"]) (simp add: exec_simps)
qed

lemma dispatch_providers:
  assumes "dispatch env st routes x = Some x'"
  shows "\<exists>new. sent x' = new @ sent x \<and>
    list_all (\<lambda>s. ac_provider (fst s) \<in> mr_provider ` set routes) new"
proof (rule dispatch_invariant [where I = "\<lambda>y. \<exists>new. sent y = new @ sent x \<and>
      list_all (\<lambda>s. ac_provider (fst s) \<in> mr_provider ` set routes) new", OF assms])
  fix cd plan mr n i y y' c
  assume mr: "mr \<in> set routes" and step: "attempt_step env st cd plan mr n i y = (y', c)"
    and "\<exists>new. sent y = new @ sent x \<and> list_all (\<lambda>s. ac_provider (fst s) \<in> mr_provider ` set routes) new"
  then obtain old where old: "sent y = old @ sent x"
    "list_all (\<lambda>s. ac_provider (fst s) \<in> mr_provider ` set routes) old" by blast
  from attempt_step_provider [OF step] obtain new where
    "sent y' = new @ sent y" "list_all (\<lambda>s. ac_provider (fst s) = mr_provider mr) new" by blast
  then show "\<exists>new. sent y' = new @ sent x \<and>
      list_all (\<lambda>s. ac_provider (fst s) \<in> mr_provider ` set routes) new"
    using old mr by (intro exI [of _ "new @ old"]) (auto simp: list_all_iff)
qed (auto simp: exec_simps)

lemma find_pred: "find P xs = Some y \<Longrightarrow> P y"
  by (induction xs) (auto split: if_splits)

text \<open>C11: A request bound to a provider never reaches another one: if a route is found for it, every call
  its execution makes goes to the provider asked for; and there is no retry that splices responses.\<close>

theorem provider_proxy_stays:
  assumes "MatchProviderProxyRoute renv tid pid cl proj model tok sess now rst = Some (rst', Inr m)"
    and "ExecuteProviderProxyMatched env inp m x = Some (x', eo)"
  shows "\<exists>new. sent x' = new @ sent x \<and> list_all failover_allowed (tl new) \<and>
    list_all (\<lambda>s. ac_provider (fst s) = mr_provider m \<and> pv_id (ac_provider (fst s)) = pid) new"
proof -
  have pid: "pv_id (mr_provider m) = pid"
  proof -
    obtain outcome :: "match_error + retry_config match_result" where "(case outcome of
        Inl e \<Rightarrow> Inl (match_error_value e)
      | Inr result \<Rightarrow> (case find (\<lambda>m. pv_id (mr_provider m) = pid) (ms_routes result) of
          Some m \<Rightarrow> Inr m | None \<Rightarrow> Inl ErrNoAvailableProviders_error)) = Inr m"
      using assms(1) by (auto simp: MatchProviderProxyRoute_def split: if_splits)
    then show ?thesis by (cases outcome) (auto dest: find_pred split: option.splits)
  qed
  consider "x' = ticked x"
    | mr st y where "dispatch env st [mr] y = Some x'" "mr_provider mr = mr_provider m" "x_log y = x_log x"
    using assms(2) by (fastforce simp: ExecuteProviderProxyMatched_def Let_def split: option.splits if_splits)
  then show ?thesis
  proof cases
    case 1
    then show ?thesis by (intro exI [of _ "[]"]) simp
  next
    case 2
    obtain new where "sent x' = new @ sent y" "list_all (\<lambda>s. ac_provider (fst s) = mr_provider m) new"
      using dispatch_providers [OF 2(1)] 2(2) by auto
    moreover obtain new' where "sent x' = new' @ sent y" "list_all failover_allowed (tl new')"
      using dispatch_failover [OF 2(1)] by blast
    ultimately show ?thesis using 2(3) pid by (intro exI [of _ new]) (simp add: list_all_iff)
  qed
qed

lemma bound_eligible:
  "filterRoutes (demo_router [mk_route 1 10 2 3]) ctx = [mk_route 1 10 2 3]"
  "eligible (demo_router [mk_route 1 10 2 3]) ctx 0 sample_state (mk_route 1 10 2 3)"
  "pv_id (mr_provider (matched_of (demo_router [mk_route 1 10 2 3]) ctx (mk_route 1 10 2 3))) = 10"
  if "ctx = \<lparr> mc_tenant = 1, mc_client = ClientTypeClaude, mc_project = 0, mc_model = ''m'',
    mc_token = 5, mc_session = ''s'', mc_websocket = False, mc_provider = 0, mc_strict = False \<rparr>"
  unfolding that
  by (simp_all add: filterRoutes_def useProjectRoutes_def route_in_def eligible_def demo_router_def
      sample_env_def mk_route_def IsAtLimit_def inflight_of_def lookup_default_def frozen_view_def
      IsInCooldown_def syncProviderGeneration_def sample_state_def NewManager_def in_cooldown_iff
      frozen_at_def strict_reject_def matched_of_def Let_def)

lemma bound_match:
  "\<exists>rst m. MatchProviderProxyRoute (demo_router [mk_route 1 10 2 3]) 1 10 ClientTypeClaude 0 ''m'' 5 ''s'' 0
     sample_state = Some (rst, Inr m)"
proof -
  let ?env = "demo_router [mk_route 1 10 2 3]"
  let ?ctx = "\<lparr> mc_tenant = 1, mc_client = ClientTypeClaude, mc_project = 0, mc_model = ''m'',
    mc_token = 5, mc_session = ''s'', mc_websocket = False, mc_provider = 0, mc_strict = False \<rparr>"
  have ok: "env_ok ?env"
    by (simp add: env_ok_def demo_router_def sorts_by_sort_key intn_ok_def memory_lists_own
        norm_weight_def mk_route_def)
  obtain rst res where m: "Match ?env ?ctx 0 sample_state = Some (rst, res)"
    and res: "case res of
       Inl e \<Rightarrow> filter (eligible ?env ?ctx 0 sample_state) (filterRoutes ?env ?ctx) = []
     | Inr r \<Rightarrow> mset (ms_routes r) = image_mset (matched_of ?env ?ctx)
         (mset (filter (eligible ?env ?ctx 0 sample_state) (filterRoutes ?env ?ctx))) \<and> ms_routes r \<noteq> []"
    using match_outcome [OF ok, of ?ctx 0 sample_state] by blast
  obtain r where r: "res = Inr r" "ms_routes r = [matched_of ?env ?ctx (mk_route 1 10 2 3)]"
    using res by (cases res) (auto simp: bound_eligible)
  show ?thesis
    using m r bound_eligible(3) [OF refl]
    by (simp add: MatchProviderProxyRoute_def ClientTypeClaude_def)
qed

theorem provider_proxy_stays_witness:
  "\<exists>rst m x' eo. MatchProviderProxyRoute (demo_router [mk_route 1 10 2 3]) 1 10 ClientTypeClaude 0 ''m'' 5
       ''s'' 0 sample_state = Some (rst, Inr m) \<and>
     ExecuteProviderProxyMatched closing_env demo_input m (demo_state 9) = Some (x', eo) \<and>
     list_all (\<lambda>s. pv_id (ac_provider (fst s)) = 10) (sent x')"
proof -
  obtain rst m where m: "MatchProviderProxyRoute (demo_router [mk_route 1 10 2 3]) 1 10 ClientTypeClaude 0
      ''m'' 5 ''s'' 0 sample_state = Some (rst, Inr m)" using bound_match by blast
  have "\<exists>y. dispatch closing_env st [mr] z = Some y" for st mr and z :: "(memory_store, sticky_memory) exec"
    using demo_flow_done by (intro dispatch_returns) (simp add: demo_flow_def)
  then obtain x' eo where x: "ExecuteProviderProxyMatched closing_env demo_input m (demo_state 9) = Some (x', eo)"
    by (fastforce simp: ExecuteProviderProxyMatched_def Let_def split: option.split)
  from provider_proxy_stays [OF m x] show ?thesis using m x by (auto simp: list_all_iff)
qed

end
