(* ===== verification/Go_Json.thy ===== *)
theory Go_Json
  imports Complex_Main Prelude
begin

text \<open>
  Values of Go's \<^verbatim>\<open>interface{}\<close> as the sources build and read them: decoded JSON, whose numbers are
  \<open>float64\<close> (here rationals), and literals in the code, whose integers are \<open>int\<close>.
\<close>

datatype json =
    JNull
  | JBool bool
  | JInt int
  | JFloat rat
  | JStr string
  | JArr "json list"
  | JObj "(string \<times> json) list"

type_synonym json_map = "(string \<times> json) list"

text \<open>\<open>m[key].(string)\<close> and its like; \<open>None\<close> when the key is missing or holds something else.\<close>

definition get_string :: "json_map \<Rightarrow> string \<Rightarrow> string option" where
  "get_string m key = (case map_of m key of Some (JStr s) \<Rightarrow> Some s | _ \<Rightarrow> None)"

definition get_obj :: "json_map \<Rightarrow> string \<Rightarrow> json_map option" where
  "get_obj m key = (case map_of m key of Some (JObj ob) \<Rightarrow> Some ob | _ \<Rightarrow> None)"

definition string_or :: "string \<Rightarrow> json_map \<Rightarrow> string \<Rightarrow> string" where
  "string_or d m key = (case get_string m key of Some s \<Rightarrow> s | None \<Rightarrow> d)"

text \<open>Conversion of a \<open>float64\<close> to \<open>int\<close> drops the fraction.\<close>

definition to_int :: "rat \<Rightarrow> int" where
  "to_int r = (if 0 \<le> r then \<lfloor>r\<rfloor> else \<lceil>r\<rceil>)"

end
