(* ===== verification/Kiro_Sse.thy ===== *)
theory Kiro_Sse
  imports Go_Json
begin

text \<open>
  The guard on the event stream of a Kiro provider, \<^verbatim>\<open>adapter/provider/kiro/sse_state_manager.go\<close>: it lets
  a sequence of events out only in an order a Claude client accepts.
\<close>

section \<open>State\<close>

record block_state =
  bs_index :: int
  bs_type :: string
  bs_started :: bool
  bs_stopped :: bool
  bs_tool :: string

text \<open>\<open>sm_out\<close> holds the events that reached the writer, newest first; \<open>sm_writes\<close> counts the calls of the
  writer, of which the \<open>n\<close>-th fails when \<open>fails n\<close>.\<close>

record sse_manager =
  sm_started :: bool
  sm_delta_sent :: bool
  sm_blocks :: "(int \<times> block_state) list"
  sm_ended :: bool
  sm_next :: int
  sm_strict :: bool
  sm_out :: "json_map list"
  sm_writes :: nat

datatype sse_error = Violation string | WriteFailed string | ReadFailed

definition NewSSEStateManager :: "bool \<Rightarrow> sse_manager" where
  "NewSSEStateManager strict =
     \<lparr> sm_started = False, sm_delta_sent = False, sm_blocks = [], sm_ended = False, sm_next = 0,
       sm_strict = strict, sm_out = [], sm_writes = 0 \<rparr>"

definition sse_Reset :: "sse_manager \<Rightarrow> sse_manager" where
  "sse_Reset m = m \<lparr> sm_started := False, sm_delta_sent := False, sm_ended := False, sm_blocks := [],
                      sm_next := 0 \<rparr>"

definition open_block :: "block_state \<Rightarrow> bool" where
  "open_block b \<longleftrightarrow> bs_started b \<and> \<not> bs_stopped b"

definition stop_block :: "int \<Rightarrow> sse_manager \<Rightarrow> sse_manager" where
  "stop_block i m =
     (case map_of (sm_blocks m) i of
        None \<Rightarrow> m
      | Some b \<Rightarrow> m \<lparr> sm_blocks := AList.update i (b \<lparr> bs_stopped := True \<rparr>) (sm_blocks m) \<rparr>)"

section \<open>Handlers\<close>

text \<open>Every operation may be the place where the writer fails; \<open>ord\<close> is the order in which the run-time
  visits the keys of a map.\<close>

definition writeEvent ::
  "(nat \<Rightarrow> bool) \<Rightarrow> json_map \<Rightarrow> sse_manager \<Rightarrow> sse_manager \<times> sse_error option" where
  "writeEvent fails ev m =
     (if fails (sm_writes m)
      then (m \<lparr> sm_writes := Suc (sm_writes m) \<rparr>, Some (WriteFailed (string_or '''' ev ''type'')))
      else (m \<lparr> sm_writes := Suc (sm_writes m), sm_out := ev # sm_out m \<rparr>, None))"

definition extractIndex :: "json_map \<Rightarrow> int" where
  "extractIndex ev =
     (case map_of ev ''index'' of
        Some (JInt i) \<Rightarrow> i
      | Some (JFloat f) \<Rightarrow> to_int f
      | _ \<Rightarrow> - 1)"

definition stop_event :: "int \<Rightarrow> json_map" where
  "stop_event i = [(''type'', JStr ''content_block_stop''), (''index'', JInt i)]"

text \<open>A violation is an error in strict mode, otherwise the event is dropped.\<close>

definition violation ::
  "string \<Rightarrow> sse_manager \<Rightarrow> sse_manager \<times> sse_error option" where
  "violation msg m = (m, if sm_strict m then Some (Violation msg) else None)"

definition handleMessageStart ::
  "(nat \<Rightarrow> bool) \<Rightarrow> json_map \<Rightarrow> sse_manager \<Rightarrow> sse_manager \<times> sse_error option" where
  "handleMessageStart fails ev m =
     (if sm_started m then violation ''message_start'' m
      else writeEvent fails ev (m \<lparr> sm_started := True \<rparr>))"

text \<open>Before a tool block starts, text blocks still open are closed.\<close>

definition close_text_block :: "(nat \<Rightarrow> bool) \<Rightarrow> int \<Rightarrow> sse_manager \<Rightarrow> sse_manager" where
  "close_text_block fails i m =
     (case map_of (sm_blocks m) i of
        None \<Rightarrow> m
      | Some b \<Rightarrow>
          if bs_type b = ''text'' \<and> open_block b then
            (case writeEvent fails (stop_event i) m of
               (m, None) \<Rightarrow> stop_block i m
             | (m, Some e) \<Rightarrow> m)
          else m)"

definition content_block :: "json_map \<Rightarrow> json_map" where
  "content_block ev = (case get_obj ev ''content_block'' of Some cb \<Rightarrow> cb | None \<Rightarrow> [])"

definition handleContentBlockStart ::
  "(int list \<Rightarrow> int list) \<Rightarrow> (nat \<Rightarrow> bool) \<Rightarrow> json_map \<Rightarrow> sse_manager \<Rightarrow>
     sse_manager \<times> sse_error option" where
  "handleContentBlockStart ord fails ev m =
     (if \<not> sm_started m \<and> sm_strict m then violation ''content_block_start'' m
      else if sm_ended m then violation ''content_block_start'' m
      else
        (let index = extractIndex ev;
             index = (if index < 0 then sm_next m else index)
         in if (case map_of (sm_blocks m) index of Some b \<Rightarrow> open_block b | None \<Rightarrow> False)
            then violation ''content_block_start'' m
            else
              (let blockType = string_or ''text'' (content_block ev) ''type'';
                   m = (if blockType = ''tool_use''
                        then fold (close_text_block fails) (ord (map fst (sm_blocks m))) m else m);
                   toolUseID = (if blockType = ''tool_use''
                                then string_or '''' (content_block ev) ''id'' else '''');
                   b = \<lparr> bs_index = index, bs_type = blockType, bs_started = True, bs_stopped = False,
                         bs_tool = toolUseID \<rparr>;
                   m = m \<lparr> sm_blocks := AList.update index b (sm_blocks m),
                           sm_next := (if sm_next m \<le> index then wrap_i64 (index + 1)
                                       else sm_next m) \<rparr>
               in writeEvent fails ev m)))"

definition auto_start_event :: "int \<Rightarrow> string \<Rightarrow> (int \<Rightarrow> string) \<Rightarrow> json_map" where
  "auto_start_event index blockType decimal =
     [(''type'', JStr ''content_block_start''), (''index'', JInt index),
      (''content_block'', JObj ((''type'', JStr blockType) #
         (if blockType = ''tool_use'' then
            [(''id'', JStr (''tooluse_auto_'' @ decimal index)), (''name'', JStr ''auto_detected''),
             (''input'', JObj [])]
          else [(''text'', JStr '''')])))]"

text \<open>A delta for a block that was never started starts it first.  \<open>decimal\<close> prints an integer.\<close>

definition delta_block_type :: "json_map \<Rightarrow> string" where
  "delta_block_type ev =
     (case get_obj ev ''delta'' of
        Some d \<Rightarrow> if get_string d ''type'' = Some ''input_json_delta'' then ''tool_use'' else ''text''
      | None \<Rightarrow> ''text'')"

definition handleContentBlockDelta ::
  "(int \<Rightarrow> string) \<Rightarrow> (int list \<Rightarrow> int list) \<Rightarrow> (nat \<Rightarrow> bool) \<Rightarrow> json_map \<Rightarrow> sse_manager \<Rightarrow>
     sse_manager \<times> sse_error option" where
  "handleContentBlockDelta decimal ord fails ev m =
     (let index = extractIndex ev
      in if index < 0 then violation ''content_block_delta'' m
         else
           (let (m, err) =
              (case map_of (sm_blocks m) index of
                 Some b \<Rightarrow>
                   if bs_started b then (m, None)
                   else handleContentBlockStart ord fails
                          (auto_start_event index (delta_block_type ev) decimal) m
               | None \<Rightarrow> handleContentBlockStart ord fails
                          (auto_start_event index (delta_block_type ev) decimal) m)
            in case err of
                 Some e \<Rightarrow> (m, Some e)
               | None \<Rightarrow>
                   if (case map_of (sm_blocks m) index of Some b \<Rightarrow> bs_stopped b | None \<Rightarrow> False)
                   then violation ''content_block_delta'' m
                   else writeEvent fails ev m))"

definition handleContentBlockStop ::
  "(nat \<Rightarrow> bool) \<Rightarrow> json_map \<Rightarrow> sse_manager \<Rightarrow> sse_manager \<times> sse_error option" where
  "handleContentBlockStop fails ev m =
     (let index = extractIndex ev
      in if index < 0 then violation ''content_block_stop'' m
         else
           (case map_of (sm_blocks m) index of
              None \<Rightarrow> violation ''content_block_stop'' m
            | Some b \<Rightarrow>
                if \<not> bs_started b \<or> bs_stopped b then violation ''content_block_stop'' m
                else writeEvent fails ev (stop_block index m)))"

definition close_block :: "(nat \<Rightarrow> bool) \<Rightarrow> int \<Rightarrow> sse_manager \<Rightarrow> sse_manager" where
  "close_block fails i m = stop_block i (fst (writeEvent fails (stop_event i) m))"

definition open_indices :: "sse_manager \<Rightarrow> int list" where
  "open_indices m = map fst (filter (open_block \<circ> snd) (sm_blocks m))"

definition handleMessageDelta ::
  "(int list \<Rightarrow> int list) \<Rightarrow> (nat \<Rightarrow> bool) \<Rightarrow> json_map \<Rightarrow> sse_manager \<Rightarrow>
     sse_manager \<times> sse_error option" where
  "handleMessageDelta ord fails ev m =
     (if \<not> sm_started m \<and> sm_strict m then violation ''message_delta'' m
      else if sm_delta_sent m then violation ''message_delta'' m
      else
        (let m = (if sm_strict m then m else fold (close_block fails) (ord (open_indices m)) m)
         in writeEvent fails ev (m \<lparr> sm_delta_sent := True \<rparr>)))"

definition handleMessageStop ::
  "(nat \<Rightarrow> bool) \<Rightarrow> json_map \<Rightarrow> sse_manager \<Rightarrow> sse_manager \<times> sse_error option" where
  "handleMessageStop fails ev m =
     (if \<not> sm_started m \<and> sm_strict m then violation ''message_stop'' m
      else if sm_ended m then violation ''message_stop'' m
      else writeEvent fails ev (m \<lparr> sm_ended := True \<rparr>))"

definition SendEvent ::
  "(int \<Rightarrow> string) \<Rightarrow> (int list \<Rightarrow> int list) \<Rightarrow> (nat \<Rightarrow> bool) \<Rightarrow> json_map \<Rightarrow> sse_manager \<Rightarrow>
     sse_manager \<times> sse_error option" where
  "SendEvent decimal ord fails ev m =
     (case get_string ev ''type'' of
        None \<Rightarrow> (m, Some (Violation ''type''))
      | Some t \<Rightarrow>
          if t = ''message_start'' then handleMessageStart fails ev m
          else if t = ''content_block_start'' then handleContentBlockStart ord fails ev m
          else if t = ''content_block_delta'' then handleContentBlockDelta decimal ord fails ev m
          else if t = ''content_block_stop'' then handleContentBlockStop fails ev m
          else if t = ''message_delta'' then handleMessageDelta ord fails ev m
          else if t = ''message_stop'' then handleMessageStop fails ev m
          else writeEvent fails ev m)"

section \<open>Queries\<close>

definition completed_tool :: "block_state \<Rightarrow> bool" where
  "completed_tool b \<longleftrightarrow> bs_type b = ''tool_use'' \<and> bs_tool b \<noteq> '''' \<and> bs_stopped b"

definition GetCompletedToolUseIDs :: "sse_manager \<Rightarrow> string list" where
  "GetCompletedToolUseIDs m = map (bs_tool \<circ> snd) (filter (completed_tool \<circ> snd) (sm_blocks m))"

definition HasToolUseBlocks :: "sse_manager \<Rightarrow> bool" where
  "HasToolUseBlocks m \<longleftrightarrow> (\<exists>p \<in> set (sm_blocks m). bs_type (snd p) = ''tool_use'')"

text \<open>Every open block gets a stop; the ones whose stop could not be written stay open and are reported.\<close>

definition close_active ::
  "(nat \<Rightarrow> bool) \<Rightarrow> int \<Rightarrow> sse_manager \<times> int list \<Rightarrow> sse_manager \<times> int list" where
  "close_active fails i s =
     (case s of (m, errs) \<Rightarrow>
        (case writeEvent fails (stop_event i) m of
           (m, None) \<Rightarrow> (stop_block i m, errs)
         | (m, Some e) \<Rightarrow> (m, errs @ [i])))"

definition CloseAllActiveBlocks ::
  "(int list \<Rightarrow> int list) \<Rightarrow> (nat \<Rightarrow> bool) \<Rightarrow> sse_manager \<Rightarrow> sse_manager \<times> int list" where
  "CloseAllActiveBlocks ord fails m =
     fold (close_active fails) (ord (open_indices m)) (m, [])"

section \<open>What a client accepts\<close>

text \<open>The order of events the protocol wants, as the head of \<^verbatim>\<open>sse_state_manager.go\<close> states it: one message
  start, first; a block starts, gets deltas, stops, and may start again only then; then the message
  delta, once, with every block stopped, after which no block starts, gets a delta or stops; then the
  message stop, once.  Other events (pings, errors) are not part of the order.\<close>

record client_view =
  cv_begun :: bool
  cv_open :: "int set"
  cv_delta :: bool
  cv_done :: bool

definition client_step :: "json_map \<Rightarrow> client_view \<Rightarrow> client_view option" where
  "client_step ev v =
     (let t = string_or '''' ev ''type''; i = extractIndex ev
      in if t = ''message_start'' then
           (if cv_begun v then None else Some (v \<lparr> cv_begun := True \<rparr>))
         else if \<not> cv_begun v then None
         else if t = ''content_block_start'' then
           (if cv_delta v \<or> i \<in> cv_open v then None else Some (v \<lparr> cv_open := insert i (cv_open v) \<rparr>))
         else if t = ''content_block_delta'' then
           (if i \<in> cv_open v \<and> \<not> cv_delta v then Some v else None)
         else if t = ''content_block_stop'' then
           (if i \<in> cv_open v \<and> \<not> cv_delta v
            then Some (v \<lparr> cv_open := cv_open v - {i} \<rparr>) else None)
         else if t = ''message_delta'' then
           (if cv_delta v \<or> cv_open v \<noteq> {} then None else Some (v \<lparr> cv_delta := True \<rparr>))
         else if t = ''message_stop'' then
           (if cv_done v \<or> \<not> cv_delta v then None else Some (v \<lparr> cv_done := True \<rparr>))
         else Some v)"

text \<open>Events newest first, as in \<open>sm_out\<close>.\<close>

primrec client_view_of :: "json_map list \<Rightarrow> client_view option" where
  "client_view_of [] = Some \<lparr> cv_begun = False, cv_open = {}, cv_delta = False, cv_done = False \<rparr>"
| "client_view_of (ev # evs) = Option.bind (client_view_of evs) (client_step ev)"

text \<open>The manager knows what the client has seen.\<close>

definition open_set :: "sse_manager \<Rightarrow> int set" where
  "open_set m = {i. \<exists>b. map_of (sm_blocks m) i = Some b \<and> open_block b}"

definition all_started :: "sse_manager \<Rightarrow> bool" where
  "all_started m \<longleftrightarrow> (\<forall>i b. map_of (sm_blocks m) i = Some b \<longrightarrow> bs_started b)"

definition in_step :: "sse_manager \<Rightarrow> bool" where
  "in_step m \<longleftrightarrow> wf_map (sm_blocks m) \<and> all_started m \<and> \<not> sm_strict m \<and> (\<forall>i \<in> open_set m. 0 \<le> i) \<and>
     (sm_delta_sent m \<longrightarrow> open_set m = {}) \<and> (sm_ended m \<longrightarrow> sm_delta_sent m) \<and>
     client_view_of (sm_out m) =
       Some \<lparr> cv_begun = sm_started m, cv_open = open_set m, cv_delta = sm_delta_sent m,
              cv_done = sm_ended m \<rparr>"

lemma in_stepD:
  "in_step m \<Longrightarrow> wf_map (sm_blocks m) \<and> all_started m \<and> \<not> sm_strict m"
  by (simp add: in_step_def)

lemma in_step_flags:
  "in_step m \<Longrightarrow> sm_ended m \<Longrightarrow> sm_delta_sent m"
  "in_step m \<Longrightarrow> i \<in> open_set m \<Longrightarrow> \<not> sm_delta_sent m \<and> \<not> sm_ended m"
  by (auto simp: in_step_def)

lemma open_set_iff: "i \<in> open_set m \<longleftrightarrow> (\<exists>b. map_of (sm_blocks m) i = Some b \<and> open_block b)"
  by (simp add: open_set_def)

lemma open_set_indices: "wf_map (sm_blocks m) \<Longrightarrow> set (open_indices m) = open_set m"
  by (force simp: open_indices_def open_set_def)

lemma new_in_step: "in_step (NewSSEStateManager False)"
  by (simp add: in_step_def NewSSEStateManager_def open_set_def all_started_def)

subsection \<open>Pieces\<close>

lemma stop_block_open [simp]: "open_set (stop_block i m) = open_set m - {i}"
  by (auto simp: stop_block_def open_set_def open_block_def map_of_update split: option.split if_splits)

lemma stop_block_sel [simp]:
  "sm_started (stop_block i m) = sm_started m" "sm_delta_sent (stop_block i m) = sm_delta_sent m"
  "sm_ended (stop_block i m) = sm_ended m" "sm_strict (stop_block i m) = sm_strict m"
  "sm_next (stop_block i m) = sm_next m" "sm_out (stop_block i m) = sm_out m" "sm_writes (stop_block i m) = sm_writes m"
  by (simp_all add: stop_block_def split: option.split)

lemma stop_block_wf [simp]: "wf_map (sm_blocks m) \<Longrightarrow> wf_map (sm_blocks (stop_block i m))"
  by (simp add: stop_block_def wf_intros split: option.split)

lemma stop_block_started [simp]: "all_started m \<Longrightarrow> all_started (stop_block i m)"
  by (auto simp: stop_block_def all_started_def map_of_update split: option.split if_splits)

lemma stop_event_sel [simp]:
  "string_or '''' (stop_event i) ''type'' = ''content_block_stop''" "extractIndex (stop_event i) = i"
  by (simp_all add: stop_event_def string_or_def get_string_def extractIndex_def)

lemma write_ok: "\<not> fails (sm_writes m) \<Longrightarrow> writeEvent fails ev m =
    (m \<lparr> sm_writes := Suc (sm_writes m), sm_out := ev # sm_out m \<rparr>, None)"
  by (simp add: writeEvent_def)

lemma write_stop:
  assumes "in_step m" and "i \<in> open_set m" and "sm_started m" and "\<forall>n. \<not> fails n"
  shows "in_step (stop_block i (fst (writeEvent fails (stop_event i) m)))"
proof -
  have [simp]: "open_set (m \<lparr> sm_writes := a, sm_out := b \<rparr>) = open_set m"
    "all_started (m \<lparr> sm_writes := a, sm_out := b \<rparr>) = all_started m" for a b
    by (simp_all add: open_set_def all_started_def)
  show ?thesis
    using assms in_step_flags(2) [OF assms(1,2)]
    by (simp add: in_step_def write_ok client_step_def Let_def)
qed

subsection \<open>Handlers\<close>

text \<open>The writer never fails and the run-time visits every key of a map once.\<close>

definition visits_all :: "(int list \<Rightarrow> int list) \<Rightarrow> bool" where
  "visits_all ord \<longleftrightarrow> (\<forall>xs. mset (ord xs) = mset xs)"

lemma visits_all_set: "visits_all ord \<Longrightarrow> set (ord xs) = set xs"
  unfolding visits_all_def by (metis set_mset_mset)

lemma visits_all_distinct: "visits_all ord \<Longrightarrow> distinct xs \<Longrightarrow> distinct (ord xs)"
  unfolding visits_all_def by (metis mset_eq_imp_distinct_iff)

lemma in_step_upd:
  "open_set (m \<lparr> sm_writes := a \<rparr>) = open_set m" "open_set (m \<lparr> sm_out := b \<rparr>) = open_set m"
  "open_set (m \<lparr> sm_started := c \<rparr>) = open_set m" "open_set (m \<lparr> sm_ended := c \<rparr>) = open_set m"
  "open_set (m \<lparr> sm_delta_sent := c \<rparr>) = open_set m" "open_set (m \<lparr> sm_next := d \<rparr>) = open_set m"
  "all_started (m \<lparr> sm_writes := a \<rparr>) = all_started m" "all_started (m \<lparr> sm_out := b \<rparr>) = all_started m"
  "all_started (m \<lparr> sm_started := c \<rparr>) = all_started m" "all_started (m \<lparr> sm_ended := c \<rparr>) = all_started m"
  "all_started (m \<lparr> sm_delta_sent := c \<rparr>) = all_started m" "all_started (m \<lparr> sm_next := d \<rparr>) = all_started m"
  by (simp_all add: open_set_def all_started_def)

lemma in_step_start:
  assumes "in_step m" and "\<not> sm_started m" and "\<forall>n. \<not> fails n" and "get_string ev ''type'' = Some ''message_start''"
  shows "in_step (fst (handleMessageStart fails ev m))" and "sm_started (fst (handleMessageStart fails ev m))"
  using assms
  by (simp_all add: handleMessageStart_def in_step_def write_ok client_step_def string_or_def in_step_upd)

lemma close_text_step:
  assumes "in_step m" and "sm_started m" and "\<forall>n. \<not> fails n"
  shows "in_step (close_text_block fails i m) \<and> sm_started (close_text_block fails i m) \<and>
    sm_ended (close_text_block fails i m) = sm_ended m \<and>
    sm_delta_sent (close_text_block fails i m) = sm_delta_sent m \<and>
    open_set (close_text_block fails i m) \<subseteq> open_set m"
proof (cases "\<exists>b. map_of (sm_blocks m) i = Some b \<and> bs_type b = ''text'' \<and> open_block b")
  case True
  then obtain b where b: "map_of (sm_blocks m) i = Some b" "bs_type b = ''text''" "open_block b" by blast
  then have "i \<in> open_set m" by (auto simp: open_set_def)
  note stopped = write_stop [OF assms(1) this assms(2,3)]
  have "close_text_block fails i m = stop_block i (fst (writeEvent fails (stop_event i) m))"
    using b assms(3) by (simp add: close_text_block_def write_ok)
  moreover have "\<not> fails (sm_writes m)" using assms(3) by simp
  ultimately show ?thesis using stopped assms(2) by (simp add: write_ok in_step_upd)
next
  case False
  then have "close_text_block fails i m = m" by (auto simp: close_text_block_def split: option.split)
  then show ?thesis using assms by simp
qed

lemma close_texts_step:
  assumes "in_step m" and "sm_started m" and "\<forall>n. \<not> fails n"
  shows "in_step (fold (close_text_block fails) is m) \<and> sm_started (fold (close_text_block fails) is m) \<and>
    sm_ended (fold (close_text_block fails) is m) = sm_ended m \<and>
    sm_delta_sent (fold (close_text_block fails) is m) = sm_delta_sent m \<and>
    open_set (fold (close_text_block fails) is m) \<subseteq> open_set m"
  using assms
proof (induction "is" arbitrary: m)
  case (Cons i "is")
  note c = close_text_step [OF Cons.prems, of i]
  from Cons.IH [OF _ _ Cons.prems(3), of "close_text_block fails i m"] c show ?case by auto
qed simp

lemma close_blocks_step:
  assumes "in_step m" and "sm_started m" and "\<forall>n. \<not> fails n" and "distinct is" and "set is \<subseteq> open_set m"
  shows "in_step (fold (close_block fails) is m) \<and> sm_started (fold (close_block fails) is m) \<and>
    sm_delta_sent (fold (close_block fails) is m) = sm_delta_sent m \<and>
    open_set (fold (close_block fails) is m) = open_set m - set is"
  using assms
proof (induction "is" arbitrary: m)
  case (Cons i "is")
  let ?m = "close_block fails i m"
  have m: "in_step ?m" unfolding close_block_def by (rule write_stop) (use Cons.prems in auto)
  have sel: "sm_started ?m" "sm_delta_sent ?m = sm_delta_sent m" "open_set ?m = open_set m - {i}"
    using Cons.prems by (simp_all add: close_block_def write_ok in_step_upd)
  then have "set is \<subseteq> open_set ?m" using Cons.prems by auto
  with Cons.IH [OF m sel(1) Cons.prems(3)] Cons.prems(4) sel show ?case by auto
qed simp

text \<open>Between the events of the stream the message delta is out exactly when the message is ended.\<close>

definition settled_guard :: "sse_manager \<Rightarrow> bool" where
  "settled_guard m \<longleftrightarrow> in_step m \<and> sm_started m \<and> sm_delta_sent m = sm_ended m"

text \<open>A step that leaves the two flags alone.\<close>

definition keeps_flags :: "sse_manager \<Rightarrow> sse_manager \<Rightarrow> bool" where
  "keeps_flags m m' \<longleftrightarrow> sm_delta_sent m' = sm_delta_sent m \<and> sm_ended m' = sm_ended m"

text \<open>A violation changes nothing.\<close>

lemma violation_fst [simp]: "fst (violation msg m) = m"
  by (simp add: violation_def)

lemma handleContentBlockStart_step:
  assumes "in_step m" and "sm_started m" and "\<forall>n. \<not> fails n"
    and "get_string ev ''type'' = Some ''content_block_start''" and "0 \<le> extractIndex ev"
    and "sm_delta_sent m = sm_ended m"
  shows "in_step (fst (handleContentBlockStart ord fails ev m)) \<and>
    sm_started (fst (handleContentBlockStart ord fails ev m)) \<and>
    keeps_flags m (fst (handleContentBlockStart ord fails ev m)) \<and>
    (\<not> sm_ended m \<longrightarrow> extractIndex ev \<in> open_set (fst (handleContentBlockStart ord fails ev m)))"
proof -
  let ?i = "extractIndex ev"
  consider (ended) "sm_ended m" | (dup) "\<not> sm_ended m" "?i \<in> open_set m"
    | (start) "\<not> sm_ended m" "?i \<notin> open_set m" by blast
  then show ?thesis
  proof cases
    case ended
    then show ?thesis using assms by (simp add: handleContentBlockStart_def keeps_flags_def)
  next
    case dup
    then obtain b where "map_of (sm_blocks m) ?i = Some b" "open_block b" by (auto simp: open_set_def)
    then show ?thesis
      using assms dup by (simp add: handleContentBlockStart_def Let_def keeps_flags_def)
  next
    case start
    define m1 where "m1 = (if string_or ''text'' (content_block ev) ''type'' = ''tool_use''
      then fold (close_text_block fails) (ord (map fst (sm_blocks m))) m else m)"
    have m1: "in_step m1" "sm_started m1" "sm_ended m1 = sm_ended m" "open_set m1 \<subseteq> open_set m"
      "sm_delta_sent m1 = sm_delta_sent m"
      using close_texts_step [OF assms(1-3)] assms(1,2) by (auto simp: m1_def)
    obtain b n where b: "open_block b" and run: "handleContentBlockStart ord fails ev m =
        writeEvent fails ev (m1 \<lparr> sm_blocks := AList.update ?i b (sm_blocks m1), sm_next := n \<rparr>)"
    proof
      show "open_block \<lparr> bs_index = ?i, bs_type = string_or ''text'' (content_block ev) ''type'',
          bs_started = True, bs_stopped = False,
          bs_tool = (if string_or ''text'' (content_block ev) ''type'' = ''tool_use''
                     then string_or '''' (content_block ev) ''id'' else '''') \<rparr>" by (simp add: open_block_def)
      have "\<not> (case map_of (sm_blocks m) ?i of Some b \<Rightarrow> open_block b | None \<Rightarrow> False)"
        using start(2) by (auto simp: open_set_def split: option.split)
      then show "handleContentBlockStart ord fails ev m =
        writeEvent fails ev (m1 \<lparr> sm_blocks := AList.update ?i
          \<lparr> bs_index = ?i, bs_type = string_or ''text'' (content_block ev) ''type'',
            bs_started = True, bs_stopped = False,
            bs_tool = (if string_or ''text'' (content_block ev) ''type'' = ''tool_use''
                       then string_or '''' (content_block ev) ''id'' else '''') \<rparr> (sm_blocks m1),
          sm_next := (if sm_next m1 \<le> ?i then wrap_i64 (?i + 1) else sm_next m1) \<rparr>)"
        using assms(2,5) start(1) unfolding m1_def by (simp add: handleContentBlockStart_def Let_def)
    qed
    have "open_set (m1 \<lparr> sm_blocks := AList.update ?i b (sm_blocks m1) \<rparr>) = insert ?i (open_set m1)"
      using b by (auto simp: open_set_def map_of_update split: if_splits)
    moreover have "all_started (m1 \<lparr> sm_blocks := AList.update ?i b (sm_blocks m1) \<rparr>)"
      using b in_stepD [OF m1(1)] by (auto simp: all_started_def map_of_update open_block_def split: if_splits)
    moreover have "?i \<notin> open_set m1" using start(2) m1(4) by blast
    ultimately show ?thesis
      using m1 assms(3-6) start(1)
      by (auto simp: run write_ok in_step_def in_step_upd client_step_def string_or_def wf_intros
          keeps_flags_def)
  qed
qed


lemma handleContentBlockStop_step:
  assumes "in_step m" and "sm_started m" and "\<forall>n. \<not> fails n"
    and "get_string ev ''type'' = Some ''content_block_stop''"
  shows "in_step (fst (handleContentBlockStop fails ev m)) \<and>
    sm_started (fst (handleContentBlockStop fails ev m)) \<and>
    keeps_flags m (fst (handleContentBlockStop fails ev m))"
proof (cases "0 \<le> extractIndex ev \<and> extractIndex ev \<in> open_set m")
  case True
  then obtain b where b: "map_of (sm_blocks m) (extractIndex ev) = Some b" "open_block b"
    by (auto simp: open_set_def)
  then have run: "handleContentBlockStop fails ev m = writeEvent fails ev (stop_block (extractIndex ev) m)"
    using True by (simp add: handleContentBlockStop_def Let_def open_block_def)
  have "\<not> fails n" for n using assms(3) by simp
  then show ?thesis
    using assms(1,2,4) True in_step_flags(2) [OF assms(1), of "extractIndex ev"]
    by (simp add: run write_ok in_step_def in_step_upd client_step_def string_or_def keeps_flags_def)
next
  case False
  have "fst (handleContentBlockStop fails ev m) = m"
  proof (cases "map_of (sm_blocks m) (extractIndex ev)")
    case (Some b)
    then have "0 \<le> extractIndex ev \<Longrightarrow> \<not> open_block b" using False by (auto simp: open_set_def)
    then show ?thesis
      using Some by (auto simp: handleContentBlockStop_def Let_def open_block_def)
  qed (simp add: handleContentBlockStop_def Let_def)
  then show ?thesis using assms by (simp add: keeps_flags_def)
qed

lemma auto_start_sel [simp]:
  "get_string (auto_start_event i t d) ''type'' = Some ''content_block_start''"
  "extractIndex (auto_start_event i t d) = i"
  by (simp_all add: auto_start_event_def get_string_def extractIndex_def)

lemma handleContentBlockDelta_step:
  assumes "in_step m" and "sm_started m" and "\<forall>n. \<not> fails n"
    and "get_string ev ''type'' = Some ''content_block_delta''"
    and "sm_delta_sent m = sm_ended m" and "\<not> sm_ended m"
  shows "in_step (fst (handleContentBlockDelta dec ord fails ev m)) \<and>
    sm_started (fst (handleContentBlockDelta dec ord fails ev m)) \<and>
    keeps_flags m (fst (handleContentBlockDelta dec ord fails ev m))"
proof (cases "extractIndex ev < 0")
  case True
  then show ?thesis using assms by (simp add: handleContentBlockDelta_def keeps_flags_def)
next
  case False
  define i where "i = extractIndex ev"
  have i: "0 \<le> i" using False by (simp add: i_def)
  have w: "\<not> fails n" for n using assms(3) by simp
  define step where "step m' = fst (if (case map_of (sm_blocks m') i of Some b \<Rightarrow> bs_stopped b | None \<Rightarrow> False)
      then violation ''content_block_delta'' m' else writeEvent fails ev m')" for m'
  have wr: "in_step (fst (writeEvent fails ev m')) \<and> sm_started (fst (writeEvent fails ev m')) \<and>
      keeps_flags m' (fst (writeEvent fails ev m'))"
    if "in_step m'" "sm_started m'" "i \<in> open_set m'" for m'
    using that assms(4) in_step_flags(2) [OF that(1,3)]
    by (simp add: w write_ok in_step_def in_step_upd client_step_def string_or_def i_def keeps_flags_def)
  have last: "in_step (step m') \<and> sm_started (step m') \<and> keeps_flags m' (step m')"
    if m': "in_step m'" "sm_started m'" "map_of (sm_blocks m') i = Some b" for m' b
  proof -
    have "bs_started b" using in_stepD [OF m'(1)] m'(3) by (auto simp: all_started_def)
    then have "bs_stopped b \<or> i \<in> open_set m'" using m'(3) by (auto simp: open_set_def open_block_def)
    then show ?thesis using wr [OF m'(1,2)] m' by (auto simp: step_def keeps_flags_def)
  qed
  show ?thesis
  proof (cases "map_of (sm_blocks m) i")
    case (Some b)
    have "bs_started b" using in_stepD [OF assms(1)] Some by (auto simp: all_started_def)
    then show ?thesis
      using last [OF assms(1,2) Some] Some i
      by (simp add: handleContentBlockDelta_def i_def [symmetric] Let_def step_def)
  next
    case None
    obtain m' err where st: "handleContentBlockStart ord fails (auto_start_event i (delta_block_type ev) dec) m =
        (m', err)" by fastforce
    note s = handleContentBlockStart_step [OF assms(1-3), of "auto_start_event i (delta_block_type ev) dec" ord]
    have m': "in_step m'" "sm_started m'" "keeps_flags m m'" "i \<in> open_set m'"
      using s i st assms(5,6) by simp_all
    then obtain b where "map_of (sm_blocks m') i = Some b" by (auto simp: open_set_def)
    from last [OF m'(1,2) this] m' None i st show ?thesis
      by (cases err)
        (simp_all add: handleContentBlockDelta_def i_def [symmetric] Let_def step_def keeps_flags_def)
  qed
qed

lemma handleMessageDelta_step:
  assumes "in_step m" and "sm_started m" and "\<forall>n. \<not> fails n" and "visits_all ord"
    and "get_string ev ''type'' = Some ''message_delta''"
  shows "in_step (fst (handleMessageDelta ord fails ev m)) \<and>
    sm_started (fst (handleMessageDelta ord fails ev m)) \<and>
    sm_delta_sent (fst (handleMessageDelta ord fails ev m))"
proof (cases "sm_delta_sent m")
  case True
  then show ?thesis using assms by (simp add: handleMessageDelta_def)
next
  case False
  define m1 where "m1 = fold (close_block fails) (ord (open_indices m)) m"
  have wf: "wf_map (sm_blocks m)" using in_stepD [OF assms(1)] by simp
  have all: "set (ord (open_indices m)) = open_set m"
    using visits_all_set [OF assms(4)] open_set_indices [OF wf] by simp
  have "distinct (open_indices m)" using wf by (simp add: open_indices_def distinct_map_filter)
  then have "distinct (ord (open_indices m))" by (rule visits_all_distinct [OF assms(4)])
  from close_blocks_step [OF assms(1-3) this] all
  have m1: "in_step m1" "sm_started m1" "sm_delta_sent m1 = sm_delta_sent m" "open_set m1 = {}"
    by (simp_all add: m1_def)
  have run: "handleMessageDelta ord fails ev m = writeEvent fails ev (m1 \<lparr> sm_delta_sent := True \<rparr>)"
    using False assms(2) in_stepD [OF assms(1)] by (simp add: handleMessageDelta_def m1_def Let_def)
  have "\<not> fails n" for n using assms(3) by simp
  then show ?thesis
    using m1 False assms(5) in_step_flags(1) [OF m1(1)] by (simp add: run write_ok in_step_def in_step_upd client_step_def string_or_def)
qed

lemma handleMessageStop_step:
  assumes "in_step m" and "sm_started m" and "\<forall>n. \<not> fails n"
    and "get_string ev ''type'' = Some ''message_stop''" and "sm_delta_sent m"
  shows "settled_guard (fst (handleMessageStop fails ev m)) \<and>
    sm_ended (fst (handleMessageStop fails ev m))"
  using assms
  by (auto simp: handleMessageStop_def write_ok in_step_def in_step_upd client_step_def string_or_def
      settled_guard_def)

section \<open>The guard keeps the order\<close>

text \<open>The events of the event stream parser: a block that starts has an index, and the end of the message
  is not announced by the parser but by the adapter itself.\<close>

definition parsed :: "json_map \<Rightarrow> bool" where
  "parsed ev \<longleftrightarrow>
     (get_string ev ''type'' = Some ''content_block_start'' \<longrightarrow> 0 \<le> extractIndex ev) \<and>
     get_string ev ''type'' \<notin> {Some ''message_delta'', Some ''message_stop''}"

lemma SendEvent_step:
  assumes m: "settled_guard m" and f: "\<forall>n. \<not> fails n" and ev: "parsed ev"
    and late: "sm_ended m \<longrightarrow> get_string ev ''type'' \<noteq> Some ''content_block_delta''"
  shows "settled_guard (fst (SendEvent dec ord fails ev m)) \<and>
    keeps_flags m (fst (SendEvent dec ord fails ev m))"
proof -
  note st = m [unfolded settled_guard_def, THEN conjunct1] m [unfolded settled_guard_def, THEN conjunct2, THEN conjunct1]
    and fl = m [unfolded settled_guard_def, THEN conjunct2, THEN conjunct2]
  have "in_step (fst (SendEvent dec ord fails ev m)) \<and> sm_started (fst (SendEvent dec ord fails ev m)) \<and>
      keeps_flags m (fst (SendEvent dec ord fails ev m))"
  proof (cases "get_string ev ''type''")
    case None
    then show ?thesis using st by (simp add: SendEvent_def keeps_flags_def)
  next
    case (Some t)
    have other: "in_step (fst (writeEvent fails ev m)) \<and> sm_started (fst (writeEvent fails ev m)) \<and>
        keeps_flags m (fst (writeEvent fails ev m))"
      if "t \<notin> {''message_start'', ''content_block_start'', ''content_block_delta'', ''content_block_stop'',
        ''message_delta'', ''message_stop''}"
      using st f that Some
      by (auto simp: write_ok in_step_def in_step_upd client_step_def string_or_def keeps_flags_def)
    have begun: "handleMessageStart fails ev m = violation ''message_start'' m"
      using st by (simp add: handleMessageStart_def)
    note blocks = handleContentBlockStart_step [OF st f, of ev ord]
      handleContentBlockDelta_step [OF st f, of ev dec ord] handleContentBlockStop_step [OF st f, of ev]
    show ?thesis
      using Some ev late fl st begun other blocks
      by (cases "t = ''content_block_delta''") (simp_all add: SendEvent_def parsed_def keeps_flags_def)
  qed
  then show ?thesis using fl by (simp add: settled_guard_def keeps_flags_def)
qed

end
