(* ===== verification/Kiro_Stream.thy ===== *)
theory Kiro_Stream
  imports Kiro_Sse Go_Text
begin

text \<open>
  A Kiro response on its way to a Claude client, \<^verbatim>\<open>adapter/provider/kiro/streaming.go\<close> with
  \<^verbatim>\<open>stop_reason_manager.go\<close>.  The events
  are those of the event stream parser; the token estimate of a text is the parameter \<open>estimate\<close>.
\<close>

section \<open>Stop reason\<close>

definition DetermineStopReason :: "bool \<Rightarrow> bool \<Rightarrow> string" where
  "DetermineStopReason hasActive hasCompleted =
     (if hasActive \<or> hasCompleted then ''tool_use'' else ''end_turn'')"

definition DetermineStopReasonFromUpstream :: "bool \<Rightarrow> bool \<Rightarrow> string \<Rightarrow> string" where
  "DetermineStopReasonFromUpstream hasActive hasCompleted upstream =
     (if upstream \<in> {''end_turn'', ''max_tokens'', ''stop_sequence'', ''tool_use'', ''pause_turn'', ''refusal''}
      then upstream else DetermineStopReason hasActive hasCompleted)"

section \<open>State\<close>

text \<open>What the run-time and the surroundings decide: the order of map iteration, decimal printing, which
  writes fail, the token estimate, the clock in milliseconds.\<close>

record kiro_env =
  ke_ord :: "int list \<Rightarrow> int list"
  ke_decimal :: "int \<Rightarrow> string"
  ke_fails :: "nat \<Rightarrow> bool"
  ke_estimate :: "string \<Rightarrow> int"
  ke_millis :: "nat \<Rightarrow> int"

record kiro_ctx =
  kc_message :: string
  kc_model :: string
  kc_input :: int
  kc_sse :: sse_manager
  kc_output :: int
  kc_processed :: int
  kc_tools :: "(int \<times> string) list"
  kc_completed :: "string list"
  kc_json_bytes :: "(int \<times> int) list"
  kc_first_ms :: int

definition newStreamProcessorContext :: "string \<Rightarrow> string \<Rightarrow> int \<Rightarrow> kiro_ctx" where
  "newStreamProcessorContext messageID model inputTokens =
     \<lparr> kc_message = messageID, kc_model = model, kc_input = inputTokens,
       kc_sse = NewSSEStateManager False, kc_output = 0, kc_processed = 0, kc_tools = [],
       kc_completed = [], kc_json_bytes = [], kc_first_ms = 0 \<rparr>"

section \<open>Events\<close>

definition send :: "kiro_env \<Rightarrow> json_map \<Rightarrow> kiro_ctx \<Rightarrow> kiro_ctx \<times> sse_error option" where
  "send env ev c =
     (let (m, err) = SendEvent (ke_decimal env) (ke_ord env) (ke_fails env) ev (kc_sse c)
      in (c \<lparr> kc_sse := m \<rparr>, err))"

text \<open>Events one after the other, up to the first error.\<close>

fun send_list :: "kiro_env \<Rightarrow> json_map list \<Rightarrow> kiro_ctx \<Rightarrow> kiro_ctx \<times> sse_error option" where
  "send_list env [] c = (c, None)"
| "send_list env (ev # evs) c =
     (case send env ev c of
        (c, Some e) \<Rightarrow> (c, Some e)
      | (c, None) \<Rightarrow> send_list env evs c)"

definition message_start_event :: "kiro_ctx \<Rightarrow> json_map" where
  "message_start_event c =
     [(''type'', JStr ''message_start''),
      (''message'', JObj
        [(''id'', JStr (kc_message c)), (''type'', JStr ''message''), (''role'', JStr ''assistant''),
         (''content'', JArr []), (''model'', JStr (kc_model c)), (''stop_reason'', JNull),
         (''stop_sequence'', JNull),
         (''usage'', JObj [(''input_tokens'', JInt (kc_input c)), (''output_tokens'', JInt 0)])])]"

definition sendInitialEvents :: "kiro_env \<Rightarrow> kiro_ctx \<Rightarrow> kiro_ctx \<times> sse_error option" where
  "sendInitialEvents env c = send_list env [message_start_event c, [(''type'', JStr ''ping'')]] c"

definition processToolUseStart :: "json_map \<Rightarrow> kiro_ctx \<Rightarrow> kiro_ctx" where
  "processToolUseStart ev c =
     (case get_obj ev ''content_block'' of
        None \<Rightarrow> c
      | Some cb \<Rightarrow>
          if string_or '''' cb ''type'' \<noteq> ''tool_use'' \<or> extractIndex ev < 0 \<or>
             string_or '''' cb ''id'' = ''''
          then c
          else c \<lparr> kc_tools := AList.update (extractIndex ev) (string_or '''' cb ''id'') (kc_tools c) \<rparr>)"

definition processToolUseStop :: "json_map \<Rightarrow> kiro_ctx \<Rightarrow> kiro_ctx" where
  "processToolUseStop ev c =
     (let idx = extractIndex ev
      in if idx < 0 then c
         else case map_of (kc_tools c) idx of
                Some toolID \<Rightarrow>
                  if toolID \<noteq> ''''
                  then c \<lparr> kc_completed := List.insert toolID (kc_completed c),
                           kc_tools := AList.delete idx (kc_tools c) \<rparr>
                  else c
              | None \<Rightarrow> c)"

definition count_start :: "kiro_env \<Rightarrow> json_map \<Rightarrow> kiro_ctx \<Rightarrow> kiro_ctx" where
  "count_start env ev c =
     (case get_obj ev ''content_block'' of
        None \<Rightarrow> c
      | Some cb \<Rightarrow>
          if string_or '''' cb ''type'' = ''tool_use''
          then c \<lparr> kc_output := kc_output c + 12 +
                     (case get_string cb ''name'' of Some n \<Rightarrow> ke_estimate env n | None \<Rightarrow> 0) \<rparr>
          else c)"

definition count_delta :: "kiro_env \<Rightarrow> json_map \<Rightarrow> kiro_ctx \<Rightarrow> kiro_ctx" where
  "count_delta env ev c =
     (case get_obj ev ''delta'' of
        None \<Rightarrow> c
      | Some d \<Rightarrow>
          if string_or '''' d ''type'' = ''text_delta'' then
            (case get_string d ''text'' of
               Some t \<Rightarrow> c \<lparr> kc_output := kc_output c + ke_estimate env t \<rparr>
             | None \<Rightarrow> c)
          else if string_or '''' d ''type'' = ''input_json_delta'' then
            (case get_string d ''partial_json'' of
               Some j \<Rightarrow>
                 (let index = extractIndex ev
                  in c \<lparr> kc_json_bytes := AList.update index
                           (lookup_default 0 (kc_json_bytes c) index + int (length j)) (kc_json_bytes c) \<rparr>)
             | None \<Rightarrow> c)
          else c)"

definition count_stop :: "json_map \<Rightarrow> kiro_ctx \<Rightarrow> kiro_ctx" where
  "count_stop ev c =
     (let idx = extractIndex ev
      in case map_of (kc_json_bytes c) idx of
           Some n \<Rightarrow>
             if 0 < n then c \<lparr> kc_output := kc_output c + (n + 3) div 4,
                               kc_json_bytes := AList.delete idx (kc_json_bytes c) \<rparr>
             else c
         | None \<Rightarrow> c)"

text \<open>Stops for all open blocks, then the end of the message; errors are ignored.\<close>

definition send_stops :: "kiro_env \<Rightarrow> kiro_ctx \<Rightarrow> kiro_ctx" where
  "send_stops env c =
     fold (\<lambda>i c. fst (send env (stop_event i) c)) (ke_ord env (open_indices (kc_sse c))) c"

definition final_delta :: "string \<Rightarrow> int \<Rightarrow> int \<Rightarrow> json_map" where
  "final_delta stopReason input_tokens output_tokens =
     [(''type'', JStr ''message_delta''),
      (''delta'', JObj [(''stop_reason'', JStr stopReason), (''stop_sequence'', JNull)]),
      (''usage'', JObj [(''input_tokens'', JInt input_tokens), (''output_tokens'', JInt output_tokens)])]"

definition message_stop_event :: json_map where
  "message_stop_event = [(''type'', JStr ''message_stop'')]"



definition handleExceptionEvent :: "kiro_env \<Rightarrow> json_map \<Rightarrow> kiro_ctx \<Rightarrow> kiro_ctx \<times> bool" where
  "handleExceptionEvent env ev c =
     (let ty = string_or '''' ev ''exception_type''
      in if ty = ''ContentLengthExceededException'' \<or> contains ty ''CONTENT_LENGTH_EXCEEDS'' then
           (let c = send_stops env c;
                c = fst (send env (final_delta ''max_tokens'' (kc_input c) (kc_output c)) c);
                c = fst (send env message_stop_event c)
            in (c, True))
         else (c, False))"

definition processEvent :: "kiro_env \<Rightarrow> json_map \<Rightarrow> kiro_ctx \<Rightarrow> kiro_ctx \<times> sse_error option" where
  "processEvent env ev c =
     (let t = string_or '''' ev ''type'';
          (c, handled) =
            (if t = ''content_block_start'' then (count_start env ev (processToolUseStart ev c), False)
             else if t = ''content_block_delta'' then (count_delta env ev c, False)
             else if t = ''content_block_stop'' then (count_stop ev (processToolUseStop ev c), False)
             else if t = ''exception'' then handleExceptionEvent env ev c
             else (c, False))
      in if handled then (c, None)
         else (case send env ev c of
                 (c, Some e) \<Rightarrow> (c, Some e)
               | (c, None) \<Rightarrow>
                   (if kc_first_ms c = 0 then c \<lparr> kc_first_ms := ke_millis env (sm_writes (kc_sse c)) \<rparr>
                    else c, None)))"

text \<open>The events of the reads, each read a list; data of an event that is no object is \<open>None\<close>.  A write
  error ends the processing.\<close>

fun process_events :: "kiro_env \<Rightarrow> json_map option list \<Rightarrow> kiro_ctx \<Rightarrow> kiro_ctx \<times> sse_error option" where
  "process_events env [] c = (c, None)"
| "process_events env (None # evs) c = process_events env evs c"
| "process_events env (Some ev # evs) c =
     (case processEvent env ev c of
        (c, Some e) \<Rightarrow> (c, Some e)
      | (c, None) \<Rightarrow> process_events env evs c)"

text \<open>\<open>broken\<close>: the reads end with an error instead of the end of the stream.\<close>

fun processEventStream ::
  "kiro_env \<Rightarrow> bool \<Rightarrow> json_map option list list \<Rightarrow> kiro_ctx \<Rightarrow> kiro_ctx \<times> sse_error option" where
  "processEventStream env broken [] c = (c, if broken then Some ReadFailed else None)"
| "processEventStream env broken (read # reads) c =
     (case process_events env read (c \<lparr> kc_processed := kc_processed c + int (length read) \<rparr>) of
        (c, Some e) \<Rightarrow> (c, Some e)
      | (c, None) \<Rightarrow> processEventStream env broken reads c)"

definition sendFinalEvents :: "kiro_env \<Rightarrow> kiro_ctx \<Rightarrow> kiro_ctx \<times> sse_error option" where
  "sendFinalEvents env c =
     (let c = send_stops env c;
          active = (kc_tools c \<noteq> []);
          completed = (kc_completed c \<noteq> []);
          out = (if kc_output c < 1 \<and> (completed \<or> active \<or> 0 < kc_processed c) then 1
                 else kc_output c)
      in send_list env
           [final_delta (DetermineStopReason active completed) (kc_input c) out, message_stop_event] c)"

definition GetTokenCounts :: "kiro_ctx \<Rightarrow> int \<times> int" where
  "GetTokenCounts c =
     (kc_input c,
      if kc_output c < 1 \<and> (kc_completed c \<noteq> [] \<or> kc_tools c \<noteq> [] \<or> 0 < kc_processed c) then 1
      else kc_output c)"

text \<open>The response as the adapter (\<^verbatim>\<open>adapter.go\<close>) runs it; \<open>gone\<close>: the request's context has ended when
  the stream breaks.  An error of the stream is not reported, the message is ended instead.\<close>

definition kiro_response ::
  "kiro_env \<Rightarrow> bool \<Rightarrow> bool \<Rightarrow> json_map option list list \<Rightarrow> kiro_ctx \<Rightarrow> kiro_ctx \<times> sse_error option" where
  "kiro_response env broken gone reads c =
     (case sendInitialEvents env c of
        (c, Some e) \<Rightarrow> (c, Some e)
      | (c, None) \<Rightarrow>
          (case processEventStream env broken reads c of
             (c, Some e) \<Rightarrow>
               if gone then (c, Some e) else (fst (sendFinalEvents env c), None)
           | (c, None) \<Rightarrow> sendFinalEvents env c))"

section \<open>The client always gets a complete message\<close>

definition reliable :: "kiro_env \<Rightarrow> bool" where
  "reliable env \<longleftrightarrow> (\<forall>n. \<not> ke_fails env n) \<and> visits_all (ke_ord env)"

definition ctx_ok :: "kiro_ctx \<Rightarrow> bool" where
  "ctx_ok c \<longleftrightarrow> settled_guard (kc_sse c)"

lemma ctx_ok_in_step: "ctx_ok c \<Longrightarrow> in_step (kc_sse c) \<and> sm_started (kc_sse c)"
  by (simp add: ctx_ok_def settled_guard_def)

lemma send_sel [simp]:
  "kc_sse (fst (send env ev c)) = fst (SendEvent (ke_decimal env) (ke_ord env) (ke_fails env) ev (kc_sse c))"
  by (simp add: send_def split_def Let_def)

lemma send_ok:
  assumes "ctx_ok c" and "reliable env" and "parsed ev"
    and "sm_ended (kc_sse c) \<longrightarrow> get_string ev ''type'' \<noteq> Some ''content_block_delta''"
  shows "ctx_ok (fst (send env ev c)) \<and>
    sm_ended (kc_sse (fst (send env ev c))) = sm_ended (kc_sse c)"
  using assms SendEvent_step [of "kc_sse c" "ke_fails env" ev "ke_decimal env" "ke_ord env"]
  by (simp add: ctx_ok_def reliable_def keeps_flags_def)

lemma ctx_ok_upd [simp]:
  "ctx_ok (c \<lparr> kc_output := a \<rparr>) = ctx_ok c" "ctx_ok (c \<lparr> kc_tools := b \<rparr>) = ctx_ok c"
  "ctx_ok (c \<lparr> kc_completed := d \<rparr>) = ctx_ok c" "ctx_ok (c \<lparr> kc_json_bytes := e \<rparr>) = ctx_ok c"
  "ctx_ok (c \<lparr> kc_first_ms := a \<rparr>) = ctx_ok c" "ctx_ok (c \<lparr> kc_processed := a \<rparr>) = ctx_ok c"
  by (simp_all add: ctx_ok_def)

lemma own_events [simp]:
  "parsed (stop_event i)" "parsed [(''type'', JStr ''ping'')]"
  "get_string (stop_event i) ''type'' = Some ''content_block_stop''"
  "get_string (final_delta r a b) ''type'' = Some ''message_delta''"
  "get_string message_stop_event ''type'' = Some ''message_stop''"
  by (simp_all add: parsed_def stop_event_def final_delta_def message_stop_event_def get_string_def)

text \<open>A stop for an open block closes it.\<close>

lemma send_stop_open:
  assumes "ctx_ok c" and "reliable env"
  shows "open_set (kc_sse (fst (send env (stop_event i) c))) = open_set (kc_sse c) - {i}"
proof -
  let ?m = "kc_sse c"
  have ty: "get_string (stop_event i) ''type'' = Some ''content_block_stop''"
    by (simp add: stop_event_def get_string_def)
  have run: "fst (SendEvent (ke_decimal env) (ke_ord env) (ke_fails env) (stop_event i) ?m) =
      fst (handleContentBlockStop (ke_fails env) (stop_event i) ?m)" by (simp add: SendEvent_def ty)
  show ?thesis
  proof (cases "i \<in> open_set ?m")
    case True
    then obtain b where b: "map_of (sm_blocks ?m) i = Some b" "open_block b" by (auto simp: open_set_def)
    have "0 \<le> i" using True ctx_ok_in_step [OF assms(1)] by (simp add: in_step_def)
    then show ?thesis
      using b assms(2) by (simp add: run handleContentBlockStop_def open_block_def write_ok
          reliable_def in_step_upd)
  next
    case False
    then have "handleContentBlockStop (ke_fails env) (stop_event i) ?m = violation ''content_block_stop'' ?m"
      by (auto simp: handleContentBlockStop_def open_set_def open_block_def split: option.split)
    then show ?thesis using False by (simp add: run)
  qed
qed

lemma send_stops_ok:
  assumes "ctx_ok c" and "reliable env"
  shows "ctx_ok (send_stops env c) \<and> open_set (kc_sse (send_stops env c)) = {}"
proof -
  have step: "ctx_ok (fold (\<lambda>i c. fst (send env (stop_event i) c)) is c) \<and>
      open_set (kc_sse (fold (\<lambda>i c. fst (send env (stop_event i) c)) is c)) = open_set (kc_sse c) - set is"
    if "ctx_ok c" for "is" c
    using that
  proof (induction "is" arbitrary: c)
    case (Cons i "is")
    have "ctx_ok (fst (send env (stop_event i) c))" using send_ok [OF Cons.prems assms(2)] by simp
    from Cons.IH [OF this] send_stop_open [OF Cons.prems assms(2), of i] show ?case by auto
  qed simp
  have "wf_map (sm_blocks (kc_sse c))" using ctx_ok_in_step [OF assms(1)] by (simp add: in_step_def)
  then have "set (ke_ord env (open_indices (kc_sse c))) = open_set (kc_sse c)"
    using visits_all_set open_set_indices assms(2) by (simp add: reliable_def)
  with step [OF assms(1)] show ?thesis by (simp add: send_stops_def)
qed

text \<open>The end of the message: its delta, then its stop.\<close>

lemma send_final_delta:
  assumes "ctx_ok c" and "reliable env"
  shows "in_step (kc_sse (fst (send env (final_delta r a b) c))) \<and>
    sm_started (kc_sse (fst (send env (final_delta r a b) c))) \<and>
    sm_delta_sent (kc_sse (fst (send env (final_delta r a b) c)))"
  using ctx_ok_in_step [OF assms(1)] assms(2)
    handleMessageDelta_step [of "kc_sse c" "ke_fails env" "ke_ord env" "final_delta r a b"]
  by (simp add: SendEvent_def reliable_def)

lemma send_message_stop:
  assumes "in_step (kc_sse c)" and "sm_started (kc_sse c)" and "sm_delta_sent (kc_sse c)"
    and "reliable env"
  shows "ctx_ok (fst (send env message_stop_event c)) \<and>
    sm_ended (kc_sse (fst (send env message_stop_event c)))"
  using assms handleMessageStop_step [of "kc_sse c" "ke_fails env" message_stop_event]
  by (simp add: SendEvent_def ctx_ok_def reliable_def)

text \<open>An exception that reports the content as too long ends the message.  A stream is calm when no block
  gets a delta after it.\<close>

definition length_exception :: "json_map \<Rightarrow> bool" where
  "length_exception ev \<longleftrightarrow> string_or '''' ev ''type'' = ''exception'' \<and>
     (let ty = string_or '''' ev ''exception_type''
      in ty = ''ContentLengthExceededException'' \<or> contains ty ''CONTENT_LENGTH_EXCEEDS'')"

fun calm :: "bool \<Rightarrow> json_map list \<Rightarrow> bool" where
  "calm over [] \<longleftrightarrow> True"
| "calm over (ev # evs) \<longleftrightarrow>
     \<not> (over \<and> get_string ev ''type'' = Some ''content_block_delta'') \<and>
     calm (over \<or> length_exception ev) evs"

definition upstream_events :: "json_map option list list \<Rightarrow> json_map list" where
  "upstream_events reads = List.map_filter id (concat reads)"

lemma handleExceptionEvent_ok:
  assumes "ctx_ok c" and "reliable env"
  shows "ctx_ok (fst (handleExceptionEvent env ev c))"
proof -
  note stops = send_stops_ok [OF assms, THEN conjunct1]
  have "ctx_ok (fst (send env message_stop_event (fst (send env (final_delta r a b) (send_stops env c)))))"
    for r a b
    using send_message_stop send_final_delta [OF stops assms(2)] assms(2) by blast
  then show ?thesis using assms(1) by (simp add: handleExceptionEvent_def Let_def)
qed

lemma counted [simp]:
  "kc_sse (count_start env ev c) = kc_sse c" "kc_sse (count_delta env ev c) = kc_sse c"
  "kc_sse (count_stop ev c) = kc_sse c" "kc_sse (processToolUseStart ev c) = kc_sse c"
  "kc_sse (processToolUseStop ev c) = kc_sse c"
  by (simp_all add: count_start_def processToolUseStart_def count_delta_def count_stop_def
      processToolUseStop_def Let_def split: option.split)

lemma processEvent_ok:
  assumes c: "ctx_ok c" and env: "reliable env" and ev: "parsed ev"
    and late: "sm_ended (kc_sse c) \<longrightarrow> get_string ev ''type'' \<noteq> Some ''content_block_delta''"
  shows "ctx_ok (fst (processEvent env ev c)) \<and>
    (sm_ended (kc_sse (fst (processEvent env ev c))) \<longrightarrow> sm_ended (kc_sse c) \<or> length_exception ev)"
proof -
  let ?forward = "\<lambda>c'. fst (case send env ev c' of (c, Some e) \<Rightarrow> (c, Some e)
      | (c, None) \<Rightarrow> (if kc_first_ms c = 0 then c \<lparr> kc_first_ms := ke_millis env (sm_writes (kc_sse c)) \<rparr>
                     else c, None))"
  have forward: "ctx_ok (?forward c') \<and> sm_ended (kc_sse (?forward c')) = sm_ended (kc_sse c)"
    if "kc_sse c' = kc_sse c" for c'
  proof -
    have "ctx_ok c'" using c that by (simp add: ctx_ok_def)
    from send_ok [OF this env ev, unfolded that, OF late]
    have "ctx_ok (fst (send env ev c')) \<and> sm_ended (kc_sse (fst (send env ev c'))) = sm_ended (kc_sse c)" .
    moreover obtain c'' r where "send env ev c' = (c'', r)" by fastforce
    ultimately show ?thesis by (cases r) simp_all
  qed
  show ?thesis
  proof (cases "string_or '''' ev ''type'' = ''exception''")
    case True
    obtain c' handled where h: "handleExceptionEvent env ev c = (c', handled)" by fastforce
    show ?thesis
    proof (cases handled)
      case ended: True
      have "length_exception ev"
        using True h ended
        by (auto simp: handleExceptionEvent_def length_exception_def Let_def split: if_splits)
      moreover have "fst (processEvent env ev c) = c'" using True h ended by (simp add: processEvent_def)
      ultimately show ?thesis using handleExceptionEvent_ok [OF c env, of ev] h by simp
    next
      case passed: False
      have "kc_sse c' = kc_sse c"
        using h passed by (auto simp: handleExceptionEvent_def Let_def split: if_splits)
      moreover have "fst (processEvent env ev c) = ?forward c'"
        using True h passed by (simp add: processEvent_def)
      ultimately show ?thesis using forward [of c'] by simp
    qed
  next
    case plain: False
    define t where "t = string_or '''' ev ''type''"
    define c' where "c' =
      (if t = ''content_block_start'' then count_start env ev (processToolUseStart ev c)
       else if t = ''content_block_delta'' then count_delta env ev c
       else if t = ''content_block_stop'' then count_stop ev (processToolUseStop ev c) else c)"
    have "kc_sse c' = kc_sse c" by (simp add: c'_def)
    moreover have "fst (processEvent env ev c) = ?forward c'"
      using plain by (simp add: processEvent_def c'_def flip: t_def)
    ultimately show ?thesis using forward [of c'] by simp
  qed
qed

lemma process_events_ok:
  assumes "reliable env"
  shows "ctx_ok c \<Longrightarrow> sm_ended (kc_sse c) \<longrightarrow> over \<Longrightarrow> list_all parsed (List.map_filter id evs) \<Longrightarrow>
    calm over (List.map_filter id evs @ rest) \<Longrightarrow>
    ctx_ok (fst (process_events env evs c)) \<and>
    (\<exists>over'. snd (process_events env evs c) = None \<longrightarrow>
       (sm_ended (kc_sse (fst (process_events env evs c))) \<longrightarrow> over') \<and> calm over' rest)"
proof (induction evs arbitrary: c over)
  case Nil
  then show ?case by auto
next
  case (Cons eo evs)
  show ?case
  proof (cases eo)
    case (Some ev)
    have "parsed ev" "sm_ended (kc_sse c) \<longrightarrow> get_string ev ''type'' \<noteq> Some ''content_block_delta''"
      using Cons.prems(2-4) Some by auto
    from processEvent_ok [OF Cons.prems(1) assms this]
    have ok: "ctx_ok (fst (processEvent env ev c))"
      "sm_ended (kc_sse (fst (processEvent env ev c))) \<longrightarrow> over \<or> length_exception ev"
      using Cons.prems(2) by auto
    obtain c' r where run: "processEvent env ev c = (c', r)" by fastforce
    show ?thesis
    proof (cases r)
      case None
      then show ?thesis
        using Cons.IH [of c' "over \<or> length_exception ev"] ok run Cons.prems(3,4) Some by simp
    qed (use ok run Some in auto)
  qed (use Cons in simp)
qed

lemma stream_ok:
  assumes "reliable env"
  shows "ctx_ok c \<Longrightarrow> sm_ended (kc_sse c) \<longrightarrow> over \<Longrightarrow> list_all parsed (upstream_events reads) \<Longrightarrow>
    calm over (upstream_events reads) \<Longrightarrow> ctx_ok (fst (processEventStream env broken reads c))"
proof (induction reads arbitrary: c over)
  case (Cons read reads)
  let ?c = "c \<lparr> kc_processed := kc_processed c + int (length read) \<rparr>"
  have split: "upstream_events (read # reads) = List.map_filter id read @ upstream_events reads"
    by (simp add: upstream_events_def map_filter_def)
  note read = process_events_ok [OF assms, of ?c over read "upstream_events reads"]
  have ok: "ctx_ok (fst (process_events env read ?c))"
    and over: "\<exists>over'. snd (process_events env read ?c) = None \<longrightarrow>
       (sm_ended (kc_sse (fst (process_events env read ?c))) \<longrightarrow> over') \<and> calm over' (upstream_events reads)"
    using read Cons.prems by (simp_all add: split)
  obtain c' r where run: "process_events env read ?c = (c', r)" by fastforce
  show ?case
  proof (cases r)
    case None
    with over run obtain over' where "sm_ended (kc_sse c') \<longrightarrow> over'" "calm over' (upstream_events reads)" by auto
    with Cons.IH [of c' over'] ok run None Cons.prems(3) show ?thesis by (simp add: split)
  qed (use ok run in simp)
qed simp

text \<open>Without failing writes a lenient manager reports no error.\<close>

lemma SendEvent_silent:
  assumes "\<forall>n. \<not> fails n" and "\<not> sm_strict m" and "get_string ev ''type'' = Some t"
  shows "snd (SendEvent dec ord fails ev m) = None"
proof -
  have w: "snd (writeEvent fails e m') = None" for e m' using assms(1) by (simp add: writeEvent_def)
  have v: "snd (violation msg m) = None" for msg using assms(2) by (simp add: violation_def)
  have strict: "sm_strict (close_text_block fails i m') = sm_strict m'" for i m'
    using assms(1) by (simp add: close_text_block_def write_ok split: option.split)
  have start: "snd (handleContentBlockStart ord fails e m) = None" for e
    by (simp add: handleContentBlockStart_def Let_def w v)
  have strict_texts: "sm_strict (fold (close_text_block fails) is m') = sm_strict m'" for "is" m'
    by (induction "is" arbitrary: m') (simp_all add: strict)
  have strict_start: "sm_strict (fst (handleContentBlockStart ord fails e m)) = sm_strict m" for e
    using assms(1) by (simp add: handleContentBlockStart_def Let_def write_ok strict_texts)
  have delta: "snd (handleContentBlockDelta dec ord fails ev m) = None"
    using start strict_start assms(2)
    by (auto simp: handleContentBlockDelta_def Let_def split_def w v violation_def
        split: option.split)
  show ?thesis
    using assms(3) delta start
    by (simp add: SendEvent_def handleMessageStart_def handleContentBlockStop_def handleMessageDelta_def
        handleMessageStop_def Let_def w v split: option.split)
qed

lemma send_silent:
  assumes "in_step (kc_sse c)" and "reliable env" and "get_string ev ''type'' = Some t"
  shows "snd (send env ev c) = None"
  using assms SendEvent_silent [of "ke_fails env" "kc_sse c" ev t]
  by (simp add: send_def split_def Let_def in_step_def reliable_def)

definition complete_message :: "kiro_ctx \<Rightarrow> bool" where
  "complete_message c \<longleftrightarrow>
     client_view_of (sm_out (kc_sse c)) =
       Some \<lparr> cv_begun = True, cv_open = {}, cv_delta = True, cv_done = True \<rparr>"

lemma send_two:
  assumes "snd (send env e1 c) = None" and "snd (send env e2 (fst (send env e1 c))) = None"
  shows "send_list env [e1, e2] c = (fst (send env e2 (fst (send env e1 c))), None)"
  using assms by (cases "send env e1 c"; cases "send env e2 (fst (send env e1 c))") simp

lemma sendFinalEvents_complete:
  assumes "ctx_ok c" and "reliable env"
  shows "complete_message (fst (sendFinalEvents env c)) \<and> snd (sendFinalEvents env c) = None"
proof -
  define c1 where "c1 = send_stops env c"
  have c1: "ctx_ok c1" using send_stops_ok [OF assms] by (simp add: c1_def)
  obtain r a b where fin: "sendFinalEvents env c = send_list env [final_delta r a b, message_stop_event] c1"
    unfolding sendFinalEvents_def Let_def c1_def by blast
  let ?c2 = "fst (send env (final_delta r a b) c1)" and ?c3 = "fst (send env message_stop_event
    (fst (send env (final_delta r a b) c1)))"
  have c2: "in_step (kc_sse ?c2)" "sm_started (kc_sse ?c2)" "sm_delta_sent (kc_sse ?c2)"
    using send_final_delta [OF c1 assms(2)] by blast+
  have c3: "ctx_ok ?c3" "sm_ended (kc_sse ?c3)" using send_message_stop [OF c2 assms(2)] by blast+
  have "snd (send env (final_delta r a b) c1) = None"
    using send_silent [OF _ assms(2) own_events(4)] ctx_ok_in_step [OF c1] by blast
  moreover have "snd (send env message_stop_event ?c2) = None"
    using send_silent [OF c2(1) assms(2) own_events(5)] .
  ultimately have "sendFinalEvents env c = (?c3, None)" unfolding fin by (rule send_two)
  moreover have "complete_message ?c3"
    using c3 unfolding complete_message_def ctx_ok_def settled_guard_def in_step_def by simp
  ultimately show ?thesis by simp
qed

lemma sendInitialEvents_ok:
  assumes "reliable env"
  shows "ctx_ok (fst (sendInitialEvents env (newStreamProcessorContext mid model inp))) \<and>
    \<not> sm_ended (kc_sse (fst (sendInitialEvents env (newStreamProcessorContext mid model inp)))) \<and>
    snd (sendInitialEvents env (newStreamProcessorContext mid model inp)) = None"
proof -
  let ?c = "newStreamProcessorContext mid model inp"
  have ty: "get_string (message_start_event c) ''type'' = Some ''message_start''" for c
    by (simp add: message_start_event_def get_string_def)
  have fails: "\<forall>n. \<not> ke_fails env n" using assms by (simp add: reliable_def)
  have new: "kc_sse ?c = NewSSEStateManager False" by (simp add: newStreamProcessorContext_def)
  obtain c1 e1 where one: "send env (message_start_event ?c) ?c = (c1, e1)" by fastforce
  have run: "kc_sse c1 = fst (handleMessageStart (ke_fails env) (message_start_event ?c) (NewSSEStateManager False))"
    using send_sel [of env "message_start_event ?c" ?c] one by (simp add: SendEvent_def ty new)
  have flags: "\<not> sm_ended (kc_sse c1)" "\<not> sm_delta_sent (kc_sse c1)"
    using fails by (simp_all add: run handleMessageStart_def NewSSEStateManager_def write_ok)
  have "in_step (kc_sse c1) \<and> sm_started (kc_sse c1)"
    unfolding run by (intro conjI in_step_start new_in_step fails ty) (simp_all add: NewSSEStateManager_def)
  then have c1: "ctx_ok c1" using flags by (simp add: ctx_ok_def settled_guard_def)
  have "e1 = snd (SendEvent (ke_decimal env) (ke_ord env) (ke_fails env) (message_start_event ?c)
      (NewSSEStateManager False))"
    using one by (simp add: send_def split_def Let_def new)
  then have e1: "e1 = None"
    using SendEvent_silent [OF fails _ ty] by (simp add: NewSSEStateManager_def)
  obtain c2 e2 where two: "send env [(''type'', JStr ''ping'')] c1 = (c2, e2)" by fastforce
  have "ctx_ok c2 \<and> \<not> sm_ended (kc_sse c2)"
    using send_ok [OF c1 assms own_events(2)] two flags by simp
  moreover have "e2 = None"
    using send_silent [of c1 env "[(''type'', JStr ''ping'')]" "''ping''"] ctx_ok_in_step [OF c1] assms two
    by (simp add: get_string_def)
  ultimately show ?thesis using one two e1 by (simp add: sendInitialEvents_def)
qed

text \<open>C14: A Kiro response whose events are those of the event stream parser, in whatever order and
  even if its stream breaks off, reaches a client whose connection works as one complete message in
  the order of the protocol: it begins once and first; every block that starts is stopped before it
  starts again; deltas go to open blocks only; the message delta comes once, after every block is
  stopped, and no block starts, gets a delta or stops after it; the message stop comes once, at the
  end.  The events of the parser are those other than the end of the message, with an index for
  every block they start; and no delta follows an exception that reports the content as too long.\<close>

theorem kiro_message_complete:
  assumes "reliable env" and "list_all parsed (upstream_events reads)"
    and "calm False (upstream_events reads)"
  shows "\<exists>c. kiro_response env broken False reads (newStreamProcessorContext mid model inp) = (c, None) \<and>
    complete_message c"
proof -
  obtain c1 where one: "sendInitialEvents env (newStreamProcessorContext mid model inp) = (c1, None)"
    and c1: "ctx_ok c1" "\<not> sm_ended (kc_sse c1)"
    using sendInitialEvents_ok [OF assms(1), of mid model inp] by (metis prod.collapse)
  obtain c2 e2 where two: "processEventStream env broken reads c1 = (c2, e2)" by fastforce
  have "ctx_ok c2" using stream_ok [OF assms(1) c1(1) _ assms(2,3), of broken] c1(2) two by simp
  note final = sendFinalEvents_complete [OF this assms(1)]
  obtain c3 e3 where three: "sendFinalEvents env c2 = (c3, e3)" by fastforce
  have "complete_message c3" "e3 = None" using final three by simp_all
  then show ?thesis by (cases e2) (simp_all add: kiro_response_def one two three)
qed

definition sample_kiro :: kiro_env where
  "sample_kiro = \<lparr> ke_ord = rev, ke_decimal = (\<lambda>i. ''0''), ke_fails = (\<lambda>n. False),
     ke_estimate = (\<lambda>s. int (length s)), ke_millis = int \<rparr>"

lemma sample_reliable: "reliable sample_kiro"
  by (simp add: reliable_def sample_kiro_def visits_all_def)

text \<open>A text block never stopped, a tool block inside it, too much content, and a broken stream.\<close>

definition too_long :: json_map where
  "too_long = [(''type'', JStr ''exception''),
     (''exception_type'', JStr ''ContentLengthExceededException'')]"

definition sample_events :: "json_map option list list" where
  "sample_events =
     [[Some [(''type'', JStr ''content_block_start''), (''index'', JInt 0)],
       Some [(''type'', JStr ''content_block_delta''), (''index'', JFloat 0)], None],
      [Some [(''type'', JStr ''content_block_start''), (''index'', JInt 1),
             (''content_block'', JObj [(''type'', JStr ''tool_use''), (''id'', JStr ''t'')])],
       Some too_long]]"

theorem kiro_message_complete_witness:
  "\<exists>c. kiro_response sample_kiro True False sample_events (newStreamProcessorContext ''id'' ''m'' 3) = (c, None) \<and>
     complete_message c"
proof (rule kiro_message_complete [OF sample_reliable])
  show "list_all parsed (upstream_events sample_events)" "calm False (upstream_events sample_events)"
    by (simp_all add: sample_events_def upstream_events_def map_filter_def too_long_def parsed_def
        extractIndex_def get_string_def string_or_def length_exception_def)
qed

text \<open>Without the last hypothesis the order breaks: after an exception that ends the message, a text
  delta of a block that never started still gets through.\<close>

definition late_events :: "json_map option list list" where
  "late_events =
     [[Some too_long, Some [(''type'', JStr ''content_block_delta''), (''index'', JInt 0)]]]"

lemma late_delta:
  "map (\<lambda>ev. string_or '''' ev ''type'') (rev (sm_out (kc_sse (fst (kiro_response sample_kiro False False
     late_events (newStreamProcessorContext ''id'' ''m'' 3)))))) =
   [''message_start'', ''ping'', ''message_delta'', ''message_stop'', ''content_block_delta'']"
  by code_simp

end
