(* ===== verification/Kiro_Tools.thy ===== *)
theory Kiro_Tools
  imports Kiro_Stream
begin

text \<open>
  The tool calls of a Kiro response and the content blocks they show up as,
  \<^verbatim>\<open>adapter/provider/kiro/tool_lifecycle_manager.go\<close>.  Reading arguments as JSON (\<open>parse\<close>) and
  printing them (\<open>print\<close>) are parameters.
\<close>

section \<open>State and operations\<close>

datatype tool_status = ToolStatusPending | ToolStatusRunning | ToolStatusCompleted | ToolStatusError

record tool_execution =
  te_id :: string
  te_name :: string
  te_start :: go_time
  te_end :: "go_time option"
  te_status :: tool_status
  te_arguments :: json_map
  te_result :: json
  te_error :: string
  te_block :: int

record tool_call =
  tc_id :: string
  tc_name :: string
  tc_arguments :: string

record tool_manager =
  tm_active :: "(string \<times> tool_execution) list"
  tm_completed :: "(string \<times> tool_execution) list"
  tm_index :: "(string \<times> int) list"
  tm_next :: int
  tm_intro :: bool

definition NewToolLifecycleManager :: tool_manager where
  "NewToolLifecycleManager =
     \<lparr> tm_active = [], tm_completed = [], tm_index = [], tm_next = 1, tm_intro = False \<rparr>"

definition getOrAssignBlockIndex :: "string \<Rightarrow> tool_manager \<Rightarrow> tool_manager \<times> int" where
  "getOrAssignBlockIndex toolID m =
     (case map_of (tm_index m) toolID of
        Some i \<Rightarrow> (m, i)
      | None \<Rightarrow>
          (let i = tm_next m
           in (m \<lparr> tm_index := AList.update toolID i (tm_index m), tm_next := i + 1 \<rparr>, i)))"

definition GetBlockIndex :: "tool_manager \<Rightarrow> string \<Rightarrow> int" where
  "GetBlockIndex m toolID = (case map_of (tm_index m) toolID of Some i \<Rightarrow> i | None \<Rightarrow> - 1)"

definition tool_start_event :: "int \<Rightarrow> tool_call \<Rightarrow> json_map" where
  "tool_start_event i c =
     [(''type'', JStr ''content_block_start''), (''index'', JInt i),
      (''content_block'', JObj [(''type'', JStr ''tool_use''), (''id'', JStr (tc_id c)),
                                (''name'', JStr (tc_name c)), (''input'', JObj [])])]"

definition tool_delta_event :: "int \<Rightarrow> string \<Rightarrow> json_map" where
  "tool_delta_event i args =
     [(''type'', JStr ''content_block_delta''), (''index'', JInt i),
      (''delta'', JObj [(''type'', JStr ''input_json_delta''), (''partial_json'', JStr args)])]"

definition handle_call ::
  "(string \<Rightarrow> json_map option) \<Rightarrow> (json_map \<Rightarrow> string) \<Rightarrow> go_time \<Rightarrow> tool_call \<Rightarrow> tool_manager \<Rightarrow>
     tool_manager \<times> json_map list" where
  "handle_call parse pr now c m =
     (let args = (case parse (tc_arguments c) of Some a \<Rightarrow> a | None \<Rightarrow> [])
      in case map_of (tm_active m) (tc_id c) of
           Some ex \<Rightarrow>
             (if args \<noteq> []
              then m \<lparr> tm_active := AList.update (tc_id c) (ex \<lparr> te_arguments := args \<rparr>) (tm_active m) \<rparr>
              else m, [])
         | None \<Rightarrow>
             (let (m, i) = getOrAssignBlockIndex (tc_id c) m;
                  ex = \<lparr> te_id = tc_id c, te_name = tc_name c, te_start = now, te_end = None,
                         te_status = ToolStatusRunning, te_arguments = args, te_result = JNull,
                         te_error = '''', te_block = i \<rparr>
              in (m \<lparr> tm_active := AList.update (tc_id c) ex (tm_active m) \<rparr>,
                  tool_start_event i c # (if args \<noteq> [] then [tool_delta_event i (pr args)] else []))))"

fun handle_calls ::
  "(string \<Rightarrow> json_map option) \<Rightarrow> (json_map \<Rightarrow> string) \<Rightarrow> go_time \<Rightarrow> tool_call list \<Rightarrow> tool_manager \<Rightarrow>
     tool_manager \<times> json_map list" where
  "handle_calls parse pr now [] m = (m, [])"
| "handle_calls parse pr now (c # cs) m =
     (let (m, evs) = handle_call parse pr now c m;
          (m, evs') = handle_calls parse pr now cs m
      in (m, evs @ evs'))"

definition HandleToolCallRequest ::
  "(string \<Rightarrow> json_map option) \<Rightarrow> (json_map \<Rightarrow> string) \<Rightarrow> go_time \<Rightarrow> tool_call list \<Rightarrow> tool_manager \<Rightarrow>
     tool_manager \<times> json_map list" where
  "HandleToolCallRequest parse pr now calls m =
     handle_calls parse pr now calls (m \<lparr> tm_intro := tm_intro m \<or> calls \<noteq> [] \<rparr>)"

definition finish_tool :: "string \<Rightarrow> tool_execution \<Rightarrow> tool_manager \<Rightarrow> tool_manager" where
  "finish_tool i ex m =
     m \<lparr> tm_completed := AList.update i ex (tm_completed m), tm_active := AList.delete i (tm_active m) \<rparr>"

definition HandleToolCallResult ::
  "go_time \<Rightarrow> string \<Rightarrow> json \<Rightarrow> tool_manager \<Rightarrow> tool_manager \<times> json_map list" where
  "HandleToolCallResult now toolID result m =
     (case map_of (tm_active m) toolID of
        None \<Rightarrow> (m, [])
      | Some ex \<Rightarrow>
          (finish_tool toolID (ex \<lparr> te_end := Some now, te_result := result,
                                    te_status := ToolStatusCompleted \<rparr>) m,
           [stop_event (te_block ex)]))"

definition tool_error_event :: "string \<Rightarrow> string \<Rightarrow> json_map" where
  "tool_error_event toolID msg =
     [(''type'', JStr ''error''),
      (''error'', JObj [(''type'', JStr ''tool_error''), (''message'', JStr msg),
                        (''tool_call_id'', JStr toolID)])]"

definition HandleToolCallError ::
  "go_time \<Rightarrow> string \<Rightarrow> string \<Rightarrow> tool_manager \<Rightarrow> tool_manager \<times> json_map list" where
  "HandleToolCallError now toolID msg m =
     (case map_of (tm_active m) toolID of
        None \<Rightarrow> (m, [])
      | Some ex \<Rightarrow>
          (finish_tool toolID (ex \<lparr> te_end := Some now, te_error := msg, te_status := ToolStatusError \<rparr>) m,
           [tool_error_event toolID msg, stop_event (te_block ex)]))"

definition UpdateToolArguments :: "string \<Rightarrow> json_map \<Rightarrow> tool_manager \<Rightarrow> tool_manager" where
  "UpdateToolArguments toolID args m =
     (case map_of (tm_active m) toolID of
        Some ex \<Rightarrow> m \<lparr> tm_active := AList.update toolID (ex \<lparr> te_arguments := args \<rparr>) (tm_active m) \<rparr>
      | None \<Rightarrow>
          (case map_of (tm_completed m) toolID of
             Some ex \<Rightarrow>
               m \<lparr> tm_completed := AList.update toolID (ex \<lparr> te_arguments := args \<rparr>) (tm_completed m) \<rparr>
           | None \<Rightarrow> m))"

definition UpdateToolArgumentsFromJSON ::
  "(string \<Rightarrow> json_map option) \<Rightarrow> string \<Rightarrow> string \<Rightarrow> tool_manager \<Rightarrow> tool_manager" where
  "UpdateToolArgumentsFromJSON parse toolID js m =
     (case parse js of None \<Rightarrow> m | Some args \<Rightarrow> UpdateToolArguments toolID args m)"

text \<open>Of the summary, the counts and the time in milliseconds; the success rate is a floating-point
  quotient of them.\<close>

definition milliseconds :: "int \<Rightarrow> int" where
  "milliseconds d = sgn d * (\<bar>d\<bar> div 1000000)"

definition GenerateToolSummary :: "tool_manager \<Rightarrow> nat \<times> nat \<times> nat \<times> int" where
  "GenerateToolSummary m =
     (length (tm_active m), length (tm_completed m),
      length (filter (\<lambda>p. te_status (snd p) = ToolStatusError) (tm_completed m)),
      sum_list (map (\<lambda>p. case te_end (snd p) of
                           Some e \<Rightarrow> milliseconds (e - te_start (snd p))
                         | None \<Rightarrow> 0) (tm_completed m)))"

section \<open>One block per tool\<close>

datatype tool_op =
    Request "tool_call list"
  | Result string json
  | Failure string string
  | Arguments string json_map

primrec tool_step ::
  "(string \<Rightarrow> json_map option) \<Rightarrow> (json_map \<Rightarrow> string) \<Rightarrow> go_time \<Rightarrow> tool_op \<Rightarrow> tool_manager \<Rightarrow>
     tool_manager \<times> json_map list" where
  "tool_step parse pr now (Request calls) m = HandleToolCallRequest parse pr now calls m"
| "tool_step parse pr now (Result i r) m = HandleToolCallResult now i r m"
| "tool_step parse pr now (Failure i e) m = HandleToolCallError now i e m"
| "tool_step parse pr now (Arguments i a) m = (UpdateToolArguments i a m, [])"

text \<open>All operations with their times, and all events, newest first.\<close>

fun tool_run ::
  "(string \<Rightarrow> json_map option) \<Rightarrow> (json_map \<Rightarrow> string) \<Rightarrow> (go_time \<times> tool_op) list \<Rightarrow>
     tool_manager \<times> json_map list \<Rightarrow> tool_manager \<times> json_map list" where
  "tool_run parse pr [] s = s"
| "tool_run parse pr ((now, oper) # ops) (m, out) =
     (let (m, evs) = tool_step parse pr now oper m in tool_run parse pr ops (m, rev evs @ out))"

definition tools_wf :: "tool_manager \<Rightarrow> bool" where
  "tools_wf m \<longleftrightarrow> wf_map (tm_active m) \<and> wf_map (tm_index m) \<and>
     inj_on (\<lambda>i. map_of (tm_index m) i) (dom (map_of (tm_index m))) \<and>
     (\<forall>i k. map_of (tm_index m) i = Some k \<longrightarrow> 1 \<le> k \<and> k < tm_next m) \<and> 1 \<le> tm_next m \<and>
     (\<forall>i ex. map_of (tm_active m) i = Some ex \<longrightarrow> map_of (tm_index m) i = Some (te_block ex))"

definition tool_blocks :: "tool_manager \<Rightarrow> int set" where
  "tool_blocks m = {te_block ex | i ex. map_of (tm_active m) i = Some ex}"

text \<open>What a client that has seen the message begin thinks is open.\<close>

definition tools_in_step :: "tool_manager \<times> json_map list \<Rightarrow> bool" where
  "tools_in_step s \<longleftrightarrow> tools_wf (fst s) \<and>
     client_view_of (snd s) =
       Some \<lparr> cv_begun = True, cv_open = tool_blocks (fst s), cv_delta = False, cv_done = False \<rparr>"

lemma tools_same_block:
  assumes "tools_wf m" and "map_of (tm_active m) i = Some ex" and "map_of (tm_active m) j = Some ex'"
    and "te_block ex = te_block ex'"
  shows "i = j"
proof -
  have "map_of (tm_index m) i = Some (te_block ex)" "map_of (tm_index m) j = Some (te_block ex)"
    using assms by (simp_all add: tools_wf_def)
  moreover have "inj_on (\<lambda>i. map_of (tm_index m) i) (dom (map_of (tm_index m)))"
    using assms(1) by (simp add: tools_wf_def)
  ultimately show ?thesis unfolding inj_on_def by (metis domI)
qed

lemma tool_blocks_iff: "k \<in> tool_blocks m \<longleftrightarrow> (\<exists>i ex. map_of (tm_active m) i = Some ex \<and> te_block ex = k)"
  by (auto simp: tool_blocks_def)

lemma update_active_blocks:
  assumes "map_of (tm_active m) i = Some ex" and "te_block ex' = te_block ex"
  shows "tool_blocks (m \<lparr> tm_active := AList.update i ex' (tm_active m) \<rparr>) = tool_blocks m"
proof -
  have "(\<exists>j x. ((map_of (tm_active m))(i \<mapsto> ex')) j = Some x \<and> te_block x = k) \<longleftrightarrow>
        (\<exists>j x. map_of (tm_active m) j = Some x \<and> te_block x = k)" for k
    using assms by (metis fun_upd_apply option.inject)
  then show ?thesis by (simp add: set_eq_iff tool_blocks_iff update_conv' del: fun_upd_apply)
qed

lemma update_active_wf:
  assumes "tools_wf m" and "map_of (tm_active m) i = Some ex" and "te_block ex' = te_block ex"
  shows "tools_wf (m \<lparr> tm_active := AList.update i ex' (tm_active m) \<rparr>)"
  using assms by (auto simp: tools_wf_def map_of_update wf_intros)

lemma index_assigned:
  assumes "tools_wf m" and "map_of (tm_active m) t = None" and "getOrAssignBlockIndex t m = (m', i)"
  shows "tools_wf m'" and "tm_active m' = tm_active m" and "map_of (tm_index m') t = Some i"
    and "i \<notin> tool_blocks m" and "0 \<le> i"
proof -
  have wf: "inj_on (\<lambda>i. map_of (tm_index m) i) (dom (map_of (tm_index m)))"
    "\<And>j k. map_of (tm_index m) j = Some k \<Longrightarrow> 1 \<le> k \<and> k < tm_next m" "1 \<le> tm_next m"
    "\<And>j ex. map_of (tm_active m) j = Some ex \<Longrightarrow> map_of (tm_index m) j = Some (te_block ex)"
    using assms(1) unfolding tools_wf_def by blast+
  have both: "tools_wf m' \<and> tm_active m' = tm_active m \<and> map_of (tm_index m') t = Some i \<and>
      i \<notin> tool_blocks m \<and> 0 \<le> i"
  proof (cases "map_of (tm_index m) t")
    case (Some k)
    have "k \<notin> tool_blocks m"
    proof
      assume "k \<in> tool_blocks m"
      then obtain j ex where j: "map_of (tm_active m) j = Some ex" "te_block ex = k"
        by (auto simp: tool_blocks_def)
      then have "map_of (tm_index m) j = map_of (tm_index m) t" using wf(4) Some by simp
      then have "j = t" using wf(1) Some unfolding inj_on_def by (metis domI)
      then show False using assms(2) j by simp
    qed
    moreover have "0 \<le> k" using wf(2) [OF Some] by simp
    ultimately show ?thesis using assms(1,3) Some by (auto simp: getOrAssignBlockIndex_def)
  next
    case None
    then have m': "m' = m \<lparr> tm_index := AList.update t (tm_next m) (tm_index m), tm_next := tm_next m + 1 \<rparr>"
      "i = tm_next m" using assms(3) by (auto simp: getOrAssignBlockIndex_def Let_def)
    have fresh: "map_of (tm_index m) j \<noteq> Some (tm_next m)" for j using wf(2) by fastforce
    have "tools_wf m'"
      unfolding tools_wf_def m'
    proof (intro conjI)
      show "inj_on (map_of (tm_index (m \<lparr> tm_index := AList.update t (tm_next m) (tm_index m), tm_next := tm_next m + 1 \<rparr>)))
          (dom (map_of (tm_index (m \<lparr> tm_index := AList.update t (tm_next m) (tm_index m), tm_next := tm_next m + 1 \<rparr>))))"
        using wf(1) fresh None by (auto simp: inj_on_def map_of_update dom_def split: if_splits)
      show "\<forall>j k. map_of (tm_index (m \<lparr> tm_index := AList.update t (tm_next m) (tm_index m),
          tm_next := tm_next m + 1 \<rparr>)) j = Some k \<longrightarrow> 1 \<le> k \<and>
          k < tm_next (m \<lparr> tm_index := AList.update t (tm_next m) (tm_index m), tm_next := tm_next m + 1 \<rparr>)"
        using wf(2,3) by (force simp: map_of_update split: if_splits)
    qed (use assms(1,2) wf in \<open>auto simp: tools_wf_def map_of_update wf_intros split: if_splits\<close>)
    moreover have "tm_next m \<notin> tool_blocks m" using wf(4) fresh by (force simp: tool_blocks_def)
    ultimately show ?thesis using m' wf(3) by (simp add: map_of_update)
  qed
  then show "tools_wf m'" and "tm_active m' = tm_active m" and "map_of (tm_index m') t = Some i"
    and "i \<notin> tool_blocks m" and "0 \<le> i" by blast+
qed

lemma tool_events [simp]:
  "string_or '''' (tool_start_event i c) ''type'' = ''content_block_start''"
  "extractIndex (tool_start_event i c) = i"
  "string_or '''' (tool_delta_event i a) ''type'' = ''content_block_delta''"
  "extractIndex (tool_delta_event i a) = i"
  "string_or '''' (tool_error_event t e) ''type'' = ''error''"
  by (simp_all add: tool_start_event_def tool_delta_event_def tool_error_event_def string_or_def
      get_string_def extractIndex_def)

lemma handle_call_step:
  assumes "tools_in_step (m, out)" and "handle_call parse pr now c m = (m', evs)"
  shows "tools_in_step (m', rev evs @ out)"
proof (cases "map_of (tm_active m) (tc_id c)")
  case (Some ex)
  define args where "args = (case parse (tc_arguments c) of Some a \<Rightarrow> a | None \<Rightarrow> [])"
  have "evs = []" "m' = m \<or> m' = m \<lparr> tm_active := AList.update (tc_id c) (ex \<lparr> te_arguments := args \<rparr>) (tm_active m) \<rparr>"
    using assms(2) Some by (auto simp: handle_call_def Let_def args_def split: if_splits)
  then show ?thesis
    using assms(1) update_active_blocks [OF Some, of "ex \<lparr> te_arguments := args \<rparr>"]
      update_active_wf [OF _ Some, of "ex \<lparr> te_arguments := args \<rparr>"]
    by (auto simp: tools_in_step_def)
next
  case None
  obtain m1 i where idx: "getOrAssignBlockIndex (tc_id c) m = (m1, i)" by fastforce
  have wf: "tools_wf m" using assms(1) by (simp add: tools_in_step_def)
  note a = index_assigned [OF wf None idx]
  define args where "args = (case parse (tc_arguments c) of Some a \<Rightarrow> a | None \<Rightarrow> [])"
  define ex where "ex = \<lparr> te_id = tc_id c, te_name = tc_name c, te_start = now, te_end = None,
      te_status = ToolStatusRunning, te_arguments = args, te_result = JNull, te_error = '''', te_block = i \<rparr>"
  have ex: "te_block ex = i" by (simp add: ex_def)
  have m': "m' = m1 \<lparr> tm_active := AList.update (tc_id c) ex (tm_active m1) \<rparr>"
    and evs: "evs = tool_start_event i c # (if args \<noteq> [] then [tool_delta_event i (pr args)] else [])"
    using assms(2) None idx unfolding args_def [symmetric] ex_def handle_call_def Let_def by simp_all
  have "(\<exists>j x. ((map_of (tm_active m))(tc_id c \<mapsto> ex)) j = Some x \<and> te_block x = k) \<longleftrightarrow>
        k = i \<or> (\<exists>j x. map_of (tm_active m) j = Some x \<and> te_block x = k)" for k
    using ex None by (metis fun_upd_apply option.distinct(1) option.inject)
  then have "tool_blocks m' = insert i (tool_blocks m)"
    using a(2) by (simp add: set_eq_iff tool_blocks_iff m' update_conv' del: fun_upd_apply)
  moreover have "tools_wf m'" using a(1,3) ex by (auto simp: tools_wf_def m' map_of_update wf_intros)
  ultimately show ?thesis
    using assms(1) a(4) by (simp add: tools_in_step_def evs client_step_def Let_def)
qed

lemma handle_calls_step:
  "tools_in_step (m, out) \<Longrightarrow> handle_calls parse pr now cs m = (m', evs) \<Longrightarrow> tools_in_step (m', rev evs @ out)"
proof (induction cs arbitrary: m out evs)
  case (Cons c cs)
  obtain m1 e1 where one: "handle_call parse pr now c m = (m1, e1)" by fastforce
  obtain e2 where two: "handle_calls parse pr now cs m1 = (m', e2)" "evs = e1 @ e2"
    using Cons.prems(2) one by (auto simp: Let_def split: prod.splits)
  from Cons.IH [OF handle_call_step [OF Cons.prems(1) one] two(1)] two(2) show ?case by simp
qed simp

lemma finish_step:
  assumes "tools_in_step (m, out)" and "map_of (tm_active m) t = Some ex"
  shows "tools_in_step (finish_tool t ex' m, stop_event (te_block ex) # out)"
proof -
  have wf: "tools_wf m" using assms(1) by (simp add: tools_in_step_def)
  have "(\<exists>j x. ((map_of (tm_active m))(t := None)) j = Some x \<and> te_block x = k) \<longleftrightarrow>
        (\<exists>j x. map_of (tm_active m) j = Some x \<and> te_block x = k) \<and> k \<noteq> te_block ex" for k
    using tools_same_block [OF wf assms(2)] assms(2) by (metis fun_upd_apply option.distinct(1) option.inject)
  then have "tool_blocks (finish_tool t ex' m) = tool_blocks m - {te_block ex}"
    by (simp add: set_eq_iff tool_blocks_iff finish_tool_def delete_conv' del: fun_upd_apply)
  moreover have "te_block ex \<in> tool_blocks m" using assms(2) by (auto simp: tool_blocks_def)
  moreover have "tools_wf (finish_tool t ex' m)"
    using wf by (auto simp: tools_wf_def finish_tool_def map_of_del wf_intros split: if_splits)
  ultimately show ?thesis using assms(1) by (simp add: tools_in_step_def client_step_def Let_def)
qed

lemma tool_step_ok:
  assumes "tools_in_step (m, out)" and "tool_step parse pr now oper m = (m', evs)"
  shows "tools_in_step (m', rev evs @ out)"
proof (cases oper)
  case (Request calls)
  have "tools_in_step (m \<lparr> tm_intro := b \<rparr>, out)" for b
    using assms(1) by (simp add: tools_in_step_def tools_wf_def tool_blocks_def)
  then show ?thesis
    using handle_calls_step [where m = "m \<lparr> tm_intro := tm_intro m \<or> calls \<noteq> [] \<rparr>"] assms(2) Request
    by (simp only: HandleToolCallRequest_def tool_step.simps)
next
  case (Result i r)
  then show ?thesis
    using assms finish_step [OF assms(1), of i]
    by (auto simp: HandleToolCallResult_def split: option.splits)
next
  case (Failure i e)
  have other: "tools_in_step (m, tool_error_event i e # out)"
    using assms(1) by (simp add: tools_in_step_def client_step_def Let_def)
  show ?thesis
    using assms Failure finish_step [OF other, of i]
    by (auto simp: HandleToolCallError_def split: option.splits)
next
  case (Arguments i a)
  then have m': "m' = UpdateToolArguments i a m" "evs = []" using assms(2) by simp_all
  have "tools_in_step (m \<lparr> tm_completed := c \<rparr>, out)" for c
    using assms(1) by (simp add: tools_in_step_def tools_wf_def tool_blocks_def)
  moreover have "tools_in_step (m \<lparr> tm_active := AList.update i (ex \<lparr> te_arguments := a \<rparr>) (tm_active m) \<rparr>, out)"
    if "map_of (tm_active m) i = Some ex" for ex
    using assms(1) update_active_blocks [OF that, of "ex \<lparr> te_arguments := a \<rparr>"]
      update_active_wf [OF _ that, of "ex \<lparr> te_arguments := a \<rparr>"]
    by (simp add: tools_in_step_def del: map_of_eq_Some_iff)
  ultimately show ?thesis
    using assms(1) m' by (simp add: UpdateToolArguments_def del: map_of_eq_Some_iff split: option.split)
qed

lemma tool_run_ok: "tools_in_step s \<Longrightarrow> tools_in_step (tool_run parse pr ops s)"
proof (induction ops arbitrary: s)
  case (Cons x ops)
  obtain now oper where x: "x = (now, oper)" by fastforce
  obtain m out where s: "s = (m, out)" by fastforce
  obtain m' evs where step: "tool_step parse pr now oper m = (m', evs)" by fastforce
  have "tools_in_step (m', rev evs @ out)" using tool_step_ok [OF _ step] Cons.prems s by simp
  from Cons.IH [OF this] step show ?case by (simp add: x s)
qed simp

text \<open>C15: However calls, results and errors of tools interleave, every running tool has a content block of
  its own, and the open blocks are exactly those of the tools still running: the client sees the
  starts and stops of a block alternate, beginning with a start, and deltas only in between.  (A
  tool identifier requested again after its result reuses its block, which then opens again.)\<close>

theorem tool_blocks_balanced:
  "\<exists>m out. tool_run parse pr ops (NewToolLifecycleManager, [[(''type'', JStr ''message_start'')]]) = (m, out) \<and>
     client_view_of out = Some \<lparr> cv_begun = True, cv_open = tool_blocks m, cv_delta = False, cv_done = False \<rparr> \<and>
     card (tool_blocks m) = length (tm_active m)"
proof -
  let ?s = "(NewToolLifecycleManager, [[(''type'', JStr ''message_start'')]])"
  have "tools_in_step ?s"
    by (simp add: tools_in_step_def tools_wf_def tool_blocks_def NewToolLifecycleManager_def client_step_def
        string_or_def get_string_def Let_def)
  then have ok: "tools_in_step (tool_run parse pr ops ?s)" by (rule tool_run_ok)
  obtain m out where run: "tool_run parse pr ops ?s = (m, out)" by fastforce
  have wf: "tools_wf m" using ok run by (simp add: tools_in_step_def)
  let ?f = "\<lambda>i. te_block (the (map_of (tm_active m) i))"
  have "tool_blocks m = ?f ` set (map fst (tm_active m))"
    by (force simp: tool_blocks_def image_iff dom_map_of_conv_image_fst [symmetric] simp del: map_of_eq_Some_iff)
  moreover have "inj_on ?f (set (map fst (tm_active m)))"
  proof (rule inj_onI)
    fix i j assume "i \<in> set (map fst (tm_active m))" "j \<in> set (map fst (tm_active m))" and eq: "?f i = ?f j"
    then obtain ei ej where "map_of (tm_active m) i = Some ei" "map_of (tm_active m) j = Some ej"
      by (metis map_of_eq_None_iff not_None_eq set_map)
    then show "i = j" using tools_same_block [OF wf] eq by simp
  qed
  moreover have "card (set (map fst (tm_active m))) = length (tm_active m)"
    using wf distinct_card [of "map fst (tm_active m)"] by (simp add: tools_wf_def)
  ultimately have "card (tool_blocks m) = length (tm_active m)" by (metis card_image)
  then show ?thesis using run ok by (simp add: tools_in_step_def)
qed

end
