(* ===== verification/Request_Tracker.thy ===== *)
theory Request_Tracker
  imports Prelude
begin

text \<open>
  The tracker that lets the server shut down gracefully, \<^verbatim>\<open>internal/core/request_tracker.go\<close>, in the
  atomic steps of its goroutines: the requests, which enter with \<open>Add\<close> and leave with \<open>Done\<close>, and the one
  that shuts down.  \<open>tk_wg\<close> is the counter of the wait group, \<open>tk_notify\<close> the messages waiting in the
  notify channel (\<open>None\<close>: no channel yet).
\<close>

section \<open>State\<close>

text \<open>Where a request stands: in \<open>Add\<close> it has read the flag (\<open>Checked\<close>) and joined the wait group
  (\<open>Joined\<close>); in \<open>Done\<close> it has been subtracted (\<open>Uncounted\<close>) and has left the group (\<open>Parted\<close>).\<close>

datatype request_pc = Outside | Checked | Joined | Running | Uncounted | Parted | Gone | Refused

datatype shutdown_pc =
    NotStarted | Armed | Flagged | Closed | Waiting | Draining | Returned bool

record tracker =
  tk_active :: int
  tk_wg :: int
  tk_shutdown :: bool
  tk_closed :: bool
  tk_notify :: "nat option"
  tk_requests :: "request_pc list"
  tk_pc :: shutdown_pc
  tk_done :: bool

definition NewRequestTracker :: tracker where
  "NewRequestTracker =
     \<lparr> tk_active = 0, tk_wg = 0, tk_shutdown = False, tk_closed = False, tk_notify = None,
       tk_requests = [], tk_pc = NotStarted, tk_done = False \<rparr>"

definition at_pc :: "nat \<Rightarrow> request_pc \<Rightarrow> tracker \<Rightarrow> bool" where
  "at_pc i p t = (i < length (tk_requests t) \<and> tk_requests t ! i = p)"

definition go_pc :: "nat \<Rightarrow> request_pc \<Rightarrow> tracker \<Rightarrow> tracker" where
  "go_pc i p t = t \<lparr> tk_requests := (tk_requests t)[i := p] \<rparr>"

section \<open>The steps\<close>

definition Add_check :: "nat \<Rightarrow> tracker \<Rightarrow> tracker" where
  "Add_check i t = go_pc i (if tk_shutdown t then Refused else Checked) t"

definition Add_join :: "nat \<Rightarrow> tracker \<Rightarrow> tracker" where
  "Add_join i t = go_pc i Joined (t \<lparr> tk_wg := tk_wg t + 1 \<rparr>)"

definition Add_count :: "nat \<Rightarrow> tracker \<Rightarrow> tracker" where
  "Add_count i t = go_pc i Running (t \<lparr> tk_active := tk_active t + 1 \<rparr>)"

definition Done_uncount :: "nat \<Rightarrow> tracker \<Rightarrow> tracker" where
  "Done_uncount i t = go_pc i Uncounted (t \<lparr> tk_active := tk_active t - 1 \<rparr>)"

definition Done_leave :: "nat \<Rightarrow> tracker \<Rightarrow> tracker" where
  "Done_leave i t = go_pc i Parted (t \<lparr> tk_wg := tk_wg t - 1 \<rparr>)"

definition Done_notify :: "nat \<Rightarrow> tracker \<Rightarrow> tracker" where
  "Done_notify i t =
     go_pc i Gone
       (if tk_shutdown t
        then (case tk_notify t of
                Some n \<Rightarrow> if n < 100 then t \<lparr> tk_notify := Some (n + 1) \<rparr> else t
              | None \<Rightarrow> t)
        else t)"

definition set_pc :: "shutdown_pc \<Rightarrow> tracker \<Rightarrow> tracker" where
  "set_pc p t = t \<lparr> tk_pc := p \<rparr>"

definition Shutdown_arm :: "tracker \<Rightarrow> tracker" where
  "Shutdown_arm t = set_pc Armed (t \<lparr> tk_notify := Some 0 \<rparr>)"

definition Shutdown_flag :: "tracker \<Rightarrow> tracker" where
  "Shutdown_flag t = set_pc Flagged (t \<lparr> tk_shutdown := True \<rparr>)"

definition Shutdown_close :: "tracker \<Rightarrow> tracker" where
  "Shutdown_close t = set_pc Closed (t \<lparr> tk_closed := True \<rparr>)"

text \<open>\<open>GracefulShutdown\<close> looks at the count first; \<open>WaitWithTimeout\<close> and \<open>WaitWithContext\<close>, which make
  no notify channel, wait at once.\<close>

definition Shutdown_look :: "tracker \<Rightarrow> tracker" where
  "Shutdown_look t =
     set_pc (if tk_notify t \<noteq> None \<and> tk_active t = 0 then Returned True else Waiting) t"

definition Shutdown_notified :: "tracker \<Rightarrow> tracker" where
  "Shutdown_notified t =
     set_pc (if tk_active t = 0 then Draining else Waiting)
       (t \<lparr> tk_notify := map_option (\<lambda>n. n - 1) (tk_notify t) \<rparr>)"

text \<open>One step of any goroutine.  \<open>group_done\<close> is the goroutine that waits for the group.\<close>

inductive tracker_step :: "tracker \<Rightarrow> tracker \<Rightarrow> bool" where
  arrive: "tracker_step t (t \<lparr> tk_requests := tk_requests t @ [Outside] \<rparr>)"
| check: "at_pc i Outside t \<Longrightarrow> tracker_step t (Add_check i t)"
| enter: "at_pc i Checked t \<Longrightarrow> tracker_step t (Add_join i t)"
| count: "at_pc i Joined t \<Longrightarrow> tracker_step t (Add_count i t)"
| uncount: "at_pc i Running t \<Longrightarrow> tracker_step t (Done_uncount i t)"
| leave: "at_pc i Uncounted t \<Longrightarrow> tracker_step t (Done_leave i t)"
| report: "at_pc i Parted t \<Longrightarrow> tracker_step t (Done_notify i t)"
| arm: "tk_pc t = NotStarted \<Longrightarrow> tracker_step t (Shutdown_arm t)"
| flag: "tk_pc t \<in> {NotStarted, Armed} \<Longrightarrow> tracker_step t (Shutdown_flag t)"
| close: "tk_pc t = Flagged \<Longrightarrow> tracker_step t (Shutdown_close t)"
| look: "tk_pc t = Closed \<Longrightarrow> tracker_step t (Shutdown_look t)"
| group_done: "tk_pc t \<in> {Waiting, Draining} \<Longrightarrow> tk_wg t = 0 \<Longrightarrow> tracker_step t (t \<lparr> tk_done := True \<rparr>)"
| finished: "tk_pc t \<in> {Waiting, Draining} \<Longrightarrow> tk_done t \<Longrightarrow> tracker_step t (set_pc (Returned True) t)"
| notified: "tk_pc t = Waiting \<Longrightarrow> tk_notify t = Some (Suc n) \<Longrightarrow> tracker_step t (Shutdown_notified t)"
| deadline: "tk_pc t = Waiting \<Longrightarrow> tracker_step t (set_pc (Returned False) t)"

inductive tracker_reach :: "tracker \<Rightarrow> bool" where
  new: "tracker_reach NewRequestTracker"
| step: "tracker_reach t \<Longrightarrow> tracker_step t t' \<Longrightarrow> tracker_reach t'"

section \<open>The counters are exact\<close>

definition standing :: "request_pc set \<Rightarrow> tracker \<Rightarrow> nat" where
  "standing ps t = length (filter (\<lambda>p. p \<in> ps) (tk_requests t))"

lemma length_filter_update:
  "i < length xs \<Longrightarrow>
   int (length (filter P (xs[i := q]))) =
     int (length (filter P xs)) - (if P (xs ! i) then 1 else 0) + (if P q then 1 else 0)"
proof (induction xs arbitrary: i)
  case (Cons x xs)
  show ?case
  proof (cases i)
    case (Suc j)
    show ?thesis using Cons.IH [of j] Cons.prems Suc by (auto split: if_splits)
  qed simp
qed simp

lemma standing_go:
  "at_pc i p t \<Longrightarrow> int (standing ps (go_pc i q t)) =
    int (standing ps t) - (if p \<in> ps then 1 else 0) + (if q \<in> ps then 1 else 0)"
  using length_filter_update [of i "tk_requests t" "\<lambda>p. p \<in> ps" q]
  by (simp add: standing_def go_pc_def at_pc_def)

lemma standing_same [simp]:
  "standing ps (t \<lparr> tk_active := a \<rparr>) = standing ps t" "standing ps (t \<lparr> tk_wg := a \<rparr>) = standing ps t"
  "standing ps (t \<lparr> tk_notify := n \<rparr>) = standing ps t" "standing ps (t \<lparr> tk_done := b \<rparr>) = standing ps t"
  "standing ps (t \<lparr> tk_shutdown := b \<rparr>) = standing ps t" "standing ps (t \<lparr> tk_closed := b \<rparr>) = standing ps t"
  "standing ps (set_pc pc t) = standing ps t"
  by (simp_all add: standing_def set_pc_def)

lemma at_pc_same [simp]:
  "at_pc i p (t \<lparr> tk_active := a \<rparr>) = at_pc i p t" "at_pc i p (t \<lparr> tk_wg := a \<rparr>) = at_pc i p t"
  "at_pc i p (t \<lparr> tk_notify := n \<rparr>) = at_pc i p t"
  by (simp_all add: at_pc_def)

lemma tracker_sel [simp]:
  "tk_active (go_pc i p t) = tk_active t" "tk_wg (go_pc i p t) = tk_wg t"
  "tk_shutdown (go_pc i p t) = tk_shutdown t" "tk_closed (go_pc i p t) = tk_closed t"
  "tk_pc (go_pc i p t) = tk_pc t" "tk_done (go_pc i p t) = tk_done t"
  "tk_notify (go_pc i p t) = tk_notify t"
  "tk_active (set_pc q t) = tk_active t" "tk_wg (set_pc q t) = tk_wg t"
  "tk_shutdown (set_pc q t) = tk_shutdown t" "tk_closed (set_pc q t) = tk_closed t"
  "tk_pc (set_pc q t) = q" "tk_done (set_pc q t) = tk_done t" "tk_notify (set_pc q t) = tk_notify t"
  by (simp_all add: go_pc_def set_pc_def)

lemmas tracker_steps = Add_check_def Add_join_def Add_count_def Done_uncount_def Done_leave_def
  Done_notify_def Shutdown_arm_def Shutdown_flag_def Shutdown_close_def Shutdown_look_def
  Shutdown_notified_def

definition counts_exact :: "tracker \<Rightarrow> bool" where
  "counts_exact t \<longleftrightarrow> tk_active t = int (standing {Running} t) \<and>
     tk_wg t = int (standing {Joined, Running, Uncounted} t) \<and>
     (tk_shutdown t \<longleftrightarrow> tk_pc t \<notin> {NotStarted, Armed}) \<and>
     (tk_closed t \<longleftrightarrow> tk_pc t \<notin> {NotStarted, Armed, Flagged}) \<and>
     (tk_done t \<longrightarrow> tk_pc t \<notin> {NotStarted, Armed, Flagged, Closed})"

lemma standing_arrive [simp]:
  "standing ps (t \<lparr> tk_requests := tk_requests t @ [p] \<rparr>) = standing ps t + (if p \<in> ps then 1 else 0)"
  by (simp add: standing_def)

lemma counts_exact_step: "tracker_step t t' \<Longrightarrow> counts_exact t \<Longrightarrow> counts_exact t'"
  by (induction rule: tracker_step.induct)
    (auto simp: counts_exact_def tracker_steps standing_go split: option.splits)

lemma tracker_reach_exact: "tracker_reach t \<Longrightarrow> counts_exact t"
proof (induction rule: tracker_reach.induct)
  case new
  show ?case by (simp add: counts_exact_def NewRequestTracker_def standing_def)
qed (rule counts_exact_step)

section \<open>A clean shutdown\<close>

definition shut_clean :: "tracker \<Rightarrow> bool" where
  "shut_clean t \<longleftrightarrow> counts_exact t \<and> tk_shutdown t \<and> standing {Checked, Joined} t = 0 \<and>
     (tk_done t \<or> tk_pc t \<in> {Draining, Returned True} \<longrightarrow> standing {Running} t = 0)"

lemma length_filter_mono_subset:
  "ps \<subseteq> qs \<Longrightarrow> length (filter (\<lambda>p. p \<in> ps) xs) \<le> length (filter (\<lambda>p. p \<in> qs) xs)"
  by (induction xs) auto

lemma standing_mono: "ps \<subseteq> qs \<Longrightarrow> standing ps t \<le> standing qs t"
  unfolding standing_def by (rule length_filter_mono_subset)

lemma standing_disjoint:
  assumes "ps \<inter> qs = {}"
  shows "standing (ps \<union> qs) t = standing ps t + standing qs t"
proof -
  have "length (filter (\<lambda>p. p \<in> ps \<union> qs) xs) =
      length (filter (\<lambda>p. p \<in> ps) xs) + length (filter (\<lambda>p. p \<in> qs) xs)" for xs
    using assms by (induction xs) auto
  then show ?thesis by (simp add: standing_def)
qed

lemma standing_zero: "standing ps t = 0 \<Longrightarrow> p \<in> ps \<Longrightarrow> \<not> at_pc i p t"
  by (auto simp: standing_def at_pc_def filter_empty_conv)

lemma shut_clean_step: "tracker_step t t' \<Longrightarrow> shut_clean t \<Longrightarrow> shut_clean t'"
proof -
  assume step: "tracker_step t t'" and clean: "shut_clean t"
  have exact: "counts_exact t" and shut: "tk_shutdown t" and none: "standing {Checked, Joined} t = 0"
    and idle: "tk_done t \<or> tk_pc t \<in> {Draining, Returned True} \<Longrightarrow> standing {Running} t = 0"
    using clean by (simp_all add: shut_clean_def)
  have out: "\<not> at_pc i Checked t" "\<not> at_pc i Joined t" for i using standing_zero [OF none] by simp_all
  have zero: "tk_wg t = 0 \<Longrightarrow> standing {Running} t = 0" "tk_active t = 0 \<Longrightarrow> standing {Running} t = 0"
    using exact standing_mono [of "{Running}" "{Joined, Running, Uncounted}" t] by (simp_all add: counts_exact_def)
  have moves: "standing {Checked, Joined} (go_pc i q t) = 0 \<and>
      (standing {Running} t = 0 \<longrightarrow> standing {Running} (go_pc i q t) = 0)"
    if "at_pc i p t" "p \<in> {Outside, Running, Uncounted, Parted}" "q \<in> {Refused, Uncounted, Parted, Gone}" for i p q
    using standing_go [OF that(1), of "{Checked, Joined}" q] standing_go [OF that(1), of "{Running}" q] none that(2,3)
    by auto
  have go: "go_pc i q (t \<lparr> tk_active := a \<rparr>) = (go_pc i q t) \<lparr> tk_active := a \<rparr>"
    "go_pc i q (t \<lparr> tk_wg := a \<rparr>) = (go_pc i q t) \<lparr> tk_wg := a \<rparr>"
    "go_pc i q (t \<lparr> tk_notify := n \<rparr>) = (go_pc i q t) \<lparr> tk_notify := n \<rparr>" for i q a n
    by (simp_all add: go_pc_def)
  have pcs: "tk_done t \<Longrightarrow> tk_pc t \<notin> {NotStarted, Armed, Flagged, Closed}" "tk_pc t \<notin> {NotStarted, Armed}"
    using exact shut by (simp_all add: counts_exact_def)
  from step have "tk_shutdown t' \<and> standing {Checked, Joined} t' = 0 \<and>
      (tk_done t' \<or> tk_pc t' \<in> {Draining, Returned True} \<longrightarrow> standing {Running} t' = 0)"
  proof cases
    case (check i)
    then show ?thesis using moves [of i Outside Refused] shut idle by (simp add: Add_check_def)
  next
    case (enter i)
    then show ?thesis using out by simp
  next
    case (count i)
    then show ?thesis using out by simp
  next
    case (uncount i)
    then show ?thesis using moves [of i Running Uncounted] shut idle by (simp add: Done_uncount_def go)
  next
    case (leave i)
    then show ?thesis using moves [of i Uncounted Parted] shut idle by (simp add: Done_leave_def go)
  next
    case (report i)
    then show ?thesis using moves [of i Parted Gone] shut idle
      by (simp add: Done_notify_def go split: option.split)
  next
    case look
    then show ?thesis using shut none zero(2) pcs by (auto simp: Shutdown_look_def)
  next
    case (notified n)
    then show ?thesis using shut none zero(2) idle by (auto simp: Shutdown_notified_def)
  qed (use shut none idle zero pcs in \<open>auto simp: Shutdown_arm_def Shutdown_flag_def Shutdown_close_def\<close>)
  with counts_exact_step [OF step exact] show "shut_clean t'" by (simp add: shut_clean_def)
qed

text \<open>C19: When a graceful shutdown begins while no request is inside \<open>Add\<close>, then once it reports a clean
  end no request is being served and none will be.\<close>

theorem clean_shutdown:
  assumes "tracker_reach t0" and "tk_pc t0 \<in> {NotStarted, Armed}" and "standing {Checked, Joined} t0 = 0"
    and "tracker_step\<^sup>*\<^sup>* (Shutdown_flag t0) t" and "tk_pc t = Returned True"
  shows "standing {Checked, Joined, Running} t = 0 \<and> tk_active t = 0"
proof -
  have "counts_exact t0" using assms(1) by (rule tracker_reach_exact)
  then have "counts_exact (Shutdown_flag t0)"
    using counts_exact_step [OF tracker_step.flag [OF assms(2)]] by simp
  moreover have "\<not> tk_done t0"
    using \<open>counts_exact t0\<close> assms(2) by (auto simp: counts_exact_def)
  ultimately have "shut_clean (Shutdown_flag t0)"
    using assms(3) by (simp add: shut_clean_def Shutdown_flag_def)
  from assms(4) this have "shut_clean t" by (induction rule: rtranclp_induct) (simp_all add: shut_clean_step)
  then have "standing {Checked, Joined} t = 0" "standing {Running} t = 0" "counts_exact t"
    using assms(5) by (simp_all add: shut_clean_def)
  moreover have "standing {Checked, Joined, Running} t = standing {Checked, Joined} t + standing {Running} t"
    using standing_disjoint [of "{Checked, Joined}" "{Running}" t] by (simp add: insert_commute)
  ultimately show ?thesis by (simp add: counts_exact_def)
qed

text \<open>A request in service when the shutdown begins, and one that the shutdown finds between the check of
  the flag and the count.\<close>

definition busy_tracker :: "request_pc \<Rightarrow> tracker" where
  "busy_tracker p = NewRequestTracker \<lparr> tk_requests := [p] \<rparr>"

definition serving_tracker :: tracker where
  "serving_tracker = (busy_tracker Running) \<lparr> tk_active := 1, tk_wg := 1 \<rparr>"

lemma busy_reach: "tracker_reach (busy_tracker Outside)" "tracker_reach (busy_tracker Checked)"
  "tracker_reach serving_tracker"
proof -
  show out: "tracker_reach (busy_tracker Outside)"
    using tracker_reach.step [OF tracker_reach.new tracker_step.arrive]
    by (simp add: busy_tracker_def NewRequestTracker_def)
  have "at_pc 0 Outside (busy_tracker Outside)" by (simp add: at_pc_def busy_tracker_def)
  from tracker_reach.step [OF out tracker_step.check [OF this]]
  show chk: "tracker_reach (busy_tracker Checked)"
    by (simp add: Add_check_def go_pc_def busy_tracker_def NewRequestTracker_def)
  have "at_pc 0 Checked (busy_tracker Checked)" by (simp add: at_pc_def busy_tracker_def)
  from tracker_reach.step [OF chk tracker_step.enter [OF this]]
  have joined: "tracker_reach ((busy_tracker Joined) \<lparr> tk_wg := 1 \<rparr>)"
    by (simp add: Add_join_def go_pc_def busy_tracker_def NewRequestTracker_def)
  have "at_pc 0 Joined ((busy_tracker Joined) \<lparr> tk_wg := 1 \<rparr>)" by (simp add: at_pc_def busy_tracker_def)
  from tracker_reach.step [OF joined tracker_step.count [OF this]]
  show "tracker_reach serving_tracker"
    by (simp add: Add_count_def go_pc_def busy_tracker_def NewRequestTracker_def serving_tracker_def)
qed

lemma steps_from: "tracker_step s t \<Longrightarrow> tracker_step\<^sup>*\<^sup>* t u \<Longrightarrow> tracker_step\<^sup>*\<^sup>* s u"
  by (rule converse_rtranclp_into_rtranclp)

text \<open>The shutdown with the request in service: flag, close, look, \<open>Done\<close>, then the end of the group.\<close>

lemma serving_run:
  "tracker_step\<^sup>*\<^sup>* (Shutdown_flag serving_tracker)
     (set_pc (Returned True) (serving_tracker \<lparr> tk_active := 0, tk_wg := 0, tk_shutdown := True,
        tk_closed := True, tk_requests := [Gone], tk_done := True \<rparr>))"
  (is "tracker_step\<^sup>*\<^sup>* _ ?end")
proof -
  let ?t = "serving_tracker \<lparr> tk_shutdown := True, tk_closed := True \<rparr>"
  have d: "tracker_step (set_pc Waiting (?t \<lparr> tk_active := 0, tk_wg := 0, tk_requests := [Gone], tk_done := True \<rparr>)) ?end"
    using tracker_step.finished [of "set_pc Waiting (?t \<lparr> tk_active := 0, tk_wg := 0, tk_requests := [Gone], tk_done := True \<rparr>)"]
    by (simp add: set_pc_def serving_tracker_def busy_tracker_def NewRequestTracker_def)
  have c: "tracker_step (set_pc Waiting (?t \<lparr> tk_active := 0, tk_wg := 0, tk_requests := [Gone] \<rparr>))
      (set_pc Waiting (?t \<lparr> tk_active := 0, tk_wg := 0, tk_requests := [Gone], tk_done := True \<rparr>))"
    using tracker_step.group_done [of "set_pc Waiting (?t \<lparr> tk_active := 0, tk_wg := 0, tk_requests := [Gone] \<rparr>)"]
    by (simp add: set_pc_def serving_tracker_def busy_tracker_def NewRequestTracker_def)
  have b3: "tracker_step (set_pc Waiting (?t \<lparr> tk_active := 0, tk_wg := 0, tk_requests := [Parted] \<rparr>))
      (set_pc Waiting (?t \<lparr> tk_active := 0, tk_wg := 0, tk_requests := [Gone] \<rparr>))"
    using tracker_step.report [of 0 "set_pc Waiting (?t \<lparr> tk_active := 0, tk_wg := 0, tk_requests := [Parted] \<rparr>)"]
    by (simp add: set_pc_def at_pc_def Done_notify_def go_pc_def serving_tracker_def busy_tracker_def NewRequestTracker_def)
  have b2: "tracker_step (set_pc Waiting (?t \<lparr> tk_active := 0, tk_requests := [Uncounted] \<rparr>))
      (set_pc Waiting (?t \<lparr> tk_active := 0, tk_wg := 0, tk_requests := [Parted] \<rparr>))"
    using tracker_step.leave [of 0 "set_pc Waiting (?t \<lparr> tk_active := 0, tk_requests := [Uncounted] \<rparr>)"]
    by (simp add: set_pc_def at_pc_def Done_leave_def go_pc_def serving_tracker_def busy_tracker_def NewRequestTracker_def)
  have b1: "tracker_step (set_pc Waiting ?t) (set_pc Waiting (?t \<lparr> tk_active := 0, tk_requests := [Uncounted] \<rparr>))"
    using tracker_step.uncount [of 0 "set_pc Waiting ?t"]
    by (simp add: set_pc_def at_pc_def Done_uncount_def go_pc_def serving_tracker_def busy_tracker_def NewRequestTracker_def)
  have a2: "tracker_step (set_pc Closed ?t) (set_pc Waiting ?t)"
    using tracker_step.look [of "set_pc Closed ?t"]
    by (simp add: set_pc_def Shutdown_look_def serving_tracker_def busy_tracker_def NewRequestTracker_def)
  have a1: "tracker_step (Shutdown_flag serving_tracker) (set_pc Closed ?t)"
    using tracker_step.close [of "Shutdown_flag serving_tracker"]
    by (simp add: set_pc_def Shutdown_flag_def Shutdown_close_def serving_tracker_def busy_tracker_def NewRequestTracker_def)
  show ?thesis by (intro steps_from [OF a1] steps_from [OF a2] steps_from [OF b1] steps_from [OF b2]
        steps_from [OF b3] steps_from [OF c] steps_from [OF d] rtranclp.rtrancl_refl)
qed

theorem clean_shutdown_witness:
  "\<exists>t. tracker_step\<^sup>*\<^sup>* (Shutdown_flag serving_tracker) t \<and> tk_pc t = Returned True \<and>
     standing {Checked, Joined, Running} t = 0"
proof -
  have "tk_pc serving_tracker \<in> {NotStarted, Armed}" "standing {Checked, Joined} serving_tracker = 0"
    by (simp_all add: serving_tracker_def busy_tracker_def NewRequestTracker_def standing_def)
  from clean_shutdown [OF busy_reach(3) this serving_run] show ?thesis
    using serving_run by (metis tracker_sel(12))
qed

text \<open>Without that hypothesis: a request that has read the flag but is not counted yet is served after
  the shutdown has reported a clean end.\<close>

lemma shutdown_race:
  "\<exists>t. tracker_reach t \<and> tk_pc t = Returned True \<and> standing {Running} t = 1"
proof -
  have s1: "tracker_reach (Shutdown_arm (busy_tracker Checked))"
    by (rule tracker_reach.step [OF busy_reach(2) tracker_step.arm])
      (simp add: busy_tracker_def NewRequestTracker_def)
  have s2: "tracker_reach (Shutdown_flag (Shutdown_arm (busy_tracker Checked)))"
    by (rule tracker_reach.step [OF s1 tracker_step.flag]) (simp add: Shutdown_arm_def)
  have s3: "tracker_reach (Shutdown_close (Shutdown_flag (Shutdown_arm (busy_tracker Checked))))"
    by (rule tracker_reach.step [OF s2 tracker_step.close]) (simp add: Shutdown_flag_def)
  have s4: "tracker_reach (Shutdown_look (Shutdown_close (Shutdown_flag (Shutdown_arm (busy_tracker Checked)))))"
    (is "tracker_reach ?t") by (rule tracker_reach.step [OF s3 tracker_step.look]) (simp add: Shutdown_close_def)
  have "at_pc 0 Checked ?t"
    by (simp add: at_pc_def tracker_steps set_pc_def busy_tracker_def NewRequestTracker_def)
  then have s5: "tracker_reach (Add_join 0 ?t)" by (rule tracker_reach.step [OF s4 tracker_step.enter])
  have "at_pc 0 Joined (Add_join 0 ?t)"
    by (simp add: at_pc_def tracker_steps set_pc_def go_pc_def busy_tracker_def NewRequestTracker_def)
  then have "tracker_reach (Add_count 0 (Add_join 0 ?t))" by (rule tracker_reach.step [OF s5 tracker_step.count])
  moreover have "tk_pc (Add_count 0 (Add_join 0 ?t)) = Returned True" "standing {Running} (Add_count 0 (Add_join 0 ?t)) = 1"
    by (simp_all add: standing_def tracker_steps set_pc_def go_pc_def busy_tracker_def NewRequestTracker_def)
  ultimately show ?thesis by blast
qed

end
