(* ===== verification/Cache_Coherence.thy ===== *)
theory Cache_Coherence
  imports Prelude
begin

text \<open>
  What the write-through caches of \<^verbatim>\<open>internal/repository/cached\<close> have in common: an operation changes the
  table, then this instance's cache, and publishes an invalidation (\<^verbatim>\<open>invalidation.go\<close>) on which the other
  instances load the table again (\<^verbatim>\<open>core/coordinator_setup.go\<close>).  An invalidation may be lost where
  another one is still waiting, since the reload of that one comes later.
\<close>

section \<open>Instances over one table\<close>

text \<open>An instance: its cache, and whether an invalidation is waiting for it.\<close>

record ('d, 'c) cluster =
  cl_table :: 'd
  cl_nodes :: "('c \<times> bool) list"

datatype 'o cluster_op = Change nat 'o | Handle nat

text \<open>\<open>table oper d\<close> is \<open>None\<close> when the database refuses the operation: then nothing is cached and nothing is
  published.  The publisher ignores its own message.\<close>

fun publish_change :: "nat \<Rightarrow> 'c \<Rightarrow> ('c \<times> bool) list \<Rightarrow> ('c \<times> bool) list" where
  "publish_change i c [] = []"
| "publish_change 0 c (n # nodes) = (c, snd n) # map (\<lambda>n. (fst n, True)) nodes"
| "publish_change (Suc i) c (n # nodes) = (fst n, True) # publish_change i c nodes"

lemma publish_change_node:
  "n \<in> set (publish_change i c nodes) \<Longrightarrow> snd n \<or> i < length nodes \<and> n = (c, snd (nodes ! i))"
  by (induction i c nodes rule: publish_change.induct) auto

primrec cluster_step ::
  "('o \<Rightarrow> 'd \<Rightarrow> 'd option) \<Rightarrow> ('o \<Rightarrow> 'd \<Rightarrow> 'c \<Rightarrow> 'c) \<Rightarrow> ('d \<Rightarrow> 'c) \<Rightarrow> 'o cluster_op \<Rightarrow>
     ('d, 'c) cluster \<Rightarrow> ('d, 'c) cluster" where
  "cluster_step table cache load (Change i oper) s =
     (if length (cl_nodes s) \<le> i then s
      else case table oper (cl_table s) of
             None \<Rightarrow> s
           | Some d \<Rightarrow>
               s \<lparr> cl_table := d,
                   cl_nodes := publish_change i (cache oper d (fst (cl_nodes s ! i))) (cl_nodes s) \<rparr>)"
| "cluster_step table cache load (Handle i) s =
     (if length (cl_nodes s) \<le> i \<or> \<not> snd (cl_nodes s ! i) then s
      else s \<lparr> cl_nodes := (cl_nodes s)[i := (load (cl_table s), False)] \<rparr>)"

fun cluster_run ::
  "('o \<Rightarrow> 'd \<Rightarrow> 'd option) \<Rightarrow> ('o \<Rightarrow> 'd \<Rightarrow> 'c \<Rightarrow> 'c) \<Rightarrow> ('d \<Rightarrow> 'c) \<Rightarrow> 'o cluster_op list \<Rightarrow>
     ('d, 'c) cluster \<Rightarrow> ('d, 'c) cluster" where
  "cluster_run table cache load [] s = s"
| "cluster_run table cache load (x # xs) s =
     cluster_run table cache load xs (cluster_step table cache load x s)"

text \<open>The operations of a run are within a contract, at the table they meet.\<close>

fun run_sound ::
  "('o \<Rightarrow> 'd \<Rightarrow> bool) \<Rightarrow> ('o \<Rightarrow> 'd \<Rightarrow> 'd option) \<Rightarrow> ('o \<Rightarrow> 'd \<Rightarrow> 'c \<Rightarrow> 'c) \<Rightarrow> ('d \<Rightarrow> 'c) \<Rightarrow>
     'o cluster_op list \<Rightarrow> ('d, 'c) cluster \<Rightarrow> bool" where
  "run_sound sound table cache load [] s = True"
| "run_sound sound table cache load (x # xs) s =
     ((case x of Change i oper \<Rightarrow> sound oper (cl_table s) | Handle i \<Rightarrow> True) \<and>
      run_sound sound table cache load xs (cluster_step table cache load x s))"

definition fresh_cluster :: "nat \<Rightarrow> ('d \<Rightarrow> 'c) \<Rightarrow> 'd \<Rightarrow> ('d, 'c) cluster" where
  "fresh_cluster n load d = \<lparr> cl_table = d, cl_nodes = replicate n (load d, False) \<rparr>"

section \<open>The contract\<close>

text \<open>\<open>agrees d c\<close>: the cache shows the table.  Both operations keep it, for operations within the contract
  (\<open>sound\<close>) on well-formed tables.\<close>

locale cached_table =
  fixes table :: "'o \<Rightarrow> 'd \<Rightarrow> 'd option"
    and cache :: "'o \<Rightarrow> 'd \<Rightarrow> 'c \<Rightarrow> 'c"
    and load :: "'d \<Rightarrow> 'c"
    and wf :: "'d \<Rightarrow> bool"
    and sound :: "'o \<Rightarrow> 'd \<Rightarrow> bool"
    and agrees :: "'d \<Rightarrow> 'c \<Rightarrow> bool"
  assumes load_agrees: "wf d \<Longrightarrow> agrees d (load d)"
    and change_wf: "wf d \<Longrightarrow> sound oper d \<Longrightarrow> table oper d = Some d' \<Longrightarrow> wf d'"
    and change_agrees: "wf d \<Longrightarrow> sound oper d \<Longrightarrow> table oper d = Some d' \<Longrightarrow> agrees d c \<Longrightarrow>
      agrees d' (cache oper d' c)"
begin

definition coherent :: "('d, 'c) cluster \<Rightarrow> bool" where
  "coherent s \<longleftrightarrow> wf (cl_table s) \<and> (\<forall>(c, waiting) \<in> set (cl_nodes s). waiting \<or> agrees (cl_table s) c)"

lemma coherent_step:
  assumes "coherent s" and "case x of Change i oper \<Rightarrow> sound oper (cl_table s) | Handle i \<Rightarrow> True"
  shows "coherent (cluster_step table cache load x s)"
proof (cases x)
  case (Handle i)
  have "set ((cl_nodes s)[i := (load (cl_table s), False)]) \<subseteq>
      insert (load (cl_table s), False) (set (cl_nodes s))" by (rule set_update_subset_insert)
  moreover have "agrees (cl_table s) (load (cl_table s))"
    using assms(1) load_agrees by (simp add: coherent_def)
  ultimately show ?thesis using assms(1) by (fastforce simp: Handle coherent_def)
next
  case (Change i oper)
  show ?thesis
  proof (cases "length (cl_nodes s) \<le> i \<or> table oper (cl_table s) = None")
    case True
    then show ?thesis using assms(1) by (auto simp: Change)
  next
    case False
    then obtain d where d: "table oper (cl_table s) = Some d" and i: "i < length (cl_nodes s)" by auto
    have wf: "wf (cl_table s)" and "sound oper (cl_table s)" using assms Change by (simp_all add: coherent_def)
    note ok = change_wf [OF this d] change_agrees [OF this d]
    have nodes: "snd n \<or> agrees d (fst n)"
      if n: "n \<in> set (publish_change i (cache oper d (fst (cl_nodes s ! i))) (cl_nodes s))" for n
    proof -
      have "snd (cl_nodes s ! i) \<or> agrees (cl_table s) (fst (cl_nodes s ! i))"
        using assms(1) i by (auto simp: coherent_def dest!: nth_mem)
      then show ?thesis using publish_change_node [OF n] ok(2) by auto
    qed
    show ?thesis using nodes ok(1) d i by (fastforce simp: Change coherent_def)
  qed
qed

lemma coherent_run:
  "coherent s \<Longrightarrow> run_sound sound table cache load xs s \<Longrightarrow> coherent (cluster_run table cache load xs s)"
  by (induction xs arbitrary: s) (simp_all add: coherent_step)

text \<open>An instance for which no invalidation is waiting shows the table.\<close>

lemma idle_node_agrees:
  assumes "wf d" and "run_sound sound table cache load xs (fresh_cluster n load d)"
    and "cluster_run table cache load xs (fresh_cluster n load d) = s" and "(c, False) \<in> set (cl_nodes s)"
  shows "agrees (cl_table s) c"
proof -
  have "coherent (fresh_cluster n load d)"
    using assms(1) load_agrees by (auto simp: coherent_def fresh_cluster_def set_replicate_conv_if)
  from coherent_run [OF this assms(2)] assms(3,4) show ?thesis by (auto simp: coherent_def)
qed

end
end
