(* ===== verification/Mapping_Cache.thy ===== *)
theory Mapping_Cache
  imports Model_Mapping Cache_Coherence
begin

text \<open>
  The cache in front of the table of model mappings, \<^verbatim>\<open>internal/repository/cached/model_mapping.go\<close>, from
  which all reads of the running gateway are answered.  The table is that of \<open>Model_Mapping\<close>.
\<close>

section \<open>Operations on the cache\<close>

definition scopePriority :: "string \<Rightarrow> nat" where
  "scopePriority s = (if s = ''route'' then 1 else if s = ''provider'' then 2 else 3)"

definition cache_order :: "mapping_row \<Rightarrow> nat \<times> int \<times> u64" where
  "cache_order r = (scopePriority (mm_scope r), mm_priority r, mm_id r)"

definition sortCache :: "mapping_row list \<Rightarrow> mapping_row list" where
  "sortCache c = sort_key cache_order c"

definition MappingCache_Load :: "mapping_row list \<Rightarrow> mapping_row list" where
  "MappingCache_Load rows = sortCache (listActive 0 rows)"

definition MappingCache_Create :: "mapping_row \<Rightarrow> mapping_row list \<Rightarrow> mapping_row list" where
  "MappingCache_Create m c = sortCache (c @ [m])"

fun replace_first :: "mapping_row \<Rightarrow> mapping_row list \<Rightarrow> mapping_row list" where
  "replace_first m [] = []"
| "replace_first m (r # rs) = (if mm_id r = mm_id m then m # rs else r # replace_first m rs)"

definition MappingCache_Update :: "mapping_row \<Rightarrow> mapping_row list \<Rightarrow> mapping_row list" where
  "MappingCache_Update m c = sortCache (replace_first m c)"

fun MappingCache_Delete :: "u64 \<Rightarrow> mapping_row list \<Rightarrow> mapping_row list" where
  "MappingCache_Delete i [] = []"
| "MappingCache_Delete i (r # rs) = (if mm_id r = i then rs else r # MappingCache_Delete i rs)"

definition MappingCache_DeleteAll :: "u64 \<Rightarrow> mapping_row list \<Rightarrow> mapping_row list" where
  "MappingCache_DeleteAll tenantID c =
     (if tenantID = 0 then [] else filter (\<lambda>m. mm_tenant m \<noteq> tenantID) c)"

definition MappingCache_ClearAll :: "u64 \<Rightarrow> mapping_row list \<Rightarrow> mapping_row list" where
  "MappingCache_ClearAll tenantID c =
     (if tenantID = 0 then [] else filter (\<lambda>m. mm_tenant m \<noteq> tenantID) c)"

section \<open>Queries on the cache\<close>

definition MappingCache_GetByID :: "u64 \<Rightarrow> u64 \<Rightarrow> mapping_row list \<Rightarrow> mapping_row option" where
  "MappingCache_GetByID tenantID i c =
     find (\<lambda>m. mm_id m = i \<and> (tenantID = 0 \<or> mm_tenant m = tenantID)) c"

definition MappingCache_List :: "u64 \<Rightarrow> mapping_row list \<Rightarrow> mapping_row list" where
  "MappingCache_List tenantID c = filter (\<lambda>m. tenantID = 0 \<or> mm_tenant m = tenantID) c"

definition MappingCache_ListByClientType ::
  "u64 \<Rightarrow> string \<Rightarrow> mapping_row list \<Rightarrow> mapping_row list" where
  "MappingCache_ListByClientType tenantID clientType c =
     filter (\<lambda>m. \<not> (tenantID \<noteq> 0 \<and> mm_tenant m \<noteq> tenantID) \<and>
                  (mm_client m = '''' \<or> mm_client m = clientType)) c"

definition MappingCache_ListByQuery ::
  "u64 \<Rightarrow> mapping_query \<Rightarrow> mapping_row list \<Rightarrow> mapping_row list" where
  "MappingCache_ListByQuery tenantID q c =
     filter (\<lambda>m. \<not> (tenantID \<noteq> 0 \<and> mm_tenant m \<noteq> tenantID) \<and>
                  \<not> (mm_client m \<noteq> '''' \<and> mm_client m \<noteq> mq_client q) \<and>
                  \<not> (mm_provider_type m \<noteq> '''' \<and> mm_provider_type m \<noteq> mq_provider_type q) \<and>
                  \<not> (mm_provider m \<noteq> 0 \<and> mm_provider m \<noteq> mq_provider q) \<and>
                  \<not> (mm_project m \<noteq> 0 \<and> mm_project m \<noteq> mq_project q) \<and>
                  \<not> (mm_route m \<noteq> 0 \<and> mm_route m \<noteq> mq_route q) \<and>
                  \<not> (mm_token m \<noteq> 0 \<and> mm_token m \<noteq> mq_token q)) c"

definition MappingCache_Count :: "u64 \<Rightarrow> mapping_row list \<Rightarrow> nat" where
  "MappingCache_Count tenantID c =
     (if tenantID = 0 then length c else length (filter (\<lambda>m. mm_tenant m = tenantID) c))"

section \<open>The admin's change of a rule\<close>

text \<open>The PUT branch of \<open>handleModelMappings\<close> in \<^verbatim>\<open>internal/handler/admin.go\<close>.  The handler changes the object
  that \<open>GetByID\<close> returns, which is the cached one, field by field as it reads the body, so a body that
  is refused half way, or a save that fails, leaves the cached rule changed.  The flag of
  \<open>apply_patch\<close>: the body is accepted.  Other requests do not interleave with the handler here.\<close>

record mapping_patch =
  mp_client :: "string option"
  mp_pattern :: "string option"
  mp_target :: "string option"
  mp_priority :: "int option"

definition apply_patch :: "mapping_patch \<Rightarrow> mapping_row \<Rightarrow> mapping_row \<times> bool" where
  "apply_patch p m =
     (let m = (case mp_client p of Some ct \<Rightarrow> m \<lparr> mm_client := ct \<rparr> | None \<Rightarrow> m)
      in if mp_pattern p = Some '''' then (m, False)
         else
           (let m = (case mp_pattern p of Some pat \<Rightarrow> m \<lparr> mm_pattern := pat \<rparr> | None \<Rightarrow> m)
            in if mp_target p = Some '''' then (m, False)
               else
                 (let m = (case mp_target p of Some tg \<Rightarrow> m \<lparr> mm_target := tg \<rparr> | None \<Rightarrow> m)
                  in (case mp_priority p of Some n \<Rightarrow> m \<lparr> mm_priority := n \<rparr> | None \<Rightarrow> m, True))))"

text \<open>The answer's status, the table and the cache; \<open>None\<close> is a body that does not parse.\<close>

definition put_mapping ::
  "u64 \<Rightarrow> u64 \<Rightarrow> mapping_patch option \<Rightarrow> bool \<Rightarrow> mapping_row list \<Rightarrow> mapping_row list \<Rightarrow>
     int \<times> mapping_row list \<times> mapping_row list" where
  "put_mapping tenantID i body saveFails rows c =
     (if i = 0 then (400, rows, c)
      else case MappingCache_GetByID tenantID i c of
             None \<Rightarrow> (404, rows, c)
           | Some existing \<Rightarrow>
               (case body of
                  None \<Rightarrow> (400, rows, c)
                | Some p \<Rightarrow>
                    (let (m, ok) = apply_patch p existing; c = replace_first m c
                     in if \<not> ok then (400, rows, c)
                        else if saveFails then (500, rows, c)
                        else (200, Mapping_Update m rows, MappingCache_Update m c))))"

lemma apply_patch_id: "mm_id (fst (apply_patch p m)) = mm_id m"
  by (simp add: apply_patch_def Let_def split: option.split)

lemma replace_first_twice: "replace_first m (replace_first m c) = replace_first m c"
  by (induction c) auto

text \<open>A PUT that is answered with 200 is an update like any other: its change in place leaves no trace.\<close>

lemma put_mapping_saved:
  assumes "put_mapping t i body fails rows c = (200, rows', c')"
  shows "\<exists>m. mm_id m = i \<and> rows' = Mapping_Update m rows \<and> c' = MappingCache_Update m c"
proof -
  obtain existing p where ex: "MappingCache_GetByID t i c = Some existing" "body = Some p"
    using assms by (auto simp: put_mapping_def split: if_splits option.splits)
  have "mm_id existing = i" using ex(1) by (auto simp: MappingCache_GetByID_def find_Some_iff)
  moreover have "rows' = Mapping_Update (fst (apply_patch p existing)) rows"
    "c' = MappingCache_Update (fst (apply_patch p existing)) c"
    using assms ex
    by (auto simp: put_mapping_def Let_def split_def MappingCache_Update_def replace_first_twice
        split: if_splits)
  ultimately show ?thesis using apply_patch_id by blast
qed

text \<open>A PUT that is refused leaves the table alone and the cached rule changed: here its client type, though
  the answer is 400 for the empty pattern.\<close>

lemma put_mapping_refused:
  assumes "MappingCache_GetByID t i c = Some existing" and "i \<noteq> 0" and "distinct (map mm_id c)"
  shows "\<exists>c'. put_mapping t i (Some \<lparr> mp_client = Some ct, mp_pattern = Some '''', mp_target = None,
      mp_priority = None \<rparr>) fails rows c = (400, rows, c') \<and> existing \<lparr> mm_client := ct \<rparr> \<in> set c'"
proof -
  have "existing \<in> set c" using assms(1) by (auto simp: MappingCache_GetByID_def find_Some_iff)
  then have "m \<in> set (replace_first m c)" if "mm_id m = mm_id existing" for m
    using that by (induction c) auto
  then show ?thesis using assms by (simp add: put_mapping_def apply_patch_def)
qed

section \<open>Table and cache together\<close>

text \<open>The operations of the repository; identifiers and times are those the database chooses.\<close>

datatype mapping_op =
    CreateMapping u64 mapping_row
  | UpdateMapping mapping_row
  | DeleteMapping u64 u64 int
  | ReorderMappings u64 reorder_request
  | DeleteAllMappings u64 int
  | ClearAllMappings u64
  | SeedMappings u64 "u64 list"
  | ReloadMappings

text \<open>The second component: the database accepts the operation.\<close>

primrec mapping_table :: "mapping_op \<Rightarrow> mapping_row list \<Rightarrow> mapping_row list option" where
  "mapping_table (CreateMapping i m) rows = Some (Mapping_Create i m rows)"
| "mapping_table (UpdateMapping m) rows = Some (Mapping_Update m rows)"
| "mapping_table (DeleteMapping t i nowMs) rows = Some (Mapping_Delete t i nowMs rows)"
| "mapping_table (ReorderMappings t req) rows =
     (case Reorder t req rows of Inl e \<Rightarrow> None | Inr rows' \<Rightarrow> Some rows')"
| "mapping_table (DeleteAllMappings t nowMs) rows = Some (Mapping_DeleteAll t nowMs rows)"
| "mapping_table (ClearAllMappings t) rows = Some (Mapping_ClearAll t rows)"
| "mapping_table (SeedMappings t ids) rows = Some (SeedDefaults t ids rows)"
| "mapping_table ReloadMappings rows = Some rows"

text \<open>The cache after it; \<open>rows\<close> is the table by then.\<close>

primrec mapping_cache :: "mapping_op \<Rightarrow> mapping_row list \<Rightarrow> mapping_row list \<Rightarrow> mapping_row list" where
  "mapping_cache (CreateMapping i m) rows c = MappingCache_Create (m \<lparr> mm_id := i \<rparr>) c"
| "mapping_cache (UpdateMapping m) rows c = MappingCache_Update m c"
| "mapping_cache (DeleteMapping t i nowMs) rows c = MappingCache_Delete i c"
| "mapping_cache (ReorderMappings t req) rows c = MappingCache_Load rows"
| "mapping_cache (DeleteAllMappings t nowMs) rows c = MappingCache_DeleteAll t c"
| "mapping_cache (ClearAllMappings t) rows c = MappingCache_ClearAll t c"
| "mapping_cache (SeedMappings t ids) rows c = MappingCache_Load rows"
| "mapping_cache ReloadMappings rows c = MappingCache_Load rows"

section \<open>The cache shows the table\<close>

definition live_rows :: "mapping_row list \<Rightarrow> mapping_row list" where
  "live_rows rows = filter (\<lambda>r. mm_deleted r = 0) rows"

definition mapping_wf :: "mapping_row list \<Rightarrow> bool" where
  "mapping_wf rows \<longleftrightarrow> distinct (map mm_id rows) \<and> list_all (\<lambda>r. mm_scope r \<noteq> '''') rows"

text \<open>A cached row may lack the scope that the table fills in, which nothing reads.\<close>

definition mapping_agrees :: "mapping_row list \<Rightarrow> mapping_row list \<Rightarrow> bool" where
  "mapping_agrees rows c \<longleftrightarrow> map toModel c = listActive 0 rows"

text \<open>The contract of the callers: new identifiers are new, times of deletion are not zero, an updated rule
  exists, and a rule is deleted in its own tenant.\<close>

primrec mapping_sound :: "mapping_op \<Rightarrow> mapping_row list \<Rightarrow> bool" where
  "mapping_sound (CreateMapping i m) rows = (i \<notin> mm_id ` set rows \<and> mm_deleted m = 0)"
| "mapping_sound (UpdateMapping m) rows = (mm_id m \<in> mm_id ` set (live_rows rows) \<and> mm_deleted m = 0)"
| "mapping_sound (DeleteMapping t i nowMs) rows =
     (nowMs \<noteq> 0 \<and> list_all (\<lambda>r. mm_id r \<noteq> i \<or> tenant_scope t r) (live_rows rows))"
| "mapping_sound (ReorderMappings t req) rows = True"
| "mapping_sound (DeleteAllMappings t nowMs) rows = (nowMs \<noteq> 0)"
| "mapping_sound (ClearAllMappings t) rows = True"
| "mapping_sound (SeedMappings t ids) rows =
     (distinct ids \<and> set ids \<inter> mm_id ` set rows = {} \<and> length ids = length default_rules)"
| "mapping_sound ReloadMappings rows = True"

lemma toModel_sel [simp]:
  "mm_id (toModel m) = mm_id m" "mm_tenant (toModel m) = mm_tenant m" "mm_deleted (toModel m) = mm_deleted m"
  "mm_client (toModel m) = mm_client m" "mm_provider_type (toModel m) = mm_provider_type m"
  "mm_provider (toModel m) = mm_provider m" "mm_project (toModel m) = mm_project m"
  "mm_route (toModel m) = mm_route m" "mm_token (toModel m) = mm_token m"
  "mm_pattern (toModel m) = mm_pattern m" "mm_target (toModel m) = mm_target m"
  "mm_priority (toModel m) = mm_priority m" "toModel (m \<lparr> mm_id := i \<rparr>) = (toModel m) \<lparr> mm_id := i \<rparr>"
  "toModel (toModel m) = toModel m"
  by (simp_all add: toModel_def)

lemma cache_order_eq [simp]: "cache_order = mapping_order" "mapping_order (toModel m) = mapping_order m"
  by (simp_all add: fun_eq_iff cache_order_def mapping_order_def scope_rank_def scopePriority_def toModel_def)

lemma listActive_all: "listActive 0 rows = sort_key mapping_order (live_rows rows)"
  by (simp add: listActive_def live_rows_def tenant_scope_def)

text \<open>Under distinct identifiers the order is total, so a cache agrees with the table when it is sorted and
  has the same rows.\<close>

lemma mapping_agreesI:
  assumes "mapping_wf rows" and "sorted (map mapping_order c)"
    and "mset (map toModel c) = mset (live_rows rows)"
  shows "mapping_agrees rows c"
proof -
  have "inj_on mm_id (set (live_rows rows))"
    using assms(1) by (auto simp: mapping_wf_def live_rows_def distinct_map intro: inj_on_subset)
  then have "inj_on mapping_order (set (live_rows rows))"
    by (auto simp: inj_on_def mapping_order_def)
  moreover have "sorted (map mapping_order (map toModel c))" using assms(2) by (simp add: comp_def)
  ultimately show ?thesis
    unfolding mapping_agrees_def listActive_all by (intro sort_key_inj_key_eq [symmetric] assms(3) [symmetric])
qed

lemma mapping_agreesD:
  assumes "mapping_agrees rows c"
  shows "sorted (map mapping_order c)" and "mset (map toModel c) = mset (live_rows rows)"
proof -
  have eq: "map toModel c = sort_key mapping_order (live_rows rows)"
    using assms by (simp add: mapping_agrees_def listActive_all)
  have "sorted (map mapping_order (map toModel c))" by (simp add: eq)
  then show "sorted (map mapping_order c)" by (simp add: comp_def)
  show "mset (map toModel c) = mset (live_rows rows)" by (simp add: eq)
qed

lemma mapping_agrees_ids:
  assumes "mapping_agrees rows c" and "mapping_wf rows"
  shows "distinct (map mm_id c)" and "mm_id ` set c = mm_id ` set (live_rows rows)"
proof -
  have "mset (map mm_id (map toModel c)) = mset (map mm_id (live_rows rows))"
    using mapping_agreesD(2) [OF assms(1)] by (metis mset_map)
  then have m: "mset (map mm_id c) = mset (map mm_id (live_rows rows))" by (simp add: comp_def)
  have "distinct (map mm_id (live_rows rows))"
    using assms(2) by (simp add: mapping_wf_def live_rows_def distinct_map_filter)
  then show "distinct (map mm_id c)" using m by (metis mset_eq_imp_distinct_iff)
  show "mm_id ` set c = mm_id ` set (live_rows rows)" using mset_eq_setD [OF m] by simp
qed

lemma mapping_load_agrees: "mapping_wf rows \<Longrightarrow> mapping_agrees rows (MappingCache_Load rows)"
proof (rule mapping_agreesI)
  assume wf: "mapping_wf rows"
  have "image_mset toModel (mset (live_rows rows)) = image_mset (\<lambda>r. r) (mset (live_rows rows))"
    using wf by (intro image_mset_cong) (auto simp: live_rows_def mapping_wf_def list_all_iff toModel_def)
  then show "mset (map toModel (MappingCache_Load rows)) = mset (live_rows rows)"
    by (simp add: MappingCache_Load_def sortCache_def listActive_all)
qed (simp_all add: MappingCache_Load_def sortCache_def)

lemma replace_first_map:
  "distinct (map mm_id c) \<Longrightarrow> replace_first m c = map (\<lambda>r. if mm_id r = mm_id m then m else r) c"
proof (induction c)
  case (Cons r rs)
  have "map (\<lambda>r. if mm_id r = mm_id m then m else r) rs = rs" if "mm_id r = mm_id m"
    using Cons.prems that by (intro map_idI) (auto simp: rev_image_eqI)
  then show ?case using Cons by simp
qed simp

lemma MappingCache_Delete_filter:
  "distinct (map mm_id c) \<Longrightarrow> MappingCache_Delete i c = filter (\<lambda>r. mm_id r \<noteq> i) c"
proof (induction c)
  case (Cons r rs)
  have "filter (\<lambda>r. mm_id r \<noteq> i) rs = rs" if "mm_id r = i"
    using Cons.prems that by (intro filter_True) (auto simp: rev_image_eqI)
  then show ?case using Cons by auto
qed simp

lemma sorted_filter_map: "sorted (map f xs) \<Longrightarrow> sorted (map f (filter P xs))"
  by (simp add: sorted_filter)

lemma Create_agrees:
  assumes "mapping_wf (Mapping_Create i m rows)" and "mm_deleted m = 0" and "mapping_agrees rows c"
  shows "mapping_agrees (Mapping_Create i m rows) (MappingCache_Create (m \<lparr> mm_id := i \<rparr>) c)"
  using assms(1)
proof (rule mapping_agreesI)
  show "mset (map toModel (MappingCache_Create (m \<lparr> mm_id := i \<rparr>) c)) = mset (live_rows (Mapping_Create i m rows))"
    using mapping_agreesD(2) [OF assms(3)] assms(2)
    by (simp add: MappingCache_Create_def sortCache_def Mapping_Create_def live_rows_def)
qed (simp add: MappingCache_Create_def sortCache_def)

lemma Update_agrees:
  assumes "mapping_wf rows" and "mapping_wf (Mapping_Update m rows)" and "mm_deleted m = 0"
    and "mm_id m \<in> mm_id ` set (live_rows rows)" and "mapping_agrees rows c"
  shows "mapping_agrees (Mapping_Update m rows) (MappingCache_Update m c)"
  using assms(2)
proof (rule mapping_agreesI)
  let ?g = "\<lambda>r. if mm_id r = mm_id m then toModel m else r"
  have rows: "Mapping_Update m rows = map ?g rows"
    using assms(4) by (auto simp: Mapping_Update_def live_rows_def)
  have live: "mm_deleted r = 0" if "r \<in> set rows" "mm_id r = mm_id m" for r
  proof -
    obtain r' where r': "r' \<in> set rows" "mm_deleted r' = 0" "mm_id r' = mm_id m"
      using assms(4) by (auto simp: live_rows_def)
    have "inj_on mm_id (set rows)" using assms(1) by (simp add: mapping_wf_def distinct_map)
    from inj_onD [OF this, of r r'] have "r = r'" using that r' by simp
    with r' show ?thesis by simp
  qed
  have same: "live_rows (map ?g rows) = map ?g (live_rows rows)"
    using live assms(3) unfolding live_rows_def filter_map by (intro arg_cong [of _ _ "map ?g"] filter_cong) auto
  have "map toModel (replace_first m c) = map ?g (map toModel c)"
    using mapping_agrees_ids(1) [OF assms(5,1)] by (simp add: replace_first_map comp_def if_distrib)
  then have "mset (map toModel (replace_first m c)) = image_mset ?g (mset (live_rows rows))"
    unfolding mapping_agreesD(2) [OF assms(5), symmetric] mset_map [symmetric] by (rule arg_cong)
  then show "mset (map toModel (MappingCache_Update m c)) = mset (live_rows (Mapping_Update m rows))"
    by (simp add: MappingCache_Update_def sortCache_def rows same)
qed (simp add: MappingCache_Update_def sortCache_def)

text \<open>Deletions drop the same rows on both sides.\<close>

lemma filter_agrees:
  assumes "mapping_wf rows'" and "mapping_agrees rows c" and "\<And>r. P (toModel r) = P r"
    and "mset (live_rows rows') = mset (filter P (live_rows rows))"
  shows "mapping_agrees rows' (filter P c)"
  using assms(1)
proof (rule mapping_agreesI)
  have "map toModel (filter P c) = filter P (map toModel c)" using assms(3) by (simp add: filter_map comp_def)
  then show "mset (map toModel (filter P c)) = mset (live_rows rows')"
    using mapping_agreesD(2) [OF assms(2)] assms(4) by (metis mset_filter)
qed (simp add: sorted_filter_map mapping_agreesD(1) [OF assms(2)])

lemma Delete_agrees:
  assumes "mapping_wf rows" and "mapping_wf (Mapping_Delete t i nowMs rows)" and "mapping_agrees rows c"
    and "nowMs \<noteq> 0" and "list_all (\<lambda>r. mm_id r \<noteq> i \<or> tenant_scope t r) (live_rows rows)"
  shows "mapping_agrees (Mapping_Delete t i nowMs rows) (MappingCache_Delete i c)"
proof -
  have "live_rows (Mapping_Delete t i nowMs rows) = filter (\<lambda>r. mm_id r \<noteq> i) (live_rows rows)"
    using assms(4,5) unfolding live_rows_def Mapping_Delete_def by (induction rows) (auto split: if_splits)
  then show ?thesis
    using filter_agrees [OF assms(2,3), of "\<lambda>r. mm_id r \<noteq> i"] mapping_agrees_ids(1) [OF assms(3,1)]
    by (simp add: MappingCache_Delete_filter)
qed

lemma DeleteAll_agrees:
  assumes "mapping_wf (Mapping_DeleteAll t nowMs rows)" and "mapping_agrees rows c" and "nowMs \<noteq> 0"
  shows "mapping_agrees (Mapping_DeleteAll t nowMs rows) (MappingCache_DeleteAll t c)"
proof -
  have "live_rows (Mapping_DeleteAll t nowMs rows) = filter (\<lambda>r. t \<noteq> 0 \<and> mm_tenant r \<noteq> t) (live_rows rows)"
    using assms(3) unfolding live_rows_def Mapping_DeleteAll_def tenant_scope_def by (induction rows) auto
  then show ?thesis
    using filter_agrees [OF assms(1,2), of "\<lambda>r. t \<noteq> 0 \<and> mm_tenant r \<noteq> t"]
    by (auto simp: MappingCache_DeleteAll_def)
qed

lemma ClearAll_agrees:
  assumes "mapping_wf (Mapping_ClearAll t rows)" and "mapping_agrees rows c"
  shows "mapping_agrees (Mapping_ClearAll t rows) (MappingCache_ClearAll t c)"
proof -
  have "live_rows (Mapping_ClearAll t rows) = filter (\<lambda>r. t \<noteq> 0 \<and> mm_tenant r \<noteq> t) (live_rows rows)"
    by (auto simp: live_rows_def Mapping_ClearAll_def tenant_scope_def intro: filter_cong)
  then show ?thesis
    using filter_agrees [OF assms, of "\<lambda>r. t \<noteq> 0 \<and> mm_tenant r \<noteq> t"]
    by (auto simp: MappingCache_ClearAll_def)
qed

lemma mapping_wf_map:
  assumes "mapping_wf rows" and "\<And>r. mm_id (g r) = mm_id r"
    and "\<And>r. mm_scope r \<noteq> '''' \<Longrightarrow> mm_scope (g r) \<noteq> ''''"
  shows "mapping_wf (map g rows)"
  using assms by (auto simp: mapping_wf_def list_all_iff comp_def)

lemma renumber_wf: "mapping_wf rows \<Longrightarrow> mapping_wf (renumber t req i ks rows)"
proof (induction ks arbitrary: i rows)
  case (Cons k ks)
  have "mapping_wf (map (\<lambda>r. if mm_id r = k \<and> reorder_rows t req r
      then r \<lparr> mm_priority := int i * 10 \<rparr> else r) rows)"
    using Cons.prems by (rule mapping_wf_map) auto
  then show ?case using Cons.IH by simp
qed simp

lemma Reorder_wf: "mapping_wf rows \<Longrightarrow> Reorder t req rows = Inr rows' \<Longrightarrow> mapping_wf rows'"
  by (auto simp: Reorder_def Let_def renumber_wf split: if_splits sum.splits option.splits)

lemma SeedDefaults_wf:
  assumes "mapping_wf rows" and "distinct ids" and "set ids \<inter> mm_id ` set rows = {}"
    and "length ids = length default_rules"
  shows "mapping_wf (SeedDefaults t ids rows)"
proof -
  have "map mm_id (map (default_row t) (zip [0 ..< n] (zip ids rules))) = ids"
    if "length ids = n" "length rules = n" for n and rules :: "(string \<times> string) list"
    using that by (intro nth_equalityI) (auto simp: default_row_def split: prod.split)
  from this [OF assms(4) refl] have ids: "map mm_id (map (default_row t)
      (zip [0 ..< length default_rules] (zip ids default_rules))) = ids" .
  have "distinct (map mm_id (SeedDefaults t ids rows))"
    using assms(1,2,3) by (auto simp only: SeedDefaults_def map_append ids distinct_append mapping_wf_def
        Mapping_ClearAll_def distinct_map_filter set_map set_filter)
  moreover have "list_all (\<lambda>r. mm_scope r \<noteq> '''') (SeedDefaults t ids rows)"
    using assms(1) by (auto simp: SeedDefaults_def Mapping_ClearAll_def mapping_wf_def list_all_iff default_row_def)
  ultimately show ?thesis by (simp add: mapping_wf_def)
qed

lemma mapping_table_wf:
  assumes "mapping_wf rows" and "mapping_sound oper rows" and "mapping_table oper rows = Some rows'"
  shows "mapping_wf rows'"
proof (cases oper)
  case (CreateMapping i m)
  then show ?thesis using assms by (auto simp: Mapping_Create_def mapping_wf_def toModel_def)
next
  case (UpdateMapping m)
  then have "rows' = map (\<lambda>r. if mm_id r = mm_id m then toModel m else r) rows"
    using assms(2,3) by (auto simp: Mapping_Update_def live_rows_def)
  moreover have "mapping_wf (map (\<lambda>r. if mm_id r = mm_id m then toModel m else r) rows)"
    using assms(1) by (rule mapping_wf_map) (auto simp: toModel_def)
  ultimately show ?thesis by simp
next
  case (DeleteMapping t i nowMs)
  have "mapping_wf (Mapping_Delete t i nowMs rows)"
    unfolding Mapping_Delete_def using assms(1) by (rule mapping_wf_map) auto
  then show ?thesis using assms(3) DeleteMapping by simp
next
  case (DeleteAllMappings t nowMs)
  have "mapping_wf (Mapping_DeleteAll t nowMs rows)"
    unfolding Mapping_DeleteAll_def using assms(1) by (rule mapping_wf_map) auto
  then show ?thesis using assms(3) DeleteAllMappings by simp
next
  case (ReorderMappings t req)
  then show ?thesis using assms Reorder_wf by (auto split: sum.splits)
next
  case (ClearAllMappings t)
  then show ?thesis
    using assms by (auto simp: mapping_wf_def list_all_iff Mapping_ClearAll_def distinct_map_filter)
qed (use assms SeedDefaults_wf in auto)

interpretation mappings: cached_table mapping_table mapping_cache MappingCache_Load mapping_wf mapping_sound
  mapping_agrees
proof
  fix rows oper rows' c
  assume wf: "mapping_wf rows" and ok: "mapping_sound oper rows" and tab: "mapping_table oper rows = Some rows'"
    and agree: "mapping_agrees rows c"
  have wf': "mapping_wf rows'" using wf ok tab by (rule mapping_table_wf)
  show "mapping_agrees rows' (mapping_cache oper rows' c)"
    using wf wf' ok tab agree Create_agrees [of _ _ rows c] Update_agrees [of rows _ c] Delete_agrees [of rows _ _ _ c]
      DeleteAll_agrees [of _ _ rows c] ClearAll_agrees [of _ rows c] mapping_load_agrees
    by (cases oper) auto
qed (rule mapping_load_agrees mapping_table_wf; assumption)+

section \<open>Queries answer from the table\<close>

lemma filter_cache:
  assumes "mapping_agrees rows c" and "\<And>r. P (toModel r) = P r"
  shows "map toModel (filter P c) = sort_key mapping_order (filter P (live_rows rows))"
proof -
  have "map toModel (filter P c) = filter P (map toModel c)" using assms(2) by (simp add: filter_map comp_def)
  then show ?thesis using assms(1) by (simp add: mapping_agrees_def listActive_all filter_sort)
qed

lemma MappingCache_ListByQuery_exact:
  assumes "mapping_agrees rows c"
  shows "map toModel (MappingCache_ListByQuery t q c) = ListByQuery t (Some q) rows"
proof -
  let ?P = "\<lambda>m. \<not> (t \<noteq> 0 \<and> mm_tenant m \<noteq> t) \<and>
      \<not> (mm_client m \<noteq> '''' \<and> mm_client m \<noteq> mq_client q) \<and>
      \<not> (mm_provider_type m \<noteq> '''' \<and> mm_provider_type m \<noteq> mq_provider_type q) \<and>
      \<not> (mm_provider m \<noteq> 0 \<and> mm_provider m \<noteq> mq_provider q) \<and>
      \<not> (mm_project m \<noteq> 0 \<and> mm_project m \<noteq> mq_project q) \<and>
      \<not> (mm_route m \<noteq> 0 \<and> mm_route m \<noteq> mq_route q) \<and> \<not> (mm_token m \<noteq> 0 \<and> mm_token m \<noteq> mq_token q)"
  have "filter ?P (live_rows rows) = filter (\<lambda>r. tenant_scope t r \<and> mm_deleted r = 0 \<and> query_match q r) rows"
    unfolding live_rows_def filter_filter by (rule filter_cong) (auto simp: tenant_scope_def query_match_def)
  then show ?thesis
    using filter_cache [OF assms, of ?P] by (simp add: MappingCache_ListByQuery_def ListByQuery_def)
qed

lemma MappingCache_List_exact:
  assumes "mapping_agrees rows c"
  shows "map toModel (MappingCache_List t c) = listActive t rows"
proof -
  have "filter (\<lambda>m. t = 0 \<or> mm_tenant m = t) (live_rows rows) =
      filter (\<lambda>r. tenant_scope t r \<and> mm_deleted r = 0) rows"
    unfolding live_rows_def filter_filter by (rule filter_cong) (auto simp: tenant_scope_def)
  then show ?thesis
    using filter_cache [OF assms, of "\<lambda>m. t = 0 \<or> mm_tenant m = t"]
    by (simp add: MappingCache_List_def listActive_def)
qed

lemma MappingCache_ListByClientType_exact:
  assumes "mapping_agrees rows c"
  shows "map toModel (MappingCache_ListByClientType t ct c) = ListByClientType t ct rows"
proof -
  let ?P = "\<lambda>m. \<not> (t \<noteq> 0 \<and> mm_tenant m \<noteq> t) \<and> (mm_client m = '''' \<or> mm_client m = ct)"
  have "filter ?P (live_rows rows) = filter (\<lambda>r. tenant_scope t r \<and> mm_deleted r = 0 \<and>
      (mm_client r = '''' \<or> mm_client r = ct)) rows"
    unfolding live_rows_def filter_filter by (rule filter_cong) (auto simp: tenant_scope_def)
  then show ?thesis
    using filter_cache [OF assms, of ?P] by (simp add: MappingCache_ListByClientType_def ListByClientType_def)
qed

lemma MappingCache_Count_exact:
  "mapping_agrees rows c \<Longrightarrow> MappingCache_Count t c = Mapping_Count t rows"
  using MappingCache_List_exact [of rows c t, THEN arg_cong, of length]
  by (cases "t = 0") (simp_all add: MappingCache_Count_def MappingCache_List_def Mapping_Count_def listActive_def)

lemma mapModelCandidates_toModel:
  "mapModelCandidates rm (map toModel ms) = mapModelCandidates rm ms"
proof -
  have "candidate_loop rm (map toModel ms) cs = candidate_loop rm ms cs" for cs
    by (induction rm ms cs rule: candidate_loop.induct) simp_all
  then show ?thesis by (simp add: mapModelCandidates_def)
qed

text \<open>C16: Instances create, change, reorder and delete rules, each operation saved and then cached in one
  step, under the contract \<open>mapping_sound\<close>: identifiers of new rules are new, a changed rule exists, and
  a rule is deleted in its own tenant.  Then an instance for which no invalidation is waiting maps
  models and answers every query from its cache as the table would.  (A PUT of the admin that is
  refused or fails to save is outside of this, see \<open>put_mapping_refused\<close>.)\<close>

theorem mapping_cache_refines:
  assumes "mapping_wf rows"
    and "run_sound mapping_sound mapping_table mapping_cache MappingCache_Load ops
           (fresh_cluster n MappingCache_Load rows)"
    and "cluster_run mapping_table mapping_cache MappingCache_Load ops
           (fresh_cluster n MappingCache_Load rows) = s"
    and "(c, False) \<in> set (cl_nodes s)"
  shows "mapModelCandidates rm (MappingCache_ListByQuery t q c) =
           mapModelCandidates rm (ListByQuery t (Some q) (cl_table s)) \<and>
         map toModel (MappingCache_ListByQuery t q c) = ListByQuery t (Some q) (cl_table s) \<and>
         map toModel (MappingCache_List t c) = listActive t (cl_table s) \<and>
         map toModel (MappingCache_ListByClientType t ct c) = ListByClientType t ct (cl_table s) \<and>
         MappingCache_Count t c = Mapping_Count t (cl_table s)"
proof -
  have ok: "mapping_agrees (cl_table s) c" by (rule mappings.idle_node_agrees [OF assms])
  show ?thesis
    using MappingCache_ListByQuery_exact [OF ok, of t q] MappingCache_List_exact [OF ok, of t]
      MappingCache_ListByClientType_exact [OF ok, of t ct] MappingCache_Count_exact [OF ok, of t]
      mapModelCandidates_toModel [of rm "MappingCache_ListByQuery t q c"]
    by simp
qed

definition sample_mapping :: "u64 \<Rightarrow> u64 \<Rightarrow> string \<Rightarrow> int \<Rightarrow> mapping_row" where
  "sample_mapping i t s p =
     \<lparr> mm_id = i, mm_tenant = t, mm_deleted = 0, mm_scope = s, mm_client = '''', mm_provider_type = '''',
       mm_provider = 0, mm_project = 0, mm_route = 0, mm_token = 0, mm_pattern = ''*'', mm_target = ''m'',
       mm_priority = p \<rparr>"

text \<open>Two instances: the first creates a rule without a scope, the second loads the table again and deletes
  another one.\<close>

definition sample_mapping_ops :: "mapping_op cluster_op list" where
  "sample_mapping_ops =
     [Change 0 (CreateMapping 2 (sample_mapping 0 1 '''' 5)), Handle 1,
      Change 1 (DeleteMapping 1 1 9)]"

theorem mapping_cache_refines_witness:
  "\<exists>c. (c, False) \<in> set (cl_nodes (cluster_run mapping_table mapping_cache MappingCache_Load sample_mapping_ops
          (fresh_cluster 2 MappingCache_Load [sample_mapping 1 1 ''route'' 3]))) \<and>
     map mm_id (MappingCache_List 1 c) = [2]"
proof -
  let ?start = "fresh_cluster 2 MappingCache_Load [sample_mapping 1 1 ''route'' 3]"
  let ?s = "cluster_run mapping_table mapping_cache MappingCache_Load sample_mapping_ops ?start"
  have wf: "mapping_wf [sample_mapping 1 1 ''route'' 3]" by (simp add: mapping_wf_def sample_mapping_def)
  have sound: "run_sound mapping_sound mapping_table mapping_cache MappingCache_Load sample_mapping_ops ?start"
    by (simp add: sample_mapping_ops_def fresh_cluster_def sample_mapping_def Mapping_Create_def live_rows_def
        tenant_scope_def toModel_def numeral_2_eq_2)
  have idle: "(MappingCache_Delete 1 (MappingCache_Load [sample_mapping 1 1 ''route'' 3,
      sample_mapping 2 1 ''global'' 5]), False) \<in> set (cl_nodes ?s)"
    by (simp add: sample_mapping_ops_def fresh_cluster_def sample_mapping_def Mapping_Create_def
        toModel_def numeral_2_eq_2)
  have tab: "listActive 1 (cl_table ?s) = [sample_mapping 2 1 ''global'' 5]"
    by (simp add: sample_mapping_ops_def fresh_cluster_def sample_mapping_def Mapping_Create_def Mapping_Delete_def
        toModel_def numeral_2_eq_2 tenant_scope_def listActive_def)
  from mapping_cache_refines [OF wf sound refl idle, of "''m''" 1] have
    "map toModel (MappingCache_List 1 (MappingCache_Delete 1 (MappingCache_Load [sample_mapping 1 1 ''route'' 3,
       sample_mapping 2 1 ''global'' 5]))) = [sample_mapping 2 1 ''global'' 5]" by (simp add: tab)
  then have "map mm_id (map toModel (MappingCache_List 1 (MappingCache_Delete 1 (MappingCache_Load
      [sample_mapping 1 1 ''route'' 3, sample_mapping 2 1 ''global'' 5])))) = [2]"
    by (simp add: sample_mapping_def)
  then show ?thesis using idle by (auto simp: comp_def)
qed

text \<open>A rule of another tenant is not deleted from the table but dropped from the cache: the contract on
  deletions is not kept by the admin interface, which hands on any identifier.\<close>

lemma delete_other_tenant:
  assumes "list_all (\<lambda>r. mm_id r \<noteq> i \<or> \<not> tenant_scope t r) rows"
  shows "Mapping_Delete t i nowMs rows = rows" and "distinct (map mm_id c) \<Longrightarrow> i \<notin> mm_id ` set (MappingCache_Delete i c)"
proof -
  show "Mapping_Delete t i nowMs rows = rows"
    using assms unfolding Mapping_Delete_def by (intro map_idI) (auto simp: list_all_iff)
  show "distinct (map mm_id c) \<Longrightarrow> i \<notin> mm_id ` set (MappingCache_Delete i c)"
    by (auto simp: MappingCache_Delete_filter)
qed

end
