(* ===== verification/Soft_Table.thy ===== *)
theory Soft_Table
  imports Cache_Coherence "HOL-Library.Multiset" "HOL-Library.AList"
begin

text \<open>
  Tables whose rows are deleted softly: what the repositories of \<^verbatim>\<open>internal/repository/sqlite\<close> share, as
  functions of the fields that hold a row's identifier and tenant, and the caches keyed by fields of a row.
\<close>

section \<open>Rows\<close>

text \<open>\<open>sr_deleted\<close> is the time of deletion in milliseconds, zero for a live row.\<close>

record 'r soft_row =
  sr_row :: 'r
  sr_deleted :: int

definition live :: "'r soft_row list \<Rightarrow> 'r list" where
  "live rows = map sr_row (filter (\<lambda>s. sr_deleted s = 0) rows)"

definition in_tenant :: "u64 \<Rightarrow> u64 \<Rightarrow> bool" where
  "in_tenant t t' = (t = 0 \<or> t' = t)"

definition soft_create :: "'r \<Rightarrow> 'r soft_row list \<Rightarrow> 'r soft_row list" where
  "soft_create r rows = rows @ [\<lparr> sr_row = r, sr_deleted = 0 \<rparr>]"

text \<open>\<open>Save\<close> writes all fields of the row with this identifier, or inserts one.\<close>

definition soft_save :: "('r \<Rightarrow> u64) \<Rightarrow> 'r \<Rightarrow> 'r soft_row list \<Rightarrow> 'r soft_row list" where
  "soft_save idf r rows =
     (if \<exists>s \<in> set rows. idf (sr_row s) = idf r
      then map (\<lambda>s. if idf (sr_row s) = idf r then \<lparr> sr_row = r, sr_deleted = 0 \<rparr> else s) rows
      else soft_create r rows)"

definition soft_delete ::
  "('r \<Rightarrow> u64) \<Rightarrow> ('r \<Rightarrow> u64) \<Rightarrow> u64 \<Rightarrow> u64 \<Rightarrow> int \<Rightarrow> 'r soft_row list \<Rightarrow> 'r soft_row list" where
  "soft_delete idf tenf t i nowMs rows =
     map (\<lambda>s. if in_tenant t (tenf (sr_row s)) \<and> idf (sr_row s) = i then s \<lparr> sr_deleted := nowMs \<rparr> else s)
       rows"

definition soft_wf :: "('r \<Rightarrow> u64) \<Rightarrow> 'r soft_row list \<Rightarrow> bool" where
  "soft_wf idf rows \<longleftrightarrow> distinct (map (\<lambda>s. idf (sr_row s)) rows)"

lemma soft_wf_live: "soft_wf idf rows \<Longrightarrow> distinct (map idf (live rows))"
  unfolding soft_wf_def live_def by (induction rows) auto

lemma live_create [simp]: "live (soft_create r rows) = live rows @ [r]"
  by (simp add: live_def soft_create_def)

lemma live_ids: "set (live rows) \<subseteq> sr_row ` set rows"
  by (auto simp: live_def)

lemma create_wf: "soft_wf idf rows \<Longrightarrow> idf r \<notin> (\<lambda>s. idf (sr_row s)) ` set rows \<Longrightarrow> soft_wf idf (soft_create r rows)"
  by (auto simp: soft_wf_def soft_create_def)

lemma soft_map_wf: "soft_wf idf rows \<Longrightarrow> (\<And>s. idf (sr_row (g s)) = idf (sr_row s)) \<Longrightarrow> soft_wf idf (map g rows)"
  by (simp add: soft_wf_def comp_def)

lemma delete_wf: "soft_wf idf rows \<Longrightarrow> soft_wf idf (soft_delete idf tenf t i nowMs rows)"
  unfolding soft_delete_def by (erule soft_map_wf) simp

lemma save_existing:
  "idf r \<in> idf ` set (live rows) \<Longrightarrow>
   soft_save idf r rows = map (\<lambda>s. if idf (sr_row s) = idf r then \<lparr> sr_row = r, sr_deleted = 0 \<rparr> else s) rows"
  by (auto simp: soft_save_def live_def)

lemma save_wf: "soft_wf idf rows \<Longrightarrow> idf r \<in> idf ` set (live rows) \<Longrightarrow> soft_wf idf (soft_save idf r rows)"
  by (simp add: save_existing soft_map_wf)

lemma live_save:
  assumes "soft_wf idf rows" and "idf r \<in> idf ` set (live rows)"
  shows "live (soft_save idf r rows) = map (\<lambda>x. if idf x = idf r then r else x) (live rows)"
proof -
  have alive: "sr_deleted s = 0" if "s \<in> set rows" "idf (sr_row s) = idf r" for s
  proof -
    obtain s' where s': "s' \<in> set rows" "sr_deleted s' = 0" "idf (sr_row s') = idf r"
      using assms(2) by (auto simp: live_def)
    have "inj_on (\<lambda>s. idf (sr_row s)) (set rows)" using assms(1) by (simp add: soft_wf_def distinct_map)
    from inj_onD [OF this, of s s'] show ?thesis using that s' by simp
  qed
  have "live (map (\<lambda>s. if idf (sr_row s) = idf r then \<lparr> sr_row = r, sr_deleted = 0 \<rparr> else s) xs) =
      map (\<lambda>x. if idf x = idf r then r else x) (live xs)" if "set xs \<subseteq> set rows" for xs
    using that by (induction xs) (auto simp: live_def alive)
  from this [of rows] show ?thesis by (simp add: save_existing [OF assms(2)])
qed

lemma live_delete:
  assumes "nowMs \<noteq> 0" and "list_all (\<lambda>x. idf x \<noteq> i \<or> in_tenant t (tenf x)) (live rows)"
  shows "live (soft_delete idf tenf t i nowMs rows) = filter (\<lambda>x. idf x \<noteq> i) (live rows)"
  using assms unfolding soft_delete_def live_def by (induction rows) (auto split: if_splits)

lemma save_deleted_row:
  "soft_delete idf tenf t i nowMs rows = rows"
  if "list_all (\<lambda>s. idf (sr_row s) \<noteq> i \<or> \<not> in_tenant t (tenf (sr_row s))) rows"
  using that unfolding soft_delete_def by (intro map_idI) (auto simp: list_all_iff)

section \<open>Caches keyed by fields\<close>

text \<open>A map shows rows: its entries are exactly the rows under their keys.\<close>

definition shows_rows :: "('r \<Rightarrow> 'k) \<Rightarrow> 'r set \<Rightarrow> ('k \<times> 'r) list \<Rightarrow> bool" where
  "shows_rows keyf rs c \<longleftrightarrow> (\<forall>k r. map_of c k = Some r \<longleftrightarrow> r \<in> rs \<and> keyf r = k)"

definition key_cache :: "('r \<Rightarrow> 'k) \<Rightarrow> 'r list \<Rightarrow> ('k \<times> 'r) list" where
  "key_cache keyf rs = fold (\<lambda>r c. AList.update (keyf r) r c) rs []"

lemma shows_rowsD: "shows_rows keyf rs c \<Longrightarrow> map_of c k = Some r \<Longrightarrow> r \<in> rs \<and> keyf r = k"
  by (simp add: shows_rows_def)

lemma shows_insert:
  "shows_rows keyf rs c \<Longrightarrow> keyf r \<notin> keyf ` rs \<Longrightarrow> shows_rows keyf (insert r rs) (AList.update (keyf r) r c)"
  by (auto simp: shows_rows_def map_of_update rev_image_eqI)

lemma shows_remove:
  "shows_rows keyf rs c \<Longrightarrow> shows_rows keyf {r \<in> rs. keyf r \<noteq> k} (AList.delete k c)"
  by (auto simp: shows_rows_def delete_conv')

lemma shows_key_cache:
  assumes "distinct (map keyf rs)"
  shows "shows_rows keyf (set rs) (key_cache keyf rs)"
  using assms
proof (induction rs rule: rev_induct)
  case (snoc r rs)
  then have "shows_rows keyf (insert r (set rs)) (AList.update (keyf r) r (key_cache keyf rs))"
    by (intro shows_insert) auto
  then show ?case by (simp add: key_cache_def insert_commute)
qed (simp add: shows_rows_def key_cache_def)

lemma inj_on_live: "soft_wf idf rows \<Longrightarrow> inj_on idf (set (live rows))"
  using soft_wf_live [of idf rows] by (simp add: distinct_map)

text \<open>A row replaced by one of the same identifier.\<close>

lemma set_live_save:
  assumes "soft_wf idf rows" and "idf r \<in> idf ` set (live rows)"
  shows "set (live (soft_save idf r rows)) = insert r {x \<in> set (live rows). idf x \<noteq> idf r}"
  using assms(2) by (auto simp: live_save [OF assms])

end
