(* ===== verification/Route_Cache.thy ===== *)
theory Route_Cache
  imports Provider_Capability Soft_Table
begin

text \<open>
  Routes in the database (\<^verbatim>\<open>internal/repository/sqlite/route.go\<close>) and in the cache the router reads
  (\<^verbatim>\<open>internal/repository/cached/route.go\<close>).  Rows keep the fields of \<open>route\<close>; routes of equal position
  come in any order from the database, so nothing here depends on theirs.
\<close>

section \<open>The table\<close>

type_synonym route_rows = "route soft_row list"

definition norm_route :: "route \<Rightarrow> route" where
  "norm_route r = (if rt_weight r \<le> 0 then r \<lparr> rt_weight := 1 \<rparr> else r)"



definition Route_Delete :: "u64 \<Rightarrow> u64 \<Rightarrow> int \<Rightarrow> route_rows \<Rightarrow> route_rows" where
  "Route_Delete t i nowMs rows = soft_delete rt_id rt_tenant t i nowMs rows"








text \<open>By identifier a deleted row is found as well.\<close>

definition Route_GetByID :: "u64 \<Rightarrow> u64 \<Rightarrow> route_rows \<Rightarrow> route option" where
  "Route_GetByID t i rows =
     map_option norm_route (find (\<lambda>r. in_tenant t (rt_tenant r) \<and> rt_id r = i) (map sr_row rows))"

definition Route_FindByKey :: "u64 \<Rightarrow> u64 \<Rightarrow> u64 \<Rightarrow> string \<Rightarrow> route_rows \<Rightarrow> route option" where
  "Route_FindByKey t project prov client rows =
     map_option norm_route
       (find (\<lambda>r. in_tenant t (rt_tenant r) \<and> rt_project r = project \<and> rt_provider r = prov \<and> rt_client r = client)
          (sort_key rt_id (live rows)))"


section \<open>The cache\<close>






fun RouteCache_Delete :: "u64 \<Rightarrow> route list \<Rightarrow> route list" where
  "RouteCache_Delete i [] = []"
| "RouteCache_Delete i (x # xs) = (if rt_id x = i then xs else x # RouteCache_Delete i xs)"




definition RouteCache_GetByID :: "u64 \<Rightarrow> u64 \<Rightarrow> route_rows \<Rightarrow> route list \<Rightarrow> route option" where
  "RouteCache_GetByID t i rows c =
     (case find (\<lambda>r. rt_id r = i \<and> (t = 0 \<or> rt_tenant r = t)) c of
        Some r \<Rightarrow> Some r
      | None \<Rightarrow> Route_GetByID t i rows)"

definition RouteCache_FindByKey ::
  "u64 \<Rightarrow> u64 \<Rightarrow> u64 \<Rightarrow> string \<Rightarrow> route_rows \<Rightarrow> route list \<Rightarrow> route option" where
  "RouteCache_FindByKey t project prov client rows c =
     (case find (\<lambda>r. rt_project r = project \<and> rt_provider r = prov \<and> rt_client r = client \<and>
                     (t = 0 \<or> rt_tenant r = t)) c of
        Some r \<Rightarrow> Some r
      | None \<Rightarrow> Route_FindByKey t project prov client rows)"


section \<open>Table and cache together\<close>






lemma norm_route_sel [simp]:
  "rt_id (norm_route r) = rt_id r" "rt_tenant (norm_route r) = rt_tenant r" "rt_client (norm_route r) = rt_client r"
  "rt_project (norm_route r) = rt_project r" "rt_provider (norm_route r) = rt_provider r"
  "rt_position (norm_route r) = rt_position r" "norm_route (norm_route r) = norm_route r"
  "norm_route (r \<lparr> rt_position := p \<rparr>) = (norm_route r) \<lparr> rt_position := p \<rparr>"
  by (simp_all add: norm_route_def)




lemma RouteCache_Delete_filter:
  "distinct (map rt_id c) \<Longrightarrow> RouteCache_Delete i c = filter (\<lambda>r. rt_id r \<noteq> i) c"
proof (induction c)
  case (Cons x xs)
  have "filter (\<lambda>r. rt_id r \<noteq> i) xs = xs" if "rt_id x = i"
    using Cons.prems that by (intro filter_True) (auto simp: rev_image_eqI)
  then show ?case using Cons by auto
qed simp




















text \<open>A route of another tenant leaves the cache, and so the routing of its tenant, but not the table.\<close>

lemma delete_foreign_route:
  assumes "list_all (\<lambda>s. rt_id (sr_row s) \<noteq> i \<or> \<not> in_tenant t (rt_tenant (sr_row s))) rows"
    and "distinct (map rt_id c)"
  shows "Route_Delete t i nowMs rows = rows" and "i \<notin> rt_id ` set (RouteCache_Delete i c)"
  using save_deleted_row [OF assms(1)] assms(2) by (auto simp: Route_Delete_def RouteCache_Delete_filter)

end
