(* ===== verification/Keyed_Caches.thy ===== *)
theory Keyed_Caches
  imports Provider_Capability Router Soft_Table
begin

text \<open>
  Providers and routing strategies in the database (\<^verbatim>\<open>provider.go\<close>, \<^verbatim>\<open>routing_strategy.go\<close> of
  \<^verbatim>\<open>internal/repository/sqlite\<close>) and in their caches (\<^verbatim>\<open>internal/repository/cached\<close>), keyed by identifier
  and by tenant and project.
\<close>

section \<open>Providers\<close>

record tenant_provider =
  tp_provider :: provider
  tp_tenant :: u64

abbreviation tp_id :: "tenant_provider \<Rightarrow> u64" where "tp_id r \<equiv> pv_id (tp_provider r)"

type_synonym provider_rows = "tenant_provider soft_row list"

definition Provider_Create :: "u64 \<Rightarrow> tenant_provider \<Rightarrow> provider_rows \<Rightarrow> provider_rows" where
  "Provider_Create newID p rows =
     soft_create (p \<lparr> tp_provider := (tp_provider p) \<lparr> pv_id := newID \<rparr> \<rparr>) rows"

definition Provider_Update :: "tenant_provider \<Rightarrow> provider_rows \<Rightarrow> provider_rows" where
  "Provider_Update p rows = soft_save tp_id p rows"

definition Provider_Delete :: "u64 \<Rightarrow> u64 \<Rightarrow> int \<Rightarrow> provider_rows \<Rightarrow> provider_rows" where
  "Provider_Delete t i nowMs rows = soft_delete tp_id tp_tenant t i nowMs rows"

definition ProviderCache_Load :: "provider_rows \<Rightarrow> (u64 \<times> tenant_provider) list" where
  "ProviderCache_Load rows = key_cache tp_id (live rows)"

definition ProviderCache_Create ::
  "tenant_provider \<Rightarrow> (u64 \<times> tenant_provider) list \<Rightarrow> (u64 \<times> tenant_provider) list" where
  "ProviderCache_Create p c = AList.update (tp_id p) p c"

definition ProviderCache_Update ::
  "tenant_provider \<Rightarrow> (u64 \<times> tenant_provider) list \<Rightarrow> (u64 \<times> tenant_provider) list" where
  "ProviderCache_Update p c = AList.update (tp_id p) p c"

definition ProviderCache_Delete ::
  "u64 \<Rightarrow> (u64 \<times> tenant_provider) list \<Rightarrow> (u64 \<times> tenant_provider) list" where
  "ProviderCache_Delete i c = AList.delete i c"

definition ProviderCache_GetByID ::
  "u64 \<Rightarrow> u64 \<Rightarrow> tenant_provider option \<Rightarrow> (u64 \<times> tenant_provider) list \<Rightarrow> tenant_provider option" where
  "ProviderCache_GetByID t i fromTable c =
     (case map_of c i of
        Some p \<Rightarrow> if t = 0 \<or> tp_tenant p = t then Some p else fromTable
      | None \<Rightarrow> fromTable)"

definition ProviderCache_List :: "u64 \<Rightarrow> (u64 \<times> tenant_provider) list \<Rightarrow> tenant_provider list" where
  "ProviderCache_List t c = filter (\<lambda>p. t = 0 \<or> tp_tenant p = t) (map snd c)"

datatype provider_op =
    CreateProvider u64 tenant_provider
  | UpdateProvider tenant_provider
  | DeleteProvider u64 u64 int
  | ReloadProviders

primrec provider_table :: "provider_op \<Rightarrow> provider_rows \<Rightarrow> provider_rows option" where
  "provider_table (CreateProvider i p) rows = Some (Provider_Create i p rows)"
| "provider_table (UpdateProvider p) rows = Some (Provider_Update p rows)"
| "provider_table (DeleteProvider t i nowMs) rows = Some (Provider_Delete t i nowMs rows)"
| "provider_table ReloadProviders rows = Some rows"

primrec provider_cache ::
  "provider_op \<Rightarrow> provider_rows \<Rightarrow> (u64 \<times> tenant_provider) list \<Rightarrow> (u64 \<times> tenant_provider) list" where
  "provider_cache (CreateProvider i p) rows c =
     ProviderCache_Create (p \<lparr> tp_provider := (tp_provider p) \<lparr> pv_id := i \<rparr> \<rparr>) c"
| "provider_cache (UpdateProvider p) rows c = ProviderCache_Update p c"
| "provider_cache (DeleteProvider t i nowMs) rows c = ProviderCache_Delete i c"
| "provider_cache ReloadProviders rows c = ProviderCache_Load rows"

primrec provider_sound :: "provider_op \<Rightarrow> provider_rows \<Rightarrow> bool" where
  "provider_sound (CreateProvider i p) rows = (i \<notin> (\<lambda>s. tp_id (sr_row s)) ` set rows)"
| "provider_sound (UpdateProvider p) rows = (tp_id p \<in> tp_id ` set (live rows))"
| "provider_sound (DeleteProvider t i nowMs) rows =
     (nowMs \<noteq> 0 \<and> list_all (\<lambda>p. tp_id p \<noteq> i \<or> in_tenant t (tp_tenant p)) (live rows))"
| "provider_sound ReloadProviders rows = True"

definition provider_agrees :: "provider_rows \<Rightarrow> (u64 \<times> tenant_provider) list \<Rightarrow> bool" where
  "provider_agrees rows c \<longleftrightarrow> wf_map c \<and> shows_rows tp_id (set (live rows)) c"

lemma wf_key_cache: "wf_map (key_cache keyf rs)"
  unfolding key_cache_def by (induction rs rule: rev_induct) (simp_all add: wf_intros)

lemma provider_load_agrees: "soft_wf tp_id rows \<Longrightarrow> provider_agrees rows (ProviderCache_Load rows)"
  by (simp add: provider_agrees_def ProviderCache_Load_def shows_key_cache soft_wf_live wf_key_cache)

lemma shows_save:
  assumes "soft_wf idf rows" and "idf r \<in> idf ` set (live rows)" and "shows_rows idf (set (live rows)) c"
  shows "shows_rows idf (set (live (soft_save idf r rows))) (AList.update (idf r) r c)"
  using assms(3) by (auto simp: set_live_save [OF assms(1,2)] shows_rows_def map_of_update)

interpretation providers: cached_table provider_table provider_cache ProviderCache_Load "soft_wf tp_id"
  provider_sound provider_agrees
proof
  fix rows oper rows' c
  assume wf: "soft_wf tp_id rows" and ok: "provider_sound oper rows" and tab: "provider_table oper rows = Some rows'"
  show wf': "soft_wf tp_id rows'"
    using wf ok tab create_wf [of tp_id rows] save_wf [of tp_id rows] delete_wf [of tp_id rows]
    by (cases oper) (auto simp: Provider_Create_def Provider_Update_def Provider_Delete_def)
  assume agree: "provider_agrees rows c"
  have rows_shown: "shows_rows tp_id (set (live rows)) c" and "wf_map c" using agree by (simp_all add: provider_agrees_def)
  then show "provider_agrees rows' (provider_cache oper rows' c)"
  proof (cases oper)
    case (CreateProvider i p)
    let ?p = "p \<lparr> tp_provider := (tp_provider p) \<lparr> pv_id := i \<rparr> \<rparr>"
    have "tp_id ?p \<notin> tp_id ` set (live rows)" using ok CreateProvider by (auto simp: live_def)
    from shows_insert [OF rows_shown this] show ?thesis
      using \<open>wf_map c\<close> tab CreateProvider
      by (auto simp: provider_agrees_def Provider_Create_def ProviderCache_Create_def wf_intros)
  next
    case (UpdateProvider p)
    then show ?thesis
      using shows_save [OF wf _ rows_shown] ok tab \<open>wf_map c\<close>
      by (auto simp: provider_agrees_def Provider_Update_def ProviderCache_Update_def wf_intros)
  next
    case (DeleteProvider t i nowMs)
    then show ?thesis
      using shows_remove [OF rows_shown, of i] ok tab \<open>wf_map c\<close>
      by (auto simp: provider_agrees_def Provider_Delete_def ProviderCache_Delete_def live_delete wf_intros)
  next
    case ReloadProviders
    then show ?thesis using provider_load_agrees wf tab by simp
  qed
qed (rule provider_load_agrees)

lemma ProviderCache_List_exact:
  assumes "provider_agrees rows c"
  shows "set (ProviderCache_List t c) = {p \<in> set (live rows). in_tenant t (tp_tenant p)}"
    and "distinct (map tp_id (ProviderCache_List t c))"
proof -
  have wf: "wf_map c" and rows_shown: "shows_rows tp_id (set (live rows)) c"
    using assms by (simp_all add: provider_agrees_def)
  have entry: "p \<in> snd ` set c \<longleftrightarrow> p \<in> set (live rows)" for p
  proof -
    have "p \<in> snd ` set c \<longleftrightarrow> (\<exists>k. map_of c k = Some p)" using wf by force
    also have "\<dots> \<longleftrightarrow> p \<in> set (live rows)" using rows_shown by (auto simp: shows_rows_def)
    finally show ?thesis .
  qed
  then show "set (ProviderCache_List t c) = {p \<in> set (live rows). in_tenant t (tp_tenant p)}"
    by (auto simp: ProviderCache_List_def in_tenant_def)
  have "tp_id (snd x) = fst x" if "x \<in> set c" for x
    using shows_rowsD [OF rows_shown, of "fst x" "snd x"] wf that by simp
  then have "map tp_id (map snd c) = map fst c" by simp
  with wf have "distinct (map tp_id (map snd c))" by metis
  then show "distinct (map tp_id (ProviderCache_List t c))"
    unfolding ProviderCache_List_def by (rule distinct_map_filter)
qed

end
