(* ===== verification/Coordinator_Memory.thy ===== *)
theory Coordinator_Memory
  imports Prelude "HOL-Library.Sublist"
begin

text \<open>
  The coordinator of a single process, \<^verbatim>\<open>internal/coordinator/memory.go\<close>: publish and subscribe over
  bounded channels, a key-value store with time to live, and the set of live instances.  A channel of Go
  is the list of its waiting messages, oldest first, and whether it is closed; what would panic (a send
  on a closed channel) has no next state.
\<close>

section \<open>State\<close>

record message =
  msg_sender :: string
  msg_payload :: string

record sub_chan =
  sc_buf :: "message list"
  sc_closed :: bool

text \<open>An expiry of \<open>zero_time\<close> means none.\<close>

record kv_entry =
  kv_value :: string
  kv_expiry :: go_time

text \<open>Subscriptions are numbered in the order they are made; \<open>co_subs\<close> has those registered under a
  channel.\<close>

record memory_coord =
  co_id :: string
  co_kv :: "(string \<times> kv_entry) list"
  co_subs :: "(string \<times> nat list) list"
  co_chans :: "sub_chan list"
  co_alive :: "(string \<times> go_time) list"
  co_closed :: bool

definition NewMemory :: "string \<Rightarrow> memory_coord" where
  "NewMemory instanceID =
     \<lparr> co_id = instanceID, co_kv = [], co_subs = [], co_chans = [], co_alive = [], co_closed = False \<rparr>"

definition chan_capacity :: nat where "chan_capacity = 64"

section \<open>Publish and subscribe\<close>

definition shut :: "nat \<Rightarrow> memory_coord \<Rightarrow> memory_coord" where
  "shut s c = c \<lparr> co_chans := (co_chans c)[s := (co_chans c ! s) \<lparr> sc_closed := True \<rparr>] \<rparr>"

text \<open>A send that does not block: a full channel drops the message.\<close>

definition try_send :: "message \<Rightarrow> nat \<Rightarrow> memory_coord \<Rightarrow> memory_coord option" where
  "try_send m s c =
     (let ch = co_chans c ! s
      in if sc_closed ch then None
         else if length (sc_buf ch) < chan_capacity
         then Some (c \<lparr> co_chans := (co_chans c)[s := ch \<lparr> sc_buf := sc_buf ch @ [m] \<rparr>] \<rparr>)
         else Some c)"

fun send_each :: "message \<Rightarrow> nat list \<Rightarrow> memory_coord \<Rightarrow> memory_coord option" where
  "send_each m [] c = Some c"
| "send_each m (s # ss) c =
     (case try_send m s c of None \<Rightarrow> None | Some c \<Rightarrow> send_each m ss c)"

definition subs_of :: "memory_coord \<Rightarrow> string \<Rightarrow> nat list" where
  "subs_of c channel = lookup_default [] (co_subs c) channel"

definition Publish :: "string \<Rightarrow> string \<Rightarrow> memory_coord \<Rightarrow> memory_coord option" where
  "Publish channel payload c =
     (if co_closed c then Some c
      else send_each \<lparr> msg_sender = co_id c, msg_payload = payload \<rparr> (subs_of c channel) c)"

definition Subscribe :: "string \<Rightarrow> memory_coord \<Rightarrow> memory_coord \<times> nat" where
  "Subscribe channel c =
     (let s = length (co_chans c);
          c = c \<lparr> co_chans := co_chans c @ [\<lparr> sc_buf = [], sc_closed = False \<rparr>] \<rparr>
      in if co_closed c then (shut s c, s)
         else (c \<lparr> co_subs := AList.update channel (s # subs_of c channel) (co_subs c) \<rparr>, s))"

text \<open>The subscriber's context ends.\<close>

definition Unsubscribe :: "string \<Rightarrow> nat \<Rightarrow> memory_coord \<Rightarrow> memory_coord" where
  "Unsubscribe channel s c =
     shut s (case map_of (co_subs c) channel of
               None \<Rightarrow> c
             | Some ss \<Rightarrow> c \<lparr> co_subs := AList.update channel (removeAll s ss) (co_subs c) \<rparr>)"

text \<open>The subscriber reads; \<open>None\<close> if nothing is waiting or the channel is closed and drained.\<close>

definition Receive :: "nat \<Rightarrow> memory_coord \<Rightarrow> memory_coord \<times> message option" where
  "Receive s c =
     (case sc_buf (co_chans c ! s) of
        [] \<Rightarrow> (c, None)
      | m # ms \<Rightarrow>
          (c \<lparr> co_chans := (co_chans c)[s := (co_chans c ! s) \<lparr> sc_buf := ms \<rparr>] \<rparr>, Some m))"

definition Coordinator_Close :: "memory_coord \<Rightarrow> memory_coord" where
  "Coordinator_Close c =
     (if co_closed c then c
      else (fold shut (concat (map snd (co_subs c))) (c \<lparr> co_closed := True \<rparr>)) \<lparr> co_subs := [] \<rparr>)"

section \<open>Keys and values\<close>

definition kv_expired :: "go_time \<Rightarrow> kv_entry \<Rightarrow> bool" where
  "kv_expired now e = (kv_expiry e \<noteq> zero_time \<and> kv_expiry e < now)"

text \<open>The read, and the second look under the write lock when the entry \<open>e\<close> it found has expired.\<close>

definition kv_expire :: "string \<Rightarrow> kv_entry \<Rightarrow> memory_coord \<Rightarrow> memory_coord" where
  "kv_expire key e c =
     (case map_of (co_kv c) key of
        Some e2 \<Rightarrow>
          if kv_expiry e2 = kv_expiry e then c \<lparr> co_kv := AList.delete key (co_kv c) \<rparr> else c
      | None \<Rightarrow> c)"

definition KV_Get :: "string \<Rightarrow> go_time \<Rightarrow> memory_coord \<Rightarrow> memory_coord \<times> string option" where
  "KV_Get key now c =
     (case map_of (co_kv c) key of
        None \<Rightarrow> (c, None)
      | Some e \<Rightarrow> if kv_expired now e then (kv_expire key e c, None) else (c, Some (kv_value e)))"

definition KV_Set :: "string \<Rightarrow> string \<Rightarrow> go_duration \<Rightarrow> go_time \<Rightarrow> memory_coord \<Rightarrow> memory_coord" where
  "KV_Set key val ttl now c =
     c \<lparr> co_kv := AList.update key
            \<lparr> kv_value = val, kv_expiry = (if 0 < ttl then now + ttl else zero_time) \<rparr> (co_kv c) \<rparr>"

definition KV_Del :: "string \<Rightarrow> memory_coord \<Rightarrow> memory_coord" where
  "KV_Del key c = c \<lparr> co_kv := AList.delete key (co_kv c) \<rparr>"

section \<open>Live instances\<close>

definition RegisterInstance :: "go_duration \<Rightarrow> go_time \<Rightarrow> memory_coord \<Rightarrow> memory_coord" where
  "RegisterInstance ttl now c = c \<lparr> co_alive := AList.update (co_id c) (now + ttl) (co_alive c) \<rparr>"

definition RefreshInstance :: "go_duration \<Rightarrow> go_time \<Rightarrow> memory_coord \<Rightarrow> memory_coord" where
  "RefreshInstance ttl now c = RegisterInstance ttl now c"

definition UnregisterInstance :: "memory_coord \<Rightarrow> memory_coord" where
  "UnregisterInstance c = c \<lparr> co_alive := AList.delete (co_id c) (co_alive c) \<rparr>"

definition ListAliveInstances :: "go_time \<Rightarrow> memory_coord \<Rightarrow> memory_coord \<times> string list" where
  "ListAliveInstances now c =
     (let live = filter (\<lambda>p. \<not> snd p < now) (co_alive c)
      in (c \<lparr> co_alive := live \<rparr>, map fst live))"

section \<open>Delivery\<close>

datatype coord_op =
    Pub string string
  | Sub string
  | Cancel nat
  | Recv nat
  | CloseAll
  | Put string string go_duration go_time
  | Fetch string go_time
  | Remove string
  | Register go_duration go_time
  | Leave
  | Alive go_time

text \<open>What a subscription should see: the messages published on its channel while it lives.  It is
  overrun once a message finds 64 others waiting.\<close>

record sub_log =
  sl_channel :: string
  sl_live :: bool
  sl_offered :: "message list"
  sl_taken :: "message list"
  sl_overrun :: bool

definition offer :: "string \<Rightarrow> message \<Rightarrow> sub_log \<Rightarrow> sub_log" where
  "offer channel m l =
     (if sl_live l \<and> sl_channel l = channel
      then l \<lparr> sl_offered := sl_offered l @ [m],
               sl_overrun := sl_overrun l \<or> chan_capacity \<le> length (sl_offered l) - length (sl_taken l) \<rparr>
      else l)"

primrec coord_step ::
  "coord_op \<Rightarrow> memory_coord \<times> sub_log list \<Rightarrow> (memory_coord \<times> sub_log list) option" where
  "coord_step (Pub channel p) s =
     map_option (\<lambda>c. (c, map (offer channel \<lparr> msg_sender = co_id (fst s), msg_payload = p \<rparr>) (snd s)))
       (Publish channel p (fst s))"
| "coord_step (Sub channel) s =
     Some (fst (Subscribe channel (fst s)),
           snd s @ [\<lparr> sl_channel = channel, sl_live = (\<not> co_closed (fst s)), sl_offered = [],
                      sl_taken = [], sl_overrun = False \<rparr>])"
| "coord_step (Cancel i) s =
     Some (if i < length (snd s)
           then (Unsubscribe (sl_channel (snd s ! i)) i (fst s),
                 (snd s)[i := (snd s ! i) \<lparr> sl_live := False \<rparr>])
           else s)"
| "coord_step (Recv i) s =
     Some (if i < length (snd s)
           then (case Receive i (fst s) of
                   (c, None) \<Rightarrow> (c, snd s)
                 | (c, Some m) \<Rightarrow>
                     (c, (snd s)[i := (snd s ! i) \<lparr> sl_taken := sl_taken (snd s ! i) @ [m] \<rparr>]))
           else s)"
| "coord_step CloseAll s =
     Some (Coordinator_Close (fst s), map (\<lambda>l. l \<lparr> sl_live := False \<rparr>) (snd s))"
| "coord_step (Put k v ttl now) s = Some (KV_Set k v ttl now (fst s), snd s)"
| "coord_step (Fetch k now) s = Some (fst (KV_Get k now (fst s)), snd s)"
| "coord_step (Remove k) s = Some (KV_Del k (fst s), snd s)"
| "coord_step (Register ttl now) s = Some (RegisterInstance ttl now (fst s), snd s)"
| "coord_step Leave s = Some (UnregisterInstance (fst s), snd s)"
| "coord_step (Alive now) s = Some (fst (ListAliveInstances now (fst s)), snd s)"

fun coord_run ::
  "coord_op list \<Rightarrow> memory_coord \<times> sub_log list \<Rightarrow> (memory_coord \<times> sub_log list) option" where
  "coord_run [] s = Some s"
| "coord_run (x # xs) s = (case coord_step x s of None \<Rightarrow> None | Some s \<Rightarrow> coord_run xs s)"

text \<open>What a log and its channel have to do with each other.\<close>

definition delivered :: "sub_log \<Rightarrow> sub_chan \<Rightarrow> bool" where
  "delivered l ch \<longleftrightarrow> sl_live l = (\<not> sc_closed ch) \<and> length (sc_buf ch) \<le> chan_capacity \<and>
     subseq (sl_taken l @ sc_buf ch) (sl_offered l) \<and>
     (\<not> sl_overrun l \<longrightarrow> sl_taken l @ sc_buf ch = sl_offered l)"

definition coord_ok :: "memory_coord \<times> sub_log list \<Rightarrow> bool" where
  "coord_ok s \<longleftrightarrow> list_all2 delivered (snd s) (co_chans (fst s)) \<and>
     (\<forall>channel. distinct (subs_of (fst s) channel)) \<and> wf_map (co_subs (fst s)) \<and>
     (\<forall>channel i. i \<in> set (subs_of (fst s) channel) \<longleftrightarrow>
        i < length (snd s) \<and> sl_live (snd s ! i) \<and> sl_channel (snd s ! i) = channel) \<and>
     (co_closed (fst s) \<longrightarrow> list_all (\<lambda>l. \<not> sl_live l) (snd s))"

lemma coord_okD:
  assumes "coord_ok (c, logs)"
  shows "length logs = length (co_chans c)"
    and "i < length logs \<Longrightarrow> delivered (logs ! i) (co_chans c ! i)"
    and "i \<in> set (subs_of c channel) \<longleftrightarrow>
           i < length logs \<and> sl_live (logs ! i) \<and> sl_channel (logs ! i) = channel"
    and "distinct (subs_of c channel)" and "wf_map (co_subs c)"
    and "co_closed c \<Longrightarrow> i < length logs \<Longrightarrow> \<not> sl_live (logs ! i)"
  using assms by (auto simp: coord_ok_def list_all2_conv_all_nth list_all_length)

lemma coord_okI:
  assumes "length logs = length (co_chans c)"
    and "\<And>i. i < length logs \<Longrightarrow> delivered (logs ! i) (co_chans c ! i)"
    and "\<And>channel i. i \<in> set (subs_of c channel) \<longleftrightarrow>
           i < length logs \<and> sl_live (logs ! i) \<and> sl_channel (logs ! i) = channel"
    and "\<And>channel. distinct (subs_of c channel)" and "wf_map (co_subs c)"
    and "\<And>i. co_closed c \<Longrightarrow> i < length logs \<Longrightarrow> \<not> sl_live (logs ! i)"
  shows "coord_ok (c, logs)"
  using assms by (auto simp: coord_ok_def list_all2_conv_all_nth list_all_length)

lemma send_each_open:
  assumes "distinct ss" and "\<And>s. s \<in> set ss \<Longrightarrow> s < length (co_chans c) \<and> \<not> sc_closed (co_chans c ! s)"
  shows "\<exists>chans. send_each m ss c = Some (c \<lparr> co_chans := chans \<rparr>) \<and> length chans = length (co_chans c) \<and>
    (\<forall>i < length chans. chans ! i =
       (if i \<in> set ss \<and> length (sc_buf (co_chans c ! i)) < chan_capacity
        then (co_chans c ! i) \<lparr> sc_buf := sc_buf (co_chans c ! i) @ [m] \<rparr> else co_chans c ! i))"
  using assms
proof (induction ss arbitrary: c)
  case (Cons s ss)
  have s: "s < length (co_chans c)" "\<not> sc_closed (co_chans c ! s)" using Cons.prems(2) [of s] by simp_all
  define one where "one = (if length (sc_buf (co_chans c ! s)) < chan_capacity
      then (co_chans c)[s := (co_chans c ! s) \<lparr> sc_buf := sc_buf (co_chans c ! s) @ [m] \<rparr>] else co_chans c)"
  have first: "try_send m s c = Some (c \<lparr> co_chans := one \<rparr>)"
    using s by (simp add: try_send_def one_def Let_def)
  have len: "length one = length (co_chans c)" by (simp add: one_def)
  have other: "one ! i = co_chans c ! i" if "i \<noteq> s" for i using that by (simp add: one_def)
  have "i < length one \<and> \<not> sc_closed (one ! i)" if "i \<in> set ss" for i
    using Cons.prems(1) Cons.prems(2) [of i] other [of i] len that by (cases "i = s") auto
  then obtain chans where rest: "send_each m ss (c \<lparr> co_chans := one \<rparr>) = Some (c \<lparr> co_chans := chans \<rparr>)"
    "length chans = length one" "\<And>i. i < length chans \<Longrightarrow> chans ! i =
       (if i \<in> set ss \<and> length (sc_buf (one ! i)) < chan_capacity
        then (one ! i) \<lparr> sc_buf := sc_buf (one ! i) @ [m] \<rparr> else one ! i)"
    using Cons.IH [of "c \<lparr> co_chans := one \<rparr>"] Cons.prems(1) by auto
  have "chans ! i = (if i \<in> set (s # ss) \<and> length (sc_buf (co_chans c ! i)) < chan_capacity
        then (co_chans c ! i) \<lparr> sc_buf := sc_buf (co_chans c ! i) @ [m] \<rparr> else co_chans c ! i)"
    if "i < length chans" for i
  proof (cases "i = s")
    case True
    then show ?thesis using rest(3) [OF that] Cons.prems(1) s by (simp add: one_def)
  next
    case False
    then show ?thesis using rest(3) [OF that] other by simp
  qed
  then show ?case using first rest(1,2) len by auto
next
  case Nil
  have "c = c \<lparr> co_chans := co_chans c \<rparr>" by simp
  then show ?case by (metis empty_iff empty_set send_each.simps(1))
qed

lemma delivered_offer:
  assumes "delivered l ch" and "sl_live l"
  shows "delivered (offer (sl_channel l) m l)
     (if length (sc_buf ch) < chan_capacity then ch \<lparr> sc_buf := sc_buf ch @ [m] \<rparr> else ch)"
proof (cases "length (sc_buf ch) < chan_capacity")
  case True
  have "subseq ((sl_taken l @ sc_buf ch) @ [m]) (sl_offered l @ [m])"
    using assms(1) by (intro list_emb_append_mono) (simp_all add: delivered_def)
  then show ?thesis using assms True by (simp add: delivered_def offer_def)
next
  case False
  have "sl_overrun l \<or> chan_capacity \<le> length (sl_offered l) - length (sl_taken l)"
  proof (cases "sl_overrun l")
    case False
    then have "sl_offered l = sl_taken l @ sc_buf ch" using assms(1) by (simp add: delivered_def)
    then have "length (sl_offered l) - length (sl_taken l) = length (sc_buf ch)" by simp
    then show ?thesis using \<open>\<not> length (sc_buf ch) < chan_capacity\<close> by simp
  qed simp
  moreover have "subseq (sl_taken l @ sc_buf ch) (sl_offered l @ [m])"
    using assms(1) by (simp add: delivered_def list_emb_append_mono [of _ _ "sl_offered l" "[]" "[m]", simplified])
  ultimately show ?thesis using assms False by (simp add: delivered_def offer_def)
qed

lemma offer_other: "\<not> (sl_live l \<and> sl_channel l = channel) \<Longrightarrow> offer channel m l = l"
  unfolding offer_def by (simp only: if_False)

lemma offer_sel [simp]:
  "sl_live (offer channel m l) = sl_live l" "sl_channel (offer channel m l) = sl_channel l"
  by (simp_all add: offer_def)

lemma Publish_ok:
  assumes "coord_ok (c, logs)"
  shows "\<exists>c'. Publish channel p c = Some c' \<and>
    coord_ok (c', map (offer channel \<lparr> msg_sender = co_id c, msg_payload = p \<rparr>) logs)"
proof (cases "co_closed c")
  case True
  have "offer channel m l = l" if "l \<in> set logs" for l m
    using assms True that by (auto simp: coord_ok_def list_all_iff offer_def)
  then have "map (offer channel \<lparr> msg_sender = co_id c, msg_payload = p \<rparr>) logs = logs"
    by (simp add: map_idI)
  then show ?thesis using assms True by (simp add: Publish_def)
next
  case False
  note ok = coord_okD [OF assms]
  define m where "m = \<lparr> msg_sender = co_id c, msg_payload = p \<rparr>"
  define ss where "ss = subs_of c channel"
  have open_sub: "s < length (co_chans c) \<and> \<not> sc_closed (co_chans c ! s)" if "s \<in> set ss" for s
    using that ok(1) ok(2) [of s] ok(3) [of s channel] by (auto simp: ss_def delivered_def)
  have "distinct ss" using ok(4) by (simp add: ss_def)
  from send_each_open [OF this open_sub] obtain chans where
    sent: "send_each m ss c = Some (c \<lparr> co_chans := chans \<rparr>)" and len: "length chans = length (co_chans c)"
    and chan: "\<And>i. i < length chans \<Longrightarrow> chans ! i =
       (if i \<in> set ss \<and> length (sc_buf (co_chans c ! i)) < chan_capacity
        then (co_chans c ! i) \<lparr> sc_buf := sc_buf (co_chans c ! i) @ [m] \<rparr> else co_chans c ! i)"
    by blast
  have "coord_ok (c \<lparr> co_chans := chans \<rparr>, map (offer channel m) logs)"
  proof (rule coord_okI)
    show "length (map (offer channel m) logs) = length (co_chans (c \<lparr> co_chans := chans \<rparr>))"
      using ok(1) len by simp
    show "delivered (map (offer channel m) logs ! i) (co_chans (c \<lparr> co_chans := chans \<rparr>) ! i)"
      if "i < length (map (offer channel m) logs)" for i
    proof (cases "i \<in> set ss")
      case True
      then have live: "sl_live (logs ! i)" "sl_channel (logs ! i) = channel"
        using ok(3) by (simp_all add: ss_def)
      from delivered_offer [OF ok(2) live(1), of m] that True show ?thesis
        by (simp add: chan len ok(1) live(2))
    next
      case False
      then have "offer channel m (logs ! i) = logs ! i"
        using that ok(3) [of i channel] by (intro offer_other) (auto simp: ss_def)
      with False that show ?thesis using ok(1,2) by (simp add: chan len)
    qed
    show "i \<in> set (subs_of (c \<lparr> co_chans := chans \<rparr>) channel') \<longleftrightarrow>
        i < length (map (offer channel m) logs) \<and> sl_live (map (offer channel m) logs ! i) \<and>
        sl_channel (map (offer channel m) logs ! i) = channel'" for i channel'
      using ok(3) [of i channel'] by (auto simp: subs_of_def)
  qed (use ok(4,5,6) False in \<open>auto simp: subs_of_def\<close>)
  with sent show ?thesis using False by (simp add: Publish_def m_def ss_def)
qed

lemma fold_shut:
  "length (co_chans (fold shut ss c)) = length (co_chans c)" (is "?len")
  "i < length (co_chans c) \<Longrightarrow> co_chans (fold shut ss c) ! i =
     (if i \<in> set ss then (co_chans c ! i) \<lparr> sc_closed := True \<rparr> else co_chans c ! i)" (is "?i \<Longrightarrow> ?nth")
  "co_subs (fold shut ss c) = co_subs c" "co_closed (fold shut ss c) = co_closed c"
proof -
  have "length (co_chans (fold shut ss c)) = length (co_chans c) \<and>
    (i < length (co_chans c) \<longrightarrow> co_chans (fold shut ss c) ! i =
       (if i \<in> set ss then (co_chans c ! i) \<lparr> sc_closed := True \<rparr> else co_chans c ! i)) \<and>
    co_subs (fold shut ss c) = co_subs c \<and> co_closed (fold shut ss c) = co_closed c"
  proof (induction ss arbitrary: c)
    case (Cons s ss)
    show ?case using Cons.IH [of "shut s c"] by (cases "s = i") (simp_all add: shut_def)
  qed simp
  then show "?len" "?i \<Longrightarrow> ?nth" "co_subs (fold shut ss c) = co_subs c"
    "co_closed (fold shut ss c) = co_closed c" by blast+
qed

lemma shut_sel [simp]:
  "length (co_chans (shut s c)) = length (co_chans c)" "co_subs (shut s c) = co_subs c"
  "co_closed (shut s c) = co_closed c"
  "i < length (co_chans c) \<Longrightarrow> co_chans (shut s c) ! i =
     (if i = s then (co_chans c ! i) \<lparr> sc_closed := True \<rparr> else co_chans c ! i)"
  by (simp_all add: shut_def nth_list_update)

lemma subs_of_same [simp]:
  "subs_of (c \<lparr> co_chans := chans \<rparr>) = subs_of c" "subs_of (shut s c) = subs_of c"
  by (simp_all add: subs_of_def fun_eq_iff)

lemma subs_of_update [simp]:
  "subs_of (c \<lparr> co_subs := AList.update channel ss (co_subs c') \<rparr>) channel' =
     (if channel' = channel then ss else subs_of c' channel')"
  by (simp add: subs_of_def lookup_default_def map_of_update)

lemma Subscribe_ok:
  assumes "coord_ok (c, logs)"
  shows "coord_ok (fst (Subscribe channel c),
    logs @ [\<lparr> sl_channel = channel, sl_live = (\<not> co_closed c), sl_offered = [], sl_taken = [],
              sl_overrun = False \<rparr>])"
    (is "coord_ok (?c, logs @ [?l])")
proof (rule coord_okI)
  note ok = coord_okD [OF assms]
  show "length (logs @ [?l]) = length (co_chans ?c)"
    using ok(1) by (simp add: Subscribe_def Let_def)
  show "delivered ((logs @ [?l]) ! i) (co_chans ?c ! i)" if "i < length (logs @ [?l])" for i
    using that ok(1,2) by (auto simp: Subscribe_def Let_def nth_append delivered_def)
  show "i \<in> set (subs_of ?c channel') \<longleftrightarrow> i < length (logs @ [?l]) \<and> sl_live ((logs @ [?l]) ! i) \<and>
      sl_channel ((logs @ [?l]) ! i) = channel'" for channel' i
    using ok(1) ok(3) [of i channel'] ok(3) [of i channel] ok(6)
    by (auto simp: Subscribe_def Let_def nth_append)
  show "distinct (subs_of ?c channel')" for channel'
    using ok(1,4) ok(3) [of "length (co_chans c)" channel]
    by (auto simp: Subscribe_def Let_def)
  show "wf_map (co_subs ?c)" using ok(5) by (simp add: Subscribe_def Let_def wf_intros)
  show "\<not> sl_live ((logs @ [?l]) ! i)" if "co_closed ?c" and "i < length (logs @ [?l])" for i
    using that ok(6) by (auto simp: Subscribe_def Let_def nth_append less_Suc_eq split: if_splits)
qed

lemma Unsubscribe_ok:
  assumes "coord_ok (c, logs)" and "s < length logs"
  shows "coord_ok (Unsubscribe (sl_channel (logs ! s)) s c, logs[s := (logs ! s) \<lparr> sl_live := False \<rparr>])"
proof (rule coord_okI)
  note ok = coord_okD [OF assms(1)]
  let ?c = "Unsubscribe (sl_channel (logs ! s)) s c" and ?logs = "logs[s := (logs ! s) \<lparr> sl_live := False \<rparr>]"
  have chans: "co_chans ?c = co_chans (shut s c)" and closed: "co_closed ?c = co_closed c"
    by (simp_all add: Unsubscribe_def shut_def split: option.split)
  have subs: "subs_of ?c channel =
      (if channel = sl_channel (logs ! s) then removeAll s (subs_of c channel) else subs_of c channel)" for channel
    by (simp add: Unsubscribe_def lookup_default_def subs_of_def map_of_update split: option.split)
  show "length ?logs = length (co_chans ?c)" using ok(1) chans by simp
  show "delivered (?logs ! i) (co_chans ?c ! i)" if "i < length ?logs" for i
    using that ok(1) ok(2) [of i] chans by (cases "i = s") (auto simp: delivered_def)
  show "i \<in> set (subs_of ?c channel) \<longleftrightarrow> i < length ?logs \<and> sl_live (?logs ! i) \<and>
      sl_channel (?logs ! i) = channel" for channel i
    using ok(3) [of i channel] by (cases "i = s") (auto simp: subs)
  show "distinct (subs_of ?c channel)" for channel using ok(4) by (simp add: subs distinct_removeAll)
  show "wf_map (co_subs ?c)" using ok(5) by (auto simp: Unsubscribe_def wf_intros split: option.split)
  show "\<not> sl_live (?logs ! i)" if "co_closed ?c" and "i < length ?logs" for i
    using that ok(6) closed by (cases "i = s") auto
qed

lemma Receive_ok:
  assumes "coord_ok (c, logs)" and "s < length logs"
  shows "case Receive s c of
           (c', None) \<Rightarrow> coord_ok (c', logs)
         | (c', Some m) \<Rightarrow> coord_ok (c', logs[s := (logs ! s) \<lparr> sl_taken := sl_taken (logs ! s) @ [m] \<rparr>])"
proof (cases "sc_buf (co_chans c ! s)")
  case Nil
  then show ?thesis using assms(1) by (simp add: Receive_def)
next
  case (Cons m ms)
  note ok = coord_okD [OF assms(1)]
  have s: "s < length (co_chans c)" using ok(1) assms(2) by simp
  let ?c = "c \<lparr> co_chans := (co_chans c)[s := (co_chans c ! s) \<lparr> sc_buf := ms \<rparr>] \<rparr>"
  let ?logs = "logs[s := (logs ! s) \<lparr> sl_taken := sl_taken (logs ! s) @ [m] \<rparr>]"
  have "coord_ok (?c, ?logs)"
  proof (rule coord_okI)
    show "delivered (?logs ! i) (co_chans ?c ! i)" if "i < length ?logs" for i
      using that ok(2) [of i] ok(1) Cons s assms(2) by (cases "i = s") (auto simp: delivered_def)
    show "i \<in> set (subs_of ?c channel) \<longleftrightarrow> i < length ?logs \<and> sl_live (?logs ! i) \<and>
        sl_channel (?logs ! i) = channel" for channel i
      using ok(3) [of i channel] assms(2) by (cases "i = s") auto
    show "\<not> sl_live (?logs ! i)" if "co_closed ?c" and "i < length ?logs" for i
      using that ok(6) [of i] by (cases "i = s") auto
  qed (use ok(1,4,5) in simp_all)
  then show ?thesis using Cons by (simp add: Receive_def)
qed

lemma in_concat_subs:
  assumes "wf_map m" and "i \<in> set (lookup_default [] m k)"
  shows "i \<in> set (concat (map snd m))"
  using assms by (force simp: lookup_default_def split: option.splits)

lemma Close_ok:
  assumes "coord_ok (c, logs)"
  shows "coord_ok (Coordinator_Close c, map (\<lambda>l. l \<lparr> sl_live := False \<rparr>) logs)"
proof (cases "co_closed c")
  case True
  have "l \<lparr> sl_live := False \<rparr> = l" if "l \<in> set logs" for l
    using assms True that by (auto simp: coord_ok_def list_all_iff)
  then have "map (\<lambda>l. l \<lparr> sl_live := False \<rparr>) logs = logs" by (simp add: map_idI)
  then show ?thesis using assms True by (simp add: Coordinator_Close_def)
next
  case False
  note ok = coord_okD [OF assms]
  let ?logs = "map (\<lambda>l. l \<lparr> sl_live := False \<rparr>) logs" and ?c = "Coordinator_Close c"
  define ss where "ss = concat (map snd (co_subs c))"
  have close: "?c = (fold shut ss (c \<lparr> co_closed := True \<rparr>)) \<lparr> co_subs := [] \<rparr>"
    using False by (simp add: Coordinator_Close_def ss_def)
  have live: "i \<in> set ss" if "i < length logs" "sl_live (logs ! i)" for i
    using ok(3) [of i "sl_channel (logs ! i)"] that in_concat_subs [OF ok(5), of i]
    by (auto simp: ss_def subs_of_def)
  show ?thesis
  proof (rule coord_okI)
    show "length ?logs = length (co_chans ?c)" using ok(1) by (simp add: close fold_shut(1))
    show "delivered (?logs ! i) (co_chans ?c ! i)" if "i < length ?logs" for i
      using that ok(1) ok(2) [of i] live [of i]
      by (auto simp: close delivered_def fold_shut(2) [of i "c \<lparr> co_closed := True \<rparr>"])
    show "i \<in> set (subs_of ?c channel) \<longleftrightarrow> i < length ?logs \<and> sl_live (?logs ! i) \<and>
        sl_channel (?logs ! i) = channel" for channel i
      by (cases "i < length logs") (simp_all add: close subs_of_def lookup_default_def)
  qed (simp_all add: close subs_of_def lookup_default_def)
qed

lemma coord_ok_kv [simp]:
  "coord_ok (c \<lparr> co_kv := kv \<rparr>, logs) = coord_ok (c, logs)"
  "coord_ok (c \<lparr> co_alive := al \<rparr>, logs) = coord_ok (c, logs)"
  by (simp_all add: coord_ok_def subs_of_def)

lemma coord_step_ok: "coord_ok s \<Longrightarrow> \<exists>s'. coord_step x s = Some s' \<and> coord_ok s'"
proof (cases s)
  case (Pair c logs)
  moreover assume "coord_ok s"
  ultimately have ok: "coord_ok (c, logs)" by simp
  show ?thesis
  proof (cases x)
    case (Pub channel p)
    then show ?thesis using Publish_ok [OF ok, of channel p] Pair by auto
  next
    case (Recv i)
    then show ?thesis using Receive_ok [OF ok, of i] ok Pair by (auto split: prod.splits option.splits)
  qed (use Pair ok Subscribe_ok Unsubscribe_ok Close_ok in \<open>auto simp: KV_Set_def KV_Del_def KV_Get_def
      kv_expire_def RegisterInstance_def UnregisterInstance_def ListAliveInstances_def Let_def
      split: option.split\<close>)
qed

lemma coord_run_ok: "coord_ok s \<Longrightarrow> \<exists>s'. coord_run xs s = Some s' \<and> coord_ok s'"
proof (induction xs arbitrary: s)
  case (Cons x xs)
  then show ?case using coord_step_ok [of s x] by auto
qed simp

text \<open>C18: Whatever is published, subscribed, cancelled, read and closed in whatever order, the coordinator
  never sends on a closed channel; every subscriber has got or still gets the messages published on its
  channel while it was subscribed in their order, and all of them if never 64 were waiting.\<close>

theorem coordinator_delivers:
  "\<exists>c logs. coord_run ops (NewMemory i, []) = Some (c, logs) \<and>
     list_all2 (\<lambda>l ch. subseq (sl_taken l @ sc_buf ch) (sl_offered l) \<and>
                        (sl_overrun l \<or> sl_taken l @ sc_buf ch = sl_offered l) \<and>
                        length (sc_buf ch) \<le> 64) logs (co_chans c)"
proof -
  have "coord_ok (NewMemory i, [])"
    by (simp add: coord_ok_def NewMemory_def subs_of_def lookup_default_def)
  from coord_run_ok [OF this] obtain c logs where
    "coord_run ops (NewMemory i, []) = Some (c, logs)" "coord_ok (c, logs)" by (metis surj_pair)
  then show ?thesis
    by (auto simp: coord_ok_def delivered_def chan_capacity_def elim: list_all2_mono)
qed

section \<open>The key-value store as an interface\<close>

text \<open>What clients call.  An error other than a missing key is that of a remote store.\<close>

datatype kv_error = KeyNotFound | KvFailed

record 's kv_ops =
  kv_get :: "string \<Rightarrow> go_time \<Rightarrow> 's \<Rightarrow> 's \<times> (kv_error + string)"
  kv_set :: "string \<Rightarrow> string \<Rightarrow> go_duration \<Rightarrow> go_time \<Rightarrow> 's \<Rightarrow> 's \<times> kv_error option"
  kv_del :: "string \<Rightarrow> 's \<Rightarrow> 's \<times> kv_error option"

text \<open>\<open>holds s k v\<close>: the store may still answer \<open>v\<close> for the key, now or later.\<close>

locale shared_kv =
  fixes ops :: "'s kv_ops"
    and holds :: "'s \<Rightarrow> string \<Rightarrow> string \<Rightarrow> bool"
  assumes get_held: "kv_get ops k now s = (s', r) \<Longrightarrow>
      (\<forall>v. r = Inr v \<longrightarrow> holds s k v) \<and> (\<forall>k' v. holds s' k' v \<longrightarrow> holds s k' v)"
    and set_held: "kv_set ops k v ttl now s = (s', None) \<Longrightarrow>
      holds s' k' w \<longleftrightarrow> (if k' = k then w = v else holds s k' w)"
    and set_failed: "kv_set ops k v ttl now s = (s', Some e) \<Longrightarrow>
      holds s' k' w \<Longrightarrow> holds s k' w \<or> k' = k \<and> w = v"
    and del_held: "kv_del ops k s = (s', None) \<Longrightarrow> holds s' k' w \<longleftrightarrow> k' \<noteq> k \<and> holds s k' w"
    and del_failed: "kv_del ops k s = (s', Some e) \<Longrightarrow> holds s' k' w \<Longrightarrow> holds s k' w"

definition memory_kv :: "memory_coord kv_ops" where
  "memory_kv = \<lparr>
     kv_get = (\<lambda>k now c. case KV_Get k now c of
                 (c, Some v) \<Rightarrow> (c, Inr v) | (c, None) \<Rightarrow> (c, Inl KeyNotFound)),
     kv_set = (\<lambda>k v ttl now c. (KV_Set k v ttl now c, None)),
     kv_del = (\<lambda>k c. (KV_Del k c, None)) \<rparr>"

definition mem_holds :: "memory_coord \<Rightarrow> string \<Rightarrow> string \<Rightarrow> bool" where
  "mem_holds c k v = (\<exists>e. map_of (co_kv c) k = Some e \<and> kv_value e = v)"

interpretation mem_kv: shared_kv memory_kv mem_holds
proof
  fix k now s s' r
  assume get: "kv_get memory_kv k now s = (s', r)"
  show "(\<forall>v. r = Inr v \<longrightarrow> mem_holds s k v) \<and> (\<forall>k' v. mem_holds s' k' v \<longrightarrow> mem_holds s k' v)"
    using get by (auto simp: memory_kv_def KV_Get_def kv_expire_def mem_holds_def delete_conv' split: option.splits if_splits)
qed (auto simp: memory_kv_def KV_Set_def KV_Del_def mem_holds_def map_of_update delete_conv' split: if_splits)

text \<open>An entry is answered until its time is over, whatever happens to other keys.\<close>

lemma KV_Get_Set:
  assumes "0 < ttl" and "now + ttl \<noteq> zero_time"
  shows "snd (KV_Get k t (KV_Set k v ttl now c)) = (if t \<le> now + ttl then Some v else None)"
  using assms by (simp add: KV_Get_def KV_Set_def kv_expired_def map_of_update)

lemma KV_Get_forever: "ttl \<le> 0 \<Longrightarrow> snd (KV_Get k t (KV_Set k v ttl now c)) = Some v"
  by (simp add: KV_Get_def KV_Set_def kv_expired_def map_of_update)

text \<open>Between the two looks of \<open>Get\<close> a write of the key may come; it is not lost.\<close>

lemma late_expire_keeps_write:
  assumes "kv_expired now e" and "now \<le> now'" and "0 < ttl"
  shows "kv_expire k e (KV_Set k v ttl now' c) = KV_Set k v ttl now' c"
  using assms by (simp add: kv_expire_def KV_Set_def kv_expired_def map_of_update)

end
