(* ===== verification/Token_Store.thy ===== *)
theory Token_Store
  imports Go_Text Soft_Table
begin

text \<open>
  API tokens: the table (\<^verbatim>\<open>internal/repository/sqlite/api_token.go\<close>), the cache by identifier and by
  plaintext (\<^verbatim>\<open>internal/repository/cached/api_token.go\<close>), and the admin operations on them
  (\<^verbatim>\<open>internal/service/admin.go\<close>, \<^verbatim>\<open>internal/handler/admin.go\<close>).  Both maps of the cache hold pointers to the
  same objects, which callers get and write to; so the cache is modelled with its objects in a store.
\<close>

section \<open>Tokens and rows\<close>

record token =
  ak_id :: u64
  ak_tenant :: u64
  ak_token :: string
  ak_prefix :: string
  ak_name :: string
  ak_description :: string
  ak_project :: u64
  ak_enabled :: bool
  ak_dev_mode :: bool
  ak_expires :: "go_time option"
  ak_last_used :: "go_time option"
  ak_last_ip :: string
  ak_last_ip_at :: "go_time option"
  ak_use_count :: u64
  ak_quota :: u64

text \<open>Columns hold milliseconds, zero for none.\<close>

definition milli :: int where "milli = 1000000"

definition toTimestampPtr :: "go_time option \<Rightarrow> int" where
  "toTimestampPtr t =
     (case t of None \<Rightarrow> 0 | Some x \<Rightarrow> if x = zero_time then 0 else x div milli)"

definition fromTimestampPtr :: "int \<Rightarrow> go_time option" where
  "fromTimestampPtr ms = (if ms = 0 then None else Some (ms * milli))"

definition stored_time :: "go_time option \<Rightarrow> go_time option" where
  "stored_time t = fromTimestampPtr (toTimestampPtr t)"

text \<open>A token written to its row and read back.\<close>

definition stored :: "token \<Rightarrow> token" where
  "stored t = t \<lparr> ak_expires := stored_time (ak_expires t), ak_last_used := stored_time (ak_last_used t),
                  ak_last_ip_at := stored_time (ak_last_ip_at t) \<rparr>"

type_synonym token_rows = "token soft_row list"

text \<open>The column of the plaintext is unique, deleted rows included.\<close>

definition token_taken :: "string \<Rightarrow> u64 \<Rightarrow> token_rows \<Rightarrow> bool" where
  "token_taken s i rows = list_ex (\<lambda>x. ak_token (sr_row x) = s \<and> ak_id (sr_row x) \<noteq> i) rows"

definition Token_Create :: "u64 \<Rightarrow> token \<Rightarrow> token_rows \<Rightarrow> token_rows option" where
  "Token_Create newID t rows =
     (if token_taken (ak_token t) newID rows then None
      else Some (soft_create (stored (t \<lparr> ak_id := newID \<rparr>)) rows))"

definition updated_token :: "token \<Rightarrow> token \<Rightarrow> token" where
  "updated_token t r =
     (let r = r \<lparr> ak_name := ak_name t, ak_description := ak_description t, ak_project := ak_project t,
                  ak_enabled := ak_enabled t, ak_dev_mode := ak_dev_mode t,
                  ak_expires := stored_time (ak_expires t), ak_last_used := stored_time (ak_last_used t),
                  ak_last_ip := ak_last_ip t, ak_last_ip_at := stored_time (ak_last_ip_at t),
                  ak_quota := ak_quota t \<rparr>
      in if ak_token t \<noteq> '''' then r \<lparr> ak_token := ak_token t, ak_prefix := ak_prefix t \<rparr> else r)"

definition Token_Update :: "token \<Rightarrow> token_rows \<Rightarrow> token_rows option" where
  "Token_Update t rows =
     (if ak_token t \<noteq> '''' \<and> list_ex (\<lambda>s. ak_id (sr_row s) = ak_id t) rows \<and> token_taken (ak_token t) (ak_id t) rows
      then None
      else Some (map (\<lambda>s. if ak_id (sr_row s) = ak_id t
                          then s \<lparr> sr_row := updated_token t (sr_row s) \<rparr> else s) rows))"

definition Token_Delete :: "u64 \<Rightarrow> u64 \<Rightarrow> int \<Rightarrow> token_rows \<Rightarrow> token_rows" where
  "Token_Delete tenant i nowMs rows = soft_delete ak_id ak_tenant tenant i nowMs rows"

definition expired_row :: "go_time \<Rightarrow> go_duration \<Rightarrow> token \<Rightarrow> bool" where
  "expired_row now inactive r =
     (let e = toTimestampPtr (ak_expires r); l = toTimestampPtr (ak_last_used r)
      in (0 < e \<and> e < now div milli) \<or> (0 < l \<and> l < (now - inactive) div milli))"

text \<open>Latest first: the rows are in the order of their creation.\<close>

definition Token_DeleteExpired ::
  "u64 \<Rightarrow> go_time \<Rightarrow> go_duration \<Rightarrow> int \<Rightarrow> token_rows \<Rightarrow> token_rows \<times> token list" where
  "Token_DeleteExpired tenant now inactive deletedAt rows =
     (let models = rev (filter (\<lambda>r. in_tenant tenant (ak_tenant r) \<and> expired_row now inactive r) (live rows));
          ids = map ak_id models
      in (map (\<lambda>s. if in_tenant tenant (ak_tenant (sr_row s)) \<and> ak_id (sr_row s) \<in> set ids \<and> sr_deleted s = 0
                   then s \<lparr> sr_deleted := deletedAt \<rparr> else s) rows,
          models))"

text \<open>By identifier a deleted row is found as well.\<close>

definition Token_GetByID :: "u64 \<Rightarrow> u64 \<Rightarrow> token_rows \<Rightarrow> token option" where
  "Token_GetByID tenant i rows =
     find (\<lambda>r. in_tenant tenant (ak_tenant r) \<and> ak_id r = i) (map sr_row rows)"

definition Token_GetByToken :: "u64 \<Rightarrow> string \<Rightarrow> token_rows \<Rightarrow> token option" where
  "Token_GetByToken tenant s rows =
     find (\<lambda>r. in_tenant tenant (ak_tenant r) \<and> ak_token r = s) (live rows)"

definition Token_List :: "u64 \<Rightarrow> token_rows \<Rightarrow> token list" where
  "Token_List tenant rows = rev (filter (\<lambda>r. in_tenant tenant (ak_tenant r)) (live rows))"

definition seen_row :: "string \<Rightarrow> go_time \<Rightarrow> token \<Rightarrow> token" where
  "seen_row lastIP at r =
     (let ms = at div milli;
          r = r \<lparr> ak_use_count := ak_use_count r + 1, ak_last_used := fromTimestampPtr ms \<rparr>
      in if TrimSpace lastIP \<noteq> ''''
         then r \<lparr> ak_last_ip := TrimSpace lastIP, ak_last_ip_at := fromTimestampPtr ms \<rparr> else r)"

definition on_rows :: "(token \<Rightarrow> bool) \<Rightarrow> (token \<Rightarrow> token) \<Rightarrow> token_rows \<Rightarrow> token_rows" where
  "on_rows P f rows = map (\<lambda>s. if P (sr_row s) then s \<lparr> sr_row := f (sr_row s) \<rparr> else s) rows"

definition Token_UpdateLastSeen :: "u64 \<Rightarrow> u64 \<Rightarrow> string \<Rightarrow> go_time \<Rightarrow> token_rows \<Rightarrow> token_rows" where
  "Token_UpdateLastSeen tenant i lastIP at rows =
     on_rows (\<lambda>r. in_tenant tenant (ak_tenant r) \<and> ak_id r = i) (seen_row lastIP at) rows"

definition Token_AddQuotaBalance :: "u64 \<Rightarrow> u64 list \<Rightarrow> u64 \<Rightarrow> token_rows \<Rightarrow> token_rows \<times> nat" where
  "Token_AddQuotaBalance tenant ids amount rows =
     (if ids = [] \<or> amount = 0 then (rows, 0)
      else (let hit = \<lambda>r. in_tenant tenant (ak_tenant r) \<and> ak_id r \<in> set ids
            in (on_rows hit (\<lambda>r. r \<lparr> ak_quota := ak_quota r + amount \<rparr>) rows,
                length (filter (\<lambda>s. hit (sr_row s)) rows))))"

definition deducted :: "u64 \<Rightarrow> u64 \<Rightarrow> u64" where
  "deducted amount quota = (if amount < quota then quota - amount else 0)"

definition Token_DeductQuotaBalanceToZero :: "u64 \<Rightarrow> u64 \<Rightarrow> u64 \<Rightarrow> token_rows \<Rightarrow> token_rows" where
  "Token_DeductQuotaBalanceToZero tenant i amount rows =
     (if i = 0 \<or> amount = 0 then rows
      else on_rows (\<lambda>r. in_tenant tenant (ak_tenant r) \<and> ak_id r = i)
             (\<lambda>r. r \<lparr> ak_quota := deducted amount (ak_quota r) \<rparr>) rows)"

section \<open>The cache\<close>

text \<open>A pointer is an index into the objects.\<close>

record token_cache =
  tc_objects :: "token list"
  tc_ids :: "(u64 \<times> nat) list"
  tc_tokens :: "(string \<times> nat) list"

definition obj :: "token_cache \<Rightarrow> nat \<Rightarrow> token" where
  "obj c p = tc_objects c ! p"

definition alloc :: "token \<Rightarrow> token_cache \<Rightarrow> token_cache \<times> nat" where
  "alloc t c = (c \<lparr> tc_objects := tc_objects c @ [t] \<rparr>, length (tc_objects c))"

definition put_obj :: "nat \<Rightarrow> token \<Rightarrow> token_cache \<Rightarrow> token_cache" where
  "put_obj p t c = c \<lparr> tc_objects := (tc_objects c)[p := t] \<rparr>"

definition remember :: "nat \<Rightarrow> token_cache \<Rightarrow> token_cache" where
  "remember p c =
     c \<lparr> tc_ids := AList.update (ak_id (obj c p)) p (tc_ids c),
         tc_tokens := AList.update (ak_token (obj c p)) p (tc_tokens c) \<rparr>"

text \<open>A read that missed the cache keeps what the table answered.\<close>

definition fill :: "token option \<Rightarrow> token_cache \<Rightarrow> token_cache \<times> nat option" where
  "fill found c =
     (case found of None \<Rightarrow> (c, None) | Some t \<Rightarrow> (let (c, p) = alloc t c in (remember p c, Some p)))"

definition TokenCache_Create :: "u64 \<Rightarrow> nat \<Rightarrow> token_cache \<Rightarrow> token_cache" where
  "TokenCache_Create newID p c = remember p (put_obj p ((obj c p) \<lparr> ak_id := newID \<rparr>) c)"

definition TokenCache_Update :: "nat \<Rightarrow> token_cache \<Rightarrow> token_cache" where
  "TokenCache_Update p c =
     (let t = obj c p;
          m = (case map_of (tc_ids c) (ak_id t) of
                 None \<Rightarrow> tc_tokens c
               | Some old \<Rightarrow> if ak_token (obj c old) \<noteq> ak_token t
                             then AList.delete (ak_token (obj c old)) (tc_tokens c) else tc_tokens c);
          m = filter (\<lambda>(s, q). \<not> (ak_id (obj c q) = ak_id t \<and> s \<noteq> ak_token t)) m
      in c \<lparr> tc_ids := AList.update (ak_id t) p (tc_ids c),
             tc_tokens := (if ak_token t \<noteq> '''' then AList.update (ak_token t) p m else m) \<rparr>)"

definition TokenCache_Delete :: "u64 \<Rightarrow> token_cache \<Rightarrow> token_cache" where
  "TokenCache_Delete i c =
     c \<lparr> tc_ids := AList.delete i (tc_ids c),
         tc_tokens := (case map_of (tc_ids c) i of
                         None \<Rightarrow> tc_tokens c
                       | Some p \<Rightarrow> AList.delete (ak_token (obj c p)) (tc_tokens c)) \<rparr>"

definition forget :: "token \<Rightarrow> token_cache \<Rightarrow> token_cache" where
  "forget t c = c \<lparr> tc_ids := AList.delete (ak_id t) (tc_ids c), tc_tokens := AList.delete (ak_token t) (tc_tokens c) \<rparr>"

definition TokenCache_DeleteExpired :: "token list \<Rightarrow> token_cache \<Rightarrow> token_cache" where
  "TokenCache_DeleteExpired tokens c = fold forget tokens c"

definition TokenCache_GetByID ::
  "u64 \<Rightarrow> u64 \<Rightarrow> token_rows \<Rightarrow> token_cache \<Rightarrow> token_cache \<times> nat option" where
  "TokenCache_GetByID tenant i rows c =
     (case map_of (tc_ids c) i of
        Some p \<Rightarrow> if tenant = 0 \<or> ak_tenant (obj c p) = tenant then (c, Some p)
                  else fill (Token_GetByID tenant i rows) c
      | None \<Rightarrow> fill (Token_GetByID tenant i rows) c)"

definition TokenCache_GetByToken ::
  "u64 \<Rightarrow> string \<Rightarrow> token_rows \<Rightarrow> token_cache \<Rightarrow> token_cache \<times> nat option" where
  "TokenCache_GetByToken tenant s rows c =
     (case map_of (tc_tokens c) s of
        Some p \<Rightarrow> if tenant = 0 \<or> ak_tenant (obj c p) = tenant then (c, Some p)
                  else fill (Token_GetByToken tenant s rows) c
      | None \<Rightarrow> fill (Token_GetByToken tenant s rows) c)"

definition on_cached :: "u64 \<Rightarrow> (token \<Rightarrow> token) \<Rightarrow> token_cache \<Rightarrow> token_cache" where
  "on_cached i f c =
     (case map_of (tc_ids c) i of None \<Rightarrow> c | Some p \<Rightarrow> put_obj p (f (obj c p)) c)"

definition seen_object :: "string \<Rightarrow> go_time \<Rightarrow> token \<Rightarrow> token" where
  "seen_object lastIP at t =
     (let t = t \<lparr> ak_use_count := ak_use_count t + 1, ak_last_used := Some at \<rparr>
      in if lastIP \<noteq> '''' then t \<lparr> ak_last_ip := lastIP, ak_last_ip_at := Some at \<rparr> else t)"

definition TokenCache_UpdateLastSeen :: "u64 \<Rightarrow> string \<Rightarrow> go_time \<Rightarrow> token_cache \<Rightarrow> token_cache" where
  "TokenCache_UpdateLastSeen i lastIP at c = on_cached i (seen_object lastIP at) c"

definition TokenCache_AddQuotaBalance :: "u64 \<Rightarrow> u64 list \<Rightarrow> u64 \<Rightarrow> token_cache \<Rightarrow> token_cache" where
  "TokenCache_AddQuotaBalance tenant ids amount c =
     fold (\<lambda>i. on_cached i (\<lambda>t. if ak_tenant t = tenant then t \<lparr> ak_quota := ak_quota t + amount \<rparr> else t)) ids c"

definition TokenCache_DeductQuotaBalanceToZero :: "u64 \<Rightarrow> u64 \<Rightarrow> u64 \<Rightarrow> token_cache \<Rightarrow> token_cache" where
  "TokenCache_DeductQuotaBalanceToZero tenant i amount c =
     on_cached i (\<lambda>t. if ak_tenant t = tenant then t \<lparr> ak_quota := deducted amount (ak_quota t) \<rparr> else t) c"

definition InvalidateCache :: "token_cache \<Rightarrow> token_cache" where
  "InvalidateCache c = c \<lparr> tc_ids := [], tc_tokens := [] \<rparr>"

definition TokenCache_Load :: "token_rows \<Rightarrow> token_cache \<Rightarrow> token_cache" where
  "TokenCache_Load rows c =
     fold (\<lambda>t c. let (c, p) = alloc t c in remember p c) (Token_List 0 rows) (InvalidateCache c)"

definition NewTokenCache :: token_cache where
  "NewTokenCache = \<lparr> tc_objects = [], tc_ids = [], tc_tokens = [] \<rparr>"

section \<open>Rows\<close>

lemma stored_sel [simp]:
  "ak_id (stored t) = ak_id t" "ak_tenant (stored t) = ak_tenant t" "ak_token (stored t) = ak_token t"
  "ak_prefix (stored t) = ak_prefix t" "ak_enabled (stored t) = ak_enabled t" "ak_quota (stored t) = ak_quota t"
  "ak_expires (stored t) = stored_time (ak_expires t)" "ak_last_used (stored t) = stored_time (ak_last_used t)"
  "ak_use_count (stored t) = ak_use_count t"
  by (simp_all add: stored_def)

lemma stored_time_Some: "stored_time (Some x) = (if x = zero_time \<or> x div milli = 0 then None else Some (x div milli * milli))"
  by (simp add: stored_time_def toTimestampPtr_def fromTimestampPtr_def)

lemma stored_time_None [simp]: "stored_time None = None"
  by (simp add: stored_time_def toTimestampPtr_def fromTimestampPtr_def)

text \<open>Reading and writing again changes nothing, for times after the epoch.\<close>

lemma stored_time_idem: "0 < x \<Longrightarrow> stored_time (stored_time (Some x)) = stored_time (Some x)"
  by (auto simp: stored_time_Some milli_def zero_time_def)

lemma stored_time_bounds: "stored_time (Some x) = Some y \<Longrightarrow> y \<le> x \<and> x < y + milli"
  using div_mult_mod_eq [of x milli] pos_mod_bound [of milli x] pos_mod_sign [of milli x]
  by (auto simp: stored_time_Some milli_def split: if_splits)

lemma fromTimestampPtr_stored: "stored_time (Some at) = fromTimestampPtr (at div milli)" if "at \<noteq> zero_time"
  using that by (simp add: stored_time_def toTimestampPtr_def)

definition token_rows_ok :: "token_rows \<Rightarrow> bool" where
  "token_rows_ok rows \<longleftrightarrow> soft_wf ak_id rows \<and> distinct (map (\<lambda>s. ak_token (sr_row s)) rows) \<and>
     (\<forall>s \<in> set rows. ak_id (sr_row s) \<noteq> 0 \<and> ak_token (sr_row s) \<noteq> '''' \<and> stored (sr_row s) = sr_row s)"

lemma rows_ids_unique:
  "token_rows_ok rows \<Longrightarrow> s \<in> set rows \<Longrightarrow> s' \<in> set rows \<Longrightarrow> ak_id (sr_row s) = ak_id (sr_row s') \<Longrightarrow> s = s'"
  by (auto simp: token_rows_ok_def soft_wf_def distinct_map dest: inj_onD)

lemma rows_tokens_unique:
  "token_rows_ok rows \<Longrightarrow> s \<in> set rows \<Longrightarrow> s' \<in> set rows \<Longrightarrow> ak_token (sr_row s) = ak_token (sr_row s') \<Longrightarrow> s = s'"
  by (auto simp: token_rows_ok_def distinct_map dest: inj_onD)

lemma live_iff: "r \<in> set (live rows) \<longleftrightarrow> (\<exists>s \<in> set rows. sr_row s = r \<and> sr_deleted s = 0)"
  by (auto simp: live_def)

lemma live_ids_unique:
  "token_rows_ok rows \<Longrightarrow> r \<in> set (live rows) \<Longrightarrow> r' \<in> set (live rows) \<Longrightarrow> ak_id r = ak_id r' \<Longrightarrow> r = r'"
  by (auto simp: live_iff dest: rows_ids_unique)

lemma live_tokens_unique:
  "token_rows_ok rows \<Longrightarrow> r \<in> set (live rows) \<Longrightarrow> r' \<in> set (live rows) \<Longrightarrow> ak_token r = ak_token r' \<Longrightarrow> r = r'"
  by (auto simp: live_iff dest: rows_tokens_unique)

lemma live_on_rows: "live (on_rows P f rows) = map (\<lambda>r. if P r then f r else r) (live rows)"
  by (induction rows) (simp_all add: live_def on_rows_def)

lemma on_rows_ok:
  assumes "token_rows_ok rows" and "\<And>r. ak_id (f r) = ak_id r" and "\<And>r. ak_token (f r) = ak_token r"
    and "\<And>r. stored r = r \<Longrightarrow> P r \<Longrightarrow> stored (f r) = f r"
  shows "token_rows_ok (on_rows P f rows)"
proof -
  have same: "map (\<lambda>s. ak_id (sr_row s)) (on_rows P f rows) = map (\<lambda>s. ak_id (sr_row s)) rows"
    "map (\<lambda>s. ak_token (sr_row s)) (on_rows P f rows) = map (\<lambda>s. ak_token (sr_row s)) rows"
    using assms(2,3) by (simp_all add: on_rows_def)
  have "\<forall>s \<in> set (on_rows P f rows). ak_id (sr_row s) \<noteq> 0 \<and> ak_token (sr_row s) \<noteq> '''' \<and> stored (sr_row s) = sr_row s"
    using assms by (auto simp: token_rows_ok_def on_rows_def)
  then show ?thesis using assms(1) by (simp only: token_rows_ok_def soft_wf_def same simp_thms)
qed

lemma Token_GetByToken_exact:
  assumes "token_rows_ok rows"
  shows "Token_GetByToken tenant s rows = Some r \<longleftrightarrow>
    r \<in> set (live rows) \<and> in_tenant tenant (ak_tenant r) \<and> ak_token r = s"
proof
  assume "Token_GetByToken tenant s rows = Some r"
  then show "r \<in> set (live rows) \<and> in_tenant tenant (ak_tenant r) \<and> ak_token r = s"
    by (auto simp: Token_GetByToken_def find_Some_iff)
next
  assume r: "r \<in> set (live rows) \<and> in_tenant tenant (ak_tenant r) \<and> ak_token r = s"
  then obtain r' where found: "Token_GetByToken tenant s rows = Some r'"
    unfolding Token_GetByToken_def
    by (cases "find (\<lambda>r. in_tenant tenant (ak_tenant r) \<and> ak_token r = s) (live rows)")
      (auto simp: find_None_iff)
  then have "r' \<in> set (live rows)" "ak_token r' = s" by (auto simp: Token_GetByToken_def find_Some_iff)
  then have "r' = r" using live_tokens_unique [OF assms] r by blast
  with found show "Token_GetByToken tenant s rows = Some r" by simp
qed

lemma Token_GetByID_row:
  "Token_GetByID tenant i rows = Some r \<Longrightarrow>
    (\<exists>s \<in> set rows. sr_row s = r) \<and> in_tenant tenant (ak_tenant r) \<and> ak_id r = i"
  by (auto simp: Token_GetByID_def find_Some_iff)

section \<open>Both maps point to the same objects\<close>

definition paired :: "token_cache \<Rightarrow> bool" where
  "paired c \<longleftrightarrow> wf_map (tc_tokens c) \<and>
     (\<forall>i p. map_of (tc_ids c) i = Some p \<longrightarrow> p < length (tc_objects c) \<and> ak_id (obj c p) = i \<and>
        map_of (tc_tokens c) (ak_token (obj c p)) = Some p) \<and>
     (\<forall>s p. map_of (tc_tokens c) s = Some p \<longrightarrow> p < length (tc_objects c) \<and> ak_token (obj c p) = s \<and>
        map_of (tc_ids c) (ak_id (obj c p)) = Some p)"

lemma paired_id:
  assumes "paired c" and "map_of (tc_ids c) i = Some p"
  shows "p < length (tc_objects c)" "ak_id (obj c p) = i" "map_of (tc_tokens c) (ak_token (obj c p)) = Some p"
  using assms unfolding paired_def by blast+

lemma paired_token:
  assumes "paired c" and "map_of (tc_tokens c) s = Some p"
  shows "p < length (tc_objects c)" "ak_token (obj c p) = s" "map_of (tc_ids c) (ak_id (obj c p)) = Some p"
  using assms unfolding paired_def by blast+

lemma obj_alloc [simp]:
  "p < length (tc_objects c) \<Longrightarrow> obj (fst (alloc t c)) p = obj c p" "obj (fst (alloc t c)) (snd (alloc t c)) = t"
  "tc_ids (fst (alloc t c)) = tc_ids c" "tc_tokens (fst (alloc t c)) = tc_tokens c"
  "length (tc_objects (fst (alloc t c))) = Suc (length (tc_objects c))" "snd (alloc t c) = length (tc_objects c)"
  by (simp_all add: obj_def alloc_def nth_append)

lemma obj_put [simp]:
  "p < length (tc_objects c) \<Longrightarrow> obj (put_obj p t c) q = (if q = p then t else obj c q)"
  "tc_ids (put_obj p t c) = tc_ids c" "tc_tokens (put_obj p t c) = tc_tokens c"
  "length (tc_objects (put_obj p t c)) = length (tc_objects c)"
  by (auto simp: obj_def put_obj_def nth_list_update)

lemma obj_maps [simp]: "obj (c \<lparr> tc_ids := x \<rparr>) p = obj c p" "obj (c \<lparr> tc_tokens := y \<rparr>) p = obj c p"
  by (simp_all add: obj_def)

lemma paired_alloc:
  assumes "paired c"
  shows "paired (fst (alloc t c))"
  unfolding paired_def
proof (intro conjI allI impI)
  fix i p assume "map_of (tc_ids (fst (alloc t c))) i = Some p"
  then have *: "map_of (tc_ids c) i = Some p" by simp
  note ok = paired_id [OF assms *]
  show "p < length (tc_objects (fst (alloc t c)))" "ak_id (obj (fst (alloc t c)) p) = i"
    "map_of (tc_tokens (fst (alloc t c))) (ak_token (obj (fst (alloc t c)) p)) = Some p"
    using ok by simp_all
next
  fix s p assume "map_of (tc_tokens (fst (alloc t c))) s = Some p"
  then have *: "map_of (tc_tokens c) s = Some p" by simp
  note ok = paired_token [OF assms *]
  show "p < length (tc_objects (fst (alloc t c)))" "ak_token (obj (fst (alloc t c)) p) = s"
    "map_of (tc_ids (fst (alloc t c))) (ak_id (obj (fst (alloc t c)) p)) = Some p"
    using ok by simp_all
qed (use assms in \<open>simp add: paired_def\<close>)

lemma paired_put:
  assumes "paired c" and "p < length (tc_objects c)" and "ak_id t = ak_id (obj c p)" and "ak_token t = ak_token (obj c p)"
  shows "paired (put_obj p t c)"
proof -
  have "ak_id (obj (put_obj p t c) q) = ak_id (obj c q)" "ak_token (obj (put_obj p t c) q) = ak_token (obj c q)" for q
    using assms(2-4) by simp_all
  then show ?thesis using assms(1) by (simp add: paired_def)
qed

text \<open>What the maps say after an object has been written under its identifier and its token.\<close>

lemma paired_maps:
  assumes "paired c" and p: "p < length (tc_objects c)"
    and ids: "\<And>j. map_of (tc_ids c') j = (if j = ak_id (obj c p) then Some p else map_of (tc_ids c) j)"
    and toks: "\<And>s. map_of (tc_tokens c') s =
      (if s = ak_token (obj c p) then Some p
       else case map_of (tc_tokens c) s of
              Some q \<Rightarrow> if ak_id (obj c q) = ak_id (obj c p) then None else Some q | None \<Rightarrow> None)"
    and objs: "tc_objects c' = tc_objects c" and "wf_map (tc_tokens c')"
    and other: "\<And>q. map_of (tc_tokens c) (ak_token (obj c p)) = Some q \<Longrightarrow> ak_id (obj c q) = ak_id (obj c p)"
  shows "paired c'"
  unfolding paired_def
proof (intro conjI allI impI)
  have o: "obj c' = obj c" using objs by (simp add: obj_def fun_eq_iff)
  {
    fix i q assume "map_of (tc_ids c') i = Some q"
    then have "i = ak_id (obj c p) \<and> q = p \<or> i \<noteq> ak_id (obj c p) \<and> map_of (tc_ids c) i = Some q"
      by (auto simp: ids split: if_splits)
    then have "q < length (tc_objects c) \<and> ak_id (obj c q) = i \<and> map_of (tc_tokens c') (ak_token (obj c q)) = Some q"
    proof
      assume q: "i \<noteq> ak_id (obj c p) \<and> map_of (tc_ids c) i = Some q"
      then have *: "map_of (tc_ids c) i = Some q" by blast
      note ok = paired_id [OF assms(1) *]
      have "ak_token (obj c q) \<noteq> ak_token (obj c p)" using other [of q] ok q by auto
      then show ?thesis using ok q by (simp add: toks)
    qed (use p in \<open>simp add: toks\<close>)
    then show "q < length (tc_objects c')" "ak_id (obj c' q) = i" "map_of (tc_tokens c') (ak_token (obj c' q)) = Some q"
      by (simp_all add: objs o)
  next
    fix s q assume "map_of (tc_tokens c') s = Some q"
    then have "s = ak_token (obj c p) \<and> q = p \<or>
        s \<noteq> ak_token (obj c p) \<and> map_of (tc_tokens c) s = Some q \<and> ak_id (obj c q) \<noteq> ak_id (obj c p)"
      by (auto simp: toks simp del: map_of_eq_None_iff split: if_splits option.splits)
    then have "q < length (tc_objects c) \<and> ak_token (obj c q) = s \<and> map_of (tc_ids c') (ak_id (obj c q)) = Some q"
    proof
      assume q: "s \<noteq> ak_token (obj c p) \<and> map_of (tc_tokens c) s = Some q \<and> ak_id (obj c q) \<noteq> ak_id (obj c p)"
      then have *: "map_of (tc_tokens c) s = Some q" by blast
      note ok = paired_token [OF assms(1) *]
      then show ?thesis using q by (simp add: ids)
    qed (use p in \<open>simp add: ids\<close>)
    then show "q < length (tc_objects c')" "ak_token (obj c' q) = s" "map_of (tc_ids c') (ak_id (obj c' q)) = Some q"
      by (simp_all add: objs o)
  }
qed (use assms in simp)

text \<open>\<open>shown\<close>: every entry shows a live row; the objects themselves may be ahead of it by what a column
  cuts off, but no time of theirs is lost.\<close>

definition proper :: "token \<Rightarrow> bool" where
  "proper t \<longleftrightarrow> (stored_time (ak_expires t) = None \<longrightarrow> ak_expires t = None) \<and>
     (stored_time (ak_last_used t) = None \<longrightarrow> ak_last_used t = None)"

lemma stored_proper: "stored t = t \<Longrightarrow> proper t"
  by (metis proper_def stored_sel(7,8))

definition shown :: "token_rows \<Rightarrow> token_cache \<Rightarrow> bool" where
  "shown rows c \<longleftrightarrow>
     (\<forall>i p. map_of (tc_ids c) i = Some p \<longrightarrow> stored (obj c p) \<in> set (live rows) \<and> proper (obj c p))"

definition in_step :: "token_rows \<Rightarrow> token_cache \<Rightarrow> bool" where
  "in_step rows c \<longleftrightarrow> paired c \<and> shown rows c"

lemma shownD: "shown rows c \<Longrightarrow> map_of (tc_ids c) i = Some p \<Longrightarrow> stored (obj c p) \<in> set (live rows)"
  by (simp add: shown_def)

lemma shown_proper: "shown rows c \<Longrightarrow> map_of (tc_ids c) i = Some p \<Longrightarrow> proper (obj c p)"
  by (simp add: shown_def)

lemma in_step_token:
  "in_step rows c \<Longrightarrow> map_of (tc_tokens c) s = Some p \<Longrightarrow>
    p < length (tc_objects c) \<and> ak_token (obj c p) = s \<and> stored (obj c p) \<in> set (live rows) \<and> proper (obj c p)"
  using paired_token [of c s p] by (auto simp: in_step_def dest: shownD shown_proper)

lemma alloc_in_step: "in_step rows c \<Longrightarrow> in_step rows (fst (alloc t c))"
  using paired_alloc [of c t] by (auto simp: in_step_def shown_def dest: paired_id)

lemma remember_in_step:
  assumes "token_rows_ok rows" and "in_step rows c" and p: "p < length (tc_objects c)"
    and row: "stored (obj c p) \<in> set (live rows)" and "proper (obj c p)"
  shows "in_step rows (remember p c)"
proof -
  have pair: "paired c" and "shown rows c" using assms(2) by (simp_all add: in_step_def)
  have same: "ak_id (obj c q) = ak_id (obj c p) \<longleftrightarrow> s = ak_token (obj c p)"
    if "map_of (tc_tokens c) s = Some q" for s q
    using in_step_token [OF assms(2) that] live_ids_unique [OF assms(1) _ row, of "stored (obj c q)"]
      live_tokens_unique [OF assms(1) _ row, of "stored (obj c q)"] by (metis stored_sel(1,3))
  have "paired (remember p c)"
  proof (rule paired_maps [OF pair p])
    show "wf_map (tc_tokens (remember p c))" using pair by (simp add: paired_def remember_def wf_intros)
    show "ak_id (obj c q) = ak_id (obj c p)" if "map_of (tc_tokens c) (ak_token (obj c p)) = Some q" for q
      using same [OF that] by simp
  qed (use same in \<open>auto simp: remember_def map_of_update simp del: map_of_eq_None_iff split: option.split\<close>)
  moreover have "obj (remember p c) = obj c" by (simp add: obj_def remember_def fun_eq_iff)
  ultimately show ?thesis
    using \<open>shown rows c\<close> row assms(5) by (auto simp: in_step_def shown_def remember_def map_of_update)
qed

lemma fill_in_step:
  assumes "token_rows_ok rows" and "in_step rows c" and "case found of Some t \<Rightarrow> t \<in> set (live rows) \<and> stored t = t | None \<Rightarrow> True"
  shows "in_step rows (fst (fill found c))"
    and "map_option (obj (fst (fill found c))) (snd (fill found c)) = found"
    and "\<And>p. snd (fill found c) = Some p \<Longrightarrow> p < length (tc_objects (fst (fill found c)))"
proof -
  have "in_step rows (remember (length (tc_objects c)) (fst (alloc t c)))" if "found = Some t" for t
    using remember_in_step [OF assms(1) alloc_in_step [OF assms(2), of t], of "length (tc_objects c)"] assms(3) that
      obj_alloc(2) [of t c] stored_proper [of t] by simp
  then show "in_step rows (fst (fill found c))"
    using assms(2) by (auto simp: fill_def alloc_def split: option.split)
  show "map_option (obj (fst (fill found c))) (snd (fill found c)) = found"
    by (simp add: fill_def alloc_def remember_def obj_def split: option.split)
  show "p < length (tc_objects (fst (fill found c)))" if "snd (fill found c) = Some p" for p
    using that by (auto simp: fill_def alloc_def remember_def split: option.splits)
qed

lemma forget_in_step:
  assumes "token_rows_ok rows" and "in_step rows c" and "r \<in> set (live rows)" and "stored t = r"
  shows "in_step rows (forget t c)" and "map_of (tc_ids (forget t c)) (ak_id r) = None"
proof -
  have pair: "paired c" and sh: "shown rows c" using assms(2) by (simp_all add: in_step_def)
  have tid: "ak_id t = ak_id r" "ak_token t = ak_token r" using assms(4) by auto
  have o: "obj (forget t c) = obj c" by (simp add: obj_def forget_def fun_eq_iff)
  have same: "ak_id (obj c q) = ak_id r \<longleftrightarrow> s = ak_token r" if "map_of (tc_tokens c) s = Some q" for s q
    using in_step_token [OF assms(2) that] live_ids_unique [OF assms(1) _ assms(3), of "stored (obj c q)"]
      live_tokens_unique [OF assms(1) _ assms(3), of "stored (obj c q)"] by (metis stored_sel(1,3))
  have "paired (forget t c)"
    unfolding paired_def o
  proof (intro conjI allI impI)
    fix i p assume "map_of (tc_ids (forget t c)) i = Some p"
    then have *: "map_of (tc_ids c) i = Some p" "i \<noteq> ak_id r" by (auto simp: forget_def map_of_del tid split: if_splits)
    note ok = paired_id [OF pair *(1)]
    show "p < length (tc_objects (forget t c))" "ak_id (obj c p) = i"
      "map_of (tc_tokens (forget t c)) (ak_token (obj c p)) = Some p"
      using ok same [OF ok(3)] *(2) by (auto simp: forget_def map_of_del tid)
  next
    fix s p assume "map_of (tc_tokens (forget t c)) s = Some p"
    then have *: "map_of (tc_tokens c) s = Some p" "s \<noteq> ak_token r" by (auto simp: forget_def map_of_del tid split: if_splits)
    note ok = paired_token [OF pair *(1)]
    show "p < length (tc_objects (forget t c))" "ak_token (obj c p) = s"
      "map_of (tc_ids (forget t c)) (ak_id (obj c p)) = Some p"
      using ok same [OF *(1)] *(2) by (auto simp: forget_def map_of_del tid)
  qed (use pair in \<open>simp add: paired_def forget_def wf_intros\<close>)
  then show "in_step rows (forget t c)"
    using sh by (auto simp: in_step_def shown_def forget_def map_of_del split: if_splits)
  show "map_of (tc_ids (forget t c)) (ak_id r) = None" by (simp add: forget_def map_of_del tid del: map_of_eq_None_iff)
qed

lemma Delete_is_forget:
  assumes "paired c"
  shows "TokenCache_Delete i c =
    (case map_of (tc_ids c) i of Some p \<Rightarrow> forget (obj c p) c | None \<Rightarrow> c \<lparr> tc_ids := AList.delete i (tc_ids c) \<rparr>)"
  using paired_id [OF assms, of i] by (auto simp: TokenCache_Delete_def forget_def split: option.split)

text \<open>A row and an object changed alike, under the same identifier.\<close>

lemma on_both:
  assumes "in_step rows c"
    and keeps: "\<And>t. ak_id (f t) = ak_id t" "\<And>t. ak_token (f t) = ak_token t"
    and one: "\<And>r. P r \<Longrightarrow> ak_id r = i"
    and alike: "\<And>t. ak_id t = i \<Longrightarrow> stored t \<in> set (live rows) \<Longrightarrow>
      stored (f t) = (if P (stored t) then g (stored t) else stored t)"
    and keeps_proper: "\<And>t. proper t \<Longrightarrow> proper (f t)"
  shows "in_step (on_rows P g rows) (on_cached i f c)"
proof -
  have pair: "paired c" and sh: "shown rows c" using assms(1) by (simp_all add: in_step_def)
  have live': "(if P r then g r else r) \<in> set (live (on_rows P g rows))" if "r \<in> set (live rows)" for r
    using that by (auto simp: live_on_rows)
  have other: "stored (obj c q) \<in> set (live (on_rows P g rows)) \<and> proper (obj c q)"
    if "map_of (tc_ids c) j = Some q" "j \<noteq> i" for j q
  proof -
    have "\<not> P (stored (obj c q))" using one [of "stored (obj c q)"] paired_id(2) [OF pair that(1)] that(2) by auto
    then show ?thesis using live' [OF shownD [OF sh that(1)]] shown_proper [OF sh that(1)] by simp
  qed
  show ?thesis
  proof (cases "map_of (tc_ids c) i")
    case None
    have "j \<noteq> i" if "map_of (tc_ids c) j = Some q" for j q using None that by auto
    then have "shown (on_rows P g rows) c" using other by (auto simp: shown_def)
    then show ?thesis using pair None by (simp add: on_cached_def in_step_def)
  next
    case (Some p)
    note ok = paired_id [OF pair Some]
    have "stored (f (obj c p)) \<in> set (live (on_rows P g rows)) \<and> proper (f (obj c p))"
      using alike [OF ok(2) shownD [OF sh Some]] live' [OF shownD [OF sh Some]] keeps_proper [OF shown_proper [OF sh Some]] by simp
    moreover have "paired (put_obj p (f (obj c p)) c)"
      by (rule paired_put [OF pair ok(1)]) (simp_all add: keeps)
    moreover have "j = i" if "map_of (tc_ids c) j = Some p" for j using paired_id(2) [OF pair that] ok(2) by simp
    ultimately have "shown (on_rows P g rows) (put_obj p (f (obj c p)) c)"
    proof -
      assume new: "stored (f (obj c p)) \<in> set (live (on_rows P g rows)) \<and> proper (f (obj c p))"
        and uniq: "\<And>j. map_of (tc_ids c) j = Some p \<Longrightarrow> j = i"
      show ?thesis
        unfolding shown_def
      proof (intro allI impI)
        fix j q assume "map_of (tc_ids (put_obj p (f (obj c p)) c)) j = Some q"
        then have j: "map_of (tc_ids c) j = Some q" by simp
        show "stored (obj (put_obj p (f (obj c p)) c) q) \<in> set (live (on_rows P g rows)) \<and>
            proper (obj (put_obj p (f (obj c p)) c) q)"
        proof (cases "q = p")
          case False
          then have "j \<noteq> i" using j Some by auto
          from other [OF j this] False show ?thesis by (simp add: ok(1))
        qed (simp add: new ok(1))
      qed
    qed
    then show ?thesis
      using Some \<open>paired (put_obj p (f (obj c p)) c)\<close> by (simp add: on_cached_def in_step_def)
  qed
qed

lemma paired_objects: "paired c \<Longrightarrow> p < length (tc_objects c) \<Longrightarrow> ak_id t = ak_id (obj c p) \<Longrightarrow>
    ak_token t = ak_token (obj c p) \<Longrightarrow> paired (put_obj p t c)"
  by (rule paired_put)

text \<open>An update of the cache after that of the table.\<close>

lemma TokenCache_Update_maps:
  assumes "paired c" and p: "p < length (tc_objects c)" and "ak_token (obj c p) \<noteq> ''''"
    and other: "\<And>q. map_of (tc_tokens c) (ak_token (obj c p)) = Some q \<Longrightarrow> ak_id (obj c q) = ak_id (obj c p)"
  shows "paired (TokenCache_Update p c)"
    and "map_of (tc_ids (TokenCache_Update p c)) j = (if j = ak_id (obj c p) then Some p else map_of (tc_ids c) j)"
    and "obj (TokenCache_Update p c) = obj c" "tc_objects (TokenCache_Update p c) = tc_objects c"
proof -
  let ?t = "obj c p"
  define m where "m = (case map_of (tc_ids c) (ak_id ?t) of
      None \<Rightarrow> tc_tokens c
    | Some old \<Rightarrow> if ak_token (obj c old) \<noteq> ak_token ?t
                  then AList.delete (ak_token (obj c old)) (tc_tokens c) else tc_tokens c)"
  have wf: "wf_map (tc_tokens c)" using assms(1) by (simp add: paired_def)
  then have "wf_map m" by (simp add: m_def wf_intros split: option.split)
  have m: "map_of m s = (case map_of (tc_ids c) (ak_id ?t) of
      Some old \<Rightarrow> if s = ak_token (obj c old) \<and> s \<noteq> ak_token ?t then None else map_of (tc_tokens c) s
    | None \<Rightarrow> map_of (tc_tokens c) s)" for s
    by (auto simp: m_def map_of_del simp del: map_of_eq_None_iff split: option.split)
  have toks: "tc_tokens (TokenCache_Update p c) =
      AList.update (ak_token ?t) p (filter (\<lambda>(s, q). \<not> (ak_id (obj c q) = ak_id ?t \<and> s \<noteq> ak_token ?t)) m)"
    using assms(3) by (simp add: TokenCache_Update_def Let_def m_def)
  show ids: "map_of (tc_ids (TokenCache_Update p c)) j = (if j = ak_id ?t then Some p else map_of (tc_ids c) j)" for j
    by (simp add: TokenCache_Update_def Let_def map_of_update)
  show "obj (TokenCache_Update p c) = obj c" "tc_objects (TokenCache_Update p c) = tc_objects c"
    by (simp_all add: TokenCache_Update_def Let_def obj_def fun_eq_iff)
  show "paired (TokenCache_Update p c)"
  proof (rule paired_maps [OF assms(1) p ids _ _ _ other])
    show "wf_map (tc_tokens (TokenCache_Update p c))" using \<open>wf_map m\<close> by (simp add: toks wf_intros)
    show "tc_objects (TokenCache_Update p c) = tc_objects c" by (simp add: TokenCache_Update_def Let_def)
    fix s
    have kept: "map_of (filter (\<lambda>(s, q). \<not> (ak_id (obj c q) = ak_id ?t \<and> s \<noteq> ak_token ?t)) m) s =
        (case map_of m s of None \<Rightarrow> None
         | Some q \<Rightarrow> if \<not> (ak_id (obj c q) = ak_id ?t \<and> s \<noteq> ak_token ?t) then Some q else None)"
      using map_of_filter_entry [OF \<open>wf_map m\<close>, of "\<lambda>s q. \<not> (ak_id (obj c q) = ak_id ?t \<and> s \<noteq> ak_token ?t)" s]
      by (simp add: case_prod_unfold)
    have hit: "map_of m s = (if ak_id (obj c q) = ak_id ?t \<and> s \<noteq> ak_token ?t then None else Some q)"
      if q: "map_of (tc_tokens c) s = Some q" for q
    proof (cases "map_of (tc_ids c) (ak_id ?t)")
      case None
      then have "ak_id (obj c q) \<noteq> ak_id ?t" using paired_token(3) [OF assms(1) q] by auto
      then show ?thesis using None q by (simp add: m del: map_of_eq_None_iff)
    next
      case (Some old)
      have 1: "q = old \<longleftrightarrow> ak_id (obj c q) = ak_id ?t"
        using paired_token(3) [OF assms(1) q] paired_id(2) [OF assms(1) Some] Some by auto
      have 2: "q = old \<longleftrightarrow> s = ak_token (obj c old)"
        using paired_id(3) [OF assms(1) Some] paired_token(2) [OF assms(1) q] q by (metis option.inject)
      show ?thesis unfolding m Some option.case 1 [symmetric] 2 [symmetric] q by (rule refl)
    qed
    have miss: "map_of m s = None" if "map_of (tc_tokens c) s = None"
      unfolding m that by (simp del: map_of_eq_None_iff split: option.split)
    show "map_of (tc_tokens (TokenCache_Update p c)) s =
        (if s = ak_token ?t then Some p
         else case map_of (tc_tokens c) s of
                Some q \<Rightarrow> if ak_id (obj c q) = ak_id ?t then None else Some q | None \<Rightarrow> None)"
    proof (cases "map_of (tc_tokens c) s")
      case None
      then show ?thesis unfolding toks map_of_update kept miss [OF None] by simp
    next
      case (Some q)
      then show ?thesis unfolding toks map_of_update kept hit [OF Some] by simp
    qed
  qed assumption
qed

end
