(* ===== verification/Token_Ops.thy ===== *)
theory Token_Ops
  imports Token_Store
begin

text \<open>
  The operations on API tokens that handlers and services compose of those of the cached repository
  (\<^verbatim>\<open>handler/admin.go\<close>, \<^verbatim>\<open>service/admin.go\<close>), and their runs on one instance.
\<close>

section \<open>Editing a token\<close>

text \<open>The expiry as the handler finds it: absent, empty, a time, or a text \<open>time.Parse\<close> refuses.\<close>

datatype expiry_field = ExpiryAbsent | ExpiryNone | ExpiryAt go_time | ExpiryBad

record token_patch =
  tp_name :: "string option"
  tp_description :: "string option"
  tp_project :: "u64 option"
  tp_enabled :: "bool option"
  tp_dev_mode :: "bool option"
  tp_quota :: "u64 option"
  tp_expires :: expiry_field
  tp_reset :: bool

definition patched :: "token_patch \<Rightarrow> token \<Rightarrow> token" where
  "patched p t =
     t \<lparr> ak_name := (case tp_name p of Some v \<Rightarrow> v | None \<Rightarrow> ak_name t),
         ak_description := (case tp_description p of Some v \<Rightarrow> v | None \<Rightarrow> ak_description t),
         ak_project := (case tp_project p of Some v \<Rightarrow> v | None \<Rightarrow> ak_project t),
         ak_enabled := (case tp_enabled p of Some v \<Rightarrow> v | None \<Rightarrow> ak_enabled t),
         ak_dev_mode := (case tp_dev_mode p of Some v \<Rightarrow> v | None \<Rightarrow> ak_dev_mode t),
         ak_quota := (case tp_quota p of Some v \<Rightarrow> v | None \<Rightarrow> ak_quota t) \<rparr>"

text \<open>The fields are written one after the other to the object the repository returned; \<open>False\<close> when the
  handler answers 400 in between.\<close>

definition patch_token :: "token_patch \<Rightarrow> token \<Rightarrow> token \<times> bool" where
  "patch_token p t =
     (if tp_name p = Some '''' then (t, False)
      else (let t = patched p t;
                reset = \<lambda>t. if tp_reset p
                             then t \<lparr> ak_enabled := True, ak_expires := None, ak_last_used := None, ak_last_ip := '''',
                                      ak_last_ip_at := None \<rparr>
                             else t
            in case tp_expires p of
                 ExpiryBad \<Rightarrow> (t, False)
               | ExpiryAbsent \<Rightarrow> (reset t, True)
               | ExpiryNone \<Rightarrow> (reset (t \<lparr> ak_expires := None \<rparr>), True)
               | ExpiryAt x \<Rightarrow> (reset (t \<lparr> ak_expires := Some x \<rparr>), True)))"

type_synonym token_state = "token_rows \<times> token_cache"

definition update_token :: "nat \<Rightarrow> token_state \<Rightarrow> token_state \<times> bool" where
  "update_token p s =
     (case Token_Update (obj (snd s) p) (fst s) of
        None \<Rightarrow> (s, False)
      | Some rows \<Rightarrow> ((rows, TokenCache_Update p (snd s)), True))"

text \<open>The answer is the status of the response.\<close>

definition put_token :: "u64 \<Rightarrow> u64 \<Rightarrow> token_patch \<Rightarrow> token_state \<Rightarrow> token_state \<times> nat" where
  "put_token tenant i patch s =
     (case TokenCache_GetByID tenant i (fst s) (snd s) of
        (c, None) \<Rightarrow> ((fst s, c), 404)
      | (c, Some p) \<Rightarrow>
          (let (t, ok) = patch_token patch (obj c p); c = put_obj p t c
           in if \<not> ok then ((fst s, c), 400)
              else case update_token p (fst s, c) of (s, ok) \<Rightarrow> (s, if ok then 200 else 500)))"

text \<open>The panel of a user rotates a token it has just read from the table, so the object is a new one.\<close>

definition RotateAPIToken :: "u64 \<Rightarrow> token \<Rightarrow> string \<Rightarrow> string \<Rightarrow> token_state \<Rightarrow> token_state \<times> bool" where
  "RotateAPIToken tenant t plain prefix s =
     (let (c, p) = alloc (t \<lparr> ak_tenant := tenant, ak_token := plain, ak_prefix := prefix, ak_enabled := True \<rparr>) (snd s)
      in update_token p (fst s, c))"

definition CreateAPIToken :: "u64 \<Rightarrow> token \<Rightarrow> token_state \<Rightarrow> token_state" where
  "CreateAPIToken newID t s =
     (case Token_Create newID t (fst s) of
        None \<Rightarrow> s
      | Some rows \<Rightarrow> (let (c, p) = alloc t (snd s) in (rows, TokenCache_Create newID p c)))"

section \<open>Runs\<close>

datatype token_op =
    CreateToken u64 token
  | PutToken u64 u64 token_patch
  | RotateToken u64 token string string
  | DeleteToken u64 u64 int
  | CleanupTokens u64 go_time go_duration int
  | ReadToken u64 u64
  | FindToken u64 string
  | SeenToken u64 u64 string go_time
  | RechargeTokens u64 "u64 list" u64
  | ChargeToken u64 u64 u64
  | ReloadTokens

primrec token_step :: "token_op \<Rightarrow> token_state \<Rightarrow> token_state" where
  "token_step (CreateToken newID t) s = CreateAPIToken newID t s"
| "token_step (PutToken tenant i patch) s = fst (put_token tenant i patch s)"
| "token_step (RotateToken tenant t plain prefix) s = fst (RotateAPIToken tenant t plain prefix s)"
| "token_step (DeleteToken tenant i nowMs) s = (Token_Delete tenant i nowMs (fst s), TokenCache_Delete i (snd s))"
| "token_step (CleanupTokens tenant now inactive deletedAt) s =
     (let (rows, tokens) = Token_DeleteExpired tenant now inactive deletedAt (fst s)
      in (rows, TokenCache_DeleteExpired tokens (snd s)))"
| "token_step (ReadToken tenant i) s = (fst s, fst (TokenCache_GetByID tenant i (fst s) (snd s)))"
| "token_step (FindToken tenant v) s = (fst s, fst (TokenCache_GetByToken tenant v (fst s) (snd s)))"
| "token_step (SeenToken tenant i ip at) s =
     (Token_UpdateLastSeen tenant i ip at (fst s), TokenCache_UpdateLastSeen i ip at (snd s))"
| "token_step (RechargeTokens tenant ids amount) s =
     (fst (Token_AddQuotaBalance tenant ids amount (fst s)), TokenCache_AddQuotaBalance tenant ids amount (snd s))"
| "token_step (ChargeToken tenant i amount) s =
     (Token_DeductQuotaBalanceToZero tenant i amount (fst s), TokenCache_DeductQuotaBalanceToZero tenant i amount (snd s))"
| "token_step ReloadTokens s = (fst s, TokenCache_Load (fst s) (snd s))"

definition live_in :: "u64 \<Rightarrow> u64 \<Rightarrow> token_rows \<Rightarrow> bool" where
  "live_in tenant i rows = list_ex (\<lambda>r. ak_id r = i \<and> in_tenant tenant (ak_tenant r)) (live rows)"

definition after_epoch :: "go_time option \<Rightarrow> bool" where
  "after_epoch t = (case t of None \<Rightarrow> True | Some x \<Rightarrow> milli \<le> x)"

text \<open>The contract of the operations: new identifiers and plaintexts are new; a token is edited within its
  tenant, with a body the handler accepts, and read only while it lives; a recharge names each token
  once.\<close>

primrec token_sound :: "token_op \<Rightarrow> token_rows \<Rightarrow> bool" where
  "token_sound (CreateToken newID t) rows =
     (newID \<noteq> 0 \<and> newID \<notin> (\<lambda>s. ak_id (sr_row s)) ` set rows \<and> ak_token t \<noteq> '''' \<and>
      after_epoch (ak_expires t) \<and> after_epoch (ak_last_used t) \<and> after_epoch (ak_last_ip_at t))"
| "token_sound (PutToken tenant i patch) rows =
     (live_in tenant i rows \<and> tp_name patch \<noteq> Some '''' \<and>
      (case tp_expires patch of ExpiryBad \<Rightarrow> False | ExpiryAt x \<Rightarrow> milli \<le> x | _ \<Rightarrow> True))"
| "token_sound (RotateToken tenant t plain prefix) rows =
     (t \<in> set (live rows) \<and> ak_tenant t = tenant \<and> plain \<noteq> '''')"
| "token_sound (DeleteToken tenant i nowMs) rows = (nowMs \<noteq> 0 \<and> live_in tenant i rows)"
| "token_sound (CleanupTokens tenant now inactive deletedAt) rows = (deletedAt \<noteq> 0)"
| "token_sound (ReadToken tenant i) rows = live_in tenant i rows"
| "token_sound (FindToken tenant v) rows = True"
| "token_sound (SeenToken tenant i ip at) rows = (live_in tenant i rows \<and> TrimSpace ip = ip \<and> milli \<le> at)"
| "token_sound (RechargeTokens tenant ids amount) rows = (tenant \<noteq> 0 \<and> distinct ids)"
| "token_sound (ChargeToken tenant i amount) rows = (tenant \<noteq> 0)"
| "token_sound ReloadTokens rows = True"

fun token_run :: "token_op list \<Rightarrow> token_state \<Rightarrow> token_state" where
  "token_run [] s = s"
| "token_run (x # xs) s = token_run xs (token_step x s)"

fun token_run_sound :: "token_op list \<Rightarrow> token_state \<Rightarrow> bool" where
  "token_run_sound [] s = True"
| "token_run_sound (x # xs) s = (token_sound x (fst s) \<and> token_run_sound xs (token_step x s))"

section \<open>Every operation keeps table and cache in step\<close>

lemma shown_mono: "shown rows c \<Longrightarrow> set (live rows) \<subseteq> set (live rows') \<Longrightarrow> shown rows' c"
  by (auto simp: shown_def)

lemma after_epoch_idem: "after_epoch x \<Longrightarrow> stored_time (stored_time x) = stored_time x"
  by (cases x) (simp_all add: after_epoch_def stored_time_idem milli_def)

lemma after_epoch_proper: "after_epoch (ak_expires t) \<Longrightarrow> after_epoch (ak_last_used t) \<Longrightarrow> proper t"
  by (auto simp: proper_def after_epoch_def stored_time_Some milli_def zero_time_def split: option.splits)

lemma stored_idem:
  "after_epoch (ak_expires t) \<Longrightarrow> after_epoch (ak_last_used t) \<Longrightarrow> after_epoch (ak_last_ip_at t) \<Longrightarrow>
   stored (stored t) = stored t"
  by (simp add: stored_def after_epoch_idem)

lemma live_inD:
  assumes "token_rows_ok rows" and "live_in tenant i rows"
  obtains r where "r \<in> set (live rows)" "ak_id r = i" "in_tenant tenant (ak_tenant r)"
    "\<And>s. s \<in> set rows \<Longrightarrow> ak_id (sr_row s) = i \<Longrightarrow> sr_row s = r \<and> sr_deleted s = 0"
proof -
  obtain s where s: "s \<in> set rows" "sr_deleted s = 0" "ak_id (sr_row s) = i" "in_tenant tenant (ak_tenant (sr_row s))"
    using assms(2) by (auto simp: live_in_def list_ex_iff live_iff)
  then have "s' = s" if "s' \<in> set rows" "ak_id (sr_row s') = i" for s'
    using rows_ids_unique [OF assms(1) that(1) s(1)] that(2) by simp
  then have only: "sr_row s' = sr_row s \<and> sr_deleted s' = 0" if "s' \<in> set rows" "ak_id (sr_row s') = i" for s'
    using that s(2) by blast
  show ?thesis by (rule that [of "sr_row s", OF _ s(3,4) only]) (use s(1,2) in \<open>auto simp: live_iff\<close>)
qed

lemma Create_step:
  assumes ok: "token_rows_ok rows" and st: "in_step rows c" and sound: "token_sound (CreateToken newID t) rows"
    and s': "token_step (CreateToken newID t) (rows, c) = (rows', c')"
  shows "token_rows_ok rows' \<and> in_step rows' c'"
proof (cases "token_taken (ak_token t) newID rows")
  case True
  then have "rows' = rows" "c' = c" using s' by (simp_all add: CreateAPIToken_def Token_Create_def)
  then show ?thesis using ok st by simp
next
  case False
  let ?t = "t \<lparr> ak_id := newID \<rparr>"
  have new: "newID \<notin> (\<lambda>s. ak_id (sr_row s)) ` set rows" using sound by simp
  then have fresh: "ak_token t \<notin> (\<lambda>s. ak_token (sr_row s)) ` set rows"
    using False by (auto simp: token_taken_def list_ex_iff)
  have rows': "rows' = soft_create (stored ?t) rows"
    using s' False by (auto simp: CreateAPIToken_def Token_Create_def Let_def alloc_def)
  have "c' = remember (length (tc_objects c)) (fst (alloc ?t c))"
    using s' False by (auto simp: CreateAPIToken_def Token_Create_def TokenCache_Create_def Let_def alloc_def
        obj_def put_obj_def)
  moreover have ok': "token_rows_ok rows'"
    using ok sound fresh new stored_idem [of ?t] create_wf [of ak_id rows "stored ?t"]
    by (auto simp: rows' token_rows_ok_def soft_create_def)
  moreover have "in_step rows' (fst (alloc ?t c))"
    using alloc_in_step [OF st, of ?t] shown_mono [of rows "fst (alloc ?t c)" rows'] by (auto simp: in_step_def rows')
  ultimately show ?thesis
    using remember_in_step [OF ok', of "fst (alloc ?t c)" "length (tc_objects c)"] obj_alloc(2) [of ?t c]
      after_epoch_proper [of ?t] sound by (simp add: rows')
qed

lemma Update_step:
  assumes ok: "token_rows_ok rows" and pair: "paired c" and p: "p < length (tc_objects c)"
    and r: "r \<in> set (live rows)" "ak_id r = ak_id (obj c p)" and tok: "ak_token (obj c p) \<noteq> ''''"
    and alike: "updated_token (obj c p) r = stored (obj c p)" "stored (stored (obj c p)) = stored (obj c p)"
    and rest: "\<And>j q. map_of (tc_ids c) j = Some q \<Longrightarrow> j \<noteq> ak_id r \<Longrightarrow>
      stored (obj c q) \<in> set (live rows) \<and> proper (obj c q)"
    and timely: "proper (obj c p)"
    and upd: "Token_Update (obj c p) rows = Some rows'"
  shows "token_rows_ok rows' \<and> in_step rows' (TokenCache_Update p c)"
proof -
  let ?t = "obj c p"
  obtain s where s: "s \<in> set rows" "sr_row s = r" "sr_deleted s = 0" using r(1) by (auto simp: live_iff)
  then have "list_ex (\<lambda>s. ak_id (sr_row s) = ak_id ?t) rows" using r(2) by (auto simp: list_ex_iff)
  then have free: "\<not> token_taken (ak_token ?t) (ak_id ?t) rows"
    and "rows' = map (\<lambda>s. if ak_id (sr_row s) = ak_id ?t then s \<lparr> sr_row := updated_token ?t (sr_row s) \<rparr> else s) rows"
    using upd tok by (auto simp: Token_Update_def split: if_splits)
  moreover have "s' = s" if "s' \<in> set rows" "ak_id (sr_row s') = ak_id ?t" for s'
    using rows_ids_unique [OF ok that(1) s(1)] that(2) s(2) r(2) by simp
  ultimately have rows': "rows' = map (\<lambda>s. if ak_id (sr_row s) = ak_id ?t then s \<lparr> sr_row := stored ?t \<rparr> else s) rows"
    using alike(1) s(2) by (auto intro!: map_cong)
  have live': "x \<in> set (live rows')" if "x \<in> set (live rows)" "ak_id x \<noteq> ak_id ?t" for x
    using that by (force simp: rows' live_iff)
  have "s \<lparr> sr_row := stored ?t \<rparr> \<in> set rows'"
    unfolding rows' set_map by (rule image_eqI [OF _ s(1)]) (simp add: s(2) r(2))
  then have new: "stored ?t \<in> set (live rows')"
    unfolding live_iff by (rule rev_bexI) (simp add: s(3))
  have ok': "token_rows_ok rows'"
  proof -
    have "map (\<lambda>s. ak_id (sr_row s)) rows' = map (\<lambda>s. ak_id (sr_row s)) rows" by (simp add: rows')
    moreover have "inj_on (\<lambda>s. ak_token (sr_row s)) (set rows)" "distinct rows" "distinct (map (\<lambda>s. ak_id (sr_row s)) rows)"
      using ok by (auto simp: token_rows_ok_def soft_wf_def distinct_map)
    moreover have "distinct (map (\<lambda>s. if ak_id (sr_row s) = ak_id ?t then ak_token ?t else ak_token (sr_row s)) rows)"
      unfolding distinct_map
    proof
      show "inj_on (\<lambda>s. if ak_id (sr_row s) = ak_id ?t then ak_token ?t else ak_token (sr_row s)) (set rows)"
        using free rows_ids_unique [OF ok] rows_tokens_unique [OF ok]
        by (auto simp: inj_on_def token_taken_def list_ex_iff split: if_splits)
    qed (rule \<open>distinct rows\<close>)
    moreover have "map (\<lambda>s. ak_token (sr_row s)) rows' =
        map (\<lambda>s. if ak_id (sr_row s) = ak_id ?t then ak_token ?t else ak_token (sr_row s)) rows"
      by (auto simp: rows')
    moreover have "\<forall>s \<in> set rows'. ak_id (sr_row s) \<noteq> 0 \<and> ak_token (sr_row s) \<noteq> '''' \<and> stored (sr_row s) = sr_row s"
      using ok tok alike(2) by (auto simp: rows' token_rows_ok_def)
    ultimately show ?thesis by (simp only: token_rows_ok_def soft_wf_def simp_thms)
  qed
  have other: "ak_id (obj c q) = ak_id ?t" if q: "map_of (tc_tokens c) (ak_token ?t) = Some q" for q
  proof (rule ccontr)
    assume ne: "ak_id (obj c q) \<noteq> ak_id ?t"
    note pt = paired_token [OF pair q]
    have "ak_id (obj c q) \<noteq> ak_id r" using ne r(2) by simp
    from rest [OF pt(3) this] have "stored (obj c q) \<in> set (live rows)" by blast
    then show False using free ne pt(2) by (auto simp: live_iff token_taken_def list_ex_iff)
  qed
  note maps = TokenCache_Update_maps [OF pair p tok other]
  have same: "obj (TokenCache_Update p c) q = obj c q" for q using maps(3) by metis
  have "shown rows' (TokenCache_Update p c)"
    unfolding shown_def
  proof (intro allI impI)
    fix j q assume q: "map_of (tc_ids (TokenCache_Update p c)) j = Some q"
    show "stored (obj (TokenCache_Update p c) q) \<in> set (live rows') \<and> proper (obj (TokenCache_Update p c) q)"
    proof (cases "j = ak_id ?t")
      case True
      then have "q = p" using q by (simp add: maps(2))
      then show ?thesis using new timely by (simp only: same simp_thms)
    next
      case False
      then have j: "map_of (tc_ids c) j = Some q" using q by (simp add: maps(2))
      from rest [OF j] live' [of "stored (obj c q)"] False r(2) paired_id(2) [OF pair j] show ?thesis by (simp add: same)
    qed
  qed
  then show ?thesis using ok' maps(1) by (simp add: in_step_def)
qed

text \<open>What a read returns.\<close>

lemma GetByID_step:
  assumes ok: "token_rows_ok rows" and st: "in_step rows c" and sound: "live_in tenant i rows"
  shows "\<exists>c' p r. TokenCache_GetByID tenant i rows c = (c', Some p) \<and> in_step rows c' \<and>
    p < length (tc_objects c') \<and> map_of (tc_ids c') i = Some p \<and> r \<in> set (live rows) \<and> ak_id r = i \<and> stored (obj c' p) = r"
proof -
  obtain r where r: "r \<in> set (live rows)" "ak_id r = i" "in_tenant tenant (ak_tenant r)"
    and only: "\<And>s. s \<in> set rows \<Longrightarrow> ak_id (sr_row s) = i \<Longrightarrow> sr_row s = r \<and> sr_deleted s = 0"
    using live_inD [OF ok sound] by metis
  have miss: "\<exists>c' p r. fill (Token_GetByID tenant i rows) c = (c', Some p) \<and> in_step rows c' \<and>
    p < length (tc_objects c') \<and> map_of (tc_ids c') i = Some p \<and> r \<in> set (live rows) \<and> ak_id r = i \<and> stored (obj c' p) = r"
  proof -
    obtain s where s: "s \<in> set rows" "sr_row s = r" using r(1) by (auto simp: live_iff)
    have "Token_GetByID tenant i rows \<noteq> None" using s r(2,3) by (auto simp: Token_GetByID_def find_None_iff)
    then have found: "Token_GetByID tenant i rows = Some r" using Token_GetByID_row [of tenant i rows] only by fastforce
    have "stored r = r" using ok s by (auto simp: token_rows_ok_def)
    then have "case Some r of Some t \<Rightarrow> t \<in> set (live rows) \<and> stored t = t | None \<Rightarrow> True" using r(1) by simp
    note ok' = fill_in_step [OF ok st this]
    have f: "fill (Some r) c = (remember (length (tc_objects c)) (fst (alloc r c)), Some (length (tc_objects c)))"
      by (simp add: fill_def alloc_def)
    show ?thesis
      using ok' \<open>stored r = r\<close> r(1,2) obj_alloc(2) [of r c]
      by (intro exI [of _ "remember (length (tc_objects c)) (fst (alloc r c))"] exI [of _ "length (tc_objects c)"] exI [of _ r])
        (simp add: found f, simp add: remember_def map_of_update)
  qed
  show ?thesis
  proof (cases "map_of (tc_ids c) i")
    case None
    then show ?thesis using miss by (simp add: TokenCache_GetByID_def)
  next
    case (Some p)
    have pt: "p < length (tc_objects c)" "ak_id (obj c p) = i" using st paired_id [of c i p] Some by (auto simp: in_step_def)
    have "stored (obj c p) \<in> set (live rows)" using st Some by (auto simp: in_step_def dest: shownD)
    then have row: "stored (obj c p) = r" using live_ids_unique [OF ok _ r(1), of "stored (obj c p)"] pt(2) r(2) by simp
    then have "ak_tenant (obj c p) = ak_tenant r" by auto
    then have "TokenCache_GetByID tenant i rows c = (c, Some p)"
      using Some r(3) by (simp add: TokenCache_GetByID_def in_tenant_def)
    then show ?thesis using st pt Some r(1,2) row by blast
  qed
qed

lemma GetByToken_step:
  assumes ok: "token_rows_ok rows" and st: "in_step rows c"
  shows "in_step rows (fst (TokenCache_GetByToken tenant v rows c))"
    and "map_option (\<lambda>p. stored (obj (fst (TokenCache_GetByToken tenant v rows c)) p))
      (snd (TokenCache_GetByToken tenant v rows c)) = Token_GetByToken tenant v rows"
    and "\<And>p. snd (TokenCache_GetByToken tenant v rows c) = Some p \<Longrightarrow> proper (obj (fst (TokenCache_GetByToken tenant v rows c)) p)"
proof -
  let ?found = "Token_GetByToken tenant v rows"
  have "case ?found of Some t \<Rightarrow> t \<in> set (live rows) \<and> stored t = t | None \<Rightarrow> True"
  proof (cases ?found)
    case (Some t)
    then have "t \<in> set (live rows)" using Token_GetByToken_exact [OF ok] by blast
    then show ?thesis using Some ok by (auto simp: live_iff token_rows_ok_def)
  qed simp
  note filled = fill_in_step [OF ok st this] and fixed = this
  have miss: "in_step rows (fst (fill ?found c)) \<and>
      map_option (\<lambda>p. stored (obj (fst (fill ?found c)) p)) (snd (fill ?found c)) = ?found \<and>
      (\<forall>p. snd (fill ?found c) = Some p \<longrightarrow> proper (obj (fst (fill ?found c)) p))"
    using filled(1,2) fixed stored_proper by (cases "snd (fill ?found c)") (auto split: option.splits)
  have "in_step rows (fst (TokenCache_GetByToken tenant v rows c)) \<and>
      map_option (\<lambda>p. stored (obj (fst (TokenCache_GetByToken tenant v rows c)) p))
        (snd (TokenCache_GetByToken tenant v rows c)) = ?found \<and>
      (\<forall>p. snd (TokenCache_GetByToken tenant v rows c) = Some p \<longrightarrow>
        proper (obj (fst (TokenCache_GetByToken tenant v rows c)) p))"
  proof (cases "map_of (tc_tokens c) v")
    case (Some p)
    note pt = in_step_token [OF st Some]
    show ?thesis
    proof (cases "tenant = 0 \<or> ak_tenant (obj c p) = tenant")
      case True
      then have "?found = Some (stored (obj c p))"
        using pt Token_GetByToken_exact [OF ok, of tenant v "stored (obj c p)"] by (auto simp: in_tenant_def)
      then show ?thesis using True Some st pt by (simp add: TokenCache_GetByToken_def)
    qed (use Some miss in \<open>simp add: TokenCache_GetByToken_def\<close>)
  qed (use miss in \<open>simp add: TokenCache_GetByToken_def\<close>)
  then show "in_step rows (fst (TokenCache_GetByToken tenant v rows c))"
    "map_option (\<lambda>p. stored (obj (fst (TokenCache_GetByToken tenant v rows c)) p))
      (snd (TokenCache_GetByToken tenant v rows c)) = ?found"
    "\<And>p. snd (TokenCache_GetByToken tenant v rows c) = Some p \<Longrightarrow> proper (obj (fst (TokenCache_GetByToken tenant v rows c)) p)"
    by blast+
qed

lemma updated_alike:
  assumes "ak_id r = ak_id t" and "ak_tenant r = ak_tenant t" and "ak_use_count r = ak_use_count t" and "ak_token t \<noteq> ''''"
  shows "updated_token t r = stored t"
  using assms by (simp add: updated_token_def stored_def)

definition times_stored :: "token \<Rightarrow> bool" where
  "times_stored t \<longleftrightarrow> stored_time (stored_time (ak_expires t)) = stored_time (ak_expires t) \<and>
     stored_time (stored_time (ak_last_used t)) = stored_time (ak_last_used t) \<and>
     stored_time (stored_time (ak_last_ip_at t)) = stored_time (ak_last_ip_at t)"

lemma times_stored_iff: "times_stored t \<longleftrightarrow> stored (stored t) = stored t"
  by (auto simp: times_stored_def stored_def dest: arg_cong [of _ _ ak_expires] arg_cong [of _ _ ak_last_used]
      arg_cong [of _ _ ak_last_ip_at])

lemma patch_token_keeps:
  assumes "patch_token patch t = (t', ok)"
  shows "ak_id t' = ak_id t" "ak_tenant t' = ak_tenant t" "ak_token t' = ak_token t" "ak_use_count t' = ak_use_count t"
  using assms by (auto simp: patch_token_def patched_def Let_def split: if_splits expiry_field.splits)

lemma patch_token_times:
  assumes "patch_token patch t = (t', ok)" and "times_stored t" and "proper t"
    and "case tp_expires patch of ExpiryBad \<Rightarrow> False | ExpiryAt x \<Rightarrow> milli \<le> x | _ \<Rightarrow> True"
  shows "times_stored t'" and "proper t'"
proof -
  have new: "stored_time (stored_time (Some x)) = stored_time (Some x)" "stored_time (Some x) = Some (x div milli * milli)"
    if "milli \<le> x" for x
    using that stored_time_idem [of x] by (auto simp: stored_time_Some milli_def zero_time_def)
  show "times_stored t'"
    using assms(1,2,4) new(1)
    by (auto simp: patch_token_def patched_def Let_def times_stored_def split: if_splits expiry_field.splits)
  show "proper t'"
    using assms(1,3,4) new(2)
    by (auto simp: patch_token_def patched_def Let_def proper_def split: if_splits expiry_field.splits)
qed

lemma patch_token_ok:
  assumes "tp_name patch \<noteq> Some ''''" and "tp_expires patch \<noteq> ExpiryBad"
  shows "snd (patch_token patch t)"
  using assms by (simp add: patch_token_def Let_def split: expiry_field.split)

lemma Put_step:
  assumes ok: "token_rows_ok rows" and st: "in_step rows c" and sound: "token_sound (PutToken tenant i patch) rows"
    and s': "token_step (PutToken tenant i patch) (rows, c) = (rows', c')"
  shows "token_rows_ok rows' \<and> in_step rows' c'"
proof -
  have "live_in tenant i rows" using sound by simp
  from GetByID_step [OF ok st this] obtain c1 p r where
    get: "TokenCache_GetByID tenant i rows c = (c1, Some p)" and st1: "in_step rows c1" and p: "p < length (tc_objects c1)"
    and i: "map_of (tc_ids c1) i = Some p" and r: "r \<in> set (live rows)" "ak_id r = i" "stored (obj c1 p) = r" by metis
  have "tp_expires patch \<noteq> ExpiryBad" using sound by auto
  then obtain t where t: "patch_token patch (obj c1 p) = (t, True)"
    using patch_token_ok [of patch "obj c1 p"] sound by (cases "patch_token patch (obj c1 p)") auto
  note keep = patch_token_keeps [OF t]
  have row: "stored r = r" "ak_token r \<noteq> ''''" using ok r(1) by (auto simp: token_rows_ok_def live_iff)
  have fields: "ak_id t = ak_id r" "ak_tenant t = ak_tenant r" "ak_token t = ak_token r" "ak_use_count t = ak_use_count r"
    using keep r(3) by auto
  have "times_stored (obj c1 p)" using row(1) r(3) by (simp add: times_stored_iff)
  then have times: "stored (stored t) = stored t"
    and timely: "proper t"
    using patch_token_times [OF t] sound shown_proper [OF _ i, of rows] st1 by (simp_all add: times_stored_iff in_step_def)
  let ?c = "put_obj p t c1"
  have objp: "obj ?c p = t" using p by simp
  show ?thesis
  proof (cases "Token_Update t rows")
    case None
    then have "rows' = rows" "c' = ?c" using s' get t objp by (simp_all add: put_token_def update_token_def Let_def)
    moreover have "list_ex (\<lambda>s. ak_id (sr_row s) = ak_id t) rows" "\<not> token_taken (ak_token t) (ak_id t) rows"
      using r(1) fields(1,3) rows_tokens_unique [OF ok] by (auto simp: list_ex_iff live_iff token_taken_def)
    ultimately show ?thesis using None by (simp add: Token_Update_def)
  next
    case (Some rows1)
    then have res: "rows' = rows1" "c' = TokenCache_Update p ?c"
      using s' get t objp by (simp_all add: put_token_def update_token_def Let_def)
    have "paired c1" using st1 by (simp add: in_step_def)
    then have "paired ?c" using paired_put [OF _ p keep(1,3)] by simp
    moreover have "stored (obj ?c q) \<in> set (live rows) \<and> proper (obj ?c q)"
      if q: "map_of (tc_ids ?c) j = Some q" "j \<noteq> ak_id r" for j q
    proof -
      have j: "map_of (tc_ids c1) j = Some q" using q(1) by simp
      then have "q \<noteq> p" using paired_id(2) [OF \<open>paired c1\<close> j] paired_id(2) [OF \<open>paired c1\<close> i] q(2) r(2) by auto
      then show ?thesis using st1 j p by (auto simp: in_step_def dest: shownD shown_proper)
    qed
    ultimately show ?thesis
      unfolding res using timely
      using Update_step [OF ok, of ?c p r rows1] r(1) fields row(2) times updated_alike [of r t] Some p
      by (simp add: objp)
  qed
qed

lemma Rotate_step:
  assumes ok: "token_rows_ok rows" and st: "in_step rows c" and sound: "token_sound (RotateToken tenant t plain prefix) rows"
    and s': "token_step (RotateToken tenant t plain prefix) (rows, c) = (rows', c')"
  shows "token_rows_ok rows' \<and> in_step rows' c'"
proof -
  let ?t = "t \<lparr> ak_tenant := tenant, ak_token := plain, ak_prefix := prefix, ak_enabled := True \<rparr>"
  let ?c = "fst (alloc ?t c)" and ?p = "length (tc_objects c)"
  have objp: "obj ?c ?p = ?t" using obj_alloc(2) [of ?t c] by simp
  have rot: "RotateAPIToken tenant t plain prefix (rows, c) = update_token ?p (rows, ?c)"
    by (simp add: RotateAPIToken_def alloc_def)
  have st1: "in_step rows ?c" using st by (rule alloc_in_step)
  show ?thesis
  proof (cases "Token_Update ?t rows")
    case None
    then have "rows' = rows" "c' = ?c" using s' objp by (simp_all add: rot update_token_def)
    then show ?thesis using ok st1 by simp
  next
    case (Some rows1)
    then have res: "rows' = rows1" "c' = TokenCache_Update ?p ?c"
      using s' objp by (simp_all add: rot update_token_def)
    have "t \<in> set (live rows)" "ak_tenant t = tenant" "plain \<noteq> ''''" using sound by simp_all
    moreover have "stored t = t" using calculation(1) ok by (auto simp: token_rows_ok_def live_iff)
    then have "times_stored ?t" "proper ?t"
      using times_stored_iff [of t] stored_proper [of t] by (simp_all add: times_stored_def proper_def)
    ultimately show ?thesis
      unfolding res
      using Update_step [OF ok, of ?c ?p t rows1] st1 updated_alike [of t ?t] Some
      by (simp add: objp in_step_def times_stored_iff shown_def)
  qed
qed

text \<open>Deletions: the rows that stay live are those the cache keeps.\<close>

lemma forget_all_in_step:
  assumes "token_rows_ok rows" and "in_step rows c" and "set rs \<subseteq> set (live rows)"
  shows "in_step rows (fold forget rs c)" and "\<And>r. r \<in> set rs \<Longrightarrow> map_of (tc_ids (fold forget rs c)) (ak_id r) = None"
proof -
  have "in_step rows (fold forget rs c) \<and> (\<forall>r \<in> set rs. map_of (tc_ids (fold forget rs c)) (ak_id r) = None) \<and>
      (\<forall>i. map_of (tc_ids c) i = None \<longrightarrow> map_of (tc_ids (fold forget rs c)) i = None)"
    using assms(2,3)
  proof (induction rs arbitrary: c)
    case (Cons r rs)
    then have "stored r = r" using assms(1) by (auto simp: token_rows_ok_def live_iff)
    then have f: "in_step rows (forget r c)" "map_of (tc_ids (forget r c)) (ak_id r) = None"
      using forget_in_step [OF assms(1) Cons.prems(1), of r r] Cons.prems(2) by simp_all
    have "map_of (tc_ids (forget r c)) i = None" if "map_of (tc_ids c) i = None" for i
      using that by (simp add: forget_def map_of_del del: map_of_eq_None_iff)
    then show ?case using Cons.IH [OF f(1)] Cons.prems(2) f(2) by (auto simp del: map_of_eq_None_iff)
  qed simp
  then show "in_step rows (fold forget rs c)" "\<And>r. r \<in> set rs \<Longrightarrow> map_of (tc_ids (fold forget rs c)) (ak_id r) = None"
    by blast+
qed

lemma shown_fewer:
  assumes "shown rows c" and "paired c"
    and "\<And>r. r \<in> set (live rows) \<Longrightarrow> r \<notin> set (live rows') \<Longrightarrow> map_of (tc_ids c) (ak_id r) = None"
  shows "shown rows' c"
  unfolding shown_def
proof (intro allI impI)
  fix i p assume p: "map_of (tc_ids c) i = Some p"
  have "stored (obj c p) \<in> set (live rows)" by (rule shownD [OF assms(1) p])
  moreover have "ak_id (stored (obj c p)) = i" using paired_id(2) [OF assms(2) p] by simp
  ultimately have "stored (obj c p) \<in> set (live rows')" using assms(3) [of "stored (obj c p)"] p by auto
  then show "stored (obj c p) \<in> set (live rows') \<and> proper (obj c p)" using shown_proper [OF assms(1) p] by blast
qed

lemma deleted_rows_ok:
  assumes "token_rows_ok rows" and "\<And>s. sr_row (f s) = sr_row s"
  shows "token_rows_ok (map f rows)"
  using assms by (auto simp: token_rows_ok_def soft_wf_def comp_def)

lemma Delete_step:
  assumes ok: "token_rows_ok rows" and st: "in_step rows c" and sound: "token_sound (DeleteToken tenant i nowMs) rows"
  shows "token_rows_ok (Token_Delete tenant i nowMs rows) \<and> in_step (Token_Delete tenant i nowMs rows) (TokenCache_Delete i c)"
proof -
  have ok': "token_rows_ok (Token_Delete tenant i nowMs rows)"
    unfolding Token_Delete_def soft_delete_def using ok by (rule deleted_rows_ok) simp
  have now: "nowMs \<noteq> 0" and "live_in tenant i rows" using sound by simp_all
  from live_inD [OF ok this(2)] obtain r where r: "r \<in> set (live rows)" "ak_id r = i" "in_tenant tenant (ak_tenant r)" by metis
  then have "list_all (\<lambda>x. ak_id x \<noteq> i \<or> in_tenant tenant (ak_tenant x)) (live rows)"
    using live_ids_unique [OF ok] by (auto simp: list_all_iff)
  then have live': "live (Token_Delete tenant i nowMs rows) = filter (\<lambda>x. ak_id x \<noteq> i) (live rows)"
    unfolding Token_Delete_def by (rule live_delete [where idf = ak_id and tenf = ak_tenant, OF now])
  have pair: "paired c" using st by (simp add: in_step_def)
  have del: "in_step rows (TokenCache_Delete i c) \<and> map_of (tc_ids (TokenCache_Delete i c)) i = None"
  proof (cases "map_of (tc_ids c) i")
    case None
    then have "map_of (AList.delete i (tc_ids c)) = map_of (tc_ids c)"
      by (simp add: fun_eq_iff map_of_del del: map_of_eq_None_iff)
    then show ?thesis using st None Delete_is_forget [OF pair, of i] unfolding in_step_def paired_def shown_def
      by (simp del: map_of_eq_None_iff)
  next
    case (Some p)
    have "stored (obj c p) \<in> set (live rows)" "ak_id (obj c p) = i"
      using st Some paired_id(2) [OF pair Some] by (auto simp: in_step_def dest: shownD)
    then show ?thesis
      using forget_in_step [OF ok st, of "stored (obj c p)" "obj c p"] Delete_is_forget [OF pair, of i] Some by simp
  qed
  have "shown (Token_Delete tenant i nowMs rows) (TokenCache_Delete i c)"
  proof (rule shown_fewer [of rows])
    fix r assume "r \<in> set (live rows)" "r \<notin> set (live (Token_Delete tenant i nowMs rows))"
    then have "ak_id r = i" by (simp add: live')
    then show "map_of (tc_ids (TokenCache_Delete i c)) (ak_id r) = None" using del by (simp only: simp_thms)
  qed (use del in \<open>simp_all only: in_step_def\<close>)
  with ok' del show ?thesis by (simp add: in_step_def)
qed

lemma Cleanup_step:
  assumes ok: "token_rows_ok rows" and st: "in_step rows c" and "deletedAt \<noteq> 0"
    and del: "Token_DeleteExpired tenant now inactive deletedAt rows = (rows', tokens)"
  shows "token_rows_ok rows' \<and> in_step rows' (TokenCache_DeleteExpired tokens c)"
proof -
  have tokens: "set tokens = {r \<in> set (live rows). in_tenant tenant (ak_tenant r) \<and> expired_row now inactive r}"
    using del by (auto simp: Token_DeleteExpired_def Let_def)
  have rows': "rows' = map (\<lambda>s. if in_tenant tenant (ak_tenant (sr_row s)) \<and> ak_id (sr_row s) \<in> ak_id ` set tokens \<and>
      sr_deleted s = 0 then s \<lparr> sr_deleted := deletedAt \<rparr> else s) rows"
    using del by (auto simp: Token_DeleteExpired_def Let_def)
  have "token_rows_ok rows'" unfolding rows' using ok by (rule deleted_rows_ok) simp
  moreover have "set tokens \<subseteq> set (live rows)" by (auto simp: tokens)
  note gone = forget_all_in_step [OF ok st this]
  have "shown rows' (fold forget tokens c)"
  proof (rule shown_fewer [of rows])
    fix r assume r: "r \<in> set (live rows)" "r \<notin> set (live rows')"
    then obtain s where s: "s \<in> set rows" "sr_row s = r" "sr_deleted s = 0" by (auto simp: live_iff)
    have "ak_id r \<in> ak_id ` set tokens"
    proof (rule ccontr)
      assume "ak_id r \<notin> ak_id ` set tokens"
      then have "s \<in> set rows'" unfolding rows' set_map using s by (intro image_eqI [OF _ s(1)]) simp
      then show False using s r(2) by (auto simp: live_iff)
    qed
    then obtain r' where "r' \<in> set tokens" "ak_id r = ak_id r'" by blast
    then show "map_of (tc_ids (fold forget tokens c)) (ak_id r) = None" by (simp only: gone(2))
  qed (use gone(1) in \<open>simp_all add: in_step_def\<close>)
  ultimately show ?thesis using gone(1) by (simp add: in_step_def TokenCache_DeleteExpired_def)
qed

lemma stored_fixed:
  "stored t = t \<longleftrightarrow> stored_time (ak_expires t) = ak_expires t \<and> stored_time (ak_last_used t) = ak_last_used t \<and>
     stored_time (ak_last_ip_at t) = ak_last_ip_at t"
  by (cases t) (simp add: stored_def)

lemma Seen_step:
  assumes ok: "token_rows_ok rows" and st: "in_step rows c" and sound: "token_sound (SeenToken tenant i ip at) rows"
  shows "token_rows_ok (Token_UpdateLastSeen tenant i ip at rows) \<and>
    in_step (Token_UpdateLastSeen tenant i ip at rows) (TokenCache_UpdateLastSeen i ip at c)"
proof
  have at: "0 < at" "stored_time (Some at) \<noteq> None" and ip: "TrimSpace ip = ip" and live: "live_in tenant i rows"
    using sound by (auto simp: stored_time_Some milli_def zero_time_def)
  then have time: "fromTimestampPtr (at div milli) = stored_time (Some at)"
    by (simp add: fromTimestampPtr_stored zero_time_def)
  have "stored (seen_row ip at r) = seen_row ip at r" if "stored r = r" for r
    using that stored_time_idem [OF at(1)] by (simp add: stored_fixed seen_row_def time Let_def)
  then show "token_rows_ok (Token_UpdateLastSeen tenant i ip at rows)"
    unfolding Token_UpdateLastSeen_def by (intro on_rows_ok [OF ok]) (simp_all add: seen_row_def Let_def)
  from live_inD [OF ok live] obtain r where r: "r \<in> set (live rows)" "ak_id r = i" "in_tenant tenant (ak_tenant r)" by metis
  show "in_step (Token_UpdateLastSeen tenant i ip at rows) (TokenCache_UpdateLastSeen i ip at c)"
    unfolding Token_UpdateLastSeen_def TokenCache_UpdateLastSeen_def
  proof (rule on_both [OF st])
    fix t assume t: "ak_id t = i" "stored t \<in> set (live rows)"
    then have "stored t = r" using live_ids_unique [OF ok t(2) r(1)] r(2) by simp
    then have "in_tenant tenant (ak_tenant (stored t)) \<and> ak_id (stored t) = i" using r by simp
    then show "stored (seen_object ip at t) =
        (if in_tenant tenant (ak_tenant (stored t)) \<and> ak_id (stored t) = i then seen_row ip at (stored t) else stored t)"
      by (simp add: seen_object_def seen_row_def stored_def ip time Let_def)
  qed (use at in \<open>simp_all add: seen_object_def proper_def Let_def\<close>)
qed

lemma quota_alike: "stored (t \<lparr> ak_quota := q \<rparr>) = (stored t) \<lparr> ak_quota := q \<rparr>"
  by (simp add: stored_def)

lemma quota_step:
  assumes ok: "token_rows_ok rows" and st: "in_step rows c" and "tenant \<noteq> 0"
  shows "token_rows_ok (on_rows (\<lambda>r. in_tenant tenant (ak_tenant r) \<and> ak_id r = i) (\<lambda>r. r \<lparr> ak_quota := f (ak_quota r) \<rparr>) rows) \<and>
    in_step (on_rows (\<lambda>r. in_tenant tenant (ak_tenant r) \<and> ak_id r = i) (\<lambda>r. r \<lparr> ak_quota := f (ak_quota r) \<rparr>) rows)
      (on_cached i (\<lambda>t. if ak_tenant t = tenant then t \<lparr> ak_quota := f (ak_quota t) \<rparr> else t) c)"
proof
  show "token_rows_ok (on_rows (\<lambda>r. in_tenant tenant (ak_tenant r) \<and> ak_id r = i) (\<lambda>r. r \<lparr> ak_quota := f (ak_quota r) \<rparr>) rows)"
    by (rule on_rows_ok [OF ok]) (simp_all add: quota_alike)
  show "in_step (on_rows (\<lambda>r. in_tenant tenant (ak_tenant r) \<and> ak_id r = i) (\<lambda>r. r \<lparr> ak_quota := f (ak_quota r) \<rparr>) rows)
      (on_cached i (\<lambda>t. if ak_tenant t = tenant then t \<lparr> ak_quota := f (ak_quota t) \<rparr> else t) c)"
    by (rule on_both [OF st]) (use assms(3) in \<open>auto simp: quota_alike in_tenant_def proper_def\<close>)
qed

lemma Charge_step:
  assumes ok: "token_rows_ok rows" and st: "in_step rows c" and "tenant \<noteq> 0"
  shows "token_rows_ok (Token_DeductQuotaBalanceToZero tenant i amount rows) \<and>
    in_step (Token_DeductQuotaBalanceToZero tenant i amount rows) (TokenCache_DeductQuotaBalanceToZero tenant i amount c)"
proof (cases "i = 0 \<or> amount = 0")
  case False
  then show ?thesis
    using quota_step [OF assms, of i "deducted amount"]
    by (simp add: Token_DeductQuotaBalanceToZero_def TokenCache_DeductQuotaBalanceToZero_def)
next
  case True
  have "on_cached i (\<lambda>t. if ak_tenant t = tenant then t \<lparr> ak_quota := deducted amount (ak_quota t) \<rparr> else t) c = c"
  proof (cases "map_of (tc_ids c) i")
    case (Some p)
    have "stored (obj c p) \<in> set (live rows)" "ak_id (obj c p) = i"
      using st Some paired_id(2) [of c i p] by (auto simp: in_step_def dest: shownD)
    then have "i \<noteq> 0" using ok by (auto simp: token_rows_ok_def live_iff)
    then have "deducted amount q = q" for q using True by (auto simp: deducted_def word_gt_0)
    then show ?thesis using Some by (simp add: on_cached_def put_obj_def obj_def)
  qed (simp add: on_cached_def)
  then show ?thesis
    using True ok st by (simp add: Token_DeductQuotaBalanceToZero_def TokenCache_DeductQuotaBalanceToZero_def)
qed

lemma recharge_fold:
  "distinct ids \<Longrightarrow>
   on_rows (\<lambda>r. in_tenant tenant (ak_tenant r) \<and> ak_id r \<in> set ids) (\<lambda>r. r \<lparr> ak_quota := f (ak_quota r) \<rparr>) rows =
   fold (\<lambda>i. on_rows (\<lambda>r. in_tenant tenant (ak_tenant r) \<and> ak_id r = i) (\<lambda>r. r \<lparr> ak_quota := f (ak_quota r) \<rparr>)) ids rows"
proof (induction ids arbitrary: rows)
  case (Cons i ids)
  have "on_rows (\<lambda>r. in_tenant tenant (ak_tenant r) \<and> ak_id r \<in> set (i # ids)) (\<lambda>r. r \<lparr> ak_quota := f (ak_quota r) \<rparr>) rows =
      on_rows (\<lambda>r. in_tenant tenant (ak_tenant r) \<and> ak_id r \<in> set ids) (\<lambda>r. r \<lparr> ak_quota := f (ak_quota r) \<rparr>)
        (on_rows (\<lambda>r. in_tenant tenant (ak_tenant r) \<and> ak_id r = i) (\<lambda>r. r \<lparr> ak_quota := f (ak_quota r) \<rparr>) rows)"
    unfolding on_rows_def map_map
  proof (rule map_cong [OF refl])
    fix s :: "token soft_row"
    let ?r = "sr_row s"
    have "i \<notin> set ids" using Cons.prems by simp
    then show "(if in_tenant tenant (ak_tenant ?r) \<and> ak_id ?r \<in> set (i # ids)
         then s \<lparr> sr_row := ?r \<lparr> ak_quota := f (ak_quota ?r) \<rparr> \<rparr> else s) =
        ((\<lambda>s. if in_tenant tenant (ak_tenant (sr_row s)) \<and> ak_id (sr_row s) \<in> set ids
              then s \<lparr> sr_row := (sr_row s) \<lparr> ak_quota := f (ak_quota (sr_row s)) \<rparr> \<rparr> else s) \<circ>
         (\<lambda>s. if in_tenant tenant (ak_tenant (sr_row s)) \<and> ak_id (sr_row s) = i
              then s \<lparr> sr_row := (sr_row s) \<lparr> ak_quota := f (ak_quota (sr_row s)) \<rparr> \<rparr> else s)) s"
      by (cases "ak_id ?r = i"; cases "in_tenant tenant (ak_tenant ?r)") simp_all
  qed
  then show ?case using Cons by simp
qed (simp add: on_rows_def)

lemma Recharge_step:
  assumes ok: "token_rows_ok rows" and st: "in_step rows c" and sound: "token_sound (RechargeTokens tenant ids amount) rows"
  shows "token_rows_ok (fst (Token_AddQuotaBalance tenant ids amount rows)) \<and>
    in_step (fst (Token_AddQuotaBalance tenant ids amount rows)) (TokenCache_AddQuotaBalance tenant ids amount c)"
proof (cases "ids = [] \<or> amount = 0")
  case True
  have "on_cached i (\<lambda>t. if ak_tenant t = tenant then t \<lparr> ak_quota := ak_quota t + 0 \<rparr> else t) c = c" for i c
    by (simp add: on_cached_def put_obj_def obj_def split: option.split)
  then have "fold (\<lambda>i. on_cached i (\<lambda>t. if ak_tenant t = tenant then t \<lparr> ak_quota := ak_quota t + 0 \<rparr> else t)) ids c = c"
    by (induction ids) simp_all
  then show ?thesis using True ok st by (auto simp: Token_AddQuotaBalance_def TokenCache_AddQuotaBalance_def)
next
  case False
  let ?row = "\<lambda>i. on_rows (\<lambda>r. in_tenant tenant (ak_tenant r) \<and> ak_id r = i) (\<lambda>r. r \<lparr> ak_quota := ak_quota r + amount \<rparr>)"
  let ?obj = "\<lambda>i. on_cached i (\<lambda>t. if ak_tenant t = tenant then t \<lparr> ak_quota := ak_quota t + amount \<rparr> else t)"
  have "tenant \<noteq> 0" and dist: "distinct ids" using sound by simp_all
  then have "token_rows_ok (fold ?row is rows) \<and> in_step (fold ?row is rows) (fold ?obj is c)" for "is"
    using ok st
  proof (induction "is" arbitrary: rows c)
    case (Cons i "is")
    from quota_step [OF Cons.prems(3,4,1), of i "\<lambda>q. q + amount"]
    have "token_rows_ok (?row i rows)" "in_step (?row i rows) (?obj i c)" by blast+
    from Cons.IH [OF Cons.prems(1,2) this] show ?case by simp
  qed simp
  then show ?thesis
    using False recharge_fold [OF dist, of tenant "\<lambda>q. q + amount" rows]
    by (simp add: Token_AddQuotaBalance_def TokenCache_AddQuotaBalance_def)
qed

lemma Load_step:
  assumes ok: "token_rows_ok rows"
  shows "in_step rows (TokenCache_Load rows c)"
proof -
  have "in_step rows (fold (\<lambda>t c. let (c, p) = alloc t c in remember p c) rs c)"
    if "set rs \<subseteq> set (live rows)" "in_step rows c" for rs c
    using that
  proof (induction rs arbitrary: c)
    case (Cons r rs)
    then have "stored r = r" using ok by (auto simp: token_rows_ok_def live_iff)
    then have "in_step rows (remember (length (tc_objects c)) (fst (alloc r c)))" using stored_proper [of r]
        remember_in_step [OF ok alloc_in_step [OF Cons.prems(2), of r], of "length (tc_objects c)"] Cons.prems(1)
        obj_alloc(2) [of r c] by simp
    then show ?case using Cons by (simp add: alloc_def)
  qed simp
  moreover have "in_step rows (InvalidateCache c)"
    by (simp add: in_step_def paired_def shown_def InvalidateCache_def)
  moreover have "set (Token_List 0 rows) \<subseteq> set (live rows)" by (auto simp: Token_List_def)
  ultimately show ?thesis by (simp add: TokenCache_Load_def)
qed

lemma token_step_ok:
  assumes ok: "token_rows_ok (fst s)" and st: "in_step (fst s) (snd s)" and sound: "token_sound x (fst s)"
  shows "token_rows_ok (fst (token_step x s)) \<and> in_step (fst (token_step x s)) (snd (token_step x s))"
proof (cases x)
  case (CreateToken newID t)
  show ?thesis using Create_step [OF ok st, of newID t] sound unfolding CreateToken by (metis prod.collapse)
next
  case (PutToken tenant i patch)
  show ?thesis using Put_step [OF ok st, of tenant i patch] sound unfolding PutToken by (metis prod.collapse)
next
  case (RotateToken tenant t plain prefix)
  show ?thesis using Rotate_step [OF ok st, of tenant t plain prefix] sound unfolding RotateToken by (metis prod.collapse)
next
  case (CleanupTokens tenant now inactive deletedAt)
  obtain rows' tokens where "Token_DeleteExpired tenant now inactive deletedAt (fst s) = (rows', tokens)" by force
  then show ?thesis
    using Cleanup_step [OF ok st, of deletedAt tenant now inactive] sound CleanupTokens by simp
next
  case (ReadToken tenant i)
  from GetByID_step [OF ok st, of tenant i] sound ReadToken ok show ?thesis by auto
qed (use ok st sound Delete_step [OF ok st] Seen_step [OF ok st] Recharge_step [OF ok st] Charge_step [OF ok st]
      GetByToken_step(1) [OF ok st] Load_step [OF ok] in simp_all)

lemma token_run_ok:
  assumes "token_rows_ok (fst s)" and "in_step (fst s) (snd s)" and "token_run_sound xs s"
  shows "token_rows_ok (fst (token_run xs s)) \<and> in_step (fst (token_run xs s)) (snd (token_run xs s))"
  using assms
proof (induction xs arbitrary: s)
  case (Cons x xs)
  then show ?case using token_step_ok [of s x] by simp
qed simp

section \<open>Outside the contract\<close>

text \<open>Reading a deleted token by its identifier puts it back into the cache, where its plaintext is found.\<close>

lemma deleted_token_revived:
  assumes "map_of (tc_ids c) i = None" and "Token_GetByID tenant i rows = Some r"
  shows "snd (TokenCache_GetByToken 0 (ak_token r) rows (fst (TokenCache_GetByID tenant i rows c))) =
    Some (length (tc_objects c))"
  using assms
  by (simp add: TokenCache_GetByID_def TokenCache_GetByToken_def fill_def alloc_def remember_def obj_def map_of_update
      del: map_of_eq_None_iff)

text \<open>A body the handler refuses because of its expiry has already been written to the cached token.\<close>

lemma rejected_put_takes_effect:
  assumes "map_of (tc_ids c) i = Some p" and "p < length (tc_objects c)" and "ak_tenant (obj c p) = tenant"
    and "tp_name patch = None" and "tp_expires patch = ExpiryBad" and "tp_enabled patch = Some True"
  shows "put_token tenant i patch (rows, c) = ((rows, put_obj p (patched patch (obj c p)) c), 400)"
    and "ak_enabled (obj (put_obj p (patched patch (obj c p)) c) p)"
  using assms by (simp_all add: put_token_def TokenCache_GetByID_def patch_token_def Let_def patched_def)

text \<open>A token named twice in a recharge gets the amount once in the table and twice in the cache.\<close>

lemma recharge_named_twice:
  assumes "map_of (tc_ids c) i = Some p" and "p < length (tc_objects c)" and "ak_tenant (obj c p) = tenant"
    and "ak_tenant r = tenant" and "ak_id r = i" and "amount \<noteq> 0"
  shows "map (\<lambda>s. ak_quota (sr_row s)) (fst (Token_AddQuotaBalance tenant [i, i] amount [\<lparr> sr_row = r, sr_deleted = 0 \<rparr>])) =
      [ak_quota r + amount]"
    and "ak_quota (obj (TokenCache_AddQuotaBalance tenant [i, i] amount c) p) = ak_quota (obj c p) + amount + amount"
  using assms
  by (simp_all add: Token_AddQuotaBalance_def TokenCache_AddQuotaBalance_def on_rows_def on_cached_def in_tenant_def)

end
