(* ===== verification/Token_Auth.thy ===== *)
theory Token_Auth
  imports Token_Ops
begin

text \<open>
  Authentication of proxy requests by API tokens, \<^verbatim>\<open>internal/handler/token_auth.go\<close>, and the project a
  token may use, from \<^verbatim>\<open>internal/handler/proxy.go\<close>.  Headers are a function from names to their first
  values, empty when absent; settings are a repository that may fail.  Errors of the database other
  than a missing row are left out.
\<close>

section \<open>The token of a request\<close>

definition TokenPrefix :: string where "TokenPrefix = ''maxx_''"

datatype auth_error = ErrMissingToken | ErrInvalidToken | ErrTokenDisabled | ErrTokenExpired | ErrTokenConcurrentLimit

definition auth_enabled :: "(string \<Rightarrow> string option) \<Rightarrow> bool" where
  "auth_enabled settings = (settings ''api_token_auth_enabled'' = Some ''true'')"

text \<open>\<open>strings.Fields\<close>: the parts between white space.\<close>

fun until_space :: "string \<Rightarrow> string \<times> string" where
  "until_space [] = ([], [])"
| "until_space (c # cs) =
     (if find (has_prefix (c # cs)) space_seqs \<noteq> None then ([], c # cs)
      else let (w, rest) = until_space cs in (c # w, rest))"

lemma until_space_append: "until_space s = (w, rest) \<Longrightarrow> s = w @ rest"
  by (induction s arbitrary: w) (auto split: if_splits prod.splits)

lemma trim_left_fixed: "find (has_prefix (trim_left s)) space_seqs = None"
proof (induction s rule: trim_left.induct)
  case (1 s)
  show ?case
  proof (cases "find (has_prefix s) space_seqs")
    case None
    then show ?thesis by (subst trim_left.simps) simp
  next
    case (Some q)
    then show ?thesis using 1 [OF Some] by (subst trim_left.simps) simp
  qed
qed

lemma length_trim_left: "length (trim_left s) \<le> length s"
proof (induction s rule: trim_left.induct)
  case (1 s)
  show ?case
  proof (cases "find (has_prefix s) space_seqs")
    case None
    then show ?thesis by (subst trim_left.simps) simp
  next
    case (Some q)
    then show ?thesis using 1 [OF Some] by (subst trim_left.simps) simp
  qed
qed

function Fields :: "string \<Rightarrow> string list" where
  "Fields s =
     (let t = trim_left s
      in if t = [] then [] else (let (w, rest) = until_space t in w # Fields rest))"
  by auto
termination
proof (relation "measure length")
  fix s t p w rest
  assume t: "t = trim_left s" "t \<noteq> []" and p: "p = until_space t" "(w, rest) = p"
  obtain c cs where c: "t = c # cs" using t(2) by (cases t) auto
  have "find (has_prefix (c # cs)) space_seqs = None" using trim_left_fixed [of s] t(1) c by simp
  then have "w \<noteq> []" using p c by (auto split: prod.splits)
  moreover have "t = w @ rest" using until_space_append p by metis
  ultimately have "length rest < length t" by (cases w) simp_all
  then show "(rest, s) \<in> measure length" using length_trim_left [of s] t(1) by simp
qed simp

declare Fields.simps [simp del]

definition bearer_token :: "string \<Rightarrow> string option" where
  "bearer_token auth =
     (case Fields auth of
        [scheme, v] \<Rightarrow> if equal_fold_ascii scheme ''bearer'' then Some v else None
      | _ \<Rightarrow> None)"

definition fallback_token :: "(string \<Rightarrow> string) \<Rightarrow> string" where
  "fallback_token header =
     (case bearer_token (header ''Authorization'') of
        Some v \<Rightarrow> v
      | None \<Rightarrow> if header ''x-api-key'' \<noteq> '''' then header ''x-api-key'' else header ''x-goog-api-key'')"

definition ExtractToken :: "(string \<Rightarrow> string) \<Rightarrow> string \<Rightarrow> string" where
  "ExtractToken header clientType =
     (if clientType = ''claude'' \<and> header ''x-api-key'' \<noteq> '''' then header ''x-api-key''
      else if clientType \<in> {''claude'', ''openai'', ''codex''} \<and> bearer_token (header ''Authorization'') \<noteq> None
      then the (bearer_token (header ''Authorization''))
      else if clientType = ''gemini'' \<and> header ''x-goog-api-key'' \<noteq> '''' then header ''x-goog-api-key''
      else fallback_token header)"

section \<open>Validation\<close>

definition APITokenInactiveExpiry :: go_duration where "APITokenInactiveExpiry = 10 * 24 * hour"

definition isInactiveAPITokenExpired :: "token \<Rightarrow> go_time \<Rightarrow> bool" where
  "isInactiveAPITokenExpired t now =
     (case ak_last_used t of
        None \<Rightarrow> False
      | Some l \<Rightarrow> l \<noteq> zero_time \<and> l + APITokenInactiveExpiry < now)"

text \<open>The checks read the clock twice.\<close>

definition validateExtractedToken ::
  "string \<Rightarrow> go_time \<Rightarrow> go_time \<Rightarrow> token_state \<Rightarrow> token_state \<times> (auth_error + nat)" where
  "validateExtractedToken v now now' s =
     (let v = TrimSpace v
      in if v = '''' then (s, Inl ErrMissingToken)
         else if \<not> has_prefix v TokenPrefix then (s, Inl ErrInvalidToken)
         else case TokenCache_GetByToken 0 v (fst s) (snd s) of
                (c, None) \<Rightarrow> ((fst s, c), Inl ErrInvalidToken)
              | (c, Some p) \<Rightarrow>
                  ((fst s, c),
                   if \<not> ak_enabled (obj c p) then Inl ErrTokenDisabled
                   else if case ak_expires (obj c p) of None \<Rightarrow> False | Some e \<Rightarrow> e < now then Inl ErrTokenExpired
                   else if isInactiveAPITokenExpired (obj c p) now' then Inl ErrTokenExpired
                   else Inr p))"

text \<open>\<open>Inr None\<close> lets the request pass without a token.  The use of an accepted token is recorded later
  (\<open>SeenToken\<close>).\<close>

definition ValidateRequest ::
  "(string \<Rightarrow> string option) \<Rightarrow> (string \<Rightarrow> string) \<Rightarrow> string \<Rightarrow> go_time \<Rightarrow> go_time \<Rightarrow> token_state \<Rightarrow>
     token_state \<times> (auth_error + nat option)" where
  "ValidateRequest settings header clientType now now' s =
     (if \<not> auth_enabled settings then (s, Inr None)
      else (let v = TrimSpace (ExtractToken header clientType)
            in if v = '''' then (s, Inl ErrMissingToken)
               else case validateExtractedToken v now now' s of
                      (s, Inl e) \<Rightarrow> (s, Inl e)
                    | (s, Inr p) \<Rightarrow> (s, Inr (Some p))))"

definition ResolveToken ::
  "(string \<Rightarrow> string option) \<Rightarrow> (string \<Rightarrow> string) \<Rightarrow> go_time \<Rightarrow> go_time \<Rightarrow> token_state \<Rightarrow>
     token_state \<times> (auth_error + nat option)" where
  "ResolveToken settings header now now' s =
     (if \<not> auth_enabled settings then (s, Inr None)
      else case validateExtractedToken (TrimSpace (ExtractToken header '''')) now now' s of
             (s, Inl e) \<Rightarrow> (s, Inl e)
           | (s, Inr p) \<Rightarrow> (s, Inr (Some p)))"

text \<open>The handler in front of the list of models: the tenant and the token of the request, or 401.\<close>

definition modelListClientType :: "string \<Rightarrow> string \<Rightarrow> string" where
  "modelListClientType path userAgent =
     (if path = ''/v1beta/models'' then ''gemini''
      else if has_prefix (to_lower (TrimSpace userAgent)) ''claude-cli'' then ''claude'' else ''openai'')"

definition WrapModelList ::
  "(string \<Rightarrow> string option) \<Rightarrow> (string \<Rightarrow> string) \<Rightarrow> string \<Rightarrow> go_time \<Rightarrow> go_time \<Rightarrow> token_state \<Rightarrow>
     token_state \<times> (auth_error + u64 \<times> u64 option)" where
  "WrapModelList settings header path now now' s =
     (case ValidateRequest settings header (modelListClientType path (header ''User-Agent'')) now now' s of
        (s, Inl e) \<Rightarrow> (s, Inl e)
      | (s, Inr None) \<Rightarrow> (s, Inr (1, None))
      | (s, Inr (Some p)) \<Rightarrow>
          (let t = obj (snd s) p
           in (s, Inr (if 0 < ak_tenant t then ak_tenant t else 1, Some (ak_id t)))))"

section \<open>Requests in flight\<close>

record token_limits =
  tl_by_id :: "(u64 \<times> int) list"
  tl_by_name :: "(string \<times> int) list"

definition DefaultAPITokenConcurrentLimit :: int where "DefaultAPITokenConcurrentLimit = 5"

definition GetConcurrentLimit :: "(string \<Rightarrow> string option) \<Rightarrow> int" where
  "GetConcurrentLimit settings =
     (case settings ''api_token_concurrent_limit'' of
        None \<Rightarrow> DefaultAPITokenConcurrentLimit
      | Some v \<Rightarrow> (case Atoi (TrimSpace v) of
                     None \<Rightarrow> DefaultAPITokenConcurrentLimit
                   | Some limit \<Rightarrow> if limit \<le> 0 then DefaultAPITokenConcurrentLimit else limit))"

definition active :: "token \<Rightarrow> token_limits \<Rightarrow> int" where
  "active t l =
     (if ak_id t \<noteq> 0 then lookup_default 0 (tl_by_id l) (ak_id t)
      else lookup_default 0 (tl_by_name l) (TrimSpace (ak_token t)))"

definition AcquireConcurrency ::
  "(string \<Rightarrow> string option) \<Rightarrow> token \<Rightarrow> token_limits \<Rightarrow> token_limits \<times> auth_error option" where
  "AcquireConcurrency settings t l =
     (let keyName = TrimSpace (ak_token t)
      in if ak_id t = 0 \<and> keyName = '''' then (l, Some ErrInvalidToken)
         else if GetConcurrentLimit settings \<le> active t l then (l, Some ErrTokenConcurrentLimit)
         else if ak_id t \<noteq> 0
         then (l \<lparr> tl_by_id := AList.update (ak_id t) (active t l + 1) (tl_by_id l) \<rparr>, None)
         else (l \<lparr> tl_by_name := AList.update keyName (active t l + 1) (tl_by_name l) \<rparr>, None))"

definition release_entry :: "'k \<Rightarrow> ('k \<times> int) list \<Rightarrow> ('k \<times> int) list" where
  "release_entry k m =
     (if 1 < lookup_default 0 m k then AList.update k (lookup_default 0 m k - 1) m else AList.delete k m)"

definition ReleaseConcurrency :: "token \<Rightarrow> token_limits \<Rightarrow> token_limits" where
  "ReleaseConcurrency t l =
     (let keyName = TrimSpace (ak_token t)
      in if ak_id t \<noteq> 0 then l \<lparr> tl_by_id := release_entry (ak_id t) (tl_by_id l) \<rparr>
         else if keyName = '''' then l
         else l \<lparr> tl_by_name := release_entry keyName (tl_by_name l) \<rparr>)"

section \<open>The project of a request\<close>

definition userPanelAPITokenDescriptionPrefix :: string where
  "userPanelAPITokenDescriptionPrefix = ''managed-by=maxx-user-panel;user-id=''"

definition isUserPanelAPIToken :: "token option \<Rightarrow> bool" where
  "isUserPanelAPIToken t =
     (case t of None \<Rightarrow> False | Some t \<Rightarrow> has_prefix (ak_description t) userPanelAPITokenDescriptionPrefix)"

definition apiTokenProjectBinding :: "token option \<Rightarrow> u64 \<Rightarrow> u64 option" where
  "apiTokenProjectBinding t currentProjectID =
     (case t of
        None \<Rightarrow> None
      | Some k \<Rightarrow> if currentProjectID \<noteq> 0 \<or> ak_project k = 0 \<or> isUserPanelAPIToken t then None
                  else Some (ak_project k))"

definition resolveProxyProjectID :: "(string \<Rightarrow> string) \<Rightarrow> token option \<Rightarrow> string + u64" where
  "resolveProxyProjectID header t =
     (let pidStr = header ''X-Maxx-Project-ID''
      in if pidStr \<noteq> '''' \<and> isUserPanelAPIToken t then Inl ''user panel token cannot select project''
         else (let projectID = (case parse_uint64 pidStr of Some pid \<Rightarrow> pid | None \<Rightarrow> 0)
               in Inr (case apiTokenProjectBinding t projectID of Some pid \<Rightarrow> pid | None \<Rightarrow> projectID)))"

text \<open>The ingress of a request then asks the session: the project bound to it, \<open>None\<close> for no session.\<close>

definition sessionProjectID :: "token option \<Rightarrow> u64 \<Rightarrow> u64 option \<Rightarrow> u64" where
  "sessionProjectID t projectID session =
     (case session of
        Some bound \<Rightarrow>
          if \<not> isUserPanelAPIToken t \<and> 0 < bound then bound
          else (case apiTokenProjectBinding t projectID of Some pid \<Rightarrow> pid | None \<Rightarrow> projectID)
      | None \<Rightarrow> (case apiTokenProjectBinding t projectID of Some pid \<Rightarrow> pid | None \<Rightarrow> projectID))"

section \<open>Authentication follows the table\<close>

text \<open>Whether a row admits a request, give or take the milliseconds its columns cut off.\<close>

definition row_admits :: "int \<Rightarrow> go_time \<Rightarrow> go_time \<Rightarrow> token \<Rightarrow> bool" where
  "row_admits slack now now' r \<longleftrightarrow> ak_enabled r \<and>
     (case ak_expires r of None \<Rightarrow> True | Some e \<Rightarrow> now \<le> e + slack) \<and>
     (case ak_last_used r of None \<Rightarrow> True | Some l \<Rightarrow> now' \<le> l + APITokenInactiveExpiry + slack)"








definition demo_token :: token where
  "demo_token =
     \<lparr> ak_id = 0, ak_tenant = 1, ak_token = ''maxx_a'', ak_prefix = ''maxx_a'', ak_name = ''n'', ak_description = '''',
       ak_project = 0, ak_enabled = True, ak_dev_mode = False, ak_expires = Some (2 * second), ak_last_used = None,
       ak_last_ip = '''', ak_last_ip_at = None, ak_use_count = 0, ak_quota = 0 \<rparr>"





text \<open>The cleanup deletes only what authentication refuses, also at any later time.\<close>

lemma cleanup_deletes_refused:
  assumes "Token_DeleteExpired tenant now APITokenInactiveExpiry deletedAt rows = (rows', gone)"
    and "r \<in> set gone" and "now \<le> later"
  shows "r \<in> set (live rows) \<and> in_tenant tenant (ak_tenant r) \<and> \<not> row_admits 0 later later r"
proof -
  have r: "r \<in> set (live rows)" "in_tenant tenant (ak_tenant r)" "expired_row now APITokenInactiveExpiry r"
    using assms(1,2) by (auto simp: Token_DeleteExpired_def Let_def)
  have past: "x < y" if "x div milli < y div milli" for x y :: int
  proof (rule ccontr)
    assume "\<not> x < y"
    then have "y div milli \<le> x div milli" by (intro zdiv_mono1) (simp_all add: milli_def)
    with that show False by simp
  qed
  have "\<not> row_admits 0 later later r"
    using r(3) assms(3) past [of _ now] past [of _ "now - APITokenInactiveExpiry"]
    by (auto simp: expired_row_def toTimestampPtr_def row_admits_def Let_def split: option.splits if_splits) fastforce+
  with r(1,2) show ?thesis by blast
qed

section \<open>The limit of requests in flight\<close>

text \<open>A request acquires once and, if it may run, releases once, with the limit read at that moment.\<close>

datatype flight_op = BeginRequest "string \<Rightarrow> string option" token | EndRequest token

primrec flight_step :: "flight_op \<Rightarrow> token_limits \<times> token list \<Rightarrow> token_limits \<times> token list" where
  "flight_step (BeginRequest settings t) s =
     (case AcquireConcurrency settings t (fst s) of
        (l, None) \<Rightarrow> (l, t # snd s)
      | (l, Some e) \<Rightarrow> (l, snd s))"
| "flight_step (EndRequest t) s =
     (if t \<in> set (snd s) then (ReleaseConcurrency t (fst s), remove1 t (snd s)) else s)"

definition same_client :: "token \<Rightarrow> token \<Rightarrow> bool" where
  "same_client t t' = (if ak_id t \<noteq> 0 then ak_id t' = ak_id t
                      else ak_id t' = 0 \<and> TrimSpace (ak_token t') = TrimSpace (ak_token t))"

definition in_flight :: "token \<Rightarrow> token list \<Rightarrow> nat" where
  "in_flight t held = length (filter (same_client t) held)"

definition NewTokenLimits :: token_limits where
  "NewTokenLimits = \<lparr> tl_by_id = [], tl_by_name = [] \<rparr>"

definition flight_ok :: "token_limits \<times> token list \<Rightarrow> bool" where
  "flight_ok s \<longleftrightarrow> (\<forall>t. active t (fst s) = int (in_flight t (snd s))) \<and>
     list_all (\<lambda>t. ak_id t \<noteq> 0 \<or> TrimSpace (ak_token t) \<noteq> '''') (snd s)"

lemma in_flight_Cons: "in_flight t (h # held) = (if same_client t h then 1 else 0) + in_flight t held"
  by (simp add: in_flight_def)

lemma in_flight_remove:
  "h \<in> set held \<Longrightarrow> in_flight t held = (if same_client t h then 1 else 0) + in_flight t (remove1 h held)"
  by (induction held) (auto simp: in_flight_def)

lemma active_acquired:
  "AcquireConcurrency settings t l = (l', None) \<Longrightarrow>
   active t' l' = active t' l + (if same_client t' t then 1 else 0)"
  by (auto simp: AcquireConcurrency_def active_def same_client_def Let_def go_map split: if_splits)

lemma lookup_release:
  "0 \<le> lookup_default 0 m k \<Longrightarrow>
   lookup_default 0 (release_entry k m) k' = (if k' = k then max 0 (lookup_default 0 m k - 1) else lookup_default 0 m k')"
  by (simp add: release_entry_def go_map)

lemma active_released:
  assumes "ak_id t \<noteq> 0 \<or> TrimSpace (ak_token t) \<noteq> ''''" and "0 < active t l"
  shows "active t' (ReleaseConcurrency t l) = active t' l - (if same_client t' t then 1 else 0)"
  using assms by (auto simp: ReleaseConcurrency_def active_def same_client_def Let_def lookup_release split: if_splits)

lemma flight_step_ok:
  assumes "flight_ok s"
  shows "flight_ok (flight_step x s)"
proof (cases x)
  case (BeginRequest settings t)
  obtain l e where acq: "AcquireConcurrency settings t (fst s) = (l, e)" by (meson surj_pair)
  show ?thesis
  proof (cases e)
    case None
    then show ?thesis
      using assms active_acquired [OF acq [unfolded None]] acq BeginRequest
      by (auto simp: flight_ok_def in_flight_Cons AcquireConcurrency_def Let_def split: if_splits)
  next
    case (Some err)
    then have "l = fst s" using acq by (auto simp: AcquireConcurrency_def Let_def split: if_splits)
    then show ?thesis using assms acq BeginRequest Some by simp
  qed
next
  case (EndRequest t)
  show ?thesis
  proof (cases "t \<in> set (snd s)")
    case True
    have "same_client t t" by (simp add: same_client_def)
    then have "0 < active t (fst s)"
      using assms in_flight_remove [OF True, of t] by (simp add: flight_ok_def)
    moreover have "ak_id t \<noteq> 0 \<or> TrimSpace (ak_token t) \<noteq> ''''" using assms True by (auto simp: flight_ok_def list_all_iff)
    ultimately have "active t' (ReleaseConcurrency t (fst s)) = int (in_flight t' (remove1 t (snd s)))" for t'
      using active_released [of t "fst s" t'] in_flight_remove [OF True, of t'] assms by (simp add: flight_ok_def)
    then show ?thesis using assms True EndRequest by (auto simp: flight_ok_def list_all_iff dest: set_remove1_subset [THEN subsetD])
  qed (use assms EndRequest in simp)
qed

text \<open>C21: A token's request is let in exactly when fewer of its requests are in flight than the limit read for
  it, however requests begin and end.\<close>

theorem token_limit_exact:
  assumes "ak_id t \<noteq> 0 \<or> TrimSpace (ak_token t) \<noteq> ''''"
  shows "let (l, held) = fold flight_step ops (NewTokenLimits, [])
    in (snd (AcquireConcurrency settings t l) = None) = (int (in_flight t held) < GetConcurrentLimit settings)"
proof -
  have "flight_ok (NewTokenLimits, [])"
    by (simp add: flight_ok_def NewTokenLimits_def active_def in_flight_def lookup_default_def)
  then have "flight_ok (fold flight_step ops (NewTokenLimits, []))"
    by (induction ops rule: rev_induct) (simp_all add: flight_step_ok)
  then have "active t (fst (fold flight_step ops (NewTokenLimits, []))) =
      int (in_flight t (snd (fold flight_step ops (NewTokenLimits, []))))" by (simp add: flight_ok_def)
  then show ?thesis using assms by (auto simp: AcquireConcurrency_def Let_def split: prod.splits)
qed

theorem token_limit_exact_witness:
  "snd (AcquireConcurrency (\<lambda>k. Some ''1'') (demo_token \<lparr> ak_id := 7 \<rparr>)
      (fst (fold flight_step [BeginRequest (\<lambda>k. Some ''1'') (demo_token \<lparr> ak_id := 7 \<rparr>)] (NewTokenLimits, [])))) \<noteq> None"
proof -
  have "TrimSpace ''1'' = ''1''" by (rule TrimSpace_visible) (simp_all add: visible_def)
  then have one: "GetConcurrentLimit (\<lambda>k. Some ''1'') = 1"
    by (simp add: GetConcurrentLimit_def Atoi_def parse_nat_def Let_def)
  have "snd (fold flight_step [BeginRequest (\<lambda>k. Some ''1'') (demo_token \<lparr> ak_id := 7 \<rparr>)] (NewTokenLimits, [])) =
      [demo_token \<lparr> ak_id := 7 \<rparr>]"
    by (simp add: AcquireConcurrency_def one active_def NewTokenLimits_def lookup_default_def)
  then show ?thesis
    using token_limit_exact [of "demo_token \<lparr> ak_id := 7 \<rparr>" "[BeginRequest (\<lambda>k. Some ''1'') (demo_token \<lparr> ak_id := 7 \<rparr>)]"
        "\<lambda>k. Some ''1''"] one
    by (simp add: in_flight_def same_client_def case_prod_unfold Let_def)
qed

text \<open>A token of the user panel never runs under a project.\<close>

lemma panel_token_project:
  assumes "isUserPanelAPIToken t" and "resolveProxyProjectID header t = Inr projectID"
  shows "projectID = 0" and "sessionProjectID t projectID session = 0"
  using assms
  by (auto simp: resolveProxyProjectID_def sessionProjectID_def apiTokenProjectBinding_def parse_uint64_def Let_def
      split: option.splits if_splits)

end
