(* ===== verification/Session_Store.thy ===== *)
theory Session_Store
  imports Token_Ops Coordinator_Memory
begin

text \<open>
  Sessions: the table (\<^verbatim>\<open>internal/repository/sqlite/session.go\<close>) and the three layers in front of it
  (\<^verbatim>\<open>internal/repository/cached/session.go\<close>): the cache of each instance, the key-value store of the
  coordinator that the instances share, and the table.  The cache hands out copies, so sessions are
  values.  How a session is written as JSON is a parameter.
\<close>

section \<open>The table\<close>

record session =
  se_id :: u64
  se_created :: go_time
  se_updated :: go_time
  se_tenant :: u64
  se_session :: string
  se_client :: string
  se_project :: u64
  se_rejected :: "go_time option"

definition toTimestamp :: "go_time \<Rightarrow> int" where
  "toTimestamp t = (if t = zero_time then 0 else t div milli)"

definition fromTimestamp :: "int \<Rightarrow> go_time" where
  "fromTimestamp ms = (if ms = 0 then zero_time else ms * milli)"

definition stored_instant :: "go_time \<Rightarrow> go_time" where
  "stored_instant t = fromTimestamp (toTimestamp t)"

text \<open>A session written to its row and read back.\<close>

definition stored_session :: "session \<Rightarrow> session" where
  "stored_session s =
     s \<lparr> se_created := stored_instant (se_created s), se_updated := stored_instant (se_updated s),
         se_rejected := stored_time (se_rejected s) \<rparr>"

type_synonym session_rows = "session soft_row list"
type_synonym session_ref = "u64 \<times> string"

definition session_key :: "session \<Rightarrow> session_ref" where
  "session_key s = (se_tenant s, se_session s)"

text \<open>The identifier a client sends is unique over all tenants, deleted rows included.\<close>

definition session_taken :: "session \<Rightarrow> session_rows \<Rightarrow> bool" where
  "session_taken s rows = list_ex (\<lambda>x. se_session (sr_row x) = se_session s \<and> se_id (sr_row x) \<noteq> se_id s) rows"

definition Session_Create :: "u64 \<Rightarrow> go_time \<Rightarrow> session \<Rightarrow> session_rows \<Rightarrow> (session_rows \<times> session) option" where
  "Session_Create newID now s rows =
     (let s = s \<lparr> se_id := newID, se_created := now, se_updated := now \<rparr>
      in if session_taken s rows then None else Some (soft_create (stored_session s) rows, s))"

definition Session_Update :: "go_time \<Rightarrow> session \<Rightarrow> session_rows \<Rightarrow> (session_rows \<times> session) option" where
  "Session_Update now s rows =
     (let s = s \<lparr> se_updated := now \<rparr>
      in if session_taken s rows then None else Some (soft_save se_id (stored_session s) rows, s))"

definition is_session :: "u64 \<Rightarrow> string \<Rightarrow> session \<Rightarrow> bool" where
  "is_session tenant sid s = (in_tenant tenant (se_tenant s) \<and> se_session s = sid)"

text \<open>\<open>None\<close> when there is no such session.\<close>

definition Session_Touch :: "u64 \<Rightarrow> string \<Rightarrow> go_time \<Rightarrow> go_time \<Rightarrow> session_rows \<Rightarrow> session_rows option" where
  "Session_Touch tenant sid at now rows =
     (let at = (if at = zero_time then now else at);
          hit = \<lambda>x. is_session tenant sid (sr_row x) \<and> sr_deleted x = 0
      in if list_ex hit rows
         then Some (map (\<lambda>x. if hit x
                             then x \<lparr> sr_row := (sr_row x) \<lparr> se_updated := stored_instant at \<rparr> \<rparr> else x) rows)
         else None)"

definition Session_Delete :: "u64 \<Rightarrow> go_time \<Rightarrow> session_rows \<Rightarrow> session_rows" where
  "Session_Delete i now rows =
     map (\<lambda>x. if se_id (sr_row x) = i
              then x \<lparr> sr_row := (sr_row x) \<lparr> se_updated := stored_instant now \<rparr>, sr_deleted := now div milli \<rparr> else x) rows"

definition Session_Get :: "u64 \<Rightarrow> string \<Rightarrow> session_rows \<Rightarrow> session option" where
  "Session_Get tenant sid rows = find (is_session tenant sid) (live rows)"

definition expired_session :: "go_time \<Rightarrow> session soft_row \<Rightarrow> bool" where
  "expired_session before x = (toTimestamp (se_updated (sr_row x)) < toTimestamp before)"

text \<open>This deletion removes the rows.\<close>

definition Session_DeleteOlderThan :: "go_time \<Rightarrow> session_rows \<Rightarrow> session_rows \<times> nat" where
  "Session_DeleteOlderThan before rows =
     (if before = zero_time then (rows, 0)
      else (filter (\<lambda>x. \<not> expired_session before x) rows, length (filter (expired_session before) rows)))"

definition Session_ListExpiredKeys :: "go_time \<Rightarrow> session_rows \<Rightarrow> session_ref list" where
  "Session_ListExpiredKeys before rows =
     (if before = zero_time then []
      else map (\<lambda>x. session_key (sr_row x)) (filter (expired_session before) rows))"

section \<open>The layers in front of it\<close>

type_synonym session_cache = "(session_ref \<times> session) list"

text \<open>\<open>sv_ops\<close> is \<open>None\<close> without a coordinator.\<close>

record 's session_env =
  sv_ops :: "'s kv_ops option"
  sv_encode :: "session \<Rightarrow> string"
  sv_decode :: "string \<Rightarrow> session option"
  sv_ttl :: go_duration

definition sessionCoordKey :: "u64 \<Rightarrow> string \<Rightarrow> string" where
  "sessionCoordKey tenant sid = ''session:'' @ show_nat (unat tenant) @ '':'' @ sid"

definition readCoord :: "'s session_env \<Rightarrow> go_time \<Rightarrow> u64 \<Rightarrow> string \<Rightarrow> 's \<Rightarrow> 's \<times> session option" where
  "readCoord env now tenant sid kv =
     (case sv_ops env of
        None \<Rightarrow> (kv, None)
      | Some ops \<Rightarrow>
          if tenant = 0 then (kv, None)
          else case kv_get ops (sessionCoordKey tenant sid) now kv of
                 (kv, Inl e) \<Rightarrow> (kv, None)
               | (kv, Inr v) \<Rightarrow> (kv, sv_decode env v))"

definition writeCoord :: "'s session_env \<Rightarrow> go_time \<Rightarrow> session \<Rightarrow> 's \<Rightarrow> 's" where
  "writeCoord env now s kv =
     (case sv_ops env of
        None \<Rightarrow> kv
      | Some ops \<Rightarrow>
          fst (kv_set ops (sessionCoordKey (se_tenant s) (se_session s)) (sv_encode env s) (sv_ttl env) now kv))"

definition keep_session :: "session \<Rightarrow> session_cache \<Rightarrow> session_cache" where
  "keep_session s c = AList.update (session_key s) s c"

text \<open>Over all tenants the first entry of the map with this identifier.\<close>

definition find_local :: "u64 \<Rightarrow> string \<Rightarrow> session_cache \<Rightarrow> session option" where
  "find_local tenant sid c =
     (if tenant = 0 then map_option snd (find (\<lambda>e. snd (fst e) = sid) c) else map_of c (tenant, sid))"

type_synonym 's session_state = "session_cache \<times> 's \<times> session_rows"

definition SessionCache_Get ::
  "'s session_env \<Rightarrow> go_time \<Rightarrow> u64 \<Rightarrow> string \<Rightarrow> 's session_state \<Rightarrow> 's session_state \<times> session option" where
  "SessionCache_Get env now tenant sid st =
     (case st of (c, kv, rows) \<Rightarrow>
        (case find_local tenant sid c of
           Some s \<Rightarrow> (st, Some s)
         | None \<Rightarrow>
             (case readCoord env now tenant sid kv of
                (kv, Some s) \<Rightarrow> ((keep_session s c, kv, rows), Some s)
              | (kv, None) \<Rightarrow>
                  (case Session_Get tenant sid rows of
                     None \<Rightarrow> ((c, kv, rows), None)
                   | Some s \<Rightarrow> ((keep_session s c, writeCoord env now s kv, rows), Some s)))))"

text \<open>The table has given the session its identifier and its time.\<close>

definition save_layers :: "'s session_env \<Rightarrow> go_time \<Rightarrow> (session_rows \<times> session) option \<Rightarrow> 's session_state \<Rightarrow>
    's session_state \<times> session option" where
  "save_layers env now saved st =
     (case st of (c, kv, rows) \<Rightarrow>
        (case saved of
           None \<Rightarrow> (st, None)
         | Some (rows, s) \<Rightarrow> ((keep_session s c, writeCoord env now s kv, rows), Some s)))"

definition SessionCache_Create ::
  "'s session_env \<Rightarrow> u64 \<Rightarrow> go_time \<Rightarrow> session \<Rightarrow> 's session_state \<Rightarrow> 's session_state \<times> session option" where
  "SessionCache_Create env newID now s st = save_layers env now (Session_Create newID now s (snd (snd st))) st"

definition SessionCache_Update ::
  "'s session_env \<Rightarrow> go_time \<Rightarrow> session \<Rightarrow> 's session_state \<Rightarrow> 's session_state \<times> session option" where
  "SessionCache_Update env now s st = save_layers env now (Session_Update now s (snd (snd st))) st"

definition SessionCache_GetOrCreate ::
  "'s session_env \<Rightarrow> u64 \<Rightarrow> go_time \<Rightarrow> u64 \<Rightarrow> string \<Rightarrow> string \<Rightarrow> 's session_state \<Rightarrow>
     's session_state \<times> session option" where
  "SessionCache_GetOrCreate env newID now tenant sid clientType st =
     (case SessionCache_Get env now tenant sid st of
        (st, Some s) \<Rightarrow> (st, Some s)
      | (st, None) \<Rightarrow>
          if tenant = 0 then (st, None)
          else SessionCache_Create env newID now
                 \<lparr> se_id = 0, se_created = zero_time, se_updated = zero_time, se_tenant = tenant, se_session = sid, se_client = clientType,
                   se_project = 0, se_rejected = None \<rparr> st)"

definition SessionCache_Touch ::
  "'s session_env \<Rightarrow> go_time \<Rightarrow> u64 \<Rightarrow> string \<Rightarrow> go_time \<Rightarrow> 's session_state \<Rightarrow> 's session_state \<times> bool" where
  "SessionCache_Touch env now tenant sid at st =
     (case st of (c, kv, rows) \<Rightarrow>
        (let at = (if at = zero_time then now else at) in
         case Session_Touch tenant sid at now rows of
           None \<Rightarrow> (st, False)
         | Some rows \<Rightarrow>
             (case find_local tenant sid c of
                None \<Rightarrow> ((c, kv, rows), True)
              | Some s \<Rightarrow>
                  (let s = s \<lparr> se_updated := at \<rparr>
                   in ((keep_session s c, writeCoord env now s kv, rows), True)))))"

definition delete_keys :: "session_ref list \<Rightarrow> session_cache \<Rightarrow> session_cache" where
  "delete_keys keys c = fold AList.delete keys c"

text \<open>The keys of the event published to the other instances, which they delete from their caches.\<close>

definition SessionCache_DeleteOlderThan ::
  "'s session_env \<Rightarrow> go_time \<Rightarrow> 's session_state \<Rightarrow> 's session_state \<times> session_ref list" where
  "SessionCache_DeleteOlderThan env before st =
     (case st of (c, kv, rows) \<Rightarrow>
        (let (rows', deleted) = Session_DeleteOlderThan before rows;
             c = (if 0 < deleted then [] else c)
         in case sv_ops env of
              None \<Rightarrow> ((c, kv, rows'), [])
            | Some ops \<Rightarrow>
                (let expired = Session_ListExpiredKeys before rows
                 in ((c, fold (\<lambda>k kv. fst (kv_del ops (sessionCoordKey (fst k) (snd k)) kv)) expired kv, rows'),
                     expired))))"

section \<open>Instances over one store and one table\<close>

datatype session_op =
    GetSession u64 string
  | GetOrCreateSession u64 u64 string string
  | CreateSession u64 session
  | UpdateSession session
  | TouchSession u64 string go_time
  | ExpireSessions go_time

text \<open>An instance is its cache with the deletion events waiting for it.  \<open>sc_log\<close> holds every session that
  has been written to the table.\<close>

record 's session_cluster =
  sc_rows :: session_rows
  sc_kv :: 's
  sc_nodes :: "(session_cache \<times> session_ref list list) list"
  sc_log :: "session list"

definition saved_sessions :: "session option \<Rightarrow> session list" where
  "saved_sessions r = (case r of None \<Rightarrow> [] | Some s \<Rightarrow> [s])"

text \<open>One operation: the new layers, the sessions written and the keys published.\<close>

primrec session_op_step ::
  "'s session_env \<Rightarrow> go_time \<Rightarrow> session_op \<Rightarrow> 's session_state \<Rightarrow> 's session_state \<times> session list \<times> session_ref list" where
  "session_op_step env now (GetSession tenant sid) st = (fst (SessionCache_Get env now tenant sid st), [], [])"
| "session_op_step env now (GetOrCreateSession newID tenant sid client) st =
     (let (st', r) = SessionCache_GetOrCreate env newID now tenant sid client st
      in (st', if snd (SessionCache_Get env now tenant sid st) = None then saved_sessions r else [], []))"
| "session_op_step env now (CreateSession newID s) st =
     (let (st', r) = SessionCache_Create env newID now s st in (st', saved_sessions r, []))"
| "session_op_step env now (UpdateSession s) st =
     (let (st', r) = SessionCache_Update env now s st in (st', saved_sessions r, []))"
| "session_op_step env now (TouchSession tenant sid at) st = (fst (SessionCache_Touch env now tenant sid at st), [], [])"
| "session_op_step env now (ExpireSessions before) st =
     (let (st', keys) = SessionCache_DeleteOlderThan env before st in (st', [], keys))"

datatype session_event = Run nat go_time session_op | HandleDeleted nat | LoseDeleted nat

definition publish_deleted ::
  "nat \<Rightarrow> session_ref list \<Rightarrow> (session_cache \<times> session_ref list list) list \<Rightarrow> (session_cache \<times> session_ref list list) list" where
  "publish_deleted i keys nodes =
     (if keys = [] then nodes
      else map (\<lambda>(j, c, evs). (c, if j = i then evs else evs @ [keys])) (zip [0..<length nodes] nodes))"

primrec session_cluster_step :: "'s session_env \<Rightarrow> session_event \<Rightarrow> 's session_cluster \<Rightarrow> 's session_cluster" where
  "session_cluster_step env (Run i now x) cl =
     (if i < length (sc_nodes cl)
      then (case session_op_step env now x (fst (sc_nodes cl ! i), sc_kv cl, sc_rows cl) of
              ((c, kv, rows), written, keys) \<Rightarrow>
                cl \<lparr> sc_rows := rows, sc_kv := kv,
                     sc_nodes := publish_deleted i keys ((sc_nodes cl)[i := (c, snd (sc_nodes cl ! i))]),
                     sc_log := sc_log cl @ written \<rparr>)
      else cl)"
| "session_cluster_step env (HandleDeleted i) cl =
     (if i < length (sc_nodes cl)
      then (case sc_nodes cl ! i of
              (c, []) \<Rightarrow> cl
            | (c, keys # evs) \<Rightarrow> cl \<lparr> sc_nodes := (sc_nodes cl)[i := (delete_keys keys c, evs)] \<rparr>)
      else cl)"
| "session_cluster_step env (LoseDeleted i) cl =
     (if i < length (sc_nodes cl)
      then cl \<lparr> sc_nodes := (sc_nodes cl)[i := (fst (sc_nodes cl ! i), tl (snd (sc_nodes cl ! i)))] \<rparr>
      else cl)"

definition fresh_sessions :: "nat \<Rightarrow> 's \<Rightarrow> session_rows \<Rightarrow> 's session_cluster" where
  "fresh_sessions n kv rows =
     \<lparr> sc_rows = rows, sc_kv = kv, sc_nodes = replicate n ([], []), sc_log = map sr_row rows \<rparr>"

section \<open>Keys\<close>

lemma unat_eq_imp_eq: "unat a = unat b \<Longrightarrow> a = b"
  by (simp add: word_unat_eq_iff)

lemma colon_not_digit: "CHR '':'' \<notin> set (show_nat n)"
proof
  assume "CHR '':'' \<in> set (show_nat n)"
  then obtain d where d: "d < 10" "CHR '':'' = digit d" using show_nat_digits by blast
  have "of_char (CHR '':'') = (58 :: nat)" by simp
  with of_char_digit [OF d(1)] d show False by simp
qed

lemma append_colon_inj:
  "CHR '':'' \<notin> set a \<Longrightarrow> CHR '':'' \<notin> set b \<Longrightarrow> a @ CHR '':'' # x = b @ CHR '':'' # y \<Longrightarrow> a = b \<and> x = y"
proof (induction a arbitrary: b)
  case Nil then show ?case by (cases b) auto
next
  case (Cons c a) then show ?case by (cases b) auto
qed

lemma sessionCoordKey_inj: "sessionCoordKey t s = sessionCoordKey t' s' \<longleftrightarrow> t = t' \<and> s = s'"
proof
  assume "sessionCoordKey t s = sessionCoordKey t' s'"
  then have "show_nat (unat t) @ CHR '':'' # s = show_nat (unat t') @ CHR '':'' # s'" by (simp add: sessionCoordKey_def)
  from append_colon_inj [OF colon_not_digit colon_not_digit this] show "t = t' \<and> s = s'"
    by (blast dest: show_nat_inj unat_eq_imp_eq)
qed simp

section \<open>Every layer holds what was written\<close>

lemma stored_instant_idem [simp]: "stored_instant (stored_instant t) = stored_instant t"
  by (simp add: stored_instant_def toTimestamp_def fromTimestamp_def milli_def)

text \<open>A session apart from its time of use, to the precision of the table.\<close>

definition binding :: "session \<Rightarrow> session" where
  "binding s = s \<lparr> se_created := stored_instant (se_created s), se_updated := zero_time,
                  se_rejected := stored_time (se_rejected s) \<rparr>"

definition committed :: "session list \<Rightarrow> session \<Rightarrow> bool" where
  "committed written s \<longleftrightarrow> binding s \<in> binding ` set written"

lemma committed_mono: "committed written s \<Longrightarrow> committed (written @ extra) s"
  by (auto simp: committed_def)

lemma committed_touched [simp]: "committed written (s \<lparr> se_updated := t \<rparr>) = committed written s"
  by (simp add: committed_def binding_def)

lemma committed_stored: "after_epoch (se_rejected s) \<Longrightarrow> committed written (stored_session s) = committed written s"
  by (simp add: committed_def binding_def stored_session_def after_epoch_idem)

lemma session_key_simps [simp]:
  "session_key (stored_session s) = session_key s" "session_key (s \<lparr> se_updated := t \<rparr>) = session_key s"
  by (simp_all add: session_key_def stored_session_def)

definition entry_ok :: "session list \<Rightarrow> session_ref \<Rightarrow> session \<Rightarrow> bool" where
  "entry_ok written k s \<longleftrightarrow> session_key s = k \<and> committed written s"

definition rows_committed :: "session list \<Rightarrow> session_rows \<Rightarrow> bool" where
  "rows_committed written rows = list_all (\<lambda>x. committed written (sr_row x)) rows"

definition kv_committed :: "('s \<Rightarrow> string \<Rightarrow> string \<Rightarrow> bool) \<Rightarrow> 's session_env \<Rightarrow> session list \<Rightarrow> 's \<Rightarrow> bool" where
  "kv_committed holds env written kv \<longleftrightarrow>
     (\<forall>tenant sid v s. holds kv (sessionCoordKey tenant sid) v \<longrightarrow> sv_decode env v = Some s \<longrightarrow>
        entry_ok written (tenant, sid) s)"

definition layers_ok ::
  "('s \<Rightarrow> string \<Rightarrow> string \<Rightarrow> bool) \<Rightarrow> 's session_env \<Rightarrow> session list \<Rightarrow> 's session_state \<Rightarrow> bool" where
  "layers_ok holds env written st \<longleftrightarrow> all_entries (entry_ok written) (fst st) \<and>
     (sv_ops env \<noteq> None \<longrightarrow> kv_committed holds env written (fst (snd st))) \<and> rows_committed written (snd (snd st))"

lemma layers_mono: "layers_ok holds env written st \<Longrightarrow> layers_ok holds env (written @ extra) st"
  by (auto simp: layers_ok_def kv_committed_def rows_committed_def entry_ok_def list_all_iff committed_mono
      elim!: all_entries_mono)

text \<open>What is needed of the operations: times of rejection after the epoch.\<close>

primrec session_op_ok :: "session_op \<Rightarrow> bool" where
  "session_op_ok (GetSession tenant sid) = True"
| "session_op_ok (GetOrCreateSession newID tenant sid client) = True"
| "session_op_ok (CreateSession newID s) = after_epoch (se_rejected s)"
| "session_op_ok (UpdateSession s) = after_epoch (se_rejected s)"
| "session_op_ok (TouchSession tenant sid at) = True"
| "session_op_ok (ExpireSessions before) = True"

context shared_kv
begin

text \<open>Whatever the store does within its laws, it only ever answers what was written.\<close>

lemma read_committed:
  assumes "sv_ops env = Some ops" and "kv_committed holds env written kv" and "readCoord env now tenant sid kv = (kv', r)"
  shows "kv_committed holds env written kv'" and "r = Some s \<Longrightarrow> entry_ok written (tenant, sid) s"
proof -
  obtain kv1 res where get: "kv_get ops (sessionCoordKey tenant sid) now kv = (kv1, res)" by (meson surj_pair)
  have kept: "kv_committed holds env written kv1"
    using assms(2) get_held [OF get] unfolding kv_committed_def by blast
  consider "kv' = kv" "r = None" | "kv' = kv1" "r = None" | v where "kv' = kv1" "res = Inr v" "r = sv_decode env v"
    using assms(1,3) get by (auto simp: readCoord_def split: if_splits sum.splits)
  note cases = this
  show "kv_committed holds env written kv'" by (cases rule: cases) (use kept assms(2) in auto)
  show "entry_ok written (tenant, sid) s" if "r = Some s"
  proof (cases rule: cases)
    case (3 v)
    then have "holds kv (sessionCoordKey tenant sid) v" using get_held [OF get] by simp
    with 3 that assms(2) show ?thesis unfolding kv_committed_def by metis
  qed (use that in auto)
qed

lemma write_committed:
  assumes "sv_ops env = Some ops" and "\<And>s. sv_decode env (sv_encode env s) = Some s"
    and "kv_committed holds env written kv" and "committed written s"
  shows "kv_committed holds env written (writeCoord env now s kv)"
proof -
  let ?k = "sessionCoordKey (se_tenant s) (se_session s)"
  obtain kv' e where put: "kv_set ops ?k (sv_encode env s) (sv_ttl env) now kv = (kv', e)" by (meson surj_pair)
  have "holds kv k v \<or> k = ?k \<and> v = sv_encode env s" if "holds kv' k v" for k v
  proof (cases e)
    case None
    from set_held [OF put [unfolded None], of k v] that show ?thesis by (auto split: if_splits)
  next
    case (Some err)
    from set_failed [OF put [unfolded Some] that] show ?thesis by blast
  qed
  note old_or_new = this
  have "entry_ok written (tenant, sid) s'"
    if "holds kv' (sessionCoordKey tenant sid) v" and dec: "sv_decode env v = Some s'" for tenant sid v s'
    using old_or_new [OF that(1)]
  proof
    assume "holds kv (sessionCoordKey tenant sid) v"
    with assms(3) dec show ?thesis unfolding kv_committed_def by metis
  next
    assume "sessionCoordKey tenant sid = ?k \<and> v = sv_encode env s"
    with assms(2,4) dec show ?thesis by (simp add: sessionCoordKey_inj entry_ok_def session_key_def)
  qed
  then show ?thesis using assms(1) put by (simp add: kv_committed_def writeCoord_def)
qed

lemma delete_committed:
  assumes "kv_committed holds env written kv"
  shows "kv_committed holds env written (fold (\<lambda>k kv. fst (kv_del ops (f k) kv)) ks kv)"
  using assms
proof (induction ks arbitrary: kv)
  case (Cons k ks)
  obtain kv' e where del: "kv_del ops (f k) kv = (kv', e)" by (meson surj_pair)
  have "holds kv k' v" if "holds kv' k' v" for k' v
    using del_held [of "f k" kv kv' k' v] del_failed [of "f k" kv kv'] del that by (cases e) auto
  then have "kv_committed holds env written kv'" using Cons.prems unfolding kv_committed_def by blast
  then show ?case using Cons.IH del by simp
qed simp

end

section \<open>Operations keep the layers\<close>

lemma rows_committed_simps:
  "rows_committed written (soft_create s rows) \<longleftrightarrow> rows_committed written rows \<and> committed written s"
  "rows_committed written rows \<Longrightarrow> rows_committed written (filter P rows)"
  by (auto simp: rows_committed_def soft_create_def list_all_iff)

lemma rows_committed_delete: "rows_committed written rows \<Longrightarrow> rows_committed written (Session_Delete i now rows)"
  by (auto simp: rows_committed_def Session_Delete_def list_all_iff)

lemma rows_committed_save:
  "rows_committed written rows \<Longrightarrow> committed written s \<Longrightarrow> rows_committed written (soft_save key s rows)"
  by (auto simp: rows_committed_def soft_save_def soft_create_def list_all_iff split: if_splits)

lemma rows_committed_touch:
  "Session_Touch tenant sid at now rows = Some rows' \<Longrightarrow> rows_committed written rows \<Longrightarrow> rows_committed written rows'"
  by (auto simp: Session_Touch_def rows_committed_def list_all_iff Let_def split: if_splits)

lemma keep_session_entries:
  assumes "all_entries (entry_ok written) c" and "committed written s"
  shows "all_entries (entry_ok written) (keep_session s c)"
  unfolding keep_session_def by (rule all_entries_update) (use assms in \<open>auto simp: entry_ok_def\<close>)

text \<open>What is supposed of JSON: a session comes back from it.\<close>

definition session_env_ok :: "'s kv_ops \<Rightarrow> 's session_env \<Rightarrow> bool" where
  "session_env_ok ops env \<longleftrightarrow>
     sv_ops env \<in> {None, Some ops} \<and> (\<forall>s. sv_decode env (sv_encode env s) = Some s)"

lemma find_SomeD: "find P xs = Some x \<Longrightarrow> x \<in> set xs \<and> P x"
  by (auto simp: find_Some_iff)

lemma Session_Get_committed:
  "rows_committed written rows \<Longrightarrow> Session_Get tenant sid rows = Some s \<Longrightarrow> committed written s \<and> is_session tenant sid s"
  by (auto simp: Session_Get_def rows_committed_def list_all_iff live_def dest!: find_SomeD)

lemma find_local_ok:
  assumes "all_entries (entry_ok written) c" and "find_local tenant sid c = Some s"
  shows "committed written s \<and> is_session tenant sid s"
proof (cases "tenant = 0")
  case True
  then obtain e where "e \<in> set c" "snd (fst e) = sid" "snd e = s"
    using assms(2) by (force simp: find_local_def dest!: find_SomeD)
  then show ?thesis using assms(1) True
    by (auto simp: all_entries_def list_all_iff entry_ok_def session_key_def is_session_def in_tenant_def)
next
  case False
  then have "entry_ok written (tenant, sid) s"
    using assms all_entriesD by (fastforce simp: find_local_def)
  then show ?thesis by (auto simp: entry_ok_def session_key_def is_session_def in_tenant_def)
qed

context shared_kv
begin

lemma writeCoord_layers:
  assumes "session_env_ok ops env" and "layers_ok holds env written (c, kv, rows)" and "committed written s"
  shows "layers_ok holds env written (keep_session s c, writeCoord env now s kv, rows)"
  using assms write_committed [of env written kv s now]
  by (auto simp: layers_ok_def session_env_ok_def keep_session_entries)

lemma Get_layers:
  assumes env: "session_env_ok ops env" and ok: "layers_ok holds env written st"
    and get: "SessionCache_Get env now tenant sid st = (st', r)"
  shows "layers_ok holds env written st'" and "r = Some s \<Longrightarrow> committed written s \<and> is_session tenant sid s"
proof -
  obtain c kv rows where st: "st = (c, kv, rows)" by (metis prod.collapse)
  obtain kv1 q where read: "readCoord env now tenant sid kv = (kv1, q)" by (meson surj_pair)
  have kv1: "layers_ok holds env written (c, kv1, rows)"
    and q: "q = Some x \<Longrightarrow> committed written x \<and> is_session tenant sid x" for x
  proof -
    show "layers_ok holds env written (c, kv1, rows)"
      using read_committed(1) [OF _ _ read, of written] env ok st by (auto simp: layers_ok_def session_env_ok_def)
    show "committed written x \<and> is_session tenant sid x" if "q = Some x"
    proof (cases "sv_ops env")
      case None with read that show ?thesis by (simp add: readCoord_def)
    next
      case (Some o')
      then have "sv_ops env = Some ops" "kv_committed holds env written kv"
        using env ok st by (auto simp: session_env_ok_def layers_ok_def)
      from read_committed(2) [OF this read that] show ?thesis
        by (auto simp: entry_ok_def session_key_def is_session_def in_tenant_def)
    qed
  qed
  consider (local) x where "find_local tenant sid c = Some x" | (kv) x where "find_local tenant sid c = None" "q = Some x"
    | (row) x where "find_local tenant sid c = None" "q = None" "Session_Get tenant sid rows = Some x"
    | (no) "find_local tenant sid c = None" "q = None" "Session_Get tenant sid rows = None"
    by (metis option.exhaust)
  note cases = this
  have rows: "rows_committed written rows" and entries: "all_entries (entry_ok written) c"
    using ok st by (simp_all add: layers_ok_def)
  show "layers_ok holds env written st'"
  proof (cases rule: cases)
    case (kv x)
    with get read st kv1 keep_session_entries [OF entries] q show ?thesis by (auto simp: SessionCache_Get_def layers_ok_def)
  next
    case (row x)
    with get read st writeCoord_layers [OF env kv1] Session_Get_committed [OF rows] show ?thesis
      by (auto simp: SessionCache_Get_def)
  qed (use get read st ok kv1 in \<open>auto simp: SessionCache_Get_def\<close>)
  show "committed written s \<and> is_session tenant sid s" if "r = Some s"
    using get read st that find_local_ok [OF entries] q Session_Get_committed [OF rows]
    by (cases rule: cases) (auto simp: SessionCache_Get_def)
qed

end

lemma committed_self [simp]: "s \<in> set written \<Longrightarrow> committed written s"
  by (simp add: committed_def)

lemma delete_keys_entries: "all_entries Q c \<Longrightarrow> all_entries Q (delete_keys keys c)"
  unfolding delete_keys_def by (induction keys arbitrary: c) (auto intro: all_entries_del)

text \<open>What the table returns is what it stored, and is written now.\<close>

lemma saved_rows_committed:
  assumes "saved = Session_Create newID now s rows \<or> saved = Session_Update now s rows"
    and "saved = Some (rows', s')" and "rows_committed written rows" and "after_epoch (se_rejected s)"
  shows "rows_committed (written @ [s']) rows'"
proof -
  let ?w = "written @ [s']"
  have rows: "rows_committed ?w rows"
    using assms(3) by (auto simp: rows_committed_def list_all_iff committed_mono)
  consider (create) "rows' = soft_create (stored_session s') rows" | (update) "rows' = soft_save se_id (stored_session s') rows"
    using assms(1,2) by (auto simp: Session_Create_def Session_Update_def Let_def split: if_splits)
  moreover have "after_epoch (se_rejected s')"
    using assms(1,2,4) by (auto simp: Session_Create_def Session_Update_def Let_def split: if_splits)
  then have "committed ?w (stored_session s')" by (simp add: committed_stored)
  ultimately show ?thesis using rows by cases (simp_all add: rows_committed_simps(1) rows_committed_save)
qed

context shared_kv
begin

lemma save_layers_ok:
  assumes env: "session_env_ok ops env" and ok: "layers_ok holds env written st"
    and saved: "saved = Session_Create newID now s (snd (snd st)) \<or> saved = Session_Update now s (snd (snd st))"
    and epoch: "after_epoch (se_rejected s)" and run: "save_layers env now' saved st = (st', r)"
  shows "layers_ok holds env (written @ saved_sessions r) st'"
proof -
  obtain c kv rows where st: "st = (c, kv, rows)" by (metis prod.collapse)
  show ?thesis
  proof (cases saved)
    case None with run ok st show ?thesis by (auto simp: save_layers_def saved_sessions_def)
  next
    case (Some p)
    obtain rows' s' where p: "p = (rows', s')" by (meson surj_pair)
    let ?w = "written @ [s']"
    have "rows_committed ?w rows'"
      using saved_rows_committed [OF saved] Some p ok st epoch by (simp add: layers_ok_def)
    with layers_mono [OF ok, of "[s']"] st have "layers_ok holds env ?w (c, kv, rows')" by (simp add: layers_ok_def)
    from writeCoord_layers [OF env this, of s' now'] run Some p st show ?thesis
      by (auto simp: save_layers_def saved_sessions_def)
  qed
qed

lemma Touch_layers:
  assumes env: "session_env_ok ops env" and ok: "layers_ok holds env written st"
  shows "layers_ok holds env written (fst (SessionCache_Touch env now tenant sid at st))"
proof -
  obtain c kv rows where st: "st = (c, kv, rows)" by (metis prod.collapse)
  let ?at = "if at = zero_time then now else at"
  show ?thesis
  proof (cases "Session_Touch tenant sid ?at now rows")
    case None with ok st show ?thesis by (simp add: SessionCache_Touch_def)
  next
    case (Some rows')
    then have rows': "layers_ok holds env written (c, kv, rows')"
      using ok st rows_committed_touch by (auto simp: layers_ok_def)
    show ?thesis
    proof (cases "find_local tenant sid c")
      case None with Some rows' st show ?thesis by (simp add: SessionCache_Touch_def Let_def)
    next
      case local: (Some x)
      have "committed written (x \<lparr> se_updated := ?at \<rparr>)"
        using find_local_ok [OF _ local] ok st by (simp add: layers_ok_def)
      from writeCoord_layers [OF env rows' this] Some local st show ?thesis
        by (simp add: SessionCache_Touch_def Let_def)
    qed
  qed
qed

lemma DeleteOlderThan_layers:
  assumes env: "session_env_ok ops env" and ok: "layers_ok holds env written st"
  shows "layers_ok holds env written (fst (SessionCache_DeleteOlderThan env before st))"
proof -
  obtain c kv rows where st: "st = (c, kv, rows)" by (metis prod.collapse)
  have "rows_committed written (fst (Session_DeleteOlderThan before rows))"
    using ok st by (auto simp: layers_ok_def Session_DeleteOlderThan_def rows_committed_simps(2))
  moreover have "kv_committed holds env written (fold (\<lambda>k kv. fst (kv_del ops (sessionCoordKey (fst k) (snd k)) kv)) ks kv)"
    if "sv_ops env = Some ops" for ks
    using delete_committed [where f = "\<lambda>k. sessionCoordKey (fst k) (snd k)"] ok st that by (simp add: layers_ok_def)
  ultimately show ?thesis
    using ok st env
    by (cases "sv_ops env")
      (auto simp: SessionCache_DeleteOlderThan_def layers_ok_def session_env_ok_def Let_def case_prod_beta)
qed

end

context shared_kv
begin

lemma op_step_layers:
  assumes env: "session_env_ok ops env" and ok: "layers_ok holds env written st" and op: "session_op_ok x"
    and run: "session_op_step env now x st = (st', new, keys)"
  shows "layers_ok holds env (written @ new) st'"
proof (cases x)
  case (GetSession tenant sid)
  obtain st1 r where "SessionCache_Get env now tenant sid st = (st1, r)" by (meson surj_pair)
  with Get_layers(1) [OF env ok this] run GetSession show ?thesis by simp
next
  case (GetOrCreateSession newID tenant sid client)
  let ?s = "\<lparr> se_id = 0, se_created = zero_time, se_updated = zero_time, se_tenant = tenant, se_session = sid,
               se_client = client, se_project = 0, se_rejected = None \<rparr>"
  obtain st1 r where get: "SessionCache_Get env now tenant sid st = (st1, r)" by (meson surj_pair)
  note ok1 = Get_layers(1) [OF env ok get]
  show ?thesis
  proof (cases "r = None \<and> tenant \<noteq> 0")
    case True
    obtain st2 r2 where save: "SessionCache_Create env newID now ?s st1 = (st2, r2)" by (meson surj_pair)
    have "after_epoch (se_rejected ?s)" by (simp add: after_epoch_def)
    from save_layers_ok [OF env ok1 _ this save [unfolded SessionCache_Create_def]]
    have "layers_ok holds env (written @ saved_sessions r2) st2" by blast
    with True get save run GetOrCreateSession show ?thesis by (simp add: SessionCache_GetOrCreate_def)
  next
    case False
    with get run GetOrCreateSession ok1 show ?thesis
      by (auto simp: SessionCache_GetOrCreate_def saved_sessions_def split: option.splits)
  qed
next
  case (CreateSession newID s)
  obtain st1 r where save: "SessionCache_Create env newID now s st = (st1, r)" by (meson surj_pair)
  from CreateSession op have epoch: "after_epoch (se_rejected s)" by simp
  have "layers_ok holds env (written @ saved_sessions r) st1"
    by (rule save_layers_ok [OF env ok _ epoch save [unfolded SessionCache_Create_def]]) blast
  with save run CreateSession show ?thesis by simp
next
  case (UpdateSession s)
  obtain st1 r where save: "SessionCache_Update env now s st = (st1, r)" by (meson surj_pair)
  from UpdateSession op have epoch: "after_epoch (se_rejected s)" by simp
  have "layers_ok holds env (written @ saved_sessions r) st1"
    by (rule save_layers_ok [OF env ok _ epoch save [unfolded SessionCache_Update_def]]) blast
  with save run UpdateSession show ?thesis by simp
next
  case (TouchSession tenant sid at)
  with Touch_layers [OF env ok, of now tenant sid at] run show ?thesis by auto
next
  case (ExpireSessions before)
  obtain st1 ks where "SessionCache_DeleteOlderThan env before st = (st1, ks)" by (meson surj_pair)
  with DeleteOlderThan_layers [OF env ok, of before] ExpireSessions run show ?thesis by simp
qed

end

definition sessions_ok ::
  "('s \<Rightarrow> string \<Rightarrow> string \<Rightarrow> bool) \<Rightarrow> 's session_env \<Rightarrow> 's session_cluster \<Rightarrow> bool" where
  "sessions_ok holds env cl \<longleftrightarrow> layers_ok holds env (sc_log cl) ([], sc_kv cl, sc_rows cl) \<and>
     (\<forall>node \<in> set (sc_nodes cl). all_entries (entry_ok (sc_log cl)) (fst node))"

lemma publish_deleted_caches: "fst ` set (publish_deleted i keys nodes) \<subseteq> fst ` set nodes"
proof
  fix c assume "c \<in> fst ` set (publish_deleted i keys nodes)"
  then obtain j evs where "keys = [] \<and> c \<in> fst ` set nodes \<or> (j, c, evs) \<in> set (zip [0..<length nodes] nodes)"
    by (auto simp: publish_deleted_def split: if_splits)
  then show "c \<in> fst ` set nodes" by (auto dest!: set_zip_rightD intro: rev_image_eqI)
qed

lemma publish_deleted_all:
  assumes "\<And>node. node \<in> set nodes \<Longrightarrow> P (fst node)"
  shows "\<forall>node \<in> set (publish_deleted i keys nodes). P (fst node)"
proof
  fix node assume "node \<in> set (publish_deleted i keys nodes)"
  with publish_deleted_caches [of i keys nodes] have "fst node \<in> fst ` set nodes" by auto
  then obtain m where "m \<in> set nodes" "fst node = fst m" by auto
  with assms show "P (fst node)" by simp
qed

primrec session_event_ok :: "session_event \<Rightarrow> bool" where
  "session_event_ok (Run i now x) = session_op_ok x"
| "session_event_ok (HandleDeleted i) = True"
| "session_event_ok (LoseDeleted i) = True"

context shared_kv
begin

lemma entries_mono:
  "all_entries (entry_ok written) c \<Longrightarrow> all_entries (entry_ok (written @ extra)) c"
  by (auto simp: entry_ok_def committed_mono elim!: all_entries_mono)

lemma cluster_step_ok:
  assumes env: "session_env_ok ops env" and ok: "sessions_ok holds env cl" and ev: "session_event_ok ev"
  shows "sessions_ok holds env (session_cluster_step env ev cl)"
proof (cases ev)
  case (Run i now x)
  show ?thesis
  proof (cases "i < length (sc_nodes cl)")
    case True
    let ?node = "sc_nodes cl ! i"
    obtain c kv rows new keys where step:
      "session_op_step env now x (fst ?node, sc_kv cl, sc_rows cl) = ((c, kv, rows), new, keys)" by (metis prod.collapse)
    have "layers_ok holds env (sc_log cl) (fst ?node, sc_kv cl, sc_rows cl)"
      using ok True by (auto simp: sessions_ok_def layers_ok_def)
    from op_step_layers [OF env this _ step] ev Run
    have new: "layers_ok holds env (sc_log cl @ new) (c, kv, rows)" by simp
    have "all_entries (entry_ok (sc_log cl @ new)) (fst node)"
      if "node \<in> set ((sc_nodes cl)[i := (c, snd ?node)])" for node
    proof (cases "node = (c, snd ?node)")
      case True with new show ?thesis by (simp add: layers_ok_def)
    next
      case False
      with set_update_subset_insert [of "sc_nodes cl" i "(c, snd ?node)"] that have "node \<in> set (sc_nodes cl)" by blast
      with ok show ?thesis by (simp add: sessions_ok_def entries_mono)
    qed
    then have "\<forall>node \<in> set (publish_deleted i keys ((sc_nodes cl)[i := (c, snd ?node)])).
        all_entries (entry_ok (sc_log cl @ new)) (fst node)"
      by (rule publish_deleted_all)
    with new True step Run show ?thesis by (simp add: sessions_ok_def layers_ok_def)
  qed (use ok Run in simp)
next
  case (HandleDeleted i)
  show ?thesis
  proof (cases "i < length (sc_nodes cl) \<and> snd (sc_nodes cl ! i) \<noteq> []")
    case True
    then obtain c keys evs where node: "sc_nodes cl ! i = (c, keys # evs)" by (metis prod.collapse list.exhaust)
    then have "all_entries (entry_ok (sc_log cl)) (delete_keys keys c)"
      using ok True nth_mem [of i "sc_nodes cl"] by (intro delete_keys_entries) (force simp: sessions_ok_def)
    with True node ok HandleDeleted show ?thesis
      using set_update_subset_insert [of "sc_nodes cl" i "(delete_keys keys c, evs)"] by (auto simp: sessions_ok_def)
  qed (use ok HandleDeleted in \<open>auto split: prod.splits list.splits\<close>)
next
  case (LoseDeleted i)
  then show ?thesis
    using ok nth_mem [of i "sc_nodes cl"]
      set_update_subset_insert [of "sc_nodes cl" i "(fst (sc_nodes cl ! i), tl (snd (sc_nodes cl ! i)))"]
    by (auto simp: sessions_ok_def)
qed

lemma run_ok:
  assumes "session_env_ok ops env" and "sessions_ok holds env cl" and "list_all session_event_ok evs"
  shows "sessions_ok holds env (fold (session_cluster_step env) evs cl)"
  using assms(2,3) by (induction evs arbitrary: cl) (auto intro: cluster_step_ok [OF assms(1)])

lemma fresh_ok:
  assumes "\<And>k v. \<not> holds kv k v"
  shows "sessions_ok holds env (fresh_sessions n kv rows)"
  using assms by (auto simp: sessions_ok_def fresh_sessions_def layers_ok_def kv_committed_def rows_committed_def list_all_iff)

lemma read_of_run:
  assumes env: "session_env_ok ops env" and kv: "\<And>k v. \<not> holds kv k v" and evs: "list_all session_event_ok evs"
    and i: "i < length (sc_nodes (fold (session_cluster_step env) evs (fresh_sessions n kv rows)))"
    and get: "SessionCache_Get env now tenant sid
       (fst (sc_nodes (fold (session_cluster_step env) evs (fresh_sessions n kv rows)) ! i),
        sc_kv (fold (session_cluster_step env) evs (fresh_sessions n kv rows)),
        sc_rows (fold (session_cluster_step env) evs (fresh_sessions n kv rows))) = (st', Some s)"
  shows "committed (sc_log (fold (session_cluster_step env) evs (fresh_sessions n kv rows))) s \<and> is_session tenant sid s"
proof -
  let ?cl = "fold (session_cluster_step env) evs (fresh_sessions n kv rows)"
  have "sessions_ok holds env ?cl" by (rule run_ok [OF env fresh_ok [OF kv] evs])
  with i have "layers_ok holds env (sc_log ?cl) (fst (sc_nodes ?cl ! i), sc_kv ?cl, sc_rows ?cl)"
    by (auto simp: sessions_ok_def layers_ok_def)
  from Get_layers(2) [OF env this get] show ?thesis by blast
qed

end

text \<open>C22: Whatever instances read, create, update, touch and expire sessions, in whatever order, over one table and
  one key-value store, with deletion events handled late or lost, a session read at any instance belongs to
  the tenant and carries the identifier it was asked for, and it was written to the table with the
  project and the rejection it shows: no layer invents a binding or mixes two sessions up.\<close>

theorem session_reads_committed:
  assumes "shared_kv ops holds" and "session_env_ok ops env" and "\<And>k v. \<not> holds kv k v"
    and "list_all session_event_ok evs"
    and "cl = fold (session_cluster_step env) evs (fresh_sessions n kv rows)" and "i < length (sc_nodes cl)"
    and "SessionCache_Get env now tenant sid (fst (sc_nodes cl ! i), sc_kv cl, sc_rows cl) = (st', Some s)"
  shows "se_session s = sid \<and> (tenant \<noteq> 0 \<longrightarrow> se_tenant s = tenant) \<and>
    (\<exists>w \<in> set (sc_log cl). session_key w = session_key s \<and> se_project w = se_project s \<and>
        stored_time (se_rejected w) = stored_time (se_rejected s))"
proof -
  have committed: "committed (sc_log cl) s \<and> is_session tenant sid s"
    using shared_kv.read_of_run [OF assms(1-4)] assms(6,7) unfolding assms(5) by blast
  have "session_key w = session_key s \<and> se_project w = se_project s \<and>
      stored_time (se_rejected w) = stored_time (se_rejected s)" if "binding s = binding w" for w
    using that by (cases s; cases w) (simp add: binding_def session_key_def)
  note same = this
  from committed obtain w where "w \<in> set (sc_log cl)" "binding s = binding w" unfolding committed_def by blast
  with same [OF this(2)] have "\<exists>w \<in> set (sc_log cl). session_key w = session_key s \<and> se_project w = se_project s \<and>
      stored_time (se_rejected w) = stored_time (se_rejected s)" by blast
  with committed show ?thesis by (simp add: is_session_def in_tenant_def imp_conv_disj)
qed

text \<open>A coding of sessions, to run them on.\<close>

definition put_nat :: "nat \<Rightarrow> string" where
  "put_nat n = show_nat n @ '',''"

definition take_nat :: "string \<Rightarrow> (nat \<times> string) option" where
  "take_nat v =
     (case parse_digits 0 (takeWhile (\<lambda>c. c \<noteq> CHR '','') v) of
        None \<Rightarrow> None
      | Some n \<Rightarrow> Some (n, drop 1 (dropWhile (\<lambda>c. c \<noteq> CHR '','') v)))"

primrec take_nats :: "nat \<Rightarrow> string \<Rightarrow> (nat list \<times> string) option" where
  "take_nats 0 v = Some ([], v)"
| "take_nats (Suc k) v =
     (case take_nat v of
        None \<Rightarrow> None
      | Some (n, v) \<Rightarrow> (case take_nats k v of None \<Rightarrow> None | Some (ns, v) \<Rightarrow> Some (n # ns, v)))"

definition int_nats :: "int \<Rightarrow> nat list" where
  "int_nats i = [nat i, nat (- i)]"

definition code_session :: "session \<Rightarrow> string" where
  "code_session s =
     concat (map put_nat
       ([unat (se_id s), unat (se_tenant s), unat (se_project s), length (se_session s)] @
        int_nats (se_created s) @ int_nats (se_updated s) @
        (case se_rejected s of None \<Rightarrow> [0, 0, 0] | Some t \<Rightarrow> 1 # int_nats t))) @ se_session s @ se_client s"

definition decode_session :: "string \<Rightarrow> session option" where
  "decode_session v =
     (case take_nats 11 v of
        Some ([i, t, p, l, c, c', u, u', f, r, r'], rest) \<Rightarrow>
          Some \<lparr> se_id = of_nat i, se_created = int c - int c', se_updated = int u - int u', se_tenant = of_nat t,
                 se_session = take l rest, se_client = drop l rest, se_project = of_nat p,
                 se_rejected = (if f = 0 then None else Some (int r - int r')) \<rparr>
      | _ \<Rightarrow> None)"

lemma comma_not_digit: "CHR '','' \<notin> set (show_nat n)"
proof
  assume "CHR '','' \<in> set (show_nat n)"
  then obtain d where d: "d < 10" "CHR '','' = digit d" using show_nat_digits by blast
  have "of_char (CHR '','') = (44 :: nat)" by simp
  with of_char_digit [OF d(1)] d show False by simp
qed

lemma take_put_nat: "take_nat (put_nat n @ v) = Some (n, v)"
proof -
  have digits: "\<forall>c \<in> set (show_nat n). c \<noteq> CHR '',''" using comma_not_digit by metis
  then have "takeWhile (\<lambda>c. c \<noteq> CHR '','') (show_nat n @ CHR '','' # v) = show_nat n"
    and "dropWhile (\<lambda>c. c \<noteq> CHR '','') (show_nat n @ CHR '','' # v) = CHR '','' # v"
    by (simp_all add: takeWhile_append dropWhile_append)
  then show ?thesis by (simp add: take_nat_def put_nat_def parse_show_nat)
qed

lemma take_put_nats: "take_nats (length ns) (concat (map put_nat ns) @ v) = Some (ns, v)"
  by (induction ns) (simp_all add: take_put_nat)

lemma decode_code_session: "decode_session (code_session s) = Some s"
proof -
  let ?f = "case se_rejected s of None \<Rightarrow> [0, 0, 0] | Some t \<Rightarrow> 1 # int_nats t"
  let ?ns = "[unat (se_id s), unat (se_tenant s), unat (se_project s), length (se_session s)] @
        int_nats (se_created s) @ int_nats (se_updated s) @ ?f"
  have len: "length ?ns = 11" by (simp add: int_nats_def split: option.splits)
  from take_put_nats [of ?ns "se_session s @ se_client s", unfolded len]
  have "take_nats 11 (code_session s) = Some (?ns, se_session s @ se_client s)" by (simp only: code_session_def)
  then show ?thesis by (cases s) (simp add: decode_session_def int_nats_def split: option.splits)
qed

text \<open>Instance 1 has read the session before instance 0 binds it to project 7.  No event tells instance 1, so it
  goes on reading the unbound copy, and its next touch writes that copy to the key-value store, where
  instance 2 finds it.\<close>

definition unbound :: session where
  "unbound = \<lparr> se_id = 0, se_created = 0, se_updated = 0, se_tenant = 1, se_session = ''s'', se_client = ''c'',
     se_project = 0, se_rejected = None \<rparr>"

definition coded_env :: "memory_coord session_env" where
  "coded_env = \<lparr> sv_ops = Some memory_kv, sv_encode = code_session, sv_decode = decode_session, sv_ttl = 1000 * milli \<rparr>"

definition stale_run :: "session_event list" where
  "stale_run =
     [Run 0 (1 * milli) (CreateSession 1 unbound), Run 1 (2 * milli) (GetSession 1 ''s''),
      Run 0 (3 * milli) (UpdateSession (unbound \<lparr> se_id := 1, se_created := 1 * milli, se_project := 7 \<rparr>)),
      Run 1 (4 * milli) (TouchSession 1 ''s'' (4 * milli))]"

definition stale_end :: "memory_coord session_cluster" where
  "stale_end = fold (session_cluster_step coded_env) stale_run (fresh_sessions 3 (NewMemory ''x'') [])"

definition read_at :: "nat \<Rightarrow> session option" where
  "read_at i = snd (SessionCache_Get coded_env (5 * milli) 1 ''s''
     (fst (sc_nodes stale_end ! i), sc_kv stale_end, sc_rows stale_end))"

lemmas run_sessions =
  SessionCache_Get_def SessionCache_Create_def SessionCache_Update_def SessionCache_Touch_def save_layers_def
  readCoord_def writeCoord_def find_local_def keep_session_def session_key_def Session_Create_def Session_Update_def
  Session_Touch_def Session_Get_def is_session_def in_tenant_def session_taken_def soft_create_def soft_save_def
  live_def stored_session_def stored_instant_def toTimestamp_def fromTimestamp_def milli_def zero_time_def
  saved_sessions_def publish_deleted_def fresh_sessions_def coded_env_def memory_kv_def KV_Get_def KV_Set_def
  kv_expired_def NewMemory_def stored_time_def toTimestampPtr_def fromTimestampPtr_def decode_code_session nth_Cons'

lemma stale_end_eq:
  "stale_end =
     (let old = unbound \<lparr> se_id := 1, se_created := 1000000, se_updated := 4000000 \<rparr>; new = old \<lparr> se_project := 7 \<rparr>
      in \<lparr> sc_rows = [\<lparr> sr_row = new, sr_deleted = 0 \<rparr>],
           sc_kv = (NewMemory ''x'') \<lparr> co_kv := [(sessionCoordKey 1 ''s'', \<lparr> kv_value = code_session old, kv_expiry = 1004000000 \<rparr>)] \<rparr>,
           sc_nodes = [([((1, ''s''), new \<lparr> se_updated := 3000000 \<rparr>)], []), ([((1, ''s''), old)], []), ([], [])],
           sc_log = [old \<lparr> se_updated := 1000000 \<rparr>, new \<lparr> se_updated := 3000000 \<rparr>] \<rparr>)"
  by (simp add: stale_end_def stale_run_def unbound_def run_sessions Let_def numeral_3_eq_3)

lemma stale_end_nodes: "sc_nodes stale_end ! 2 = ([], [])" "length (sc_nodes stale_end) = 3"
  by (simp_all add: stale_end_eq Let_def)

lemma stale_binding:
  "map_option se_project (read_at 0) = Some 7" "map_option se_project (read_at 1) = Some 0"
  "map_option se_project (read_at 2) = Some 0" "map (se_project \<circ> sr_row) (sc_rows stale_end) = [7]"
  by (simp_all add: read_at_def stale_end_eq Let_def unbound_def SessionCache_Get_def find_local_def readCoord_def
      coded_env_def memory_kv_def KV_Get_def kv_expired_def milli_def decode_code_session zero_time_def)

theorem session_reads_committed_witness:
  "\<exists>s. read_at 2 = Some s \<and> se_session s = ''s'' \<and> se_tenant s = 1 \<and> se_project s = 0 \<and>
     (\<exists>w \<in> set (sc_log stale_end). session_key w = session_key s \<and> se_project w = se_project s)"
proof -
  have env: "session_env_ok memory_kv coded_env"
    by (simp add: session_env_ok_def coded_env_def decode_code_session)
  have evs: "list_all session_event_ok stale_run"
    by (simp add: stale_run_def unbound_def after_epoch_def)
  obtain st s where get: "SessionCache_Get coded_env (5 * milli) 1 ''s''
      (fst (sc_nodes stale_end ! 2), sc_kv stale_end, sc_rows stale_end) = (st, Some s)" and s: "se_project s = 0"
    using stale_binding(3) unfolding read_at_def by (cases "SessionCache_Get coded_env (5 * milli) 1 ''s''
      (fst (sc_nodes stale_end ! 2), sc_kv stale_end, sc_rows stale_end)") auto
  have "\<not> mem_holds (NewMemory ''x'') k v" for k v by (simp add: mem_holds_def NewMemory_def)
  from session_reads_committed [OF mem_kv.shared_kv_axioms env this evs stale_end_def _ get] stale_end_nodes(2)
  have "se_session s = ''s'' \<and> se_tenant s = 1 \<and>
     (\<exists>w \<in> set (sc_log stale_end). session_key w = session_key s \<and> se_project w = se_project s)" by auto
  with get s show ?thesis by (simp add: read_at_def)
qed

end
