(* ===== verification/Project_Waiter.thy ===== *)
theory Project_Waiter
  imports Session_Store Exec_Policy
begin

text \<open>
  Waiting for a project, \<^verbatim>\<open>internal/waiter/project_waiter.go\<close>, with the two operations of the administrator
  that end the wait (\<^verbatim>\<open>internal/service/admin.go\<close>).  The waiter runs at one instance of a cluster of
  \<^verbatim>\<open>Session_Store\<close> while the others go on.
\<close>

section \<open>Settings\<close>

text \<open>The settings are \<open>None\<close> when there is no repository; a setting is \<open>None\<close> when reading it fails.\<close>

type_synonym settings = "(string \<Rightarrow> string option) option"

definition second :: go_duration where "second = 1000000000"

definition DefaultTimeout :: go_duration where "DefaultTimeout = 30 * second"

definition BroadcastCooldown :: go_duration where "BroadcastCooldown = 5 * second"

definition IsForceProjectEnabled :: "settings \<Rightarrow> bool" where
  "IsForceProjectEnabled settings =
     (case settings of
        None \<Rightarrow> False
      | Some get \<Rightarrow> (case get ''force_project_binding'' of None \<Rightarrow> False | Some v \<Rightarrow> v = ''true''))"

text \<open>The product of the number and a second wraps around.\<close>

definition GetTimeout :: "settings \<Rightarrow> go_duration" where
  "GetTimeout settings =
     (case settings of
        None \<Rightarrow> DefaultTimeout
      | Some get \<Rightarrow>
          (case get ''force_project_timeout'' of
             None \<Rightarrow> DefaultTimeout
           | Some v \<Rightarrow>
               if v = [] then DefaultTimeout
               else (case Atoi v of
                       None \<Rightarrow> DefaultTimeout
                     | Some secs \<Rightarrow> if 0 < secs then wrap_i64 (secs * second) else DefaultTimeout)))"

section \<open>Waiting\<close>

datatype wait_error = ErrProjectBindingTimeout | ErrSessionRejected | ContextCanceled

text \<open>What the loop waits for: the ticker, the deadline, the end of the client's context; and what
  happens in the cluster meanwhile.  With several of the first three ready the loop takes any.\<close>

datatype wait_event = Tick go_time | TimedOut | ClientGone | Others session_event

definition node_state :: "nat \<Rightarrow> 's session_cluster \<Rightarrow> 's session_state" where
  "node_state i cl = (fst (sc_nodes cl ! i), sc_kv cl, sc_rows cl)"

definition read_session ::
  "'s session_env \<Rightarrow> nat \<Rightarrow> go_time \<Rightarrow> session \<Rightarrow> 's session_cluster \<Rightarrow> 's session_cluster \<times> session option" where
  "read_session env i now s cl =
     (session_cluster_step env (Run i now (GetSession (se_tenant s) (se_session s))) cl,
      snd (SessionCache_Get env now (se_tenant s) (se_session s) (node_state i cl)))"

text \<open>The result of a wait: an error, or the caller's session with the project to go on with; \<open>None\<close> while it
  is waiting.\<close>

type_synonym wait_result = "(wait_error + session) option"

fun wait_loop ::
  "'s session_env \<Rightarrow> nat \<Rightarrow> session \<Rightarrow> wait_event list \<Rightarrow> 's session_cluster \<Rightarrow> 's session_cluster \<times> wait_result" where
  "wait_loop env i s [] cl = (cl, None)"
| "wait_loop env i s (TimedOut # evs) cl = (cl, Some (Inl ErrProjectBindingTimeout))"
| "wait_loop env i s (ClientGone # evs) cl = (cl, Some (Inl ContextCanceled))"
| "wait_loop env i s (Others ev # evs) cl = wait_loop env i s evs (session_cluster_step env ev cl)"
| "wait_loop env i s (Tick now # evs) cl =
     (case read_session env i now s cl of
        (cl, None) \<Rightarrow> wait_loop env i s evs cl
      | (cl, Some updated) \<Rightarrow>
          if se_rejected updated \<noteq> None then (cl, Some (Inl ErrSessionRejected))
          else if 0 < se_project updated then (cl, Some (Inr (s \<lparr> se_project := se_project updated \<rparr>)))
          else wait_loop env i s evs cl)"

text \<open>The times of the last announcement of each session, by its identifier.\<close>

type_synonym broadcasts = "(string \<times> go_time) list"

definition shouldBroadcast :: "string \<Rightarrow> go_time \<Rightarrow> broadcasts \<Rightarrow> bool" where
  "shouldBroadcast sid now lastB =
     (case map_of lastB sid of None \<Rightarrow> True | Some t \<Rightarrow> BroadcastCooldown \<le> now - t)"

text \<open>Before the loop: the check of an earlier rejection, which is taken back when it is older than the
  cooldown.  \<open>Inl\<close> is a result, \<open>Inr\<close> says that the wait begins.\<close>

definition begin_wait ::
  "'s session_env \<Rightarrow> settings \<Rightarrow> nat \<Rightarrow> go_time \<Rightarrow> session \<Rightarrow> 's session_cluster \<Rightarrow>
     's session_cluster \<times> ((wait_error + session) + unit)" where
  "begin_wait env settings i now s cl =
     (if 0 < se_project s \<or> \<not> IsForceProjectEnabled settings then (cl, Inl (Inr s))
      else case read_session env i now s cl of
             (cl, None) \<Rightarrow> (cl, Inr ())
           | (cl, Some latest) \<Rightarrow>
               (case se_rejected latest of
                  Some t \<Rightarrow>
                    if now - t < BroadcastCooldown then (cl, Inl (Inl ErrSessionRejected))
                    else (session_cluster_step env (Run i now (UpdateSession (latest \<lparr> se_rejected := None \<rparr>))) cl,
                          if 0 < se_project latest then Inl (Inr (s \<lparr> se_project := se_project latest \<rparr>)) else Inr ())
                | None \<Rightarrow>
                    (cl, if 0 < se_project latest then Inl (Inr (s \<lparr> se_project := se_project latest \<rparr>)) else Inr ())))"

text \<open>The whole call, with what it announces.\<close>

definition WaitForProject ::
  "'s session_env \<Rightarrow> settings \<Rightarrow> nat \<Rightarrow> go_time \<Rightarrow> session \<Rightarrow> wait_event list \<Rightarrow> broadcasts \<Rightarrow> 's session_cluster \<Rightarrow>
     's session_cluster \<times> broadcasts \<times> string list \<times> wait_result" where
  "WaitForProject env settings i now s evs lastB cl =
     (case begin_wait env settings i now s cl of
        (cl, Inl r) \<Rightarrow> (cl, lastB, [], Some r)
      | (cl, Inr _) \<Rightarrow>
          (let fresh = shouldBroadcast (se_session s) now lastB;
               (cl, r) = wait_loop env i s evs cl
           in (cl, if fresh then AList.update (se_session s) now lastB else lastB,
               if fresh then [se_session s] else [], r)))"

section \<open>The administrator's side\<close>

text \<open>\<open>None\<close> is an error.  The project of the session's requests is updated as well, by a query of the
  request table that is not part of the model.\<close>

definition UpdateSessionProject ::
  "'s session_env \<Rightarrow> go_time \<Rightarrow> u64 \<Rightarrow> string \<Rightarrow> u64 \<Rightarrow> 's session_state \<Rightarrow> 's session_state \<times> session option" where
  "UpdateSessionProject env now tenant sid project st =
     (case SessionCache_Get env now tenant sid st of
        (st, None) \<Rightarrow> (st, None)
      | (st, Some s) \<Rightarrow> SessionCache_Update env now (s \<lparr> se_project := project \<rparr>) st)"

definition RejectSession ::
  "'s session_env \<Rightarrow> go_time \<Rightarrow> u64 \<Rightarrow> string \<Rightarrow> 's session_state \<Rightarrow> 's session_state \<times> session option" where
  "RejectSession env now tenant sid st =
     (case SessionCache_Get env now tenant sid st of
        (st, None) \<Rightarrow> (st, None)
      | (st, Some s) \<Rightarrow> SessionCache_Update env now (s \<lparr> se_rejected := Some now \<rparr>) st)"

section \<open>What a wait returns\<close>

primrec wait_event_ok :: "wait_event \<Rightarrow> bool" where
  "wait_event_ok (Tick now) = True"
| "wait_event_ok TimedOut = True"
| "wait_event_ok ClientGone = True"
| "wait_event_ok (Others ev) = session_event_ok ev"

definition written_for :: "'s session_cluster \<Rightarrow> session \<Rightarrow> u64 \<Rightarrow> bool" where
  "written_for cl s project \<longleftrightarrow> 0 < project \<and>
     (\<exists>w \<in> set (sc_log cl). se_session w = se_session s \<and> (se_tenant s \<noteq> 0 \<longrightarrow> se_tenant w = se_tenant s) \<and>
        se_project w = project)"

definition grows :: "'s session_cluster \<Rightarrow> 's session_cluster \<Rightarrow> bool" where
  "grows cl cl' \<longleftrightarrow> set (sc_log cl) \<subseteq> set (sc_log cl') \<and> length (sc_nodes cl') = length (sc_nodes cl)"

lemma grows_trans [trans]: "grows a b \<Longrightarrow> grows b c \<Longrightarrow> grows a c"
  by (auto simp: grows_def)

lemma grows_refl [simp]: "grows a a"
  by (simp add: grows_def)

lemma publish_deleted_length [simp]: "length (publish_deleted i keys nodes) = length nodes"
  by (simp add: publish_deleted_def)

lemma step_grows: "grows cl (session_cluster_step env ev cl)"
  by (cases ev) (auto simp: grows_def split: prod.splits list.splits)

lemma written_grows: "written_for cl s p \<Longrightarrow> grows cl cl' \<Longrightarrow> written_for cl' s p"
  by (auto simp: written_for_def grows_def)

context shared_kv
begin

lemma read_session_ok:
  assumes env: "session_env_ok ops env" and ok: "sessions_ok holds env cl" and i: "i < length (sc_nodes cl)"
    and read: "read_session env i now s cl = (cl', r)"
  shows "sessions_ok holds env cl'" and "grows cl cl'" and "r = Some x \<Longrightarrow> 0 < se_project x \<Longrightarrow> written_for cl' s (se_project x)"
proof -
  let ?ev = "Run i now (GetSession (se_tenant s) (se_session s))"
  have cl': "cl' = session_cluster_step env ?ev cl" using read by (simp add: read_session_def)
  show "sessions_ok holds env cl'" unfolding cl' by (rule cluster_step_ok [OF env ok]) simp
  show grows: "grows cl cl'" unfolding cl' by (rule step_grows)
  show "written_for cl' s (se_project x)" if r: "r = Some x" "0 < se_project x"
  proof -
    obtain st' where get: "SessionCache_Get env now (se_tenant s) (se_session s) (node_state i cl) = (st', Some x)"
      using read r by (metis prod.collapse prod.inject read_session_def)
    have "layers_ok holds env (sc_log cl) (node_state i cl)"
      using ok i by (auto simp: node_state_def sessions_ok_def layers_ok_def)
    from Get_layers(2) [OF env this get] have x: "committed (sc_log cl) x" "is_session (se_tenant s) (se_session s) x" by auto
    from x(1) obtain w where w: "w \<in> set (sc_log cl)" "binding x = binding w" unfolding committed_def by blast
    from w(2) have "se_tenant w = se_tenant x \<and> se_session w = se_session x \<and> se_project w = se_project x"
      by (cases x; cases w) (simp add: binding_def)
    with w(1) x(2) r(2) have "written_for cl s (se_project x)"
      by (auto simp: written_for_def is_session_def in_tenant_def intro: bexI [of _ w])
    with grows show ?thesis by (rule written_grows [rotated])
  qed
qed

lemma wait_loop_ok:
  assumes "session_env_ok ops env" and "sessions_ok holds env cl" and "i < length (sc_nodes cl)"
    and "list_all wait_event_ok evs" and "wait_loop env i s evs cl = (cl', r)"
  shows "sessions_ok holds env cl' \<and> grows cl cl' \<and>
    (\<forall>s'. r = Some (Inr s') \<longrightarrow> (\<exists>p. s' = s \<lparr> se_project := p \<rparr> \<and> written_for cl' s p))"
  using assms
proof (induction env i s evs cl arbitrary: cl' r rule: wait_loop.induct)
  case (4 env i s ev evs cl)
  let ?cl = "session_cluster_step env ev cl"
  have grows: "grows cl ?cl" by (rule step_grows)
  have "sessions_ok holds env ?cl" using cluster_step_ok [OF "4.prems"(1,2)] "4.prems"(4) by simp
  then have "sessions_ok holds env cl' \<and> grows ?cl cl' \<and>
      (\<forall>s'. r = Some (Inr s') \<longrightarrow> (\<exists>p. s' = s \<lparr> se_project := p \<rparr> \<and> written_for cl' s p))"
    using 4 grows by (simp add: grows_def)
  with grows show ?case by (blast intro: grows_trans)
next
  case (5 env i s now evs cl)
  obtain cl1 q where read: "read_session env i now s cl = (cl1, q)" by (meson surj_pair)
  note ok1 = read_session_ok(1) [OF "5.prems"(1-3) read] and grows = read_session_ok(2) [OF "5.prems"(1-3) read]
    and found = read_session_ok(3) [OF "5.prems"(1-3) read]
  have len: "i < length (sc_nodes cl1)" using grows "5.prems"(3) by (simp add: grows_def)
  have rec: "sessions_ok holds env cl' \<and> grows cl1 cl' \<and>
      (\<forall>s'. r = Some (Inr s') \<longrightarrow> (\<exists>p. s' = s \<lparr> se_project := p \<rparr> \<and> written_for cl' s p))"
    if "wait_loop env i s evs cl1 = (cl', r)"
      and "q = None \<or> (\<exists>x. q = Some x \<and> se_rejected x = None \<and> \<not> 0 < se_project x)"
    using "5.IH" "5.prems"(1,4) read ok1 len that by (cases q) auto
  show ?case
  proof (cases "q = None \<or> (\<exists>x. q = Some x \<and> se_rejected x = None \<and> \<not> 0 < se_project x)")
    case True
    then have "wait_loop env i s evs cl1 = (cl', r)" using "5.prems"(5) read by auto
    from rec [OF this True] grows show ?thesis by (blast intro: grows_trans)
  next
    case False
    then obtain x where "q = Some x" "se_rejected x \<noteq> None \<or> 0 < se_project x" by auto
    with "5.prems"(5) read ok1 grows found show ?thesis by (auto split: if_splits)
  qed
qed auto

end

context shared_kv
begin

lemma begin_wait_ok:
  assumes env: "session_env_ok ops env" and ok: "sessions_ok holds env cl" and i: "i < length (sc_nodes cl)"
    and run: "begin_wait env settings i now s cl = (cl', r)" and forced: "se_project s = 0" "IsForceProjectEnabled settings"
  shows "sessions_ok holds env cl' \<and> grows cl cl' \<and>
    (\<forall>s'. r = Inl (Inr s') \<longrightarrow> (\<exists>p. s' = s \<lparr> se_project := p \<rparr> \<and> written_for cl' s p))"
proof -
  obtain cl1 q where read: "read_session env i now s cl = (cl1, q)" by (meson surj_pair)
  note ok1 = read_session_ok(1) [OF env ok i read] and grows1 = read_session_ok(2) [OF env ok i read]
    and found = read_session_ok(3) [OF env ok i read]
  let ?clear = "\<lambda>x. session_cluster_step env (Run i now (UpdateSession (x \<lparr> se_rejected := None \<rparr>))) cl1"
  have clear: "sessions_ok holds env (?clear x) \<and> grows cl (?clear x)" for x
  proof
    have "session_event_ok (Run i now (UpdateSession (x \<lparr> se_rejected := None \<rparr>)))"
      by (simp add: after_epoch_def)
    then show "sessions_ok holds env (?clear x)" by (rule cluster_step_ok [OF env ok1])
    from grows1 step_grows show "grows cl (?clear x)" by (rule grows_trans)
  qed
  have written: "written_for (?clear x) s (se_project x)" if "q = Some x" "0 < se_project x" for x
    using found [OF that] by (rule written_grows) (rule step_grows)
  show ?thesis
  proof (cases q)
    case None with run read forced ok1 grows1 show ?thesis by (auto simp: begin_wait_def)
  next
    case (Some x)
    show ?thesis
    proof (cases "se_rejected x")
      case None with Some run read forced ok1 grows1 found show ?thesis by (auto simp: begin_wait_def split: if_splits)
    next
      case (Some t)
      show ?thesis
      proof (cases "now - t < BroadcastCooldown")
        case True
        with \<open>q = Some x\<close> Some run read forced ok1 grows1 show ?thesis by (auto simp: begin_wait_def)
      next
        case False
        then have "cl' = ?clear x" and "r = (if 0 < se_project x then Inl (Inr (s \<lparr> se_project := se_project x \<rparr>)) else Inr ())"
          using \<open>q = Some x\<close> Some run read forced by (simp_all add: begin_wait_def)
        with clear [of x] written [OF \<open>q = Some x\<close>] show ?thesis by auto
      qed
    qed
  qed
qed

lemma WaitForProject_ok:
  assumes env: "session_env_ok ops env" and ok: "sessions_ok holds env cl" and i: "i < length (sc_nodes cl)"
    and evs: "list_all wait_event_ok evs" and forced: "se_project s = 0" "IsForceProjectEnabled settings"
    and run: "WaitForProject env settings i now s evs seen cl = (cl', seen', said, Some (Inr s'))"
  shows "\<exists>p. s' = s \<lparr> se_project := p \<rparr> \<and> written_for cl' s p"
proof -
  obtain cl1 q where start: "begin_wait env settings i now s cl = (cl1, q)" by (meson surj_pair)
  note b = begin_wait_ok [OF env ok i start forced]
  then have ok1: "sessions_ok holds env cl1" and len: "i < length (sc_nodes cl1)" using i by (auto simp: grows_def)
  obtain cl2 r where loop: "wait_loop env i s evs cl1 = (cl2, r)" by (meson surj_pair)
  note l = wait_loop_ok [OF env ok1 len evs loop]
  show ?thesis using run start loop b l by (auto simp: WaitForProject_def Let_def split: sum.splits)
qed

end

text \<open>C23: With the binding of projects forced, a request without a project goes on only with a project that
  somebody wrote for its session: at whatever instance it waits, whatever the instances do before and
  meanwhile, and whatever it reads from the caches, the key-value store or the table.\<close>

theorem wait_project_written:
  assumes "shared_kv ops holds" and "session_env_ok ops env" and "\<And>k v. \<not> holds kv k v"
    and "list_all session_event_ok before" and "cl = fold (session_cluster_step env) before (fresh_sessions n kv rows)"
    and "i < length (sc_nodes cl)" and "list_all wait_event_ok evs"
    and "se_project s = 0" and "IsForceProjectEnabled settings"
    and "WaitForProject env settings i now s evs seen cl = (cl', seen', said, Some (Inr s'))"
  shows "\<exists>p. s' = s \<lparr> se_project := p \<rparr> \<and> written_for cl' s p"
proof -
  have "sessions_ok holds env cl"
    using shared_kv.run_ok [OF assms(1,2) shared_kv.fresh_ok [OF assms(1,3)] assms(4)] assms(5) by simp
  from shared_kv.WaitForProject_ok [OF assms(1,2) this assms(6-10)] show ?thesis .
qed

text \<open>Binding and waiting at the same instance: the next tick decides, for the project unless the session is
  rejected as well; binding does not take a rejection back.\<close>

lemma local_tick:
  assumes "i < length (sc_nodes cl)" and "find_local (se_tenant s) (se_session s) (fst (sc_nodes cl ! i)) = Some b"
  shows "wait_loop env i s (Tick now # evs) cl =
    (if se_rejected b \<noteq> None then (cl, Some (Inl ErrSessionRejected))
     else if 0 < se_project b then (cl, Some (Inr (s \<lparr> se_project := se_project b \<rparr>)))
     else wait_loop env i s evs cl)"
  using assms by (simp add: read_session_def node_state_def SessionCache_Get_def publish_deleted_def)

lemma bound_session:
  assumes "UpdateSessionProject env now tenant sid project st = (st', Some s)"
  shows "se_project s = project \<and> (se_tenant s \<noteq> 0 \<longrightarrow> find_local (se_tenant s) (se_session s) (fst st') = Some s) \<and>
    (\<exists>st1 s0. SessionCache_Get env now tenant sid st = (st1, Some s0) \<and> se_rejected s = se_rejected s0)"
  using assms
  by (auto simp: UpdateSessionProject_def SessionCache_Update_def save_layers_def Session_Update_def Let_def
      find_local_def keep_session_def session_key_def map_of_update
      split: prod.splits option.splits if_splits)

text \<open>A project bound at another instance is not seen while the copy here stays: nothing tells this instance
  of it.\<close>

primrec leaves_alone :: "nat \<Rightarrow> wait_event \<Rightarrow> bool" where
  "leaves_alone i (Tick now) = True"
| "leaves_alone i TimedOut = False"
| "leaves_alone i ClientGone = False"
| "leaves_alone i (Others ev) =
     (case ev of
        Run j now x \<Rightarrow> j \<noteq> i \<and> (case x of ExpireSessions before \<Rightarrow> False | _ \<Rightarrow> True)
      | HandleDeleted j \<Rightarrow> j \<noteq> i
      | LoseDeleted j \<Rightarrow> True)"

lemma step_leaves_alone:
  assumes "leaves_alone i (Others ev)"
  shows "fst (sc_nodes (session_cluster_step env ev cl) ! i) = fst (sc_nodes cl ! i) \<and>
    length (sc_nodes (session_cluster_step env ev cl)) = length (sc_nodes cl)"
proof (cases ev)
  case (Run j now x)
  then have "snd (snd (session_op_step env now x st)) = []" for st
    using assms by (cases x) (auto split: prod.splits)
  note silent = this
  obtain c kv rows new keys where step:
    "session_op_step env now x (fst (sc_nodes cl ! j), sc_kv cl, sc_rows cl) = ((c, kv, rows), new, keys)"
    by (metis prod.collapse)
  with silent have "keys = []" by (metis snd_conv)
  with step Run assms show ?thesis by (simp add: publish_deleted_def)
next
  case (HandleDeleted j)
  then show ?thesis using assms by (auto split: prod.splits list.splits)
next
  case (LoseDeleted j)
  then show ?thesis by (cases "j = i") (auto simp: nth_list_update)
qed

lemma stale_wait:
  assumes "i < length (sc_nodes cl)" and "find_local (se_tenant s) (se_session s) (fst (sc_nodes cl ! i)) = Some old"
    and "se_rejected old = None" and "se_project old = 0" and "list_all (leaves_alone i) evs"
  shows "snd (wait_loop env i s (evs @ [TimedOut]) cl) = Some (Inl ErrProjectBindingTimeout)"
  using assms(1,2,5)
proof (induction evs arbitrary: cl)
  case (Cons ev evs)
  show ?case
  proof (cases ev)
    case (Tick now)
    with Cons local_tick [OF Cons.prems(1,2)] assms(3,4) show ?thesis by simp
  next
    case (Others ev')
    with step_leaves_alone [of i ev' env cl] Cons show ?thesis by simp
  qed (use Cons.prems in auto)
qed simp

text \<open>Instance 0 waits; the administrator binds the session there.\<close>

definition bound_run :: "session_event list" where
  "bound_run = [Run 0 (1 * milli) (CreateSession 1 unbound)]"

definition bound_start :: "memory_coord session_cluster" where
  "bound_start = fold (session_cluster_step coded_env) bound_run (fresh_sessions 2 (NewMemory ''x'') [])"

definition bound_events :: "wait_event list" where
  "bound_events =
     [Tick (2 * milli), Others (Run 0 (3 * milli) (UpdateSession (unbound \<lparr> se_id := 1, se_project := 7 \<rparr>))), Tick (4 * milli)]"

definition forced :: settings where
  "forced = Some (\<lambda>k. if k = ''force_project_binding'' then Some ''true'' else None)"

lemma two_nodes: "replicate 2 x = [x, x]"
  by (simp add: numeral_2_eq_2)

lemma bound_wait:
  "snd (snd (snd (WaitForProject coded_env forced 0 (2 * milli) unbound bound_events [] bound_start))) =
     Some (Inr (unbound \<lparr> se_project := 7 \<rparr>))"
  by (simp add: WaitForProject_def begin_wait_def IsForceProjectEnabled_def forced_def read_session_def node_state_def
      bound_start_def bound_run_def bound_events_def unbound_def run_sessions Let_def two_nodes)

theorem wait_project_written_witness:
  "\<exists>cl' seen' said. WaitForProject coded_env forced 0 (2 * milli) unbound bound_events [] bound_start =
     (cl', seen', said, Some (Inr (unbound \<lparr> se_project := 7 \<rparr>))) \<and> written_for cl' unbound 7"
proof -
  have env: "session_env_ok memory_kv coded_env" by (simp add: session_env_ok_def coded_env_def decode_code_session)
  have kv: "\<not> mem_holds (NewMemory ''x'') k v" for k v by (simp add: mem_holds_def NewMemory_def)
  have before: "list_all session_event_ok bound_run" and evs: "list_all wait_event_ok bound_events"
    by (simp_all add: bound_run_def bound_events_def unbound_def after_epoch_def)
  have here: "0 < length (sc_nodes bound_start)" "se_project unbound = 0" "IsForceProjectEnabled forced"
    by (simp_all add: bound_start_def bound_run_def fresh_sessions_def IsForceProjectEnabled_def forced_def
        publish_deleted_def unbound_def split: prod.split)
  obtain cl' seen' said where run: "WaitForProject coded_env forced 0 (2 * milli) unbound bound_events [] bound_start =
      (cl', seen', said, Some (Inr (unbound \<lparr> se_project := 7 \<rparr>)))"
    using bound_wait by (metis prod.collapse)
  from wait_project_written [OF mem_kv.shared_kv_axioms env kv before bound_start_def here(1) evs here(2,3) run]
  obtain p where "unbound \<lparr> se_project := 7 \<rparr> = unbound \<lparr> se_project := p \<rparr>" "written_for cl' unbound p" by blast
  then have "written_for cl' unbound 7" by (simp add: unbound_def)
  with run show ?thesis by blast
qed

end
