(* ===== verification/Spec2Isabelle.thy ===== *)
theory Spec2Isabelle
  imports Pricing_Properties Cooldown_Properties Redis_Keys Router_Properties
    Usage_Properties Executor_Properties Capture_Properties Flow_Properties
    Executor_Direct Kiro_Tools Request_Tracker Mapping_Cache Route_Cache Keyed_Caches
    Coordinator_Memory Token_Auth Project_Waiter
begin

text \<open>
  \<^bold>\<open>A verification library for the gateway.\<close>

  The program is a gateway between coding clients and many upstream providers.  A request is matched
  to routes, sent to the providers of these routes until one answers, billed, and counted; failures
  freeze providers for a while, sessions stick to the provider that served them.

  \<^bold>\<open>Parts and theories.\<close>  Files are below \<^verbatim>\<open>internal/\<close>.

  \<^item> \<^verbatim>\<open>Prelude\<close>, \<^verbatim>\<open>Go_Text\<close>, \<^verbatim>\<open>Go_Calendar\<close>, \<^verbatim>\<open>Grouping\<close>: what the sources use of Go and its standard
    library: 64-bit words, durations and times as integers of nanoseconds, maps as association
    lists, byte strings, decimal numbers, calendar days in a time zone, sums by key.
  \<^item> \<^verbatim>\<open>Pricing_Model\<close>, \<^verbatim>\<open>Price_Table\<close>, \<^verbatim>\<open>Default_Prices\<close>, \<^verbatim>\<open>Pricing_Calculator\<close>,
    \<^verbatim>\<open>Pricing_Properties\<close>: package \<^verbatim>\<open>pricing\<close>.  The cost of a request from its token counts, the
    built-in price table, the calculator with its lazily filled history, and what an attempt is
    charged.
  \<^item> \<^verbatim>\<open>Cooldown_Policy\<close>, \<^verbatim>\<open>Cooldown_Store\<close>, \<^verbatim>\<open>Redis_Keys\<close>, \<^verbatim>\<open>Cooldown_Manager\<close>, \<^verbatim>\<open>Cooldown_Lemmas\<close>,
    \<^verbatim>\<open>Cooldown_Properties\<close>: package \<^verbatim>\<open>cooldown\<close>.  The store is an interface (a locale) with the
    in-memory store as its interpretation; the manager is modelled over any store.
  \<^item> \<^verbatim>\<open>Wildcard\<close>: the wildcard matcher of \<^verbatim>\<open>domain/model.go\<close>.
  \<^item> \<^verbatim>\<open>Provider_Capability\<close>, \<^verbatim>\<open>Limiter\<close>, \<^verbatim>\<open>Sticky\<close>, \<^verbatim>\<open>Router\<close>, \<^verbatim>\<open>Router_Shuffle\<close>, \<^verbatim>\<open>Router_Views\<close>,
    \<^verbatim>\<open>Router_Properties\<close>: what providers speak, the per-provider concurrency limit, session
    bindings, and \<open>Match\<close> of package \<^verbatim>\<open>router\<close> with its weighted order.
  \<^item> \<^verbatim>\<open>Go_Errors\<close>, \<^verbatim>\<open>Exec_Policy\<close>, \<^verbatim>\<open>Exec_Records\<close>, \<^verbatim>\<open>Response_Capture\<close>, \<^verbatim>\<open>Capture_Properties\<close>,
    \<^verbatim>\<open>Model_Mapping\<close>, \<^verbatim>\<open>Dispatch\<close>, \<^verbatim>\<open>Dispatch_Lemmas\<close>, \<^verbatim>\<open>Dispatch_Properties\<close>,
    \<^verbatim>\<open>Executor_Properties\<close>: package \<^verbatim>\<open>executor\<close> with \<^verbatim>\<open>domain/errors.go\<close>,
    \<^verbatim>\<open>domain/adapter_event.go\<close> and \<^verbatim>\<open>repository/sqlite/model_mapping.go\<close>: error values, the decisions
    on retries and cooldowns, the rows of requests and attempts, the response writer that remembers
    what the client got, the mapping of models, and the dispatch of a matched request.
  \<^item> \<^verbatim>\<open>Flow_Engine\<close>, \<^verbatim>\<open>Request_Snapshot\<close>, \<^verbatim>\<open>Executor_Flow\<close>, \<^verbatim>\<open>Flow_Lemmas\<close>, \<^verbatim>\<open>Flow_Properties\<close>: the
    middleware engine of package \<^verbatim>\<open>flow\<close> and the chain \<open>ExecuteWith\<close> runs through it: ingress, route
    match, dispatch over HTTP or of a WebSocket turn, egress.
  \<^item> \<^verbatim>\<open>Executor_Direct\<close>: the entry points that bypass the chain: a single recorded attempt, the dispatch
    bound to one provider, and the row of a request refused before dispatch.
  \<^item> \<^verbatim>\<open>Go_Json\<close>, \<^verbatim>\<open>Kiro_Sse\<close>, \<^verbatim>\<open>Kiro_Stream\<close>, \<^verbatim>\<open>Kiro_Tools\<close>: the stream that the Kiro adapter sends to
    clients: the state machine that guards its events, the response made of them, and the life of
    tool calls.
  \<^item> \<^verbatim>\<open>Request_Tracker\<close>: the graceful shutdown of \<^verbatim>\<open>core/request_tracker.go\<close>, as an interleaving of the
    atomic steps of requests and of the shutdown.
  \<^item> \<^verbatim>\<open>Coordinator_Memory\<close>: \<^verbatim>\<open>coordinator/memory.go\<close>; its key-value store is the interpretation of the
    interface that shared stores have.
  \<^item> \<^verbatim>\<open>Cache_Coherence\<close>, \<^verbatim>\<open>Soft_Table\<close>, \<^verbatim>\<open>Mapping_Cache\<close>, \<^verbatim>\<open>Route_Cache\<close>, \<^verbatim>\<open>Keyed_Caches\<close>: the tables of
    \<^verbatim>\<open>repository/sqlite\<close> with their caches in \<^verbatim>\<open>repository/cached\<close>.  The contract of a write-through
    cache over a table shared by several instances is a locale; each cache interprets it.  An operation
    writes table, cache and invalidation in one step; the PUT of a mapping by an administrator, which
    changes the cached rule before it saves, is \<open>put_mapping\<close>.
  \<^item> \<^verbatim>\<open>Token_Store\<close>, \<^verbatim>\<open>Token_Ops\<close>, \<^verbatim>\<open>Token_Auth\<close>: API tokens: their table, the cache whose objects callers
    share, the operations of administrators, and the check of a request with its limit of concurrent
    requests (\<^verbatim>\<open>handler/token_auth.go\<close>).
  \<^item> \<^verbatim>\<open>Session_Store\<close>, \<^verbatim>\<open>Project_Waiter\<close>: the three layers sessions are kept in, used by several instances,
    and the wait of a request for a project (\<^verbatim>\<open>waiter\<close>).  The sessions are proved over any store that
    satisfies the interface of \<^verbatim>\<open>Coordinator_Memory\<close>.
  \<^item> \<^verbatim>\<open>Usage_Stats\<close>, \<^verbatim>\<open>Usage_Properties\<close>: the aggregation of usage in \<^verbatim>\<open>stats/pure.go\<close>.

  \<^bold>\<open>How code and model correspond.\<close>  A struct is a record, an enumeration of strings a string, a
  Go map an association list with distinct keys, a nil pointer \<open>None\<close>, a \<^verbatim>\<open>uint64\<close> a 64-bit word; an
  \<^verbatim>\<open>int64\<close> counter is an integer with the wrap-around written out (\<open>wrap_i64\<close>), a configuration number
  an integer.  An operation on shared state takes the state and returns it; locks are not modelled:
  every operation is one step, except where the code itself releases a lock between two phases (the
  reload of cooldowns).  The clock is an argument.  Repositories record the calls made to them, or
  are the rows they hold.

  The dispatch (\<open>dispatch\<close> of \<^verbatim>\<open>executor/middleware_dispatch.go\<close>) asks its surroundings many questions:
  the clock, whether the request's context has ended, what an adapter does, which identifier a row
  gets.  Its environment \<open>exec_env\<close> answers the \<open>n\<close>-th question, for any sequence of answers; its
  state \<open>exec\<close> holds the request, the pending attempt, the last error, the cooldown manager, the
  limiter, the token balances and a log of calls.  The retry loop is a \<open>while_option\<close>, because it may
  run forever; that it ends is proved.

  \<^bold>\<open>What is shown.\<close>  The cost of a request is the mathematical sum of its priced token classes,
  without overflow for the built-in prices; recomputing is stable.  A recorded failure freezes what
  its scope covers in the view of the manager that records it, unless the store refuses the write,
  and is never shortened there or in the store by a later one; clearing and success lift exactly their
  keys; the manager's local view follows the store.  A match returns exactly the eligible routes, in
  order and with the bound provider first, or the reason why there is none, told from the candidates
  themselves.  A dispatch ends, within the retries allowed or with the request's context; it never
  splices two responses, gives back every slot, and writes one finished row per call.  It saves how the
  request ended, unless it finds the context ended between two attempts: that row the egress ends.
  While the deductions of the repository succeed, the token pays exactly these rows; a token without
  balance buys no call of a provider under quota.  (Both hold of the dispatch over HTTP; a turn over
  the WebSocket neither checks the quota nor charges the token.)  A request that enters the chain always
  leaves it, with one ended row at most; a WebSocket turn is answered by one provider.  A Kiro response
  reaches the client in the order of the protocol, for the events its parser makes and as long as no
  delta follows the exception for too long content.  The caches of several instances answer as the table
  once their invalidations are handled, and a token is admitted exactly as its row says, both for
  operations within the contracts \<open>mapping_sound\<close>, \<open>route_sound\<close> and \<open>token_sound\<close>; what happens outside
  of them is shown by lemmas such as \<open>delete_other_tenant\<close>, \<open>put_mapping_refused\<close> and
  \<open>rejected_put_takes_effect\<close>.  The running requests of a token are counted exactly.  No layer invents
  the project of a session, and a forced binding lets no request pass without a project somebody wrote.
  Usage rows add up over every way of grouping.

  \<^bold>\<open>Bounds and fuel.\<close>  \<open>wildcard_loop\<close> is a partial function whose termination is proved by a
  lexicographic measure; the loop of \<open>Next\<close> gets as much fuel as there are handlers, which is
  enough because every round moves the index on (\<open>Next_unfold\<close>); \<open>trim_partial\<close> looks at four bytes, as the code does; every other recursion is
  structural or has its measure.  Counts below \<open>2 ^ 32\<close> are assumed where products of prices must not
  wrap, lengths below \<open>2 ^ 63\<close> where a byte counter must not.

  \<^bold>\<open>Parameters.\<close>  SHA-256 and HMAC, the random generator, sorting (any sorting of the rows by their
  key), the floating-point back-off product, URL parsing, the protocol converters, the parameter
  policy of outbound bodies, the effort read from a body, the adapters, the JSON of a session, and the
  answers of repositories and settings.

  \<^bold>\<open>Not modelled.\<close>  Broadcasts to the web front end and log lines; token warm-up, which changes nothing
  the dispatch reads; response modifiers; Redis and the database engine, which the sources only
  call; the protocol converters, upstream adapters, HTTP handlers and admin services.
\<close>

end
